(* ===== verification/Prelude.thy ===== *)
theory Prelude
  imports Main "HOL-Library.Word"
begin

text \<open>
  Shared vocabulary of the development: Rust's fixed-width integers as words, its saturating and
  checked arithmetic, \<open>Result\<close> as a sum type (\<open>Inl\<close> is \<open>Err\<close>), \<open>HashMap\<close> and \<open>BTreeMap\<close> as
  partial maps, and the generic lemmas on words, sums, lists and finite sums that the component
  theories use through the collections \<open>sat\<close> (saturating arithmetic) and \<open>res\<close> (results).
  Plain \<open>+\<close>, \<open>-\<close> and \<open>*\<close> on a word wrap, as the code's release build does.
\<close>

named_theorems sat "saturating and checked machine arithmetic read through unat"
named_theorems res "case analysis of results"

type_synonym u8 = "8 word"
type_synonym u16 = "16 word"
type_synonym u32 = "32 word"
type_synonym u64 = "64 word"
type_synonym u128 = "128 word"
type_synonym bytes = "u8 list"

section \<open>Saturating and checked arithmetic\<close>

definition sat_add :: "'a::len word \<Rightarrow> 'a word \<Rightarrow> 'a word" where
  "sat_add a b = (if unat a + unat b < 2 ^ LENGTH('a) then a + b else -1)"

definition sat_sub :: "'a::len word \<Rightarrow> 'a word \<Rightarrow> 'a word" where
  "sat_sub a b = (if b \<le> a then a - b else 0)"

definition sat_mul :: "'a::len word \<Rightarrow> 'a word \<Rightarrow> 'a word" where
  "sat_mul a b = (if unat a * unat b < 2 ^ LENGTH('a) then a * b else -1)"

text \<open>\<open>1u64.checked_shl(s).unwrap_or(u64::MAX)\<close>: the shift count is checked against the width,
  the shifted value is not checked for overflow (a one shifted by less than 64 always fits).\<close>

definition checked_shl1 :: "u32 \<Rightarrow> u64" where
  "checked_shl1 s = (if s < 64 then push_bit (unat s) 1 else -1)"

lemma unat_minus_one_max: "unat (- 1 :: 'a::len word) = 2 ^ LENGTH('a) - 1"
  by (simp add: unsigned_minus_1_eq_mask mask_eq_exp_minus_1)

lemma unat_checked_shl1 [sat]: "unat (checked_shl1 s) = (if unat s < 64 then 2 ^ unat s else 2 ^ 64 - 1)"
proof (cases "unat s < 64")
  case True
  then have "(2 :: nat) ^ unat s < 2 ^ 64" by (intro power_strict_increasing) simp_all
  then have "unat (of_nat (2 ^ unat s) :: u64) = 2 ^ unat s" by (subst unat_of_nat) simp
  with True show ?thesis by (simp add: checked_shl1_def word_less_nat_alt push_bit_eq_mult)
qed (simp add: checked_shl1_def word_less_nat_alt unat_minus_one_max)

lemma unat_sat_add [sat]:
  fixes a b :: "'a::len word"
  shows "unat (sat_add a b) = min (unat a + unat b) (2 ^ LENGTH('a) - 1)"
proof (cases "unat a + unat b < 2 ^ LENGTH('a)")
  case True
  then have "unat (a + b) = unat a + unat b"
    by (simp add: unat_add_lem)
  with True show ?thesis by (simp add: sat_add_def)
next
  case False
  then show ?thesis by (simp add: sat_add_def unat_minus_one_max)
qed

lemma unat_sat_sub [sat]: "unat (sat_sub a b) = unat a - unat b"
  by (simp add: sat_sub_def unat_sub word_le_nat_alt)

lemma unat_sat_mul [sat]:
  fixes a b :: "'a::len word"
  shows "unat (sat_mul a b) = min (unat a * unat b) (2 ^ LENGTH('a) - 1)"
proof (cases "unat a * unat b < 2 ^ LENGTH('a)")
  case True
  then have "unat (a * b) = unat a * unat b"
    by (simp add: unat_mult_lem)
  with True show ?thesis by (simp add: sat_mul_def)
next
  case False
  then show ?thesis by (simp add: sat_mul_def unat_minus_one_max)
qed

lemma unat_le_max: "unat (a :: 'a::len word) \<le> 2 ^ LENGTH('a) - 1"
proof -
  have "unat a < 2 ^ LENGTH('a)" by (rule unsigned_less)
  then show ?thesis by linarith
qed

lemma sat_add_exact:
  fixes a b :: "'a::len word"
  shows "unat a + unat b < 2 ^ LENGTH('a) \<Longrightarrow> unat (sat_add a b) = unat a + unat b"
  by (simp add: unat_sat_add)

lemma sat_add_ge_left: "a \<le> sat_add a b"
proof -
  have "unat a \<le> unat (sat_add a b)"
    using unat_le_max [of a] by (simp add: unat_sat_add)
  then show ?thesis by (simp add: word_le_nat_alt)
qed

lemma sat_add_0 [simp]: "sat_add a 0 = a"
  using unsigned_less [of a] by (simp add: sat_add_def)

lemma sat_add_0_left [simp]: "sat_add 0 a = a"
  using unsigned_less [of a] by (simp add: sat_add_def)

lemma sat_mul_0 [simp]: "sat_mul 0 a = 0"
  by (simp add: sat_mul_def)

lemma sat_sub_0 [simp]: "sat_sub a 0 = a"
  by (simp add: sat_sub_def)

lemma sat_sub_le: "sat_sub a b \<le> a"
  by (simp add: word_le_nat_alt unat_sat_sub)

lemma sat_add_mono:
  assumes "a \<le> a'" and "b \<le> b'"
  shows "sat_add a b \<le> sat_add a' b'"
proof -
  have "unat a \<le> unat a'" "unat b \<le> unat b'"
    using assms by (simp_all add: word_le_nat_alt)
  then have "min (unat a + unat b) m \<le> min (unat a' + unat b') m" for m
    by linarith
  then show ?thesis by (simp add: word_le_nat_alt unat_sat_add)
qed

lemma sat_mul_mono:
  assumes "a \<le> a'" and "b \<le> b'"
  shows "sat_mul a b \<le> sat_mul a' b'"
proof -
  have "unat a * unat b \<le> unat a' * unat b'"
    using assms by (intro mult_le_mono) (simp_all add: word_le_nat_alt)
  then have "min (unat a * unat b) m \<le> min (unat a' * unat b') m" for m
    by linarith
  then show ?thesis by (simp add: word_le_nat_alt unat_sat_mul)
qed

lemma unat_sub_le: "(b::'a::len word) \<le> a \<Longrightarrow> unat (a - b) = unat a - unat b"
  by (simp add: unat_sub)

lemma min_add_min [simp]: "min (min a m + b) m = min (a + b) (m::nat)"
  by linarith

section \<open>Results\<close>

type_synonym ('e, 'a) result = "'e + 'a"

text \<open>The \<open>?\<close> operator: propagate an error, or continue with the value.\<close>

definition bindE :: "('e + 'a) \<Rightarrow> ('a \<Rightarrow> 'e + 'b) \<Rightarrow> 'e + 'b" where
  "bindE r f = (case r of Inl e \<Rightarrow> Inl e | Inr a \<Rightarrow> f a)"

text \<open>\<open>Option::ok_or\<close> and \<open>Result::map_err\<close>.\<close>

definition ok_or :: "'e \<Rightarrow> 'a option \<Rightarrow> 'e + 'a" where
  "ok_or e x = (case x of None \<Rightarrow> Inl e | Some a \<Rightarrow> Inr a)"

definition map_err :: "('e \<Rightarrow> 'f) \<Rightarrow> 'e + 'a \<Rightarrow> 'f + 'a" where
  "map_err g r = (case r of Inl e \<Rightarrow> Inl (g e) | Inr a \<Rightarrow> Inr a)"

definition is_ok :: "'e + 'a \<Rightarrow> bool" where
  "is_ok r = (case r of Inl _ \<Rightarrow> False | Inr _ \<Rightarrow> True)"

lemma bindE_simps [simp]: "bindE (Inl e) f = Inl e" "bindE (Inr a) f = f a"
  by (simp_all add: bindE_def)

lemma bindE_cong [fundef_cong]:
  "r = r' \<Longrightarrow> (\<And>a. r' = Inr a \<Longrightarrow> f a = g a) \<Longrightarrow> bindE r f = bindE r' g"
  by (cases r') simp_all

lemma ok_or_simps [simp]: "ok_or e None = Inl e" "ok_or e (Some a) = Inr a"
  by (simp_all add: ok_or_def)

lemma map_err_simps [simp]: "map_err g (Inl e) = Inl (g e)" "map_err g (Inr a) = Inr a"
  by (simp_all add: map_err_def)

lemma is_ok_simps [simp]: "\<not> is_ok (Inl e)" "is_ok (Inr a)"
  by (simp_all add: is_ok_def)

lemma bindE_Inr [res]: "bindE r f = Inr b \<longleftrightarrow> (\<exists>a. r = Inr a \<and> f a = Inr b)"
  by (cases r) simp_all

lemma bindE_Inl [res]: "bindE r f = Inl e \<longleftrightarrow> r = Inl e \<or> (\<exists>a. r = Inr a \<and> f a = Inl e)"
  by (cases r) auto

lemma ok_or_Inr [res]: "ok_or e x = Inr a \<longleftrightarrow> x = Some a"
  by (cases x) simp_all

lemma ok_or_Inl [res]: "ok_or e x = Inl e' \<longleftrightarrow> x = None \<and> e' = e"
  by (cases x) auto

lemma map_err_Inr [res]: "map_err g r = Inr a \<longleftrightarrow> r = Inr a"
  by (cases r) simp_all

lemma is_ok_iff [res]: "is_ok r \<longleftrightarrow> (\<exists>a. r = Inr a)"
  by (cases r) simp_all

section \<open>Maps and finite sums\<close>

text \<open>\<open>map.get(k).copied().unwrap_or(d)\<close>.\<close>

definition get_or :: "'v \<Rightarrow> ('k \<rightharpoonup> 'v) \<Rightarrow> 'k \<Rightarrow> 'v" where
  "get_or d m k = (case m k of None \<Rightarrow> d | Some v \<Rightarrow> v)"

lemma get_or_upd [simp]: "get_or d (m(k \<mapsto> v)) k' = (if k' = k then v else get_or d m k')"
  by (simp add: get_or_def)

lemma get_or_empty [simp]: "get_or d Map.empty k = d"
  by (simp add: get_or_def)

lemma get_or_drop [simp]: "get_or d (m(k := None)) k' = (if k' = k then d else get_or d m k')"
  by (simp add: get_or_def)

text \<open>Storing a value under one key changes a total over the keys by the difference.\<close>

lemma sum_get_or_upd:
  fixes m :: "'k \<rightharpoonup> 'v::ab_group_add"
  assumes "finite (dom m)"
  shows "(\<Sum>x \<in> dom (m(k \<mapsto> v)). get_or 0 (m(k \<mapsto> v)) x)
       = (\<Sum>x \<in> dom m. get_or 0 m x) - get_or 0 m k + v"
proof -
  have rest: "(\<Sum>x \<in> dom m - {k}. get_or 0 (m(k \<mapsto> v)) x) = (\<Sum>x \<in> dom m - {k}. get_or 0 m x)"
    by (rule sum.cong) auto
  have "(\<Sum>x \<in> dom (m(k \<mapsto> v)). get_or 0 (m(k \<mapsto> v)) x)
      = v + (\<Sum>x \<in> dom m - {k}. get_or 0 m x)"
    using assms rest by (simp add: sum.insert_remove)
  moreover have "(\<Sum>x \<in> dom m. get_or 0 m x) = get_or 0 m k + (\<Sum>x \<in> dom m - {k}. get_or 0 m x)"
  proof (cases "k \<in> dom m")
    case True
    with assms show ?thesis by (simp add: sum.remove)
  next
    case False
    then have "get_or 0 m k = 0" by (auto simp: get_or_def split: option.splits)
    with False show ?thesis by simp
  qed
  ultimately show ?thesis by simp
qed

section \<open>Lists\<close>

lemma find_Some_mem: "find P xs = Some x \<Longrightarrow> x \<in> set xs \<and> P x"
  by (induction xs) (auto split: if_splits)

lemma find_NoneI: "(\<And>x. x \<in> set xs \<Longrightarrow> \<not> P x) \<Longrightarrow> find P xs = None"
  by (induction xs) auto

lemma find_exists: "x \<in> set xs \<Longrightarrow> P x \<Longrightarrow> \<exists>y. find P xs = Some y"
  by (induction xs) auto

lemma find_append: "find P (xs @ ys) = (case find P xs of None \<Rightarrow> find P ys | Some x \<Rightarrow> Some x)"
  by (induction xs) auto

lemma length_filter_mono:
  "(\<And>x. x \<in> set xs \<Longrightarrow> P x \<Longrightarrow> Q x) \<Longrightarrow> length (filter P xs) \<le> length (filter Q xs)"
  by (induction xs) (auto simp: le_SucI)

end
