(* ===== verification/Rust_Strings.thy ===== *)
theory Rust_Strings
  imports Prelude "HOL-Library.Sublist"
begin

text \<open>
  The operations of Rust's \<open>str\<close> that the gateway's parsers use. A \<open>string\<close> is the list of the
  UTF-8 bytes of the Rust value, so \<open>length\<close> is \<open>str::len\<close>, ASCII case mapping acts byte by byte
  (no byte of a multi-byte character is an ASCII letter) and a \<open>char\<close> of the code is one group of
  \<open>utf8_chars\<close>: a byte with the continuation bytes that follow it. Whitespace is Unicode
  White\_Space, as in \<open>str::trim\<close> and \<open>str::split_whitespace\<close>.
\<close>

named_theorems str "rewriting of the str operations"

section \<open>ASCII\<close>

abbreviation byte_of :: "char \<Rightarrow> nat" where
  "byte_of c \<equiv> of_char c"

abbreviation CR :: char where "CR \<equiv> CHR 0x0D"
abbreviation LF :: char where "LF \<equiv> CHR 0x0A"
abbreviation CRLF :: string where "CRLF \<equiv> [CR, LF]"

definition ascii_lower :: "char \<Rightarrow> char" where
  "ascii_lower c = (if 65 \<le> byte_of c \<and> byte_of c \<le> 90 then char_of (byte_of c + 32) else c)"

definition to_ascii_lowercase :: "string \<Rightarrow> string" where
  "to_ascii_lowercase s = map ascii_lower s"

definition eq_ignore_ascii_case :: "string \<Rightarrow> string \<Rightarrow> bool" where
  "eq_ignore_ascii_case a b = (to_ascii_lowercase a = to_ascii_lowercase b)"

definition ascii_upper :: "char \<Rightarrow> char" where
  "ascii_upper c = (if 97 \<le> byte_of c \<and> byte_of c \<le> 122 then char_of (byte_of c - 32) else c)"

definition to_ascii_uppercase :: "string \<Rightarrow> string" where
  "to_ascii_uppercase s = map ascii_upper s"

definition is_ascii_digit :: "char \<Rightarrow> bool" where
  "is_ascii_digit c = (48 \<le> byte_of c \<and> byte_of c \<le> 57)"

definition is_ascii_alphanumeric :: "char \<Rightarrow> bool" where
  "is_ascii_alphanumeric c =
     (is_ascii_digit c \<or> 65 \<le> byte_of c \<and> byte_of c \<le> 90 \<or> 97 \<le> byte_of c \<and> byte_of c \<le> 122)"

lemma ascii_lower_idem [simp]: "ascii_lower (ascii_lower c) = ascii_lower c"
  by (simp add: ascii_lower_def of_char_of)

lemma lowercase_idem [simp]: "to_ascii_lowercase (to_ascii_lowercase s) = to_ascii_lowercase s"
  by (simp add: to_ascii_lowercase_def)

lemma lowercase_append [str]: "to_ascii_lowercase (a @ b) = to_ascii_lowercase a @ to_ascii_lowercase b"
  by (simp add: to_ascii_lowercase_def)

lemma lowercase_Nil [simp]: "to_ascii_lowercase [] = []"
  by (simp add: to_ascii_lowercase_def)

lemma lowercase_Nil_iff [simp]: "to_ascii_lowercase s = [] \<longleftrightarrow> s = []"
  by (simp add: to_ascii_lowercase_def)

lemma lowercase_Cons [str]: "to_ascii_lowercase (c # s) = ascii_lower c # to_ascii_lowercase s"
  by (simp add: to_ascii_lowercase_def)

lemma length_lowercase [simp]: "length (to_ascii_lowercase s) = length s"
  by (simp add: to_ascii_lowercase_def)

lemma eq_ignore_ascii_case_refl [simp]: "eq_ignore_ascii_case a a"
  by (simp add: eq_ignore_ascii_case_def)

lemma eq_ignore_ascii_case_sym: "eq_ignore_ascii_case a b \<longleftrightarrow> eq_ignore_ascii_case b a"
  by (auto simp: eq_ignore_ascii_case_def)

text \<open>A character outside \<open>A\<close>--\<open>Z\<close> is the only one mapped to itself.\<close>

lemma ascii_lower_eq_special:
  assumes "byte_of d < 65 \<or> 122 < byte_of d \<or> (90 < byte_of d \<and> byte_of d < 97)"
  shows "ascii_lower c = d \<longleftrightarrow> c = d"
proof
  assume *: "ascii_lower c = d"
  show "c = d"
  proof (cases "65 \<le> byte_of c \<and> byte_of c \<le> 90")
    case True
    with * have "byte_of d = byte_of c + 32"
      by (auto simp: ascii_lower_def of_char_of)
    with True assms show ?thesis by auto
  next
    case False
    with * show ?thesis by (simp add: ascii_lower_def)
  qed
next
  assume "c = d"
  with assms show "ascii_lower c = d" by (auto simp: ascii_lower_def)
qed

lemma lowercase_mem_special:
  assumes "byte_of d < 65 \<or> 122 < byte_of d \<or> (90 < byte_of d \<and> byte_of d < 97)"
  shows "d \<in> set (to_ascii_lowercase s) \<longleftrightarrow> d \<in> set s"
proof -
  have "d \<in> set (to_ascii_lowercase s) \<longleftrightarrow> (\<exists>c \<in> set s. ascii_lower c = d)"
    by (auto simp: to_ascii_lowercase_def)
  also have "\<dots> \<longleftrightarrow> d \<in> set s"
    by (simp add: ascii_lower_eq_special [OF assms])
  finally show ?thesis .
qed

text \<open>\<open>str::as_bytes\<close>.\<close>

definition as_bytes :: "string \<Rightarrow> bytes" where
  "as_bytes s = map (\<lambda>c. of_nat (byte_of c)) s"

lemma length_as_bytes [simp]: "length (as_bytes s) = length s"
  by (simp add: as_bytes_def)

lemma as_bytes_append [simp]: "as_bytes (a @ b) = as_bytes a @ as_bytes b"
  by (simp add: as_bytes_def)

lemma as_bytes_inj [simp]: "as_bytes a = as_bytes b \<longleftrightarrow> a = b"
proof -
  have unat: "unat (of_nat (byte_of c) :: u8) = byte_of c" for c :: char
    by (simp add: unat_of_nat)
  have "c = d" if "(of_nat (byte_of c) :: u8) = of_nat (byte_of d)" for c d :: char
    using unat [of c] unat [of d] that by (metis of_char_eq_iff)
  then have "inj (\<lambda>c. of_nat (byte_of c) :: u8)" by (rule injI)
  then show ?thesis by (simp add: as_bytes_def inj_map_eq_map)
qed

section \<open>Characters and whitespace\<close>

definition is_cont :: "char \<Rightarrow> bool" where
  "is_cont c = (128 \<le> byte_of c \<and> byte_of c < 192)"

fun utf8_chars :: "string \<Rightarrow> string list" where
  "utf8_chars [] = []"
| "utf8_chars (c # cs) =
     (case utf8_chars cs of
        (d # g) # gs \<Rightarrow> if is_cont d then (c # d # g) # gs else [c] # (d # g) # gs
      | gs \<Rightarrow> [c] # gs)"

definition ws_encodings :: "string list" where
  "ws_encodings = map (map char_of)
     ([[9], [10], [11], [12], [13], [32], [0xC2, 0x85], [0xC2, 0xA0], [0xE1, 0x9A, 0x80],
       [0xE2, 0x80, 0xA8], [0xE2, 0x80, 0xA9], [0xE2, 0x80, 0xAF], [0xE2, 0x81, 0x9F],
       [0xE3, 0x80, 0x80], [0xE2, 0x80, 0x80], [0xE2, 0x80, 0x81], [0xE2, 0x80, 0x82],
       [0xE2, 0x80, 0x83], [0xE2, 0x80, 0x84], [0xE2, 0x80, 0x85], [0xE2, 0x80, 0x86],
       [0xE2, 0x80, 0x87], [0xE2, 0x80, 0x88], [0xE2, 0x80, 0x89], [0xE2, 0x80, 0x8A]] :: nat list list)"

definition is_ws :: "string \<Rightarrow> bool" where
  "is_ws g = (g \<in> set ws_encodings)"

definition trim_start :: "string \<Rightarrow> string" where
  "trim_start s = concat (dropWhile is_ws (utf8_chars s))"

definition trim_end :: "string \<Rightarrow> string" where
  "trim_end s = concat (rev (dropWhile is_ws (rev (utf8_chars s))))"

definition trim :: "string \<Rightarrow> string" where
  "trim s = trim_end (trim_start s)"

fun ws_words :: "string \<Rightarrow> string list \<Rightarrow> string list" where
  "ws_words acc [] = (if acc = [] then [] else [acc])"
| "ws_words acc (g # gs) =
     (if is_ws g then (if acc = [] then ws_words [] gs else acc # ws_words [] gs)
      else ws_words (acc @ g) gs)"

definition split_whitespace :: "string \<Rightarrow> string list" where
  "split_whitespace s = ws_words [] (utf8_chars s)"

lemma concat_utf8_chars [simp]: "concat (utf8_chars s) = s"
  by (induction s) (auto split: list.splits)

lemma utf8_chars_Nil_iff [simp]: "utf8_chars s = [] \<longleftrightarrow> s = []"
  using concat_utf8_chars [of s] by (cases s) (auto simp del: concat_utf8_chars split: list.splits)

lemma suffix_concat_dropWhile: "suffix (concat (dropWhile P gs)) (concat gs)"
  by (induction gs) (auto intro: suffix_appendI)

lemma suffix_trim_start: "suffix (trim_start s) s"
  using suffix_concat_dropWhile [of is_ws "utf8_chars s"] by (simp add: trim_start_def)

lemma prefix_trim_end: "prefix (trim_end s) s"
proof -
  let ?gs = "utf8_chars s"
  have "concat (rev (rev ?gs)) =
      concat (rev (dropWhile is_ws (rev ?gs))) @ concat (rev (takeWhile is_ws (rev ?gs)))"
    by (metis concat_append rev_append takeWhile_dropWhile_id)
  then have "s = trim_end s @ concat (rev (takeWhile is_ws (rev ?gs)))"
    by (simp add: trim_end_def)
  then show ?thesis by (metis prefixI)
qed

text \<open>Trimming removes characters and adds none.\<close>

lemma set_trim: "set (trim s) \<subseteq> set s"
  unfolding trim_def
  using prefix_trim_end [of "trim_start s"] suffix_trim_start [of s]
  by (meson order_trans set_mono_prefix set_mono_suffix)

lemma length_trim: "length (trim s) \<le> length s"
  unfolding trim_def
  using prefix_trim_end [of "trim_start s"] suffix_trim_start [of s]
  by (meson order_trans prefix_length_le suffix_length_le)

lemma trim_Nil [simp]: "trim [] = []"
  using length_trim [of "[]"] by simp

text \<open>A string of visible ASCII characters has nothing to trim.\<close>

lemma utf8_chars_ascii: "list_all (\<lambda>c. byte_of c < 128) s \<Longrightarrow> utf8_chars s = map (\<lambda>c. [c]) s"
proof (induction s)
  case (Cons c s)
  then show ?case by (cases s) (auto simp: is_cont_def)
qed simp

lemma not_ws_graphic: "33 \<le> byte_of c \<Longrightarrow> \<not> is_ws [c]"
proof -
  assume "33 \<le> byte_of c"
  moreover have "c = char_of n \<Longrightarrow> byte_of c = n mod 256" for n :: nat by simp
  ultimately show ?thesis by (auto simp: is_ws_def ws_encodings_def)
qed

lemma trim_graphic: "list_all (\<lambda>c. 33 \<le> byte_of c \<and> byte_of c < 128) s \<Longrightarrow> trim s = s"
proof -
  assume g: "list_all (\<lambda>c. 33 \<le> byte_of c \<and> byte_of c < 128) s"
  then have u: "utf8_chars s = map (\<lambda>c. [c]) s"
    by (intro utf8_chars_ascii) (simp add: list_all_iff)
  have keep: "dropWhile is_ws gs = gs" if "\<forall>x \<in> set gs. \<not> is_ws x" for gs
    using that by (cases gs) auto
  have "\<forall>x \<in> set (utf8_chars s). \<not> is_ws x"
    using g by (auto simp: u list_all_iff not_ws_graphic)
  then show ?thesis
    by (simp add: trim_def trim_start_def trim_end_def keep)
qed

lemma trim_inner:
  "list_all (\<lambda>c. byte_of c < 128) s \<Longrightarrow> s \<noteq> [] \<Longrightarrow> 33 \<le> byte_of (hd s) \<Longrightarrow> 33 \<le> byte_of (last s) \<Longrightarrow>
     trim s = s"
proof -
  assume a: "list_all (\<lambda>c. byte_of c < 128) s" "s \<noteq> []" "33 \<le> byte_of (hd s)" "33 \<le> byte_of (last s)"
  then have u: "utf8_chars s = map (\<lambda>c. [c]) s" by (intro utf8_chars_ascii)
  then have "trim_start s = s" using a(2,3) 
    by (cases s) (simp_all add: trim_start_def not_ws_graphic del: utf8_chars.simps)
  moreover have "trim_end s = s" using a(2,4) u
    by (cases s rule: rev_cases) (simp_all add: trim_end_def not_ws_graphic del: utf8_chars.simps)
  ultimately show ?thesis by (simp add: trim_def)
qed

text \<open>Trimming twice, with a change of case in between, is trimming once: the characters of what is left are the
  characters that were kept.\<close>

definition utf8_groups :: "string list \<Rightarrow> bool" where
  "utf8_groups gs =
     (list_all (\<lambda>g. g \<noteq> [] \<and> list_all is_cont (tl g)) gs \<and> list_all (\<lambda>g. \<not> is_cont (hd g)) (tl gs))"

lemma utf8_groups_chars: "utf8_groups (utf8_chars s)"
  by (induction s) (auto simp: utf8_groups_def split: list.splits)

lemma utf8_chars_head: "list_all is_cont w \<Longrightarrow> r = [] \<or> \<not> is_cont (hd r) \<Longrightarrow> utf8_chars (c # w @ r) = (c # w) # utf8_chars r"
proof (induction w arbitrary: c)
  case Nil
  then show ?case using concat_utf8_chars [of r] utf8_groups_chars [of r]
    by (cases "utf8_chars r") (auto simp: utf8_groups_def simp del: concat_utf8_chars split: list.split)
next
  case (Cons d w)
  then show ?case by (simp del: utf8_chars.simps add: utf8_chars.simps(2) [of c])
qed

lemma utf8_chars_concat: "utf8_groups gs \<Longrightarrow> utf8_chars (concat gs) = gs"
proof (induction gs)
  case (Cons g gs)
  have "utf8_groups gs" using Cons.prems by (cases gs) (auto simp: utf8_groups_def)
  moreover have "concat gs = [] \<or> \<not> is_cont (hd (concat gs))"
    using Cons.prems by (cases gs) (auto simp: utf8_groups_def)
  ultimately show ?case
    using Cons utf8_chars_head [of "tl g" "concat gs" "hd g"]
    by (cases g) (auto simp: utf8_groups_def simp del: utf8_chars.simps)
qed simp

lemma utf8_groups_dropWhile: "utf8_groups gs \<Longrightarrow> utf8_groups (dropWhile P gs)"
proof -
  assume a: "utf8_groups gs"
  have "tl (drop n gs) = drop n (tl gs)" for n by (simp add: tl_drop)
  then show ?thesis using a
    unfolding utf8_groups_def dropWhile_eq_drop list_all_iff by (metis in_set_dropD)
qed

lemma utf8_groups_take: "utf8_groups gs \<Longrightarrow> utf8_groups (take n gs)"
  by (cases gs; cases n) (auto simp: utf8_groups_def list_all_iff dest: in_set_takeD)

lemma rev_dropWhile_rev: "\<exists>n. rev (dropWhile P (rev gs)) = take n gs"
  by (metis dropWhile_eq_drop rev_drop rev_rev_ident)

lemma trim_chars:
  "utf8_chars (trim s) = rev (dropWhile is_ws (rev (dropWhile is_ws (utf8_chars s))))"
proof -
  let ?d = "dropWhile is_ws (utf8_chars s)"
  have d: "utf8_groups ?d" by (simp add: utf8_groups_dropWhile utf8_groups_chars)
  obtain n where n: "rev (dropWhile is_ws (rev ?d)) = take n ?d" using rev_dropWhile_rev by blast
  show ?thesis
    unfolding trim_def trim_end_def trim_start_def utf8_chars_concat [OF d] n
    by (rule utf8_chars_concat) (rule utf8_groups_take [OF d])
qed

lemma is_cont_lower [simp]: "is_cont (ascii_lower c) = is_cont c"
  by (auto simp: is_cont_def ascii_lower_def)

lemma utf8_chars_lower: "utf8_chars (to_ascii_lowercase s) = map to_ascii_lowercase (utf8_chars s)"
  by (induction s) (auto simp: to_ascii_lowercase_def split: list.splits)

lemma ascii_lower_letter: "ascii_lower c \<noteq> c \<Longrightarrow> 65 \<le> byte_of c \<and> byte_of c \<le> 90 \<and> byte_of (ascii_lower c) = byte_of c + 32"
  by (auto simp: ascii_lower_def split: if_splits)

lemma is_ws_lower: "is_ws (to_ascii_lowercase g) = is_ws g"
proof (cases "to_ascii_lowercase g = g")
  case False
  have plain: "65 \<le> byte_of c \<Longrightarrow> byte_of c \<le> 122 \<Longrightarrow> c \<in> set g' \<Longrightarrow> \<not> is_ws g'" for c g'
    by (auto simp: is_ws_def ws_encodings_def)
  from False obtain c where c: "c \<in> set g" "ascii_lower c \<noteq> c" by (metis map_idI to_ascii_lowercase_def)
  then have "ascii_lower c \<in> set (to_ascii_lowercase g)" by (simp add: to_ascii_lowercase_def)
  then show ?thesis using c plain [of c g] plain [of "ascii_lower c" "to_ascii_lowercase g"] ascii_lower_letter [OF c(2)]
    by simp
qed simp

lemma trim_lower_trim: "trim (to_ascii_lowercase (trim s)) = to_ascii_lowercase (trim s)"
proof -
  let ?d = "dropWhile is_ws (utf8_chars s)" and ?t = "to_ascii_lowercase (trim s)"
  have cs: "utf8_chars ?t = map to_ascii_lowercase (rev (dropWhile is_ws (rev ?d)))"
    by (simp add: utf8_chars_lower trim_chars)
  have ws: "dropWhile is_ws (map to_ascii_lowercase gs) = map to_ascii_lowercase (dropWhile is_ws gs)" for gs
    by (simp add: dropWhile_map comp_def is_ws_lower)
  have "dropWhile is_ws (take n (dropWhile is_ws gs)) = take n (dropWhile is_ws gs)" for n gs
    by (induction gs) (auto simp: take_Cons split: nat.split)
  then have "dropWhile is_ws (rev (dropWhile is_ws (rev ?d))) = rev (dropWhile is_ws (rev ?d))"
    using rev_dropWhile_rev [of is_ws ?d] by metis
  then have "utf8_chars (trim ?t) = utf8_chars ?t"
    unfolding trim_chars [of ?t] cs by (simp add: ws rev_map)
  then show ?thesis by (metis concat_utf8_chars)
qed

text \<open>Words of visible ASCII characters separated by a space.\<close>

lemma ws_words_graphic:
  "list_all (\<lambda>c. 33 \<le> byte_of c) w \<Longrightarrow> ws_words acc (map (\<lambda>c. [c]) w @ gs) = ws_words (acc @ w) gs"
  by (induction w arbitrary: acc) (simp_all add: not_ws_graphic)

lemma split_whitespace_word:
  assumes "list_all (\<lambda>c. 33 \<le> byte_of c \<and> byte_of c < 128) w" and "w \<noteq> []"
  shows "split_whitespace w = [w]"
proof -
  have "utf8_chars w = map (\<lambda>c. [c]) w @ []"
    using assms(1) by (simp add: utf8_chars_ascii list_all_iff)
  then show ?thesis
    using assms ws_words_graphic [of w "[]" "[]"] by (simp add: split_whitespace_def list_all_iff)
qed

lemma split_whitespace_words:
  assumes "list_all (\<lambda>c. 33 \<le> byte_of c \<and> byte_of c < 128) w" and "w \<noteq> []"
    and "list_all (\<lambda>c. byte_of c < 128) s"
  shows "split_whitespace (w @ CHR '' '' # s) = w # split_whitespace s"
proof -
  have "utf8_chars (w @ CHR '' '' # s) = map (\<lambda>c. [c]) w @ [CHR '' ''] # utf8_chars s"
    using assms utf8_chars_ascii [of "w @ CHR '' '' # s"] utf8_chars_ascii [of s] by (auto simp: list_all_iff)
  moreover have "is_ws [CHR '' '']" by code_simp
  ultimately show ?thesis
    using assms ws_words_graphic [of w "[]"] by (simp add: split_whitespace_def list_all_iff)
qed

section \<open>Searching and splitting\<close>

definition trim_end_char :: "char \<Rightarrow> string \<Rightarrow> string" where
  "trim_end_char c s = rev (dropWhile (\<lambda>x. x = c) (rev s))"

definition trim_start_char :: "char \<Rightarrow> string \<Rightarrow> string" where
  "trim_start_char c s = dropWhile (\<lambda>x. x = c) s"

definition starts_with :: "string \<Rightarrow> string \<Rightarrow> bool" where
  "starts_with p s = (take (length p) s = p)"

definition ends_with :: "string \<Rightarrow> string \<Rightarrow> bool" where
  "ends_with p s = (drop (length s - length p) s = p)"

definition strip_prefix :: "string \<Rightarrow> string \<Rightarrow> string option" where
  "strip_prefix p s = (if starts_with p s then Some (drop (length p) s) else None)"

definition strip_suffix :: "string \<Rightarrow> string \<Rightarrow> string option" where
  "strip_suffix p s = (if ends_with p s then Some (take (length s - length p) s) else None)"

text \<open>\<open>s.split(c)\<close>: one piece more than there are separators, empty pieces included.\<close>

fun split_on :: "char \<Rightarrow> string \<Rightarrow> string list" where
  "split_on c [] = [[]]"
| "split_on c (x # xs) =
     (if x = c then [] # split_on c xs
      else (case split_on c xs of [] \<Rightarrow> [[x]] | p # ps \<Rightarrow> (x # p) # ps))"

fun split_once :: "char \<Rightarrow> string \<Rightarrow> (string \<times> string) option" where
  "split_once c [] = None"
| "split_once c (x # xs) =
     (if x = c then Some ([], xs) else map_option (\<lambda>(a, b). (x # a, b)) (split_once c xs))"

definition rsplit_once :: "char \<Rightarrow> string \<Rightarrow> (string \<times> string) option" where
  "rsplit_once c s = map_option (\<lambda>(a, b). (rev b, rev a)) (split_once c (rev s))"

text \<open>\<open>s.lines()\<close>: pieces ended by a line feed lose it and one carriage return before it; a last piece without
  a line feed counts only if it is not empty.\<close>

definition strip_cr :: "string \<Rightarrow> string" where
  "strip_cr s = (case strip_suffix [CHR 0x0D] s of Some r \<Rightarrow> r | None \<Rightarrow> s)"

definition str_lines :: "string \<Rightarrow> string list" where
  "str_lines s =
     (let ps = split_on (CHR 0x0A) s in
      map strip_cr (butlast ps) @ (if last ps = [] then [] else [last ps]))"

text \<open>\<open>s.find(c)\<close> and \<open>s.rfind(c)\<close>.\<close>

fun find_char :: "char \<Rightarrow> string \<Rightarrow> nat option" where
  "find_char c [] = None"
| "find_char c (x # xs) = (if x = c then Some 0 else map_option Suc (find_char c xs))"

definition rfind_char :: "char \<Rightarrow> string \<Rightarrow> nat option" where
  "rfind_char c s = map_option (\<lambda>i. length s - 1 - i) (find_char c (rev s))"

text \<open>\<open>s.trim_matches(p)\<close> for a predicate on ASCII characters.\<close>

definition trim_matches :: "(char \<Rightarrow> bool) \<Rightarrow> string \<Rightarrow> string" where
  "trim_matches p s = rev (dropWhile p (rev (dropWhile p s)))"

text \<open>Is there an occurrence of two adjacent dots?\<close>

fun contains_dotdot :: "string \<Rightarrow> bool" where
  "contains_dotdot (x # y # xs) = (x = CHR ''.'' \<and> y = CHR ''.'' \<or> contains_dotdot (y # xs))"
| "contains_dotdot _ = False"

lemma split_on_nonempty [simp]: "split_on c s \<noteq> []"
  by (induction s) (auto split: list.splits)

lemma split_once_Some:
  "split_once c s = Some (a, b) \<longleftrightarrow> s = a @ c # b \<and> c \<notin> set a"
proof (induction s arbitrary: a)
  case Nil
  then show ?case by simp
next
  case (Cons x xs)
  then show ?case by (cases a) (auto split: option.splits)
qed

lemma split_once_None: "split_once c s = None \<longleftrightarrow> c \<notin> set s"
  by (induction s) auto

lemma rsplit_once_Some:
  "rsplit_once c s = Some (a, b) \<longleftrightarrow> s = a @ c # b \<and> c \<notin> set b"
proof -
  have "rsplit_once c s = Some (a, b) \<longleftrightarrow> split_once c (rev s) = Some (rev b, rev a)"
    by (auto simp: rsplit_once_def)
  also have "\<dots> \<longleftrightarrow> rev s = rev b @ c # rev a \<and> c \<notin> set b"
    by (simp add: split_once_Some)
  also have "\<dots> \<longleftrightarrow> s = a @ c # b \<and> c \<notin> set b"
    by (metis append.assoc append_Cons append_Nil rev.simps(2) rev_append rev_rev_ident)
  finally show ?thesis .
qed

lemma rsplit_once_None: "rsplit_once c s = None \<longleftrightarrow> c \<notin> set s"
  by (simp add: rsplit_once_def split_once_None)

lemma split_on_no_sep: "c \<notin> set s \<Longrightarrow> split_on c s = [s]"
  by (induction s) auto

lemma split_on_append_sep: "split_on c (a @ c # b) = split_on c a @ split_on c b"
  by (induction a) (auto split: list.splits)

lemma split_on_pieces: "p \<in> set (split_on c s) \<Longrightarrow> c \<notin> set p \<and> set p \<subseteq> set s"
  by (induction s arbitrary: p) (fastforce split: if_splits list.splits)+

lemma length_split_on: "length (split_on c s) = Suc (count_list s c)"
  by (induction s) (auto split: list.splits)

lemma starts_with_prefix: "starts_with p s \<longleftrightarrow> prefix p s"
  by (auto simp: starts_with_def prefix_def) (metis append_take_drop_id)

lemma strip_prefix_Some: "strip_prefix p s = Some r \<longleftrightarrow> s = p @ r"
  by (auto simp: strip_prefix_def starts_with_def) (metis append_take_drop_id)

lemma ends_with_suffix: "ends_with p s \<longleftrightarrow> suffix p s"
proof
  assume "ends_with p s"
  then show "suffix p s" by (metis ends_with_def suffix_drop)
next
  assume "suffix p s"
  then show "ends_with p s" by (auto simp: ends_with_def suffix_def)
qed

lemma strip_suffix_Some: "strip_suffix p s = Some r \<longleftrightarrow> s = r @ p"
proof -
  have "strip_suffix p s = Some r \<longleftrightarrow> suffix p s \<and> r = take (length s - length p) s"
    by (auto simp: strip_suffix_def ends_with_suffix)
  also have "\<dots> \<longleftrightarrow> s = r @ p"
    by (auto simp: suffix_def)
  finally show ?thesis .
qed

section \<open>Numbers\<close>

text \<open>\<open>str::parse\<close> of an unsigned integer with maximum \<open>m\<close>: an optional plus sign, at least one
  digit, digits only, and no overflow.\<close>

definition digits_value :: "string \<Rightarrow> nat" where
  "digits_value s = foldl (\<lambda>n c. 10 * n + (byte_of c - 48)) 0 s"

definition parse_uint :: "nat \<Rightarrow> string \<Rightarrow> nat option" where
  "parse_uint m s =
     (let ds = (if starts_with ''+'' s then drop 1 s else s) in
      if ds \<noteq> [] \<and> list_all is_ascii_digit ds \<and> digits_value ds \<le> m
      then Some (digits_value ds) else None)"

definition parse_u8 :: "string \<Rightarrow> u8 option" where
  "parse_u8 s = map_option of_nat (parse_uint 255 s)"

lemma parse_uint_bound: "parse_uint m s = Some n \<Longrightarrow> n \<le> m"
  by (auto simp: parse_uint_def Let_def split: if_splits)

text \<open>\<open>n.to_string()\<close> of an unsigned integer.\<close>

fun dec :: "nat \<Rightarrow> string" where
  "dec n = (if n < 10 then [char_of (48 + n)] else dec (n div 10) @ [char_of (48 + n mod 10)])"

declare dec.simps [simp del]

lemma byte_of_digit [simp]: "d < 10 \<Longrightarrow> byte_of (char_of (48 + d :: nat)) = 48 + d"
  by (simp add: of_char_of)

lemma dec_digits: "dec n \<noteq> [] \<and> list_all is_ascii_digit (dec n)"
proof (induction n rule: dec.induct)
  case (1 n)
  then show ?case using dec.simps [of n] by (auto simp: is_ascii_digit_def)
qed

lemma digits_value_snoc: "digits_value (s @ [c]) = 10 * digits_value s + (byte_of c - 48)"
  by (simp add: digits_value_def)

lemma digits_value_dec: "digits_value (dec n) = n"
proof (induction n rule: dec.induct)
  case (1 n)
  show ?case
  proof (cases "n < 10")
    case True
    then show ?thesis by (subst dec.simps) (simp add: digits_value_def)
  next
    case False
    then show ?thesis using 1 by (subst dec.simps) (simp add: digits_value_snoc)
  qed
qed

end
