(* ===== verification/Wire.thy ===== *)
theory Wire
  imports Rust_Strings
begin

text \<open>
  Wire formats. The locale \<open>wire_codec\<close> is the contract of every closed enumeration that travels as
  a tag or a token (resource kinds, coordinator kinds, visibility classes, assurance levels): a
  total encoder and a decoder that accepts exactly its image. The rest is the interface of
  \<open>kotva_core::cbor\<close>, which the sources call and do not contain: its value type as the sources
  build and match it, its functions as the fields of \<open>cbor_api\<close>, and its documented laws as the
  predicate \<open>cbor_laws\<close>, a hypothesis of the round-trip properties.
\<close>

section \<open>Closed enumerations on the wire\<close>

locale wire_codec =
  fixes enc :: "'a \<Rightarrow> 'w"
    and dec :: "'w \<Rightarrow> 'a option"
  assumes dec_enc: "dec (enc x) = Some x"
    and enc_dec: "dec w = Some x \<Longrightarrow> enc x = w"
begin

lemma enc_eq_iff: "enc x = enc y \<longleftrightarrow> x = y"
  by (metis dec_enc option.inject)

lemma dec_iff: "dec w = Some x \<longleftrightarrow> w = enc x"
  using dec_enc enc_dec by blast

lemma dec_None_iff: "dec w = None \<longleftrightarrow> w \<notin> range enc"
  by (metis dec_iff not_None_eq rangeE rangeI)

lemma map_of_enc: "map_of (map (\<lambda>(k, v). (enc k, v)) xs) (enc k) = map_of xs k"
  by (induction xs) (auto simp: enc_eq_iff)

lemma distinct_enc: "distinct (map fst xs) \<Longrightarrow> distinct (map fst (map (\<lambda>(k, v). (enc k, v)) xs))"
  by (induction xs) (auto simp: enc_eq_iff image_iff)

end

section \<open>Canonical CBOR values\<close>

text \<open>\<open>Cv\<close> as the sources use it. \<open>CvOther\<close> stands for the remaining constructors, which no
  source line builds and every match sends to its default branch.\<close>

datatype cv =
    CvU64 u64
  | CvBytes bytes
  | CvText string
  | CvMap "(u64 \<times> cv) list"
  | CvArray "cv list"
  | CvOther nat

text \<open>\<open>CborError\<close> is kept as its message; \<open>'f\<close> is the cursor type \<open>Fields\<close>.\<close>

type_synonym cbor_error = string

record 'f cbor_api =
  cb_encode :: "cv \<Rightarrow> bytes"
  cb_decode :: "bytes \<Rightarrow> cbor_error + cv"
  cb_fields :: "cv \<Rightarrow> cbor_error + 'f"
  cb_req :: "'f \<Rightarrow> u64 \<Rightarrow> cbor_error + (cv \<times> 'f)"
  cb_take :: "'f \<Rightarrow> u64 \<Rightarrow> cv option \<times> 'f"
  cb_deny_unknown :: "'f \<Rightarrow> cbor_error + unit"
  cb_into_pairs :: "'f \<Rightarrow> (u64 \<times> cv) list"
  cb_as_u64 :: "cv \<Rightarrow> cbor_error + u64"
  cb_as_u8 :: "cv \<Rightarrow> cbor_error + u8"
  cb_as_bytes :: "cv \<Rightarrow> cbor_error + bytes"
  cb_as_text :: "cv \<Rightarrow> cbor_error + string"
  cb_as_array :: "cv \<Rightarrow> cbor_error + cv list"

text \<open>Deterministic CBOR: every map has its keys in strictly increasing order.\<close>

fun det_cv :: "cv \<Rightarrow> bool" where
  "det_cv (CvMap m) = (sorted_wrt (<) (map fst m) \<and> (\<forall>p \<in> set m. det_cv (snd p)))"
| "det_cv (CvArray vs) = (\<forall>v \<in> set vs. det_cv v)"
| "det_cv _ = True"

definition without_key :: "u64 \<Rightarrow> (u64 \<times> cv) list \<Rightarrow> (u64 \<times> cv) list" where
  "without_key k m = filter (\<lambda>p. fst p \<noteq> k) m"

text \<open>The documented laws: decoding inverts encoding on deterministic values; a \<open>Fields\<close> cursor
  holds the pairs of a map, hands each out once by key, and \<open>deny_unknown\<close> succeeds exactly when
  none is left; the typed accessors accept values of their type.\<close>

definition cbor_laws :: "'f cbor_api \<Rightarrow> bool" where
  "cbor_laws api \<longleftrightarrow>
     (\<forall>v. det_cv v \<longrightarrow> cb_decode api (cb_encode api v) = Inr v) \<and>
     (\<forall>m. sorted_wrt (<) (map fst m) \<longrightarrow>
        (\<exists>f. cb_fields api (CvMap m) = Inr f \<and> cb_into_pairs api f = m)) \<and>
     (\<forall>f k v. map_of (cb_into_pairs api f) k = Some v \<longrightarrow>
        (\<exists>f'. cb_req api f k = Inr (v, f') \<and> cb_take api f k = (Some v, f') \<and>
              cb_into_pairs api f' = without_key k (cb_into_pairs api f))) \<and>
     (\<forall>f k. map_of (cb_into_pairs api f) k = None \<longrightarrow>
        (\<exists>f'. cb_take api f k = (None, f') \<and> cb_into_pairs api f' = cb_into_pairs api f)) \<and>
     (\<forall>f. cb_into_pairs api f = [] \<longrightarrow> cb_deny_unknown api f = Inr ()) \<and>
     (\<forall>n. cb_as_u64 api (CvU64 n) = Inr n) \<and>
     (\<forall>n. n < 256 \<longrightarrow> cb_as_u8 api (CvU64 n) = Inr (ucast n)) \<and>
     (\<forall>b. cb_as_bytes api (CvBytes b) = Inr b) \<and>
     (\<forall>s. cb_as_text api (CvText s) = Inr s) \<and>
     (\<forall>vs. cb_as_array api (CvArray vs) = Inr vs)"

lemma cbor_decode_encode:
  "cbor_laws api \<Longrightarrow> det_cv v \<Longrightarrow> cb_decode api (cb_encode api v) = Inr v"
  by (simp add: cbor_laws_def)

lemma cbor_fieldsE:
  assumes "cbor_laws api" and "sorted_wrt (<) (map fst m)"
  obtains f where "cb_fields api (CvMap m) = Inr f" and "cb_into_pairs api f = m"
  using assms by (auto simp: cbor_laws_def)

lemma cbor_present:
  assumes "cbor_laws api" and "map_of (cb_into_pairs api f) k = Some v"
  shows "\<exists>f'. cb_req api f k = Inr (v, f') \<and> cb_take api f k = (Some v, f') \<and>
           cb_into_pairs api f' = without_key k (cb_into_pairs api f)"
  using assms unfolding cbor_laws_def by blast

lemma cbor_absent:
  assumes "cbor_laws api" and "map_of (cb_into_pairs api f) k = None"
  shows "\<exists>f'. cb_take api f k = (None, f') \<and> cb_into_pairs api f' = cb_into_pairs api f"
  using assms unfolding cbor_laws_def by blast

lemma without_key_absent: "map_of m k = None \<Longrightarrow> without_key k m = m"
  by (induction m) (auto simp: without_key_def split: if_splits)

lemma cbor_reqE:
  assumes "cbor_laws api" and "map_of (cb_into_pairs api f) k = Some v"
  obtains f' where "cb_req api f k = Inr (v, f')"
    and "cb_into_pairs api f' = without_key k (cb_into_pairs api f)"
  using cbor_present [OF assms] by blast

lemma cbor_takeE:
  assumes "cbor_laws api"
  obtains f' where "cb_take api f k = (map_of (cb_into_pairs api f) k, f')"
    and "cb_into_pairs api f' = without_key k (cb_into_pairs api f)"
proof (cases "map_of (cb_into_pairs api f) k")
  case None
  with cbor_absent [OF assms None] that show ?thesis
    by (metis without_key_absent)
next
  case (Some v)
  with cbor_present [OF assms Some] that show ?thesis by metis
qed

lemma cbor_deny_ok: "cbor_laws api \<Longrightarrow> cb_into_pairs api f = [] \<Longrightarrow> cb_deny_unknown api f = Inr ()"
  by (simp add: cbor_laws_def)

lemma cbor_accessors:
  assumes "cbor_laws api"
  shows "cb_as_u64 api (CvU64 n) = Inr n"
    and "n < 256 \<Longrightarrow> cb_as_u8 api (CvU64 n) = Inr (ucast n)"
    and "cb_as_bytes api (CvBytes b) = Inr b"
    and "cb_as_text api (CvText s) = Inr s"
    and "cb_as_array api (CvArray vs) = Inr vs"
  using assms by (simp_all add: cbor_laws_def)

lemma without_key_simps [simp]:
  "without_key k [] = []"
  "without_key k ((k', v) # m) = (if k' = k then without_key k m else (k', v) # without_key k m)"
  by (simp_all add: without_key_def)

text \<open>\<open>f.take(k).map(as_u64).transpose()\<close>: an optional integer field.\<close>

definition take_u64 :: "'f cbor_api \<Rightarrow> 'f \<Rightarrow> u64 \<Rightarrow> cbor_error + (u64 option \<times> 'f)" where
  "take_u64 api f k =
     (case cb_take api f k of
        (None, f') \<Rightarrow> Inr (None, f')
      | (Some v, f') \<Rightarrow> bindE (cb_as_u64 api v) (\<lambda>n. Inr (Some n, f')))"

lemma take_u64E:
  assumes "cbor_laws api" and "map_of (cb_into_pairs api f) k = map_option CvU64 n"
  obtains f' where "take_u64 api f k = Inr (n, f')"
    and "cb_into_pairs api f' = without_key k (cb_into_pairs api f)"
  using assms(2) cbor_accessors(1) [OF assms(1)]
  by (rule_tac cbor_takeE [OF assms(1), of f k]) (cases n; simp add: take_u64_def that)

end
