(* ===== verification/Billing_Meter.thy ===== *)
theory Billing_Meter
  imports Wire
begin

text \<open>
  \<open>crates/broker-billing/src/meter.rs\<close>: resource kinds with their wire tags, and usage metering.
  The trait \<open>Meter\<close> is the locale \<open>usage_meter\<close>; \<open>InMemoryMeter\<close> interprets it. The client lemma
  proved in the locale is that any sequence of records adds up, saturating at \<open>u64::MAX\<close>.
\<close>

section \<open>Resource kinds\<close>

datatype resource_kind = BytesForwarded | Connections | Messages | ComputeSeconds

fun wire_tag :: "resource_kind \<Rightarrow> u64" where
  "wire_tag BytesForwarded = 1"
| "wire_tag Connections = 2"
| "wire_tag Messages = 3"
| "wire_tag ComputeSeconds = 4"

definition from_wire_tag :: "u64 \<Rightarrow> resource_kind option" where
  "from_wire_tag tag =
     (if tag = 1 then Some BytesForwarded
      else if tag = 2 then Some Connections
      else if tag = 3 then Some Messages
      else if tag = 4 then Some ComputeSeconds
      else None)"

interpretation kind_codec: wire_codec wire_tag from_wire_tag
proof unfold_locales
  show "from_wire_tag (wire_tag k) = Some k" for k
    by (cases k) (simp_all add: from_wire_tag_def)
  show "from_wire_tag w = Some k \<Longrightarrow> wire_tag k = w" for w k
    by (auto simp: from_wire_tag_def split: if_splits)
qed

text \<open>The derived \<open>Ord\<close>: declaration order, which is the order of the tags.\<close>

instantiation resource_kind :: linorder
begin

definition less_eq_resource_kind :: "resource_kind \<Rightarrow> resource_kind \<Rightarrow> bool" where
  "less_eq_resource_kind a b = (wire_tag a \<le> wire_tag b)"

definition less_resource_kind :: "resource_kind \<Rightarrow> resource_kind \<Rightarrow> bool" where
  "less_resource_kind a b = (wire_tag a < wire_tag b)"

instance
  by standard (auto simp: less_eq_resource_kind_def less_resource_kind_def order.strict_iff_order
      kind_codec.enc_eq_iff)

end

definition all_kinds :: "resource_kind list" where
  "all_kinds = [BytesForwarded, Connections, Messages, ComputeSeconds]"

lemma set_all_kinds [simp]: "k \<in> set all_kinds"
  by (cases k) (simp_all add: all_kinds_def)

lemma sorted_all_kinds: "sorted_wrt (<) all_kinds"
  by (simp add: all_kinds_def less_resource_kind_def)

text \<open>Iteration over a \<open>BTreeMap<ResourceKind, u64>\<close>: the entries in key order.\<close>

definition kind_entries :: "(resource_kind \<rightharpoonup> u64) \<Rightarrow> (resource_kind \<times> u64) list" where
  "kind_entries m = concat (map (\<lambda>k. case m k of None \<Rightarrow> [] | Some v \<Rightarrow> [(k, v)]) all_kinds)"

lemma set_kind_entries [simp]: "(k, v) \<in> set (kind_entries m) \<longleftrightarrow> m k = Some v"
  by (auto simp: kind_entries_def split: option.splits)

lemma fst_kind_entries: "map fst (kind_entries m) = filter (\<lambda>k. m k \<noteq> None) all_kinds"
proof -
  have "map fst (concat (map (\<lambda>k. case m k of None \<Rightarrow> [] | Some v \<Rightarrow> [(k, v)]) ks)) =
      filter (\<lambda>k. m k \<noteq> None) ks" for ks
    by (induction ks) (auto split: option.splits)
  then show ?thesis by (simp add: kind_entries_def)
qed

lemma sorted_kind_entries: "sorted_wrt (<) (map fst (kind_entries m))"
  by (simp add: fst_kind_entries sorted_wrt_filter sorted_all_kinds)

lemma distinct_kind_entries: "distinct (map fst (kind_entries m))"
  by (simp add: fst_kind_entries all_kinds_def)

lemma map_of_kind_entries [simp]: "map_of (kind_entries m) = m"
proof
  fix k
  show "map_of (kind_entries m) k = m k"
  proof (cases "m k")
    case None
    then have "k \<notin> fst ` set (kind_entries m)" by (auto simp: image_iff)
    with None show ?thesis by (simp add: map_of_eq_None_iff)
  next
    case (Some v)
    then show ?thesis
      by (simp add: distinct_kind_entries map_of_is_SomeI)
  qed
qed

section \<open>The Meter trait\<close>

locale usage_meter =
  fixes record_use :: "'s \<Rightarrow> bytes \<Rightarrow> resource_kind \<Rightarrow> u64 \<Rightarrow> 's"
    and usage_of :: "'s \<Rightarrow> bytes \<Rightarrow> (resource_kind \<rightharpoonup> u64)"
    and reset_use :: "'s \<Rightarrow> bytes \<Rightarrow> (resource_kind \<rightharpoonup> u64) \<times> 's"
  assumes usage_record:
      "usage_of (record_use s p k u) q =
         (if q = p then (usage_of s p)(k \<mapsto> sat_add (get_or 0 (usage_of s p) k) u) else usage_of s q)"
    and reset_returns: "fst (reset_use s p) = usage_of s p"
    and usage_reset: "usage_of (snd (reset_use s p)) q = (if q = p then Map.empty else usage_of s q)"
begin

definition record_all :: "'s \<Rightarrow> (bytes \<times> resource_kind \<times> u64) list \<Rightarrow> 's" where
  "record_all s evs = foldl (\<lambda>s (p, k, u). record_use s p k u) s evs"

lemma record_all_total:
  "unat (get_or 0 (usage_of (record_all s evs) p) k) =
     min (unat (get_or 0 (usage_of s p) k)
          + (\<Sum>(p', k', u) \<leftarrow> evs. if p' = p \<and> k' = k then unat u else 0)) (2 ^ 64 - 1)"
proof (induction evs arbitrary: s)
  case Nil
  show ?case using unat_le_max [of "get_or 0 (usage_of s p) k"] by (simp add: record_all_def)
next
  case (Cons e evs)
  obtain p' k' u where e: "e = (p', k', u)" by (cases e)
  have step: "record_all s (e # evs) = record_all (record_use s p' k' u) evs"
    by (simp add: record_all_def e)
  have one: "get_or 0 (usage_of (record_use s p' k' u) p) k =
      (if p' = p \<and> k' = k then sat_add (get_or 0 (usage_of s p) k) u else get_or 0 (usage_of s p) k)"
    by (auto simp: usage_record)
  show ?case
    unfolding step by (simp add: e Cons.IH one unat_sat_add add.assoc)
qed

text \<open>A record followed by a reset hands out the recorded amount and leaves nothing behind.\<close>

lemma record_then_reset:
  assumes "usage_of s p = Map.empty"
  shows "fst (reset_use (record_use s p k u) p) = [k \<mapsto> u]"
    and "usage_of (snd (reset_use (record_use s p k u) p)) = usage_of s"
  using assms by (simp_all add: reset_returns usage_record usage_reset fun_eq_iff get_or_def)

end

section \<open>InMemoryMeter\<close>

record in_memory_meter =
  mt_usage :: "bytes \<rightharpoonup> (resource_kind \<rightharpoonup> u64)"

definition meter_new :: in_memory_meter where
  "meter_new = \<lparr>mt_usage = Map.empty\<rparr>"

definition meter_record :: "in_memory_meter \<Rightarrow> bytes \<Rightarrow> resource_kind \<Rightarrow> u64 \<Rightarrow> in_memory_meter" where
  "meter_record m payer kind units =
     (let entry = get_or Map.empty (mt_usage m) payer;
          v = sat_add (get_or 0 entry kind) units
      in m\<lparr>mt_usage := (mt_usage m)(payer \<mapsto> entry(kind \<mapsto> v))\<rparr>)"

definition meter_usage :: "in_memory_meter \<Rightarrow> bytes \<Rightarrow> (resource_kind \<rightharpoonup> u64)" where
  "meter_usage m payer = get_or Map.empty (mt_usage m) payer"

definition meter_reset :: "in_memory_meter \<Rightarrow> bytes \<Rightarrow> (resource_kind \<rightharpoonup> u64) \<times> in_memory_meter" where
  "meter_reset m payer =
     (get_or Map.empty (mt_usage m) payer, m\<lparr>mt_usage := (mt_usage m)(payer := None)\<rparr>)"

interpretation mem: usage_meter meter_record meter_usage meter_reset
  by unfold_locales (simp_all add: meter_record_def meter_usage_def meter_reset_def Let_def)

lemma meter_usage_new [simp]: "meter_usage meter_new p = Map.empty"
  by (simp add: meter_usage_def meter_new_def)

text \<open>A payer's metered usage of a resource kind is exactly the sum of everything recorded for
  that payer and kind, in any interleaving with other payers and kinds, capped at \<open>u64::MAX\<close>;
  resetting the payer returns that usage and zeroes it.\<close>

theorem meter_adds_up:
  "unat (get_or 0 (meter_usage (foldl (\<lambda>m (p, k, u). meter_record m p k u) m evs) p) k) =
     min (unat (get_or 0 (meter_usage m p) k)
          + (\<Sum>(p', k', u) \<leftarrow> evs. if p' = p \<and> k' = k then unat u else 0)) (2 ^ 64 - 1)
   \<and> meter_reset m p = (meter_usage m p, snd (meter_reset m p))
   \<and> meter_usage (snd (meter_reset m p)) p = Map.empty"
  using mem.record_all_total [of m evs p k] mem.reset_returns [of m p] mem.usage_reset [of m p p]
  unfolding mem.record_all_def by (simp add: prod_eq_iff)

end
