(* ===== verification/Cbor_Instance.thy ===== *)
theory Cbor_Instance
  imports Wire
begin

text \<open>
  A concrete interface that satisfies \<open>cbor_laws\<close>: a prefix-free byte encoding of \<open>cv\<close> with its
  decoder, and association lists as \<open>Fields\<close> cursors. The properties that take the CBOR library as
  a parameter are witnessed at it. The decoder spends one unit of fuel per constructor; the length
  of the input is enough.
\<close>

definition be64 :: "u64 \<Rightarrow> bytes" where
  "be64 n = map (\<lambda>i. of_nat (unat n div 256 ^ i)) (rev [0..<8])"

definition of_be64 :: "bytes \<Rightarrow> u64" where
  "of_be64 bs = of_nat (foldl (\<lambda>n b. n * 256 + unat b) 0 bs)"

fun enc_bytes :: "bytes \<Rightarrow> bytes" where
  "enc_bytes [] = [0]"
| "enc_bytes (b # bs) = 1 # b # enc_bytes bs"

fun dec_bytes :: "bytes \<Rightarrow> (bytes \<times> bytes) option" where
  "dec_bytes (t # b # r) =
     (if t = 0 then Some ([], b # r) else map_option (\<lambda>(bs, r'). (b # bs, r')) (dec_bytes r))"
| "dec_bytes [t] = (if t = 0 then Some ([], []) else None)"
| "dec_bytes [] = None"

fun enc_cv :: "cv \<Rightarrow> bytes" and enc_pairs :: "(u64 \<times> cv) list \<Rightarrow> bytes" and
    enc_pair :: "u64 \<times> cv \<Rightarrow> bytes" and enc_list :: "cv list \<Rightarrow> bytes" where
  "enc_cv (CvU64 n) = 0 # be64 n"
| "enc_cv (CvBytes b) = 1 # enc_bytes b"
| "enc_cv (CvText s) = 2 # enc_bytes (map (\<lambda>c. of_nat (of_char c)) s)"
| "enc_cv (CvMap m) = 3 # enc_pairs m"
| "enc_cv (CvOther n) = 4 # enc_bytes (replicate n 0)"
| "enc_cv (CvArray vs) = 5 # enc_list vs"
| "enc_pairs [] = [0]"
| "enc_pairs (p # ps) = 1 # enc_pair p @ enc_pairs ps"
| "enc_pair (k, v) = be64 k @ enc_cv v"
| "enc_list [] = [0]"
| "enc_list (v # vs) = 1 # enc_cv v @ enc_list vs"

fun dec_cv :: "nat \<Rightarrow> bytes \<Rightarrow> (cv \<times> bytes) option" and
    dec_pairs :: "nat \<Rightarrow> bytes \<Rightarrow> ((u64 \<times> cv) list \<times> bytes) option" and
    dec_list :: "nat \<Rightarrow> bytes \<Rightarrow> (cv list \<times> bytes) option" where
  "dec_cv 0 bs = None"
| "dec_cv (Suc n) [] = None"
| "dec_cv (Suc n) (t # bs) =
     (if t = 0 then Some (CvU64 (of_be64 (take 8 bs)), drop 8 bs)
      else if t = 1 then map_option (\<lambda>(b, r). (CvBytes b, r)) (dec_bytes bs)
      else if t = 2 then
        map_option (\<lambda>(b, r). (CvText (map (\<lambda>w. char_of (unat w)) b), r)) (dec_bytes bs)
      else if t = 3 then map_option (\<lambda>(m, r). (CvMap m, r)) (dec_pairs n bs)
      else if t = 4 then map_option (\<lambda>(b, r). (CvOther (length b), r)) (dec_bytes bs)
      else if t = 5 then map_option (\<lambda>(vs, r). (CvArray vs, r)) (dec_list n bs)
      else None)"
| "dec_pairs 0 bs = None"
| "dec_pairs (Suc n) [] = None"
| "dec_pairs (Suc n) (t # bs) =
     (if t = 0 then Some ([], bs)
      else (case dec_cv n (drop 8 bs) of
              None \<Rightarrow> None
            | Some (v, r) \<Rightarrow>
                map_option (\<lambda>(m, r'). ((of_be64 (take 8 bs), v) # m, r')) (dec_pairs n r)))"
| "dec_list 0 bs = None"
| "dec_list (Suc n) [] = None"
| "dec_list (Suc n) (t # bs) =
     (if t = 0 then Some ([], bs)
      else (case dec_cv n bs of
              None \<Rightarrow> None
            | Some (v, r) \<Rightarrow> map_option (\<lambda>(vs, r'). (v # vs, r')) (dec_list n r)))"

lemma length_be64 [simp]: "length (be64 n) = 8"
  by (simp add: be64_def)

lemma digit_step: "(x div 256 ^ Suc i) * 256 + (x div 256 ^ i) mod 256 = (x div 256 ^ i :: nat)"
proof -
  have "x div 256 ^ Suc i = x div 256 ^ i div 256"
    by (metis div_mult2_eq power_Suc2)
  then show ?thesis by (metis div_mult_mod_eq)
qed

lemma be_digits:
  "foldl (\<lambda>m b. m * 256 + unat (b :: u8)) (x div 256 ^ k) (map (\<lambda>i. of_nat (x div 256 ^ i)) (rev [0..<k])) = x"
proof (induction k)
  case (Suc k)
  have "x div 256 ^ Suc k * 256 + unat (of_nat (x div 256 ^ k) :: u8) = x div 256 ^ k"
    using digit_step [of x k] by (simp add: unat_of_nat)
  with Suc show ?case by simp
qed simp

lemma of_be64_be64 [simp]: "of_be64 (be64 n) = n"
proof -
  have "unat n div 256 ^ 8 = 0"
    using unsigned_less [of n, where 'a = nat] by simp
  then have "foldl (\<lambda>m b. m * 256 + unat b) 0 (be64 n) = unat n"
    using be_digits [of "unat n" 8] unfolding be64_def by metis
  then show ?thesis by (simp add: of_be64_def)
qed

lemma dec_enc_bytes [simp]: "dec_bytes (enc_bytes b @ r) = Some (b, r)"
proof (induction b)
  case Nil
  then show ?case by (cases r) simp_all
next
  case (Cons x b)
  then show ?case by simp
qed

lemma text_bytes_inverse [simp]:
  "map (\<lambda>w. char_of (unat w)) (map (\<lambda>c. of_nat (of_char c) :: u8) s) = s"
proof (induction s)
  case (Cons c s)
  have "unat (of_nat (of_char c) :: u8) = of_char c"
    by (simp add: unat_of_nat)
  with Cons show ?case by simp
qed simp

text \<open>Decoding inverts encoding, with as much fuel as the encoding is long.\<close>

lemma enc_nonempty: "0 < length (enc_pairs m)" "0 < length (enc_list vs)"
  by (cases m, simp_all) (cases vs, simp_all)

lemma dec_enc:
  "length (enc_cv v) \<le> Suc n \<Longrightarrow> dec_cv (Suc n) (enc_cv v @ r) = Some (v, r)"
  "length (enc_pairs m) \<le> Suc n \<Longrightarrow> dec_pairs (Suc n) (enc_pairs m @ r) = Some (m, r)"
  "length (enc_pair p) \<le> Suc n \<Longrightarrow> dec_cv (Suc n) (enc_cv (snd p) @ r) = Some (snd p, r)"
  "length (enc_list vs) \<le> Suc n \<Longrightarrow> dec_list (Suc n) (enc_list vs @ r) = Some (vs, r)"
proof (induction v and m and p and vs arbitrary: n r and n r and n r and n r
    rule: enc_cv_enc_pairs_enc_pair_enc_list.induct)
  case (4 m)
  then have "length (enc_pairs m) \<le> n" by simp
  with enc_nonempty(1) [of m] obtain n' where "n = Suc n'" by (cases n) auto
  with 4 show ?case by simp
next
  case (6 vs)
  then have "length (enc_list vs) \<le> n" by simp
  with enc_nonempty(2) [of vs] obtain n' where "n = Suc n'" by (cases n) auto
  with 6 show ?case by simp
next
  case (8 p ps)
  then have "length (enc_pair p) + length (enc_pairs ps) \<le> n" by simp
  with enc_nonempty(1) [of ps] obtain n' where "n = Suc n'" by (cases n) auto
  with 8 show ?case by (cases p) simp
next
  case (11 v vs)
  then have "length (enc_cv v) + length (enc_list vs) \<le> n" by simp
  with enc_nonempty(2) [of vs] obtain n' where "n = Suc n'" by (cases n) auto
  with 11 show ?case by simp
qed (simp_all del: map_map)

definition assoc_cbor :: "(u64 \<times> cv) list cbor_api" where
  "assoc_cbor = \<lparr>
     cb_encode = enc_cv,
     cb_decode = (\<lambda>bs. case dec_cv (length bs) bs of
                         Some (v, []) \<Rightarrow> Inr v | _ \<Rightarrow> Inl ''malformed''),
     cb_fields = (\<lambda>v. case v of CvMap m \<Rightarrow> Inr m | _ \<Rightarrow> Inl ''expected a map''),
     cb_req = (\<lambda>m k. case map_of m k of
                       None \<Rightarrow> Inl ''missing field'' | Some v \<Rightarrow> Inr (v, without_key k m)),
     cb_take = (\<lambda>m k. (map_of m k, without_key k m)),
     cb_deny_unknown = (\<lambda>m. if m = [] then Inr () else Inl ''unknown field''),
     cb_into_pairs = (\<lambda>m. m),
     cb_as_u64 = (\<lambda>v. case v of CvU64 n \<Rightarrow> Inr n | _ \<Rightarrow> Inl ''expected an integer''),
     cb_as_u8 = (\<lambda>v. case v of CvU64 n \<Rightarrow> if n < 256 then Inr (ucast n) else Inl ''out of range''
                              | _ \<Rightarrow> Inl ''expected an integer''),
     cb_as_bytes = (\<lambda>v. case v of CvBytes b \<Rightarrow> Inr b | _ \<Rightarrow> Inl ''expected bytes''),
     cb_as_text = (\<lambda>v. case v of CvText s \<Rightarrow> Inr s | _ \<Rightarrow> Inl ''expected text''),
     cb_as_array = (\<lambda>v. case v of CvArray vs \<Rightarrow> Inr vs | _ \<Rightarrow> Inl ''expected an array'') \<rparr>"

lemma dec_cv_enc_cv: "dec_cv (length (enc_cv v)) (enc_cv v) = Some (v, [])"
proof -
  obtain n where n: "length (enc_cv v) = Suc n" by (cases v) simp_all
  then show ?thesis using dec_enc(1) [of v n "[]"] by simp
qed

lemma assoc_cbor_laws: "cbor_laws assoc_cbor"
  unfolding cbor_laws_def by (simp add: assoc_cbor_def without_key_absent dec_cv_enc_cv)

end
