(* ===== verification/Billing_Tariff.thy ===== *)
theory Billing_Tariff
  imports Billing_Meter Cbor_Instance
begin

text \<open>
  \<open>crates/broker-billing/src/tariff.rs\<close>: tariff schedules, their CBOR form, and the evaluation of
  metered usage into a bill. Saturation is kept at the width of \<open>u64\<close>.
\<close>

section \<open>Data\<close>

datatype billing_error =
    BadEncoding cbor_error
  | Malformed string
  | UnpricedKind resource_kind

record tariff_schedule =
  ts_currency :: string
  ts_prices :: "resource_kind \<rightharpoonup> u64"
  ts_free_allowance :: "resource_kind \<rightharpoonup> u64"
  ts_period_seconds :: "u64 option"

record line_item =
  li_kind :: resource_kind
  li_metered_units :: u64
  li_free_units_applied :: u64
  li_billed_units :: u64
  li_unit_price :: u64
  li_amount :: u64

record bill =
  bill_currency :: string
  bill_amount :: u64
  bill_line_items :: "line_item list"

section \<open>Evaluation\<close>

definition mk_line_item :: "tariff_schedule \<Rightarrow> resource_kind \<Rightarrow> u64 \<Rightarrow> u64 \<Rightarrow> line_item" where
  "mk_line_item t kind units unit_price =
     (let free = get_or 0 (ts_free_allowance t) kind;
          billed_units = sat_sub units free;
          line_amount = sat_mul billed_units unit_price
      in \<lparr>li_kind = kind, li_metered_units = units, li_free_units_applied = min free units,
          li_billed_units = billed_units, li_unit_price = unit_price, li_amount = line_amount\<rparr>)"

fun evaluate_loop :: "tariff_schedule \<Rightarrow> (resource_kind \<times> u64) list \<Rightarrow> u64 \<Rightarrow> line_item list
    \<Rightarrow> billing_error + (u64 \<times> line_item list)" where
  "evaluate_loop t [] amount items = Inr (amount, items)"
| "evaluate_loop t ((kind, units) # rest) amount items =
     (case ts_prices t kind of
        None \<Rightarrow> Inl (UnpricedKind kind)
      | Some unit_price \<Rightarrow>
          (let item = mk_line_item t kind units unit_price
           in evaluate_loop t rest (sat_add amount (li_amount item)) (items @ [item])))"

definition evaluate :: "tariff_schedule \<Rightarrow> (resource_kind \<rightharpoonup> u64) \<Rightarrow> billing_error + bill" where
  "evaluate t usage =
     bindE (evaluate_loop t (kind_entries usage) 0 [])
       (\<lambda>(amount, line_items).
          Inr \<lparr>bill_currency = ts_currency t, bill_amount = amount, bill_line_items = line_items\<rparr>)"

text \<open>What one entry of usage costs, over the unbounded naturals.\<close>

definition line_cost :: "tariff_schedule \<Rightarrow> resource_kind \<times> u64 \<Rightarrow> nat" where
  "line_cost t e = (unat (snd e) - unat (get_or 0 (ts_free_allowance t) (fst e)))
                   * unat (get_or 0 (ts_prices t) (fst e))"

definition usage_cost :: "tariff_schedule \<Rightarrow> (resource_kind \<rightharpoonup> u64) \<Rightarrow> nat" where
  "usage_cost t usage = sum_list (map (line_cost t) (kind_entries usage))"

definition priced :: "tariff_schedule \<Rightarrow> (resource_kind \<rightharpoonup> u64) \<Rightarrow> bool" where
  "priced t usage = list_all (\<lambda>k. usage k \<noteq> None \<longrightarrow> ts_prices t k \<noteq> None) all_kinds"

lemma priced_iff: "priced t usage \<longleftrightarrow> dom usage \<subseteq> dom (ts_prices t)"
  by (auto simp: priced_def list_all_iff)

lemma evaluate_loop_ok:
  assumes "\<forall>e \<in> set us. ts_prices t (fst e) \<noteq> None"
  shows "evaluate_loop t us amount items =
    Inr (foldl (\<lambda>a e. sat_add a (li_amount (mk_line_item t (fst e) (snd e) (get_or 0 (ts_prices t) (fst e)))))
           amount us,
         items @ map (\<lambda>e. mk_line_item t (fst e) (snd e) (get_or 0 (ts_prices t) (fst e))) us)"
  using assms
proof (induction us arbitrary: amount items)
  case Nil
  then show ?case by simp
next
  case (Cons e us)
  obtain k u where e: "e = (k, u)" by (cases e)
  with Cons.prems obtain p where "ts_prices t k = Some p" by auto
  then show ?case using Cons by (simp add: e Let_def get_or_def)
qed

lemma evaluate_loop_err:
  assumes "\<exists>e \<in> set us. ts_prices t (fst e) = None"
  shows "\<exists>k. evaluate_loop t us amount items = Inl (UnpricedKind k)
           \<and> find (\<lambda>k. ts_prices t k = None) (map fst us) = Some k"
  using assms
proof (induction us arbitrary: amount items)
  case (Cons e us)
  obtain k u where e: "e = (k, u)" by (cases e)
  show ?case
  proof (cases "ts_prices t k")
    case None
    then show ?thesis by (simp add: e)
  next
    case (Some p)
    with Cons e show ?thesis by (auto simp: Let_def)
  qed
qed simp

lemma li_amount_cost:
  "unat (li_amount (mk_line_item t (fst e) (snd e) (get_or 0 (ts_prices t) (fst e)))) =
   min (line_cost t e) (2 ^ 64 - 1)"
  by (simp add: mk_line_item_def Let_def line_cost_def unat_sat_mul unat_sat_sub)

lemma fold_sat_amount:
  "unat (foldl (\<lambda>a e. sat_add a (li_amount (mk_line_item t (fst e) (snd e) (get_or 0 (ts_prices t) (fst e)))))
           amount us) =
   min (unat amount + sum_list (map (line_cost t) us)) (2 ^ 64 - 1)"
proof (induction us arbitrary: amount)
  case Nil
  then show ?case using unat_le_max [of amount] by simp
next
  case (Cons e us)
  then show ?case by (simp add: unat_sat_add li_amount_cost)
qed

lemma evaluate_ok:
  assumes "priced t usage"
  shows "evaluate t usage = Inr \<lparr>bill_currency = ts_currency t,
     bill_amount = foldl (\<lambda>a e. sat_add a (li_amount (mk_line_item t (fst e) (snd e) (get_or 0 (ts_prices t) (fst e)))))
        0 (kind_entries usage),
     bill_line_items = map (\<lambda>e. mk_line_item t (fst e) (snd e) (get_or 0 (ts_prices t) (fst e))) (kind_entries usage)\<rparr>"
proof -
  have "\<forall>e \<in> set (kind_entries usage). ts_prices t (fst e) \<noteq> None"
    using assms by (fastforce simp: priced_iff dom_def)
  then show ?thesis by (simp add: evaluate_def evaluate_loop_ok)
qed

lemma evaluate_err:
  assumes "\<not> priced t usage"
  shows "\<exists>k. evaluate t usage = Inl (UnpricedKind k) \<and> usage k \<noteq> None \<and> ts_prices t k = None
           \<and> (\<forall>k' < k. usage k' \<noteq> None \<longrightarrow> ts_prices t k' \<noteq> None)"
proof -
  let ?ks = "filter (\<lambda>k. usage k \<noteq> None) all_kinds"
  have "\<exists>e \<in> set (kind_entries usage). ts_prices t (fst e) = None"
    using assms by (auto simp: priced_iff subset_iff dom_def) (metis fst_conv set_kind_entries)
  from evaluate_loop_err [OF this, of 0 "[]"] obtain k where
    e: "evaluate_loop t (kind_entries usage) 0 [] = Inl (UnpricedKind k)" and
    f: "find (\<lambda>k. ts_prices t k = None) ?ks = Some k"
    by (auto simp: fst_kind_entries)
  from f have k: "usage k \<noteq> None" "ts_prices t k = None"
    using find_Some_mem [OF f] by auto
  have "ts_prices t k' \<noteq> None" if "k' < k" "usage k' \<noteq> None" for k'
    using f that
    by (cases k; cases k'; simp add: all_kinds_def less_resource_kind_def split: if_splits)
  with e k show ?thesis unfolding evaluate_def by (intro exI [of _ k]) auto
qed

text \<open>Evaluation of metered usage. It succeeds exactly when every metered kind has a price, and
  otherwise names the first metered kind, in key order, that has none. A bill carries the
  schedule's currency, and its amount is the sum over the metered kinds of price times the units
  beyond the free allowance, capped at \<open>u64::MAX\<close>.\<close>

theorem evaluate_spec:
  "case (evaluate t usage :: billing_error + bill) of
     Inr b \<Rightarrow> priced t usage \<and> bill_currency b = ts_currency t
              \<and> unat (bill_amount b) = min (usage_cost t usage) (2 ^ 64 - 1)
   | Inl err \<Rightarrow> (\<exists>k. err = UnpricedKind k \<and> usage k \<noteq> None \<and> ts_prices t k = None
                   \<and> \<not> (\<exists>k'. k' < k \<and> usage k' \<noteq> None \<and> ts_prices t k' = None))"
proof (cases "priced t usage")
  case True
  then show ?thesis
    by (simp add: evaluate_ok fold_sat_amount usage_cost_def)
next
  case False
  from evaluate_err [OF this] obtain k where
    "evaluate t usage = Inl (UnpricedKind k)" "usage k \<noteq> None" "ts_prices t k = None"
    "\<forall>k' < k. usage k' \<noteq> None \<longrightarrow> ts_prices t k' \<noteq> None"
    by blast
  then show ?thesis by auto
qed

lemma mk_line_item_sel [simp]:
  "li_kind (mk_line_item t k u c) = k" "li_metered_units (mk_line_item t k u c) = u"
  "li_unit_price (mk_line_item t k u c) = c"
  by (simp_all add: mk_line_item_def Let_def)

lemma mk_line_item_ok:
  fixes t k u c
  defines "l \<equiv> mk_line_item t k u c"
  shows "unat (li_free_units_applied l) + unat (li_billed_units l) = unat u"
    and "li_free_units_applied l \<le> get_or 0 (ts_free_allowance t) k"
    and "unat (li_amount l) = min (unat (li_billed_units l) * unat c) (2 ^ 64 - 1)"
  by (auto simp: l_def mk_line_item_def Let_def unat_sat_mul unat_sat_sub min_def word_le_nat_alt)

text \<open>The lines of a bill account for all of the usage. There is one line per metered kind, in
  key order; on each the free units and the billed units add up to the metered units, the free
  units never exceed the allowance, and the line costs billed units times unit price, capped.\<close>

theorem evaluate_lines:
  assumes "evaluate t usage = Inr b"
  shows "map (\<lambda>l. (li_kind l, li_metered_units l)) (bill_line_items b) = kind_entries usage
    \<and> list_all (\<lambda>l. unat (li_free_units_applied l) + unat (li_billed_units l) = unat (li_metered_units l)
          \<and> li_free_units_applied l \<le> get_or 0 (ts_free_allowance t) (li_kind l)
          \<and> unat (li_amount l) = min (unat (li_billed_units l) * unat (li_unit_price l)) (2 ^ 64 - 1))
        (bill_line_items b)"
proof -
  have p: "priced t usage"
    using assms evaluate_err [of t usage] by force
  have "bill_line_items b = map (\<lambda>e. mk_line_item t (fst e) (snd e) (get_or 0 (ts_prices t) (fst e))) (kind_entries usage)"
    using assms evaluate_ok [OF p] by auto
  then show ?thesis
    by (simp add: list_all_iff mk_line_item_ok comp_def)
qed

text \<open>C3 at one metered kind with an allowance of 10 units and a price of 3.\<close>

definition demo_schedule :: tariff_schedule where
  "demo_schedule = \<lparr>ts_currency = ''USD'', ts_prices = [Messages \<mapsto> 3, BytesForwarded \<mapsto> 2],
     ts_free_allowance = [Messages \<mapsto> 10], ts_period_seconds = Some 3600\<rparr>"

lemma demo_bill:
  "evaluate demo_schedule [Messages \<mapsto> 15] = Inr \<lparr>bill_currency = ''USD'', bill_amount = 15,
     bill_line_items = [\<lparr>li_kind = Messages, li_metered_units = 15, li_free_units_applied = 10,
       li_billed_units = 5, li_unit_price = 3, li_amount = 15\<rparr>]\<rparr>"
  by (simp add: evaluate_def kind_entries_def all_kinds_def demo_schedule_def mk_line_item_def
      sat_sub_def sat_mul_def sat_add_def get_or_def Let_def)

theorem evaluate_lines_witness:
  "map (\<lambda>l. (li_kind l, li_metered_units l))
     [\<lparr>li_kind = Messages, li_metered_units = 15, li_free_units_applied = 10,
       li_billed_units = 5, li_unit_price = 3, li_amount = 15\<rparr>] = kind_entries [Messages \<mapsto> 15]"
  using evaluate_lines [OF demo_bill] by simp

section \<open>CBOR form\<close>

definition price_pairs :: "(resource_kind \<rightharpoonup> u64) \<Rightarrow> (u64 \<times> cv) list" where
  "price_pairs m = map (\<lambda>(k, v). (wire_tag k, CvU64 v)) (kind_entries m)"

definition schedule_to_cv :: "tariff_schedule \<Rightarrow> cv" where
  "schedule_to_cv t = CvMap
     ([(1, CvText (ts_currency t)),
       (2, CvMap (price_pairs (ts_prices t))),
       (3, CvMap (price_pairs (ts_free_allowance t)))]
      @ (case ts_period_seconds t of None \<Rightarrow> [] | Some p \<Rightarrow> [(4, CvU64 p)]))"

fun price_map_loop :: "'f cbor_api \<Rightarrow> (u64 \<times> cv) list \<Rightarrow> (resource_kind \<rightharpoonup> u64)
    \<Rightarrow> billing_error + (resource_kind \<rightharpoonup> u64)" where
  "price_map_loop api [] out = Inr out"
| "price_map_loop api ((tag, v) # entries) out =
     bindE (ok_or (Malformed ''unknown resource-kind wire tag'') (from_wire_tag tag)) (\<lambda>kind.
     bindE (map_err BadEncoding (cb_as_u64 api v)) (\<lambda>n.
     price_map_loop api entries (out(kind \<mapsto> n))))"

definition resource_price_map :: "'f cbor_api \<Rightarrow> cv \<Rightarrow> billing_error + (resource_kind \<rightharpoonup> u64)" where
  "resource_price_map api v =
     (case v of
        CvMap m \<Rightarrow> price_map_loop api m Map.empty
      | _ \<Rightarrow> Inl (Malformed ''expected a resource-kind price map''))"

definition schedule_from_cv :: "'f cbor_api \<Rightarrow> cv \<Rightarrow> billing_error + tariff_schedule" where
  "schedule_from_cv api v =
     bindE (map_err BadEncoding (cb_fields api v)) (\<lambda>f.
     bindE (map_err BadEncoding (cb_req api f 1)) (\<lambda>(c, f).
     bindE (case c of CvText s \<Rightarrow> Inr s
            | _ \<Rightarrow> Inl (Malformed ''currency must be a text string'')) (\<lambda>currency.
     bindE (map_err BadEncoding (cb_req api f 2)) (\<lambda>(p, f).
     bindE (resource_price_map api p) (\<lambda>prices.
     bindE (map_err BadEncoding (cb_req api f 3)) (\<lambda>(q, f).
     bindE (resource_price_map api q) (\<lambda>free_allowance.
     bindE (map_err BadEncoding (take_u64 api f 4)) (\<lambda>(period_seconds, f).
     bindE (map_err BadEncoding (cb_deny_unknown api f)) (\<lambda>_.
     Inr \<lparr>ts_currency = currency, ts_prices = prices, ts_free_allowance = free_allowance,
          ts_period_seconds = period_seconds\<rparr>)))))))))"

definition schedule_to_cbor :: "'f cbor_api \<Rightarrow> tariff_schedule \<Rightarrow> bytes" where
  "schedule_to_cbor api t = cb_encode api (schedule_to_cv t)"

definition schedule_from_cbor :: "'f cbor_api \<Rightarrow> bytes \<Rightarrow> billing_error + tariff_schedule" where
  "schedule_from_cbor api b =
     bindE (map_err BadEncoding (cb_decode api b)) (schedule_from_cv api)"

lemma wire_tag_less: "wire_tag a < wire_tag b \<longleftrightarrow> a < b"
  by (simp add: less_resource_kind_def)

lemma sorted_price_pairs: "sorted_wrt (<) (map fst (price_pairs m))"
proof -
  have "map fst (price_pairs m) = map wire_tag (map fst (kind_entries m))"
    by (simp add: price_pairs_def comp_def case_prod_unfold)
  then show ?thesis
    using sorted_kind_entries [of m] by (simp add: sorted_wrt_map wire_tag_less)
qed

lemma det_schedule_to_cv: "det_cv (schedule_to_cv t)"
proof -
  have "det_cv (CvMap (price_pairs m))" for m
    using sorted_price_pairs [of m] by (auto simp: price_pairs_def)
  then show ?thesis
    by (auto simp: schedule_to_cv_def split: option.splits)
qed

lemma price_map_loop_pairs:
  assumes "cbor_laws api"
  shows "price_map_loop api (map (\<lambda>(k, v). (wire_tag k, CvU64 v)) es) out = Inr (out ++ map_of (rev es))"
proof (induction es arbitrary: out)
  case (Cons e es)
  then show ?case
    by (cases e) (simp add: kind_codec.dec_enc cbor_accessors [OF assms] map_add_def fun_eq_iff split: option.splits)
qed simp

lemma resource_price_map_pairs:
  assumes "cbor_laws api"
  shows "resource_price_map api (CvMap (price_pairs m)) = Inr m"
proof -
  have "map_of (rev (kind_entries m)) = m"
    by (metis distinct_kind_entries distinct_rev map_of_eqI map_of_kind_entries map_of_inject_set
        rev_map set_rev)
  then show ?thesis
    by (simp add: resource_price_map_def price_pairs_def price_map_loop_pairs [OF assms])
qed

lemma schedule_from_cv_to_cv:
  assumes "cbor_laws api"
  shows "schedule_from_cv api (schedule_to_cv t) = Inr t"
proof -
  let ?tail = "case ts_period_seconds t of None \<Rightarrow> [] | Some p \<Rightarrow> [(4, CvU64 p)]"
  let ?m = "[(1 :: u64, CvText (ts_currency t)), (2, CvMap (price_pairs (ts_prices t))),
       (3, CvMap (price_pairs (ts_free_allowance t)))] @ ?tail"
  have "sorted_wrt (<) (map fst ?m)" by (simp split: option.splits)
  then obtain f where f: "cb_fields api (CvMap ?m) = Inr f" "cb_into_pairs api f = ?m"
    by (rule cbor_fieldsE [OF assms])
  obtain f1 where f1: "cb_req api f 1 = Inr (CvText (ts_currency t), f1)"
      "cb_into_pairs api f1 = without_key 1 ?m"
    using cbor_reqE [OF assms, of f 1] f(2) by auto
  obtain f2 where f2: "cb_req api f1 2 = Inr (CvMap (price_pairs (ts_prices t)), f2)"
      "cb_into_pairs api f2 = without_key 2 (without_key 1 ?m)"
    using cbor_reqE [OF assms, of f1 2] f1(2) by (auto split: option.splits)
  obtain f3 where f3: "cb_req api f2 3 = Inr (CvMap (price_pairs (ts_free_allowance t)), f3)"
      "cb_into_pairs api f3 = ?tail"
    using cbor_reqE [OF assms, of f2 3] f2(2) by (auto split: option.splits)
  obtain f4 where f4: "take_u64 api f3 4 = Inr (ts_period_seconds t, f4)" "cb_into_pairs api f4 = []"
    using take_u64E [OF assms, of f3 4 "ts_period_seconds t"] f3(2) by (auto split: option.splits)
  show ?thesis
    using f(1) unfolding schedule_from_cv_def schedule_to_cv_def
    by (simp add: f1 f2 f3 f4 resource_price_map_pairs [OF assms] cbor_deny_ok [OF assms])
qed

text \<open>A tariff schedule survives its signed wire form: decoding the canonical CBOR encoding of
  any schedule, against any CBOR library that meets its documented laws, gives the schedule back,
  whatever its prices, allowances and optional period.\<close>

theorem schedule_cbor_roundtrip:
  assumes "cbor_laws api"
  shows "schedule_from_cbor api (schedule_to_cbor api t) = Inr t"
  by (simp add: schedule_from_cbor_def schedule_to_cbor_def cbor_decode_encode [OF assms]
      det_schedule_to_cv schedule_from_cv_to_cv [OF assms])

theorem schedule_cbor_roundtrip_witness:
  "schedule_from_cbor assoc_cbor (schedule_to_cbor assoc_cbor demo_schedule) = Inr demo_schedule"
  by (rule schedule_cbor_roundtrip [OF assoc_cbor_laws])

end
