(* ===== verification/Billing_Pricing.thy ===== *)
theory Billing_Pricing
  imports Billing_Tariff
begin

text \<open>
  \<open>crates/broker-billing/src/pricing.rs\<close>: the recommended cost-plus tariff. All arithmetic is on
  \<open>u64\<close> and saturates; the batch helpers round up.
\<close>

section \<open>Constants\<close>

definition RECOMMENDED_CURRENCY :: string where "RECOMMENDED_CURRENCY = ''USD''"
definition RECOMMENDED_MARKUP_X100 :: u64 where "RECOMMENDED_MARKUP_X100 = 200"
definition ASSUMED_MONTHLY_GIB :: u64 where "ASSUMED_MONTHLY_GIB = 500"
definition ASSUMED_MONTHLY_MESSAGES :: u64 where "ASSUMED_MONTHLY_MESSAGES = 200000"
definition ASSUMED_MONTHLY_COMPUTE_SECONDS :: u64 where "ASSUMED_MONTHLY_COMPUTE_SECONDS = 500000"
definition BYTES_FORWARDED_BATCH_BYTES :: u64 where
  "BYTES_FORWARDED_BATCH_BYTES = 1024 * 1024 * 1024"
definition MESSAGES_BATCH :: u64 where "MESSAGES_BATCH = 1000"
definition COMPUTE_SECONDS_BATCH :: u64 where "COMPUTE_SECONDS_BATCH = 1000"
definition NOMINAL_PERIOD_SECONDS :: u64 where "NOMINAL_PERIOD_SECONDS = 30 * 24 * 3600"

lemmas pricing_constants =
  RECOMMENDED_MARKUP_X100_def ASSUMED_MONTHLY_GIB_def ASSUMED_MONTHLY_MESSAGES_def
  ASSUMED_MONTHLY_COMPUTE_SECONDS_def BYTES_FORWARDED_BATCH_BYTES_def MESSAGES_BATCH_def
  COMPUTE_SECONDS_BATCH_def NOMINAL_PERIOD_SECONDS_def

section \<open>Billing units\<close>

definition ceil_div :: "u64 \<Rightarrow> u64 \<Rightarrow> u64" where
  "ceil_div a b = (if b = 0 then 0 else sat_add a (b - 1) div b)"

definition gib_billing_units :: "u64 \<Rightarrow> u64" where
  "gib_billing_units raw_bytes = ceil_div raw_bytes BYTES_FORWARDED_BATCH_BYTES"

definition messages_billing_units :: "u64 \<Rightarrow> u64" where
  "messages_billing_units raw_messages = ceil_div raw_messages MESSAGES_BATCH"

definition compute_seconds_billing_units :: "u64 \<Rightarrow> u64" where
  "compute_seconds_billing_units raw_compute_seconds = ceil_div raw_compute_seconds COMPUTE_SECONDS_BATCH"

definition markup :: "u64 \<Rightarrow> u64" where
  "markup cost = ceil_div (sat_mul cost RECOMMENDED_MARKUP_X100) 100"

section \<open>Recommended tariffs\<close>

record hosting_profile =
  hp_name :: string
  hp_base_vps :: u64
  hp_bandwidth_per_gib :: u64
  hp_reachability_premium :: u64

definition HETZNER_CX :: hosting_profile where
  "HETZNER_CX = \<lparr>hp_name = ''hetzner-cx-illustrative'', hp_base_vps = 500,
     hp_bandwidth_per_gib = 1, hp_reachability_premium = 500\<rparr>"

definition VULTR_GENERIC :: hosting_profile where
  "VULTR_GENERIC = \<lparr>hp_name = ''vultr-generic-illustrative'', hp_base_vps = 600,
     hp_bandwidth_per_gib = 1, hp_reachability_premium = 500\<rparr>"

definition GENERIC_VPS :: hosting_profile where
  "GENERIC_VPS = \<lparr>hp_name = ''generic-vps-conservative'', hp_base_vps = 1000,
     hp_bandwidth_per_gib = 2, hp_reachability_premium = 1000\<rparr>"

datatype coordinator_pricing_kind =
  PkRelay | PkMediaRelay | PkReachabilityAdapter | PkGateway | PkCompute

definition usd_schedule :: "resource_kind \<Rightarrow> u64 \<Rightarrow> tariff_schedule" where
  "usd_schedule kind price = \<lparr>ts_currency = RECOMMENDED_CURRENCY, ts_prices = [kind \<mapsto> price],
     ts_free_allowance = Map.empty, ts_period_seconds = Some NOMINAL_PERIOD_SECONDS\<rparr>"

definition bandwidth_schedule :: "hosting_profile \<Rightarrow> bool \<Rightarrow> tariff_schedule" where
  "bandwidth_schedule profile include_reachability_premium =
     (let fixed = sat_add (hp_base_vps profile)
                    (if include_reachability_premium then hp_reachability_premium profile else 0);
          amortized_per_gib = ceil_div fixed ASSUMED_MONTHLY_GIB;
          cost_per_gib = sat_add (hp_bandwidth_per_gib profile) amortized_per_gib;
          recommended_per_gib = markup cost_per_gib
      in usd_schedule BytesForwarded (max recommended_per_gib 1))"

definition gateway_schedule :: "hosting_profile \<Rightarrow> tariff_schedule" where
  "gateway_schedule profile =
     (let fixed = sat_add (hp_base_vps profile) (hp_reachability_premium profile);
          amortized_per_1k_messages = ceil_div fixed (ASSUMED_MONTHLY_MESSAGES div MESSAGES_BATCH);
          recommended_per_1k = markup amortized_per_1k_messages
      in usd_schedule Messages (max recommended_per_1k 1))"

definition compute_schedule :: "hosting_profile \<Rightarrow> tariff_schedule" where
  "compute_schedule profile =
     (let fixed = hp_base_vps profile;
          amortized_per_1k_seconds =
            ceil_div fixed (ASSUMED_MONTHLY_COMPUTE_SECONDS div COMPUTE_SECONDS_BATCH);
          recommended_per_1k = markup amortized_per_1k_seconds
      in usd_schedule ComputeSeconds (max recommended_per_1k 1))"

fun recommended_tariff :: "coordinator_pricing_kind \<Rightarrow> hosting_profile \<Rightarrow> tariff_schedule" where
  "recommended_tariff PkRelay profile = bandwidth_schedule profile False"
| "recommended_tariff PkMediaRelay profile = bandwidth_schedule profile False"
| "recommended_tariff PkReachabilityAdapter profile = bandwidth_schedule profile True"
| "recommended_tariff PkGateway profile = gateway_schedule profile"
| "recommended_tariff PkCompute profile = compute_schedule profile"

section \<open>Properties\<close>

lemma unat_ceil_div:
  assumes "b \<noteq> 0"
  shows "unat (ceil_div a b) = min (unat a + (unat b - 1)) (2 ^ 64 - 1) div unat b"
proof -
  have "unat (b - 1) = unat b - 1"
    using assms by (simp add: unat_minus_one)
  then show ?thesis using assms by (simp add: ceil_div_def unat_div unat_sat_add)
qed

lemma nat_ceil_least:
  fixes a b n :: nat
  assumes "0 < b"
  shows "(a + (b - 1)) div b \<le> n \<longleftrightarrow> a \<le> n * b"
proof -
  have "(a + (b - 1)) div b \<le> n \<longleftrightarrow> (a + (b - 1)) div b < Suc n" by auto
  also have "\<dots> \<longleftrightarrow> a + (b - 1) < Suc n * b"
    using assms by (simp add: div_less_iff_less_mult)
  also have "\<dots> \<longleftrightarrow> a \<le> n * b" using assms by auto
  finally show ?thesis .
qed

lemma ceil_div_mono: "a \<le> a' \<Longrightarrow> ceil_div a b \<le> ceil_div a' b"
proof (cases "b = 0")
  case False
  assume "a \<le> a'"
  then have "min (unat a + (unat b - 1)) (2 ^ 64 - 1) \<le> min (unat a' + (unat b - 1)) (2 ^ 64 - 1)"
    by (auto simp: word_le_nat_alt)
  then show ?thesis
    unfolding word_le_nat_alt unat_ceil_div [OF False] by (rule div_le_mono)
qed (simp add: ceil_div_def)

text \<open>Rounding a raw quantity up to whole batches. Away from the top of the \<open>u64\<close> range the
  result is the least number of batches that covers the quantity: \<open>n\<close> batches suffice exactly when
  the result is at most \<open>n\<close>.\<close>

theorem ceil_div_least:
  assumes "b \<noteq> 0" and "unat a + (unat b - 1) < 2 ^ 64"
  shows "unat (ceil_div a b) \<le> n \<longleftrightarrow> unat a \<le> n * unat b"
proof -
  have "0 < unat b" using assms(1) by (simp add: unat_gt_0)
  then show ?thesis
    using assms(2) nat_ceil_least [of "unat b" "unat a" n] by (simp add: unat_ceil_div [OF assms(1)])
qed

theorem ceil_div_least_witness:
  "unat (ceil_div 1001 1000) \<le> 2 \<longleftrightarrow> unat (1001 :: u64) \<le> 2 * unat (1000 :: u64)"
  by (rule ceil_div_least) simp_all

text \<open>At the top of the range the saturating addition inside the division loses the carry, and
  the helper bills one batch too few: \<open>u64::MAX\<close> bytes need \<open>2\<^sup>3\<^sup>4\<close> GiB, and \<open>gib_billing_units\<close>
  answers one less.\<close>

theorem gib_billing_units_short_at_max:
  "gib_billing_units (- 1) = 2 ^ 34 - 1 \<and> (2 ^ 34 - 1) * 2 ^ 30 < unat (- 1 :: u64)"
  by (simp add: gib_billing_units_def ceil_div_def pricing_constants sat_add_def unat_minus_one_max)

lemma markup_mono: "a \<le> b \<Longrightarrow> markup a \<le> markup b"
  by (simp add: markup_def ceil_div_mono sat_mul_mono)

lemma bandwidth_price:
  "ts_prices (bandwidth_schedule p r) BytesForwarded = Some (max (markup (sat_add (hp_bandwidth_per_gib p)
     (ceil_div (sat_add (hp_base_vps p) (if r then hp_reachability_premium p else 0)) ASSUMED_MONTHLY_GIB))) 1)"
  by (simp add: bandwidth_schedule_def usd_schedule_def Let_def)

lemma usd_at_least_one:
  "\<exists>kind price. usd_schedule kd (max x 1) = usd_schedule kind price \<and> 1 \<le> price"
  using max.cobounded2 by blast

lemma recommended_usd: "\<exists>kind price. recommended_tariff k p = usd_schedule kind price \<and> 1 \<le> price"
  by (cases k) (simp_all only: recommended_tariff.simps bandwidth_schedule_def gateway_schedule_def
      compute_schedule_def Let_def usd_at_least_one)

text \<open>Recommended pricing. Every recommended tariff prices exactly one resource kind, in USD,
  at one cent or more per batch, with no free allowance; and the reachability adapter, which pays
  the reachability premium, is never recommended below the plain relay on the same host.\<close>

theorem recommended_tariff_sound:
  "(\<exists>kind price. ts_prices (recommended_tariff k p) = [kind \<mapsto> price] \<and> 1 \<le> price)
   \<and> ts_currency (recommended_tariff k p) = ''USD''
   \<and> ts_free_allowance (recommended_tariff k p) = Map.empty
   \<and> get_or 0 (ts_prices (recommended_tariff PkRelay p)) BytesForwarded
       \<le> get_or 0 (ts_prices (recommended_tariff PkReachabilityAdapter p)) BytesForwarded"
proof -
  let ?price = "\<lambda>r. max (markup (sat_add (hp_bandwidth_per_gib p)
     (ceil_div (sat_add (hp_base_vps p) (if r then hp_reachability_premium p else 0)) ASSUMED_MONTHLY_GIB))) 1"
  have "?price False \<le> ?price True"
    by (intro max.mono markup_mono sat_add_mono ceil_div_mono order_refl) simp
  then have "get_or 0 (ts_prices (recommended_tariff PkRelay p)) BytesForwarded
       \<le> get_or 0 (ts_prices (recommended_tariff PkReachabilityAdapter p)) BytesForwarded"
    by (simp add: get_or_def bandwidth_price)
  moreover obtain kind price where "recommended_tariff k p = usd_schedule kind price" "1 \<le> price"
    using recommended_usd by blast
  ultimately show ?thesis
    by (auto simp: usd_schedule_def RECOMMENDED_CURRENCY_def intro!: exI [of _ kind] exI [of _ price])
qed

end
