(* ===== verification/Economics.thy ===== *)
theory Economics
  imports Wire
begin

text \<open>
  \<open>crates/broker-economics/src/visibility.rs\<close> and \<open>kinds.rs\<close>: the content-visibility model
  (class and assurance level) and the coordinator kinds with their wire tokens.
\<close>

section \<open>Content visibility\<close>

datatype visibility_class = Blind | BlindRouting | Terminating

datatype assurance_level = Structural | Attested | Declared

record content_visibility =
  cv_class :: visibility_class
  cv_level :: assurance_level

definition content_visibility_new :: "visibility_class \<Rightarrow> assurance_level \<Rightarrow> content_visibility" where
  "content_visibility_new c l = \<lparr>cv_class = c, cv_level = l\<rparr>"

fun is_verifiable :: "assurance_level \<Rightarrow> bool" where
  "is_verifiable Structural = True"
| "is_verifiable Attested = True"
| "is_verifiable Declared = False"

definition is_verifiably_blind :: "content_visibility \<Rightarrow> bool" where
  "is_verifiably_blind v = (cv_class v \<noteq> Terminating \<and> is_verifiable (cv_level v))"

definition must_not_present_as_verified :: "content_visibility \<Rightarrow> bool" where
  "must_not_present_as_verified v = (cv_class v \<noteq> Terminating \<and> \<not> is_verifiable (cv_level v))"

fun class_str :: "visibility_class \<Rightarrow> string" where
  "class_str Blind = ''blind''"
| "class_str BlindRouting = ''blind-routing''"
| "class_str Terminating = ''terminating''"

fun level_str :: "assurance_level \<Rightarrow> string" where
  "level_str Structural = ''structural''"
| "level_str Attested = ''attested''"
| "level_str Declared = ''declared''"

definition visibility_str :: "content_visibility \<Rightarrow> string" where
  "visibility_str v = class_str (cv_class v) @ '' / '' @ level_str (cv_level v)"

text \<open>A non-terminating declaration is either verifiably blind or must be shown as unverified,
  and never both; a terminating one is neither.\<close>

lemma blind_xor_unverified:
  "cv_class v \<noteq> Terminating \<Longrightarrow> is_verifiably_blind v \<longleftrightarrow> \<not> must_not_present_as_verified v"
  by (simp add: is_verifiably_blind_def must_not_present_as_verified_def)

section \<open>Coordinator kinds\<close>

datatype coordinator_kind =
    Gateway | Relay | MediaRelay | ReachabilityAdapter | Indexer | Labeler | Matcher | Compute
  | Arbiter | Oracle | CustodialEscrow

fun kind_as_str :: "coordinator_kind \<Rightarrow> string" where
  "kind_as_str Gateway = ''gateway''"
| "kind_as_str Relay = ''relay''"
| "kind_as_str MediaRelay = ''media-relay''"
| "kind_as_str ReachabilityAdapter = ''reachability-adapter''"
| "kind_as_str Indexer = ''indexer''"
| "kind_as_str Labeler = ''labeler''"
| "kind_as_str Matcher = ''matcher''"
| "kind_as_str Compute = ''compute''"
| "kind_as_str Arbiter = ''arbiter''"
| "kind_as_str Oracle = ''oracle''"
| "kind_as_str CustodialEscrow = ''custodial-escrow''"

definition kind_from_wire_str :: "string \<Rightarrow> coordinator_kind option" where
  "kind_from_wire_str s =
     (if s = ''gateway'' then Some Gateway
      else if s = ''relay'' then Some Relay
      else if s = ''media-relay'' then Some MediaRelay
      else if s = ''reachability-adapter'' then Some ReachabilityAdapter
      else if s = ''indexer'' then Some Indexer
      else if s = ''labeler'' then Some Labeler
      else if s = ''matcher'' then Some Matcher
      else if s = ''compute'' then Some Compute
      else if s = ''arbiter'' then Some Arbiter
      else if s = ''oracle'' then Some Oracle
      else if s = ''custodial-escrow'' then Some CustodialEscrow
      else None)"

fun typical_visibility :: "coordinator_kind \<Rightarrow> content_visibility option" where
  "typical_visibility Gateway = Some (content_visibility_new Terminating Declared)"
| "typical_visibility Relay = Some (content_visibility_new Blind Structural)"
| "typical_visibility MediaRelay = Some (content_visibility_new BlindRouting Structural)"
| "typical_visibility ReachabilityAdapter = Some (content_visibility_new BlindRouting Structural)"
| "typical_visibility Indexer = None"
| "typical_visibility Labeler = None"
| "typical_visibility Matcher = Some (content_visibility_new Terminating Declared)"
| "typical_visibility Compute = Some (content_visibility_new Terminating Declared)"
| "typical_visibility Arbiter = Some (content_visibility_new Terminating Declared)"
| "typical_visibility Oracle = Some (content_visibility_new Terminating Declared)"
| "typical_visibility CustodialEscrow = Some (content_visibility_new Terminating Declared)"

definition is_load_bearing_exception :: "coordinator_kind \<Rightarrow> bool" where
  "is_load_bearing_exception k = (k = CustodialEscrow)"

definition is_scarce_reachability :: "coordinator_kind \<Rightarrow> bool" where
  "is_scarce_reachability k = (k = Gateway \<or> k = ReachabilityAdapter)"

interpretation kind_token: wire_codec kind_as_str kind_from_wire_str
proof unfold_locales
  show "kind_from_wire_str (kind_as_str k) = Some k" for k
    by (cases k) (simp_all add: kind_from_wire_str_def)
  show "kind_from_wire_str s = Some k \<Longrightarrow> kind_as_str k = s" for s k
    by (auto simp: kind_from_wire_str_def split: if_splits)
qed

section \<open>Visibility on the wire\<close>

text \<open>The two matches of \<open>visibility_from_cv\<close> in \<open>descriptor.rs\<close>, on the decoded tokens.\<close>

definition class_from_str :: "string \<Rightarrow> visibility_class option" where
  "class_from_str s =
     (if s = ''blind'' then Some Blind
      else if s = ''blind-routing'' then Some BlindRouting
      else if s = ''terminating'' then Some Terminating
      else None)"

definition level_from_str :: "string \<Rightarrow> assurance_level option" where
  "level_from_str s =
     (if s = ''structural'' then Some Structural
      else if s = ''attested'' then Some Attested
      else if s = ''declared'' then Some Declared
      else None)"

interpretation class_token: wire_codec class_str class_from_str
proof unfold_locales
  show "class_from_str (class_str c) = Some c" for c
    by (cases c) (simp_all add: class_from_str_def)
  show "class_from_str s = Some c \<Longrightarrow> class_str c = s" for s c
    by (auto simp: class_from_str_def split: if_splits)
qed

interpretation level_token: wire_codec level_str level_from_str
proof unfold_locales
  show "level_from_str (level_str c) = Some c" for c
    by (cases c) (simp_all add: level_from_str_def)
  show "level_from_str s = Some c \<Longrightarrow> level_str c = s" for s c
    by (auto simp: level_from_str_def split: if_splits)
qed

end
