(* ===== verification/Descriptor.thy ===== *)
theory Descriptor
  imports Economics Cbor_Instance
begin

text \<open>
  \<open>crates/broker-economics/src/descriptor.rs\<close>: descriptors, tariffs and usage receipts, their
  canonical CBOR and their signatures. \<open>kotva_core\<close>'s CBOR and identity modules are parameters: the
  records \<open>cbor_api\<close> and \<open>identity_api\<close>. The wall clock \<open>now_ms\<close> is an argument of \<open>tariff_verify\<close>.
\<close>

section \<open>The identity module\<close>

text \<open>\<open>'k\<close> is \<open>IdentityKey\<close>; \<open>IdentityError\<close> is kept as its message. \<open>ia_suite_classical b\<close> is
  whether \<open>Suite::from_u8(b)\<close> is \<open>Some(Suite::Classical)\<close>.\<close>

record 'k identity_api =
  ia_public :: "'k \<Rightarrow> bytes"
  ia_sign :: "'k \<Rightarrow> bytes \<Rightarrow> bytes \<Rightarrow> bytes"
  ia_verify :: "bytes \<Rightarrow> bytes \<Rightarrow> bytes \<Rightarrow> bytes \<Rightarrow> string + unit"
  ia_suite_classical :: "u8 \<Rightarrow> bool"

text \<open>The documented laws: a signature verifies under its own key, domain tag and body, and suite
  \<open>0x01\<close> is the classical suite.\<close>

definition identity_laws :: "'k identity_api \<Rightarrow> bool" where
  "identity_laws ia \<longleftrightarrow>
     (\<forall>k ds body. ia_verify ia (ia_public ia k) ds body (ia_sign ia k ds body) = Inr ()) \<and>
     ia_suite_classical ia 1"

lemma identity_verify_sign:
  "identity_laws ia \<Longrightarrow> ia_verify ia (ia_public ia k) ds body (ia_sign ia k ds body) = Inr ()"
  by (simp add: identity_laws_def)

text \<open>A concrete instance for witnesses: the signature is the key, the tag and the body.\<close>

definition tag_identity :: "u8 identity_api" where
  "tag_identity = \<lparr>ia_public = (\<lambda>k. [k]), ia_sign = (\<lambda>k ds body. k # ds @ body),
     ia_verify = (\<lambda>pk ds body sig. if sig = pk @ ds @ body then Inr () else Inl ''bad signature''),
     ia_suite_classical = (\<lambda>b. b = 1)\<rparr>"

lemma tag_identity_laws: "identity_laws tag_identity"
  by (simp add: identity_laws_def tag_identity_def)

section \<open>Data\<close>

definition DESCRIPTOR_DS :: bytes where
  "DESCRIPTOR_DS = as_bytes ''DMTAP-COORD-v0/descriptor'' @ [0]"

definition TARIFF_DS :: bytes where
  "TARIFF_DS = as_bytes ''DMTAP-COORD-v0/tariff'' @ [0]"

definition USAGE_RECEIPT_DS :: bytes where
  "USAGE_RECEIPT_DS = as_bytes ''DMTAP-COORD-v0/usage-receipt'' @ [0]"

definition SUITE :: u8 where "SUITE = 0x01"

datatype descriptor_error =
    DBadSignature string
  | DBadEncoding cbor_error
  | DMalformed string
  | DUnsupportedSuite u8
  | DExpired u64 u64

record tariff =
  tf_identity :: bytes
  tf_schedule :: bytes
  tf_valid_until :: "u64 option"
  tf_sig :: bytes

record descriptor =
  d_identity :: bytes
  d_kind :: coordinator_kind
  d_visibility :: content_visibility
  d_policy :: bytes
  d_tariff :: "tariff option"

record signed_descriptor =
  sd_descriptor :: descriptor
  sd_sig :: bytes

record usage_receipt =
  ur_identity :: bytes
  ur_operation :: bytes
  ur_sig :: bytes

definition require_supported_suite :: "'f cbor_api \<Rightarrow> 'k identity_api \<Rightarrow> cv \<Rightarrow> descriptor_error + unit" where
  "require_supported_suite api ia v =
     bindE (map_err DBadEncoding (cb_as_u8 api v)) (\<lambda>b.
     if ia_suite_classical ia b then Inr () else Inl (DUnsupportedSuite b))"

text \<open>\<open>f.req(k)?\<close> followed by a typed accessor, and the field's cursor.\<close>

definition req_field :: "'f cbor_api \<Rightarrow> (cv \<Rightarrow> cbor_error + 'v) \<Rightarrow> 'f \<Rightarrow> u64 \<Rightarrow> descriptor_error + ('v \<times> 'f)" where
  "req_field api acc f k =
     bindE (map_err DBadEncoding (cb_req api f k)) (\<lambda>(v, f').
     bindE (map_err DBadEncoding (acc v)) (\<lambda>a. Inr (a, f')))"

section \<open>Visibility\<close>

definition visibility_to_cv :: "content_visibility \<Rightarrow> cv" where
  "visibility_to_cv v = CvMap [(1, CvText (class_str (cv_class v))), (2, CvText (level_str (cv_level v)))]"

definition visibility_from_cv :: "'f cbor_api \<Rightarrow> cv \<Rightarrow> descriptor_error + content_visibility" where
  "visibility_from_cv api v =
     bindE (map_err DBadEncoding (cb_fields api v)) (\<lambda>f.
     bindE (req_field api (cb_as_text api) f 1) (\<lambda>(c, f).
     bindE (ok_or (DMalformed ''unknown visibility class'') (class_from_str c)) (\<lambda>class.
     bindE (req_field api (cb_as_text api) f 2) (\<lambda>(l, f).
     bindE (ok_or (DMalformed ''unknown assurance level'') (level_from_str l)) (\<lambda>level.
     bindE (map_err DBadEncoding (cb_deny_unknown api f)) (\<lambda>_.
     Inr (content_visibility_new class level)))))))"

section \<open>Tariffs\<close>

definition opt_u64_field :: "u64 \<Rightarrow> u64 option \<Rightarrow> (u64 \<times> cv) list" where
  "opt_u64_field k n = (case n of None \<Rightarrow> [] | Some v \<Rightarrow> [(k, CvU64 v)])"

definition tariff_signing_body :: "'f cbor_api \<Rightarrow> bytes \<Rightarrow> bytes \<Rightarrow> u64 option \<Rightarrow> bytes" where
  "tariff_signing_body api identity schedule valid_until =
     cb_encode api (CvMap
       ([(1, CvU64 (ucast SUITE)), (2, CvBytes identity), (3, CvBytes schedule)]
        @ opt_u64_field 4 valid_until))"

definition tariff_sign_with_validity ::
    "'f cbor_api \<Rightarrow> 'k identity_api \<Rightarrow> bytes \<Rightarrow> u64 option \<Rightarrow> 'k \<Rightarrow> tariff" where
  "tariff_sign_with_validity api ia schedule valid_until ik =
     (let identity = ia_public ia ik;
          sig = ia_sign ia ik TARIFF_DS (tariff_signing_body api identity schedule valid_until)
      in \<lparr>tf_identity = identity, tf_schedule = schedule, tf_valid_until = valid_until, tf_sig = sig\<rparr>)"

definition tariff_sign :: "'f cbor_api \<Rightarrow> 'k identity_api \<Rightarrow> bytes \<Rightarrow> 'k \<Rightarrow> tariff" where
  "tariff_sign api ia schedule ik = tariff_sign_with_validity api ia schedule None ik"

definition tariff_verify :: "'f cbor_api \<Rightarrow> 'k identity_api \<Rightarrow> u64 \<Rightarrow> tariff \<Rightarrow> descriptor_error + unit" where
  "tariff_verify api ia now t =
     bindE (map_err DBadSignature
       (ia_verify ia (tf_identity t) TARIFF_DS
          (tariff_signing_body api (tf_identity t) (tf_schedule t) (tf_valid_until t)) (tf_sig t))) (\<lambda>_.
     case tf_valid_until t of
       None \<Rightarrow> Inr ()
     | Some valid_until \<Rightarrow> if now > valid_until then Inl (DExpired valid_until now) else Inr ())"

definition tariff_to_cv :: "tariff \<Rightarrow> cv" where
  "tariff_to_cv t = CvMap
     ([(1, CvU64 (ucast SUITE)), (2, CvBytes (tf_identity t)), (3, CvBytes (tf_schedule t))]
      @ opt_u64_field 4 (tf_valid_until t) @ [(5, CvBytes (tf_sig t))])"

definition tariff_from_cv :: "'f cbor_api \<Rightarrow> 'k identity_api \<Rightarrow> cv \<Rightarrow> descriptor_error + tariff" where
  "tariff_from_cv api ia v =
     bindE (map_err DBadEncoding (cb_fields api v)) (\<lambda>f.
     bindE (map_err DBadEncoding (cb_req api f 1)) (\<lambda>(s, f).
     bindE (require_supported_suite api ia s) (\<lambda>_.
     bindE (req_field api (cb_as_bytes api) f 2) (\<lambda>(identity, f).
     bindE (req_field api (cb_as_bytes api) f 3) (\<lambda>(schedule, f).
     bindE (map_err DBadEncoding (take_u64 api f 4)) (\<lambda>(valid_until, f).
     bindE (req_field api (cb_as_bytes api) f 5) (\<lambda>(sig, f).
     bindE (map_err DBadEncoding (cb_deny_unknown api f)) (\<lambda>_.
     Inr \<lparr>tf_identity = identity, tf_schedule = schedule, tf_valid_until = valid_until,
          tf_sig = sig\<rparr>))))))))"

section \<open>Descriptors\<close>

definition descriptor_pairs :: "descriptor \<Rightarrow> (u64 \<times> cv) list" where
  "descriptor_pairs d =
     [(1, CvU64 (ucast SUITE)), (2, CvText (kind_as_str (d_kind d))), (3, CvBytes (d_identity d)),
      (4, visibility_to_cv (d_visibility d)), (5, CvBytes (d_policy d))]
     @ (case d_tariff d of None \<Rightarrow> [] | Some t \<Rightarrow> [(6, tariff_to_cv t)])"

definition descriptor_to_cv :: "descriptor \<Rightarrow> cv" where
  "descriptor_to_cv d = CvMap (descriptor_pairs d)"

definition descriptor_from_cv :: "'f cbor_api \<Rightarrow> 'k identity_api \<Rightarrow> cv \<Rightarrow> descriptor_error + descriptor" where
  "descriptor_from_cv api ia v =
     bindE (map_err DBadEncoding (cb_fields api v)) (\<lambda>f.
     bindE (map_err DBadEncoding (cb_req api f 1)) (\<lambda>(s, f).
     bindE (require_supported_suite api ia s) (\<lambda>_.
     bindE (req_field api (cb_as_text api) f 2) (\<lambda>(k, f).
     bindE (ok_or (DMalformed ''unknown coordinator kind'') (kind_from_wire_str k)) (\<lambda>kind.
     bindE (req_field api (cb_as_bytes api) f 3) (\<lambda>(identity, f).
     bindE (map_err DBadEncoding (cb_req api f 4)) (\<lambda>(vis, f).
     bindE (visibility_from_cv api vis) (\<lambda>visibility.
     bindE (req_field api (cb_as_bytes api) f 5) (\<lambda>(policy, f).
     bindE (case cb_take api f 6 of
              (None, f) \<Rightarrow> Inr (None, f)
            | (Some t, f) \<Rightarrow> bindE (tariff_from_cv api ia t) (\<lambda>t. Inr (Some t, f))) (\<lambda>(tf, f).
     bindE (map_err DBadEncoding (cb_deny_unknown api f)) (\<lambda>_.
     Inr \<lparr>d_identity = identity, d_kind = kind, d_visibility = visibility, d_policy = policy,
          d_tariff = tf\<rparr>)))))))))))"

definition descriptor_signing_body :: "'f cbor_api \<Rightarrow> descriptor \<Rightarrow> bytes" where
  "descriptor_signing_body api d = cb_encode api (descriptor_to_cv d)"

definition descriptor_sign :: "'f cbor_api \<Rightarrow> 'k identity_api \<Rightarrow> descriptor \<Rightarrow> 'k \<Rightarrow> signed_descriptor" where
  "descriptor_sign api ia d ik =
     \<lparr>sd_descriptor = d, sd_sig = ia_sign ia ik DESCRIPTOR_DS (descriptor_signing_body api d)\<rparr>"

definition signed_verify :: "'f cbor_api \<Rightarrow> 'k identity_api \<Rightarrow> signed_descriptor \<Rightarrow> descriptor_error + unit" where
  "signed_verify api ia sd =
     map_err DBadSignature (ia_verify ia (d_identity (sd_descriptor sd)) DESCRIPTOR_DS
       (descriptor_signing_body api (sd_descriptor sd)) (sd_sig sd))"

definition det_cbor :: "'f cbor_api \<Rightarrow> signed_descriptor \<Rightarrow> bytes" where
  "det_cbor api sd = cb_encode api
     (CvMap (descriptor_pairs (sd_descriptor sd) @ [(7, CvBytes (sd_sig sd))]))"

definition from_det_cbor :: "'f cbor_api \<Rightarrow> 'k identity_api \<Rightarrow> bytes \<Rightarrow> descriptor_error + signed_descriptor" where
  "from_det_cbor api ia b =
     bindE (map_err DBadEncoding (cb_decode api b)) (\<lambda>v.
     bindE (map_err DBadEncoding (cb_fields api v)) (\<lambda>f.
     bindE (req_field api (cb_as_bytes api) f 7) (\<lambda>(sig, f).
     bindE (descriptor_from_cv api ia (CvMap (cb_into_pairs api f))) (\<lambda>d.
     let signed = \<lparr>sd_descriptor = d, sd_sig = sig\<rparr> in
     bindE (signed_verify api ia signed) (\<lambda>_. Inr signed)))))"

section \<open>Usage receipts\<close>

definition receipt_signing_body :: "'f cbor_api \<Rightarrow> bytes \<Rightarrow> bytes \<Rightarrow> bytes" where
  "receipt_signing_body api identity operation =
     cb_encode api (CvMap [(1, CvU64 (ucast SUITE)), (2, CvBytes identity), (3, CvBytes operation)])"

definition receipt_sign :: "'f cbor_api \<Rightarrow> 'k identity_api \<Rightarrow> bytes \<Rightarrow> 'k \<Rightarrow> usage_receipt" where
  "receipt_sign api ia operation ik =
     (let identity = ia_public ia ik
      in \<lparr>ur_identity = identity, ur_operation = operation,
          ur_sig = ia_sign ia ik USAGE_RECEIPT_DS (receipt_signing_body api identity operation)\<rparr>)"

definition receipt_verify :: "'f cbor_api \<Rightarrow> 'k identity_api \<Rightarrow> usage_receipt \<Rightarrow> descriptor_error + unit" where
  "receipt_verify api ia r =
     map_err DBadSignature (ia_verify ia (ur_identity r) USAGE_RECEIPT_DS
       (receipt_signing_body api (ur_identity r) (ur_operation r)) (ur_sig r))"

lemma receipt_verify_sign:
  "identity_laws ia \<Longrightarrow> receipt_verify api ia (receipt_sign api ia operation ik) = Inr ()"
  by (simp add: receipt_verify_def receipt_sign_def Let_def identity_verify_sign)

section \<open>Round trips\<close>

lemma req_text:
  assumes "cbor_laws api" and "map_of (cb_into_pairs api f) k = Some (CvText s)"
  shows "\<exists>f'. req_field api (cb_as_text api) f k = Inr (s, f')
           \<and> cb_into_pairs api f' = without_key k (cb_into_pairs api f)"
  using cbor_present [OF assms] cbor_accessors(4) [OF assms(1)] by (auto simp: req_field_def)

lemma req_bytes:
  assumes "cbor_laws api" and "map_of (cb_into_pairs api f) k = Some (CvBytes b)"
  shows "\<exists>f'. req_field api (cb_as_bytes api) f k = Inr (b, f')
           \<and> cb_into_pairs api f' = without_key k (cb_into_pairs api f)"
  using cbor_present [OF assms] cbor_accessors(3) [OF assms(1)] by (auto simp: req_field_def)

lemma cbor_fields_ex:
  assumes "cbor_laws api" and "sorted_wrt (<) (map fst m)"
  shows "\<exists>f. cb_fields api (CvMap m) = Inr f \<and> cb_into_pairs api f = m"
  using cbor_fieldsE [OF assms] by blast

lemma require_supported_suite_ok:
  "cbor_laws api \<Longrightarrow> identity_laws ia \<Longrightarrow> require_supported_suite api ia (CvU64 (ucast SUITE)) = Inr ()"
  by (simp add: require_supported_suite_def cbor_accessors SUITE_def identity_laws_def)

lemma visibility_roundtrip:
  assumes "cbor_laws api"
  shows "visibility_from_cv api (visibility_to_cv v) = Inr v"
proof -
  let ?m = "[(1 :: u64, CvText (class_str (cv_class v))), (2, CvText (level_str (cv_level v)))]"
  obtain f where f: "cb_fields api (CvMap ?m) = Inr f" "cb_into_pairs api f = ?m"
    using cbor_fields_ex [OF assms, of ?m] by auto
  obtain f1 where f1: "req_field api (cb_as_text api) f 1 = Inr (class_str (cv_class v), f1)"
      "cb_into_pairs api f1 = [(2, CvText (level_str (cv_level v)))]"
    using req_text [OF assms, of f 1] f(2) by auto
  obtain f2 where f2: "req_field api (cb_as_text api) f1 2 = Inr (level_str (cv_level v), f2)"
      "cb_into_pairs api f2 = []"
    using req_text [OF assms, of f1 2] f1(2) by auto
  show ?thesis
    using f(1) f1(1) f2
    by (simp add: visibility_from_cv_def visibility_to_cv_def class_token.dec_enc level_token.dec_enc
        cbor_deny_ok [OF assms] content_visibility_new_def)
qed

lemma tariff_roundtrip:
  assumes "cbor_laws api" and "identity_laws ia"
  shows "tariff_from_cv api ia (tariff_to_cv t) = Inr t"
proof -
  let ?rest = "opt_u64_field 4 (tf_valid_until t) @ [(5, CvBytes (tf_sig t))]"
  let ?m = "(1 :: u64, CvU64 (ucast SUITE)) # (2, CvBytes (tf_identity t)) # (3, CvBytes (tf_schedule t)) # ?rest"
  have sorted: "sorted_wrt (<) (map fst ?m)" by (simp add: opt_u64_field_def split: option.splits)
  obtain f where f: "cb_fields api (CvMap ?m) = Inr f" "cb_into_pairs api f = ?m"
    using cbor_fields_ex [OF assms(1) sorted] by blast
  obtain f1 where f1: "cb_req api f 1 = Inr (CvU64 (ucast SUITE), f1)"
      "cb_into_pairs api f1 = (2, CvBytes (tf_identity t)) # (3, CvBytes (tf_schedule t)) # ?rest"
    using cbor_present [OF assms(1), of f 1] f(2) by (auto simp: opt_u64_field_def split: option.splits)
  obtain f2 where f2: "req_field api (cb_as_bytes api) f1 2 = Inr (tf_identity t, f2)"
      "cb_into_pairs api f2 = (3, CvBytes (tf_schedule t)) # ?rest"
    using req_bytes [OF assms(1), of f1 2] f1(2) by (auto simp: opt_u64_field_def split: option.splits)
  obtain f3 where f3: "req_field api (cb_as_bytes api) f2 3 = Inr (tf_schedule t, f3)"
      "cb_into_pairs api f3 = ?rest"
    using req_bytes [OF assms(1), of f2 3] f2(2) by (auto simp: opt_u64_field_def split: option.splits)
  obtain f4 where f4: "take_u64 api f3 4 = Inr (tf_valid_until t, f4)"
      "cb_into_pairs api f4 = [(5, CvBytes (tf_sig t))]"
    using take_u64E [OF assms(1), of f3 4 "tf_valid_until t"] f3(2)
    by (auto simp: opt_u64_field_def split: option.splits)
  obtain f5 where f5: "req_field api (cb_as_bytes api) f4 5 = Inr (tf_sig t, f5)" "cb_into_pairs api f5 = []"
    using req_bytes [OF assms(1), of f4 5] f4(2) by auto
  show ?thesis
    using f(1)
    by (simp add: tariff_from_cv_def tariff_to_cv_def f1(1) f2(1) f3(1) f4(1) f5
        require_supported_suite_ok [OF assms] cbor_deny_ok [OF assms(1)])
qed

lemma descriptor_roundtrip:
  assumes "cbor_laws api" and "identity_laws ia"
  shows "descriptor_from_cv api ia (CvMap (descriptor_pairs d)) = Inr d"
proof -
  let ?rest = "case d_tariff d of None \<Rightarrow> [] | Some t \<Rightarrow> [(6 :: u64, tariff_to_cv t)]"
  let ?m = "descriptor_pairs d"
  have m: "?m = (1 :: u64, CvU64 (ucast SUITE)) # (2, CvText (kind_as_str (d_kind d)))
      # (3, CvBytes (d_identity d)) # (4, visibility_to_cv (d_visibility d)) # (5, CvBytes (d_policy d)) # ?rest"
    by (simp add: descriptor_pairs_def)
  have sorted: "sorted_wrt (<) (map fst ?m)" by (simp add: m split: option.splits)
  obtain f where f: "cb_fields api (CvMap ?m) = Inr f" "cb_into_pairs api f = ?m"
    using cbor_fields_ex [OF assms(1) sorted] by blast
  obtain f1 where f1: "cb_req api f 1 = Inr (CvU64 (ucast SUITE), f1)" "cb_into_pairs api f1 = tl ?m"
    using cbor_present [OF assms(1), of f 1] f(2) by (auto simp: m split: option.splits)
  obtain f2 where f2: "req_field api (cb_as_text api) f1 2 = Inr (kind_as_str (d_kind d), f2)"
      "cb_into_pairs api f2 = tl (tl ?m)"
    using req_text [OF assms(1), of f1 2] f1(2) by (auto simp: m split: option.splits)
  obtain f3 where f3: "req_field api (cb_as_bytes api) f2 3 = Inr (d_identity d, f3)"
      "cb_into_pairs api f3 = tl (tl (tl ?m))"
    using req_bytes [OF assms(1), of f2 3] f2(2) by (auto simp: m split: option.splits)
  obtain f4 where f4: "cb_req api f3 4 = Inr (visibility_to_cv (d_visibility d), f4)"
      "cb_into_pairs api f4 = (5, CvBytes (d_policy d)) # ?rest"
    using cbor_present [OF assms(1), of f3 4] f3(2) by (auto simp: m split: option.splits)
  obtain f5 where f5: "req_field api (cb_as_bytes api) f4 5 = Inr (d_policy d, f5)"
      "cb_into_pairs api f5 = ?rest"
    using req_bytes [OF assms(1), of f4 5] f4(2) by (auto split: option.splits)
  obtain f6 where f6: "cb_take api f5 6 = (map_option tariff_to_cv (d_tariff d), f6)" "cb_into_pairs api f6 = []"
    using cbor_takeE [OF assms(1), of f5 6] f5(2) by (auto split: option.splits)
  show ?thesis
    using f(1)
    by (cases "d_tariff d")
      (simp_all add: descriptor_from_cv_def f1(1) f2(1) f3(1) f4(1) f5(1) f6
        require_supported_suite_ok [OF assms] cbor_deny_ok [OF assms(1)] tariff_roundtrip [OF assms]
        visibility_roundtrip [OF assms(1)] kind_token.dec_enc)
qed

lemma det_tariff: "det_cv (tariff_to_cv t)"
  by (auto simp: tariff_to_cv_def opt_u64_field_def split: option.splits)

lemma det_descriptor: "det_cv (CvMap (descriptor_pairs d @ [(7, CvBytes s)]))"
  by (auto simp: descriptor_pairs_def visibility_to_cv_def det_tariff split: option.splits)

lemma descriptor_publish_parses:
  assumes "cbor_laws api" and "identity_laws ia" and "d_identity d = ia_public ia ik"
  shows "from_det_cbor api ia (det_cbor api (descriptor_sign api ia d ik)) = Inr (descriptor_sign api ia d ik)"
proof -
  let ?sd = "descriptor_sign api ia d ik"
  let ?m = "descriptor_pairs d @ [(7, CvBytes (sd_sig ?sd))]"
  have sd: "sd_descriptor ?sd = d" by (simp add: descriptor_sign_def)
  have "sorted_wrt (<) (map fst ?m)" using det_descriptor [of d] by simp
  then obtain f where f: "cb_fields api (CvMap ?m) = Inr f" "cb_into_pairs api f = ?m"
    using cbor_fields_ex [OF assms(1)] by blast
  have "map_of ?m 7 = Some (CvBytes (sd_sig ?sd))"
    by (auto simp: descriptor_pairs_def map_add_def split: option.splits)
  then obtain f' where f': "req_field api (cb_as_bytes api) f 7 = Inr (sd_sig ?sd, f')"
      "cb_into_pairs api f' = without_key 7 ?m"
    using req_bytes [OF assms(1), of f 7] f(2) by auto
  have rest: "without_key 7 ?m = descriptor_pairs d"
    by (auto simp: descriptor_pairs_def without_key_def split: option.splits)
  have "signed_verify api ia ?sd = Inr ()"
    by (simp add: signed_verify_def descriptor_sign_def assms(3) identity_verify_sign [OF assms(2)])
  then show ?thesis
    using cbor_decode_encode [OF assms(1) det_descriptor [of d "sd_sig ?sd"]] f(1) f' rest
    by (simp add: from_det_cbor_def det_cbor_def sd Let_def descriptor_roundtrip [OF assms(1,2)])
      (simp add: descriptor_sign_def)
qed

definition demo_descriptor :: descriptor where
  "demo_descriptor = \<lparr>d_identity = [7], d_kind = Gateway,
     d_visibility = content_visibility_new Terminating Declared, d_policy = [],
     d_tariff = Some (tariff_sign assoc_cbor tag_identity [1, 2] 7)\<rparr>"

lemma demo_publish:
  "from_det_cbor assoc_cbor tag_identity
     (det_cbor assoc_cbor (descriptor_sign assoc_cbor tag_identity demo_descriptor 7)) =
   Inr (descriptor_sign assoc_cbor tag_identity demo_descriptor 7)"
  by (rule descriptor_publish_parses [OF assoc_cbor_laws tag_identity_laws])
    (simp add: demo_descriptor_def tag_identity_def)

text \<open>Publishing and reading back a descriptor. Signing a descriptor with the key it names,
  encoding it and parsing the bytes gives back exactly the signed descriptor: the parser accepts
  it and its signature verifies. This covers every kind, visibility, policy and optional tariff.\<close>

theorem descriptor_publish_roundtrip:
  assumes "cbor_laws api" and "identity_laws ia" and "d_identity d = ia_public ia ik"
  shows "from_det_cbor api ia (det_cbor api (descriptor_sign api ia d ik)) = Inr (descriptor_sign api ia d ik)"
  using assms by (rule descriptor_publish_parses)

theorem descriptor_publish_roundtrip_witness:
  "from_det_cbor assoc_cbor tag_identity
     (det_cbor assoc_cbor (descriptor_sign assoc_cbor tag_identity demo_descriptor 7)) =
   Inr (descriptor_sign assoc_cbor tag_identity demo_descriptor 7)"
  by (rule descriptor_publish_roundtrip [OF assoc_cbor_laws tag_identity_laws])
    (simp add: demo_descriptor_def tag_identity_def)

text \<open>Parsing fails closed. Whatever the bytes, the CBOR library and the identity library do, a
  descriptor that the parser returns carries a signature that verifies over its own canonical
  body under the identity it names, with the descriptor domain tag.\<close>

theorem from_det_cbor_fail_closed:
  assumes "from_det_cbor api ia b = Inr sd"
  shows "ia_verify ia (d_identity (sd_descriptor sd)) DESCRIPTOR_DS
           (cb_encode api (descriptor_to_cv (sd_descriptor sd))) (sd_sig sd) = Inr ()"
  using assms
  by (auto simp: from_det_cbor_def Let_def res signed_verify_def descriptor_signing_body_def split: prod.splits)

theorem from_det_cbor_fail_closed_witness:
  "ia_verify tag_identity (d_identity demo_descriptor) DESCRIPTOR_DS
     (cb_encode assoc_cbor (descriptor_to_cv demo_descriptor))
     (sd_sig (descriptor_sign assoc_cbor tag_identity demo_descriptor 7)) = Inr ()"
  using from_det_cbor_fail_closed [OF demo_publish] by (simp add: descriptor_sign_def)

text \<open>Tariff validity. A tariff verifies exactly when its signature covers its identity, its
  schedule and its expiry, and the clock has not passed that expiry; a fresh signature verifies up
  to and including its last valid millisecond and is refused as expired afterwards.\<close>

theorem tariff_validity:
  assumes "identity_laws ia"
  shows "tariff_verify api ia now (tariff_sign_with_validity api ia s (Some until) ik) =
           (if now \<le> until then Inr () else Inl (DExpired until now))
    \<and> tariff_verify api ia now (tariff_sign api ia s ik) = Inr ()"
  by (simp add: tariff_verify_def tariff_sign_with_validity_def tariff_sign_def Let_def
      identity_verify_sign [OF assms] not_le)

theorem tariff_validity_witness:
  "tariff_verify assoc_cbor tag_identity 11 (tariff_sign_with_validity assoc_cbor tag_identity [1] (Some 10) 7)
     = Inl (DExpired 10 11)"
  using tariff_validity [OF tag_identity_laws, of assoc_cbor 11 "[1]" 10 7] by simp

end
