(* ===== verification/Billing_Receipt.thy ===== *)
theory Billing_Receipt
  imports Billing_Tariff Descriptor
begin

text \<open>
  \<open>crates/broker-billing/src/receipt.rs\<close>: the billed operation a usage receipt signs over, and the
  append-only receipt log that issues one receipt per line item of a bill.
\<close>

section \<open>Billed operations\<close>

datatype receipt_error =
    RBadEncoding cbor_error
  | RMalformed string
  | RSignature descriptor_error

record billed_operation =
  bo_payer :: bytes
  bo_kind :: resource_kind
  bo_metered_units :: u64
  bo_billed_units :: u64
  bo_amount :: u64
  bo_currency :: string
  bo_sequence :: u64

definition operation_to_cv :: "billed_operation \<Rightarrow> cv" where
  "operation_to_cv op = CvMap
     [(1, CvBytes (bo_payer op)), (2, CvU64 (wire_tag (bo_kind op))),
      (3, CvU64 (bo_metered_units op)), (4, CvU64 (bo_billed_units op)),
      (5, CvU64 (bo_amount op)), (6, CvText (bo_currency op)), (7, CvU64 (bo_sequence op))]"

definition op_field :: "'f cbor_api \<Rightarrow> (cv \<Rightarrow> cbor_error + 'v) \<Rightarrow> 'f \<Rightarrow> u64 \<Rightarrow> receipt_error + ('v \<times> 'f)" where
  "op_field api acc f k =
     bindE (map_err RBadEncoding (cb_req api f k)) (\<lambda>(v, f').
     bindE (map_err RBadEncoding (acc v)) (\<lambda>a. Inr (a, f')))"

definition operation_from_cv :: "'f cbor_api \<Rightarrow> cv \<Rightarrow> receipt_error + billed_operation" where
  "operation_from_cv api v =
     bindE (map_err RBadEncoding (cb_fields api v)) (\<lambda>f.
     bindE (op_field api (cb_as_bytes api) f 1) (\<lambda>(payer, f).
     bindE (op_field api (cb_as_u64 api) f 2) (\<lambda>(tag, f).
     bindE (ok_or (RMalformed ''unknown resource-kind wire tag'') (from_wire_tag tag)) (\<lambda>kind.
     bindE (op_field api (cb_as_u64 api) f 3) (\<lambda>(metered_units, f).
     bindE (op_field api (cb_as_u64 api) f 4) (\<lambda>(billed_units, f).
     bindE (op_field api (cb_as_u64 api) f 5) (\<lambda>(amount, f).
     bindE (op_field api (cb_as_text api) f 6) (\<lambda>(currency, f).
     bindE (op_field api (cb_as_u64 api) f 7) (\<lambda>(seq, f).
     bindE (map_err RBadEncoding (cb_deny_unknown api f)) (\<lambda>_.
     Inr \<lparr>bo_payer = payer, bo_kind = kind, bo_metered_units = metered_units,
          bo_billed_units = billed_units, bo_amount = amount, bo_currency = currency,
          bo_sequence = seq\<rparr>))))))))))"

definition operation_to_cbor :: "'f cbor_api \<Rightarrow> billed_operation \<Rightarrow> bytes" where
  "operation_to_cbor api op = cb_encode api (operation_to_cv op)"

definition operation_sign :: "'f cbor_api \<Rightarrow> 'k identity_api \<Rightarrow> billed_operation \<Rightarrow> 'k \<Rightarrow> usage_receipt" where
  "operation_sign api ia op ik = receipt_sign api ia (operation_to_cbor api op) ik"

definition operation_from_receipt :: "'f cbor_api \<Rightarrow> usage_receipt \<Rightarrow> receipt_error + billed_operation" where
  "operation_from_receipt api r =
     bindE (map_err RBadEncoding (cb_decode api (ur_operation r))) (operation_from_cv api)"

lemma op_u64:
  assumes "cbor_laws api" and "map_of (cb_into_pairs api f) k = Some (CvU64 n)"
  shows "\<exists>f'. op_field api (cb_as_u64 api) f k = Inr (n, f')
           \<and> cb_into_pairs api f' = without_key k (cb_into_pairs api f)"
  using cbor_present [OF assms] cbor_accessors(1) [OF assms(1)] by (auto simp: op_field_def)

lemma op_text:
  assumes "cbor_laws api" and "map_of (cb_into_pairs api f) k = Some (CvText s)"
  shows "\<exists>f'. op_field api (cb_as_text api) f k = Inr (s, f')
           \<and> cb_into_pairs api f' = without_key k (cb_into_pairs api f)"
  using cbor_present [OF assms] cbor_accessors(4) [OF assms(1)] by (auto simp: op_field_def)

lemma op_bytes:
  assumes "cbor_laws api" and "map_of (cb_into_pairs api f) k = Some (CvBytes b)"
  shows "\<exists>f'. op_field api (cb_as_bytes api) f k = Inr (b, f')
           \<and> cb_into_pairs api f' = without_key k (cb_into_pairs api f)"
  using cbor_present [OF assms] cbor_accessors(3) [OF assms(1)] by (auto simp: op_field_def)

lemma operation_from_cv_to_cv:
  assumes "cbor_laws api"
  shows "operation_from_cv api (operation_to_cv op) = Inr op"
proof -
  let ?m = "[(1 :: u64, CvBytes (bo_payer op)), (2, CvU64 (wire_tag (bo_kind op))),
      (3, CvU64 (bo_metered_units op)), (4, CvU64 (bo_billed_units op)),
      (5, CvU64 (bo_amount op)), (6, CvText (bo_currency op)), (7, CvU64 (bo_sequence op))]"
  obtain f where f: "cb_fields api (CvMap ?m) = Inr f" "cb_into_pairs api f = ?m"
    using cbor_fields_ex [OF assms, of ?m] by auto
  obtain f1 where f1: "op_field api (cb_as_bytes api) f 1 = Inr (bo_payer op, f1)"
      "cb_into_pairs api f1 = drop 1 ?m"
    using op_bytes [OF assms, of f 1] f(2) by auto
  obtain f2 where f2: "op_field api (cb_as_u64 api) f1 2 = Inr (wire_tag (bo_kind op), f2)"
      "cb_into_pairs api f2 = drop 2 ?m"
    using op_u64 [OF assms, of f1 2] f1(2) by auto
  obtain f3 where f3: "op_field api (cb_as_u64 api) f2 3 = Inr (bo_metered_units op, f3)"
      "cb_into_pairs api f3 = drop 3 ?m"
    using op_u64 [OF assms, of f2 3] f2(2) by auto
  obtain f4 where f4: "op_field api (cb_as_u64 api) f3 4 = Inr (bo_billed_units op, f4)"
      "cb_into_pairs api f4 = drop 4 ?m"
    using op_u64 [OF assms, of f3 4] f3(2) by auto
  obtain f5 where f5: "op_field api (cb_as_u64 api) f4 5 = Inr (bo_amount op, f5)"
      "cb_into_pairs api f5 = drop 5 ?m"
    using op_u64 [OF assms, of f4 5] f4(2) by auto
  obtain f6 where f6: "op_field api (cb_as_text api) f5 6 = Inr (bo_currency op, f6)"
      "cb_into_pairs api f6 = drop 6 ?m"
    using op_text [OF assms, of f5 6] f5(2) by auto
  obtain f7 where f7: "op_field api (cb_as_u64 api) f6 7 = Inr (bo_sequence op, f7)"
      "cb_into_pairs api f7 = []"
    using op_u64 [OF assms, of f6 7] f6(2) by auto
  show ?thesis
    by (simp add: operation_from_cv_def operation_to_cv_def f(1) f1(1) f2(1) f3(1) f4(1) f5(1) f6(1) f7
        kind_codec.dec_enc cbor_deny_ok [OF assms])
qed

lemma operation_from_sign:
  assumes "cbor_laws api"
  shows "operation_from_receipt api (operation_sign api ia op ik) = Inr op"
proof -
  have "det_cv (operation_to_cv op)" by (simp add: operation_to_cv_def)
  then show ?thesis
    by (simp add: operation_from_receipt_def operation_sign_def receipt_sign_def Let_def
        operation_to_cbor_def cbor_decode_encode [OF assms] operation_from_cv_to_cv [OF assms])
qed

section \<open>The receipt log\<close>

record receipt_log =
  rl_receipts :: "usage_receipt list"
  rl_next_sequence :: u64

definition log_new :: receipt_log where
  "log_new = \<lparr>rl_receipts = [], rl_next_sequence = 0\<rparr>"

definition operation_for :: "bytes \<Rightarrow> string \<Rightarrow> line_item \<Rightarrow> u64 \<Rightarrow> billed_operation" where
  "operation_for payer currency item seq =
     \<lparr>bo_payer = payer, bo_kind = li_kind item, bo_metered_units = li_metered_units item,
      bo_billed_units = li_billed_units item, bo_amount = li_amount item, bo_currency = currency,
      bo_sequence = seq\<rparr>"

fun issue_items :: "'f cbor_api \<Rightarrow> 'k identity_api \<Rightarrow> bytes \<Rightarrow> string \<Rightarrow> 'k \<Rightarrow> line_item list
    \<Rightarrow> receipt_log \<Rightarrow> usage_receipt list \<times> receipt_log" where
  "issue_items api ia payer currency ik [] log = ([], log)"
| "issue_items api ia payer currency ik (item # items) log =
     (let op = operation_for payer currency item (rl_next_sequence log);
          receipt = operation_sign api ia op ik;
          log1 = log\<lparr>rl_next_sequence := rl_next_sequence log + 1,
                     rl_receipts := rl_receipts log @ [receipt]\<rparr>;
          (rest, log2) = issue_items api ia payer currency ik items log1
      in (receipt # rest, log2))"

definition issue_for_bill :: "'f cbor_api \<Rightarrow> 'k identity_api \<Rightarrow> receipt_log \<Rightarrow> bytes \<Rightarrow> bill \<Rightarrow> 'k
    \<Rightarrow> usage_receipt list \<times> receipt_log" where
  "issue_for_bill api ia log payer bill ik =
     issue_items api ia payer (bill_currency bill) ik (bill_line_items bill) log"

definition issue :: "'f cbor_api \<Rightarrow> 'k identity_api \<Rightarrow> receipt_log \<Rightarrow> billed_operation \<Rightarrow> 'k
    \<Rightarrow> usage_receipt \<times> receipt_log" where
  "issue api ia log op ik =
     (let receipt = operation_sign api ia op ik
      in (receipt, log\<lparr>rl_receipts := rl_receipts log @ [receipt]\<rparr>))"

fun verify_receipts :: "'f cbor_api \<Rightarrow> 'k identity_api \<Rightarrow> usage_receipt list \<Rightarrow> descriptor_error + unit" where
  "verify_receipts api ia [] = Inr ()"
| "verify_receipts api ia (r # rs) = bindE (receipt_verify api ia r) (\<lambda>_. verify_receipts api ia rs)"

definition verify_all :: "'f cbor_api \<Rightarrow> 'k identity_api \<Rightarrow> receipt_log \<Rightarrow> descriptor_error + unit" where
  "verify_all api ia log = verify_receipts api ia (rl_receipts log)"

lemma verify_receipts_append:
  "verify_receipts api ia (xs @ ys) = bindE (verify_receipts api ia xs) (\<lambda>_. verify_receipts api ia ys)"
proof (induction xs)
  case (Cons r xs)
  then show ?case by (cases "receipt_verify api ia r") simp_all
qed simp

lemma verify_signed:
  "identity_laws ia \<Longrightarrow> receipt_verify api ia (operation_sign api ia op ik) = Inr ()"
  by (simp add: operation_sign_def receipt_verify_sign)

lemma issue_items_spec:
  "issue_items api ia payer currency ik items log =
     (let ops = map (\<lambda>(i, item). operation_for payer currency item (rl_next_sequence log + of_nat i))
                  (enumerate 0 items);
          rs = map (\<lambda>op. operation_sign api ia op ik) ops
      in (rs, log\<lparr>rl_receipts := rl_receipts log @ rs,
                  rl_next_sequence := rl_next_sequence log + of_nat (length items)\<rparr>))"
proof (induction items arbitrary: log)
  case (Cons item items)
  have shift: "enumerate (Suc 0) items = map (\<lambda>(i, x). (Suc i, x)) (enumerate 0 items)"
    by (simp add: enumerate_eq_zip map_Suc_upt [symmetric] zip_map1 del: upt_Suc)
  show ?case
    by (simp add: Cons.IH Let_def shift comp_def case_prod_unfold add.assoc)
qed simp

text \<open>Receipts for a bill. Issuing returns one receipt per line item, in order; each verifies
  under the coordinator's key and decodes to the operation with that line's kind, units and amount,
  the payer, the bill's currency and consecutive sequence numbers from the log's counter. The log
  grows by exactly those receipts and a log that verified still verifies.\<close>

theorem issue_for_bill_spec:
  assumes "cbor_laws api" and "identity_laws ia" and "verify_all api ia log = Inr ()"
  shows "let (rs, log') = issue_for_bill api ia log payer bill ik in
     map (operation_from_receipt api) rs
       = map (\<lambda>(i, item). Inr (operation_for payer (bill_currency bill) item (rl_next_sequence log + of_nat i)))
           (enumerate 0 (bill_line_items bill))
     \<and> list_all (\<lambda>r. ur_identity r = ia_public ia ik \<and> receipt_verify api ia r = Inr ()) rs
     \<and> rl_receipts log' = rl_receipts log @ rs
     \<and> rl_next_sequence log' = rl_next_sequence log + of_nat (length (bill_line_items bill))
     \<and> verify_all api ia log' = Inr ()"
proof -
  have ver: "verify_receipts api ia (map (\<lambda>x. operation_sign api ia (g x) ik) xs) = Inr ()"
    for g :: "nat \<times> line_item \<Rightarrow> billed_operation" and xs
    by (induction xs) (simp_all add: verify_signed [OF assms(2)])
  have id: "ur_identity (operation_sign api ia op ik) = ia_public ia ik" for op
    by (simp add: operation_sign_def receipt_sign_def Let_def)
  show ?thesis
    using assms(3) ver
    by (simp add: issue_for_bill_def issue_items_spec Let_def list_all_iff comp_def case_prod_unfold
        operation_from_sign [OF assms(1)] verify_signed [OF assms(2)] id verify_all_def verify_receipts_append
        del: enumerate_simps)
qed

theorem issue_for_bill_spec_witness:
  "map (operation_from_receipt assoc_cbor)
     (fst (issue_for_bill assoc_cbor tag_identity log_new [9]
        \<lparr>bill_currency = ''USD'', bill_amount = 15, bill_line_items =
          [\<lparr>li_kind = Messages, li_metered_units = 15, li_free_units_applied = 10,
            li_billed_units = 5, li_unit_price = 3, li_amount = 15\<rparr>]\<rparr> 7))
   = [Inr \<lparr>bo_payer = [9], bo_kind = Messages, bo_metered_units = 15, bo_billed_units = 5,
           bo_amount = 15, bo_currency = ''USD'', bo_sequence = 0\<rparr>]"
  using issue_for_bill_spec [OF assoc_cbor_laws tag_identity_laws, of log_new "[9]"
      "\<lparr>bill_currency = ''USD'', bill_amount = 15, bill_line_items =
          [\<lparr>li_kind = Messages, li_metered_units = 15, li_free_units_applied = 10,
            li_billed_units = 5, li_unit_price = 3, li_amount = 15\<rparr>]\<rparr>" 7]
  by (auto simp: verify_all_def log_new_def Let_def case_prod_unfold operation_for_def)

text \<open>The audit is one-directional. A receipt for any operation at all, metered or not, that
  the coordinator signs verifies and decodes like a receipt for a real one: verification proves
  the claim was signed, not that it is true.\<close>

theorem fabricated_receipt_verifies:
  assumes "cbor_laws api" and "identity_laws ia"
  shows "receipt_verify api ia (fst (issue api ia log op ik)) = Inr ()
    \<and> operation_from_receipt api (fst (issue api ia log op ik)) = Inr op
    \<and> rl_next_sequence (snd (issue api ia log op ik)) = rl_next_sequence log"
  by (simp add: issue_def Let_def verify_signed [OF assms(2)] operation_from_sign [OF assms(1)])

theorem fabricated_receipt_verifies_witness:
  "receipt_verify assoc_cbor tag_identity (fst (issue assoc_cbor tag_identity log_new
     \<lparr>bo_payer = [9], bo_kind = Messages, bo_metered_units = 0, bo_billed_units = 0,
      bo_amount = 99, bo_currency = ''USD'', bo_sequence = 0\<rparr> 7)) = Inr ()"
  using fabricated_receipt_verifies [OF assoc_cbor_laws tag_identity_laws] by simp

end
