(* ===== verification/Billing_Prepaid.thy ===== *)
theory Billing_Prepaid
  imports Billing_Receipt
begin

text \<open>
  \<open>crates/broker-billing/src/prepaid.rs\<close>: the prepaid credit ledger. Every method is a function on
  \<open>prepaid_ledger\<close>; an \<open>expect\<close> that would panic is the value \<open>None\<close>. A step of
  \<open>ledger_step\<close> is a whole method call. The source checks and changes a balance under one lock and appends the record of the
  change under another, so that between the two a concurrent reader can see a balance whose record is still to
  come; these intermediate states are not modelled. The locale \<open>credit_book\<close> is the contract of idempotent crediting, shared with the
  patala settlement rail.
\<close>

section \<open>Data\<close>

datatype billing_state = BOk | BLowBalance | BExhausted

datatype prepaid_error =
    PCurrencyMismatch string string
  | PExhausted bytes u64 u64 string
  | PRefundExceedsBalance bytes u64 u64

record top_up_record =
  tu_payer :: bytes
  tu_amount :: u64
  tu_currency :: string
  tu_funding_ref :: string
  tu_tx_seq :: u64

record debit_record =
  db_payer :: bytes
  db_amount :: u64
  db_currency :: string
  db_tx_seq :: u64

record refund_record =
  rf_payer :: bytes
  rf_amount :: u64
  rf_currency :: string
  rf_tx_seq :: u64

record credit_account =
  ca_payer :: bytes
  ca_currency :: string
  ca_balance :: u64
  ca_low_balance_threshold :: u64

record prepaid_ledger =
  pl_currency :: string
  pl_low_balance_threshold :: u64
  pl_balances :: "bytes \<rightharpoonup> u64"
  pl_top_ups :: "top_up_record list"
  pl_debits :: "debit_record list"
  pl_refunds :: "refund_record list"
  pl_next_tx_seq :: u64
  pl_credited_refs :: "string set"

section \<open>Operations\<close>

definition account_state :: "credit_account \<Rightarrow> billing_state" where
  "account_state a =
     (if ca_balance a = 0 then BExhausted
      else if ca_balance a \<le> ca_low_balance_threshold a then BLowBalance
      else BOk)"

definition ledger_new :: "string \<Rightarrow> u64 \<Rightarrow> prepaid_ledger" where
  "ledger_new currency threshold =
     \<lparr>pl_currency = currency, pl_low_balance_threshold = threshold, pl_balances = Map.empty,
      pl_top_ups = [], pl_debits = [], pl_refunds = [], pl_next_tx_seq = 0, pl_credited_refs = {}\<rparr>"

definition next_seq :: "prepaid_ledger \<Rightarrow> u64 \<times> prepaid_ledger" where
  "next_seq l = (pl_next_tx_seq l, l\<lparr>pl_next_tx_seq := pl_next_tx_seq l + 1\<rparr>)"

definition top_up :: "prepaid_ledger \<Rightarrow> bytes \<Rightarrow> u64 \<Rightarrow> string \<Rightarrow> (top_up_record \<times> prepaid_ledger) option" where
  "top_up l payer amount fref =
     (if fref \<in> pl_credited_refs l
      then map_option (\<lambda>r. (r, l)) (find (\<lambda>r. tu_funding_ref r = fref) (pl_top_ups l))
      else
        (let l1 = l\<lparr>pl_balances := (pl_balances l)(payer \<mapsto> sat_add (get_or 0 (pl_balances l) payer) amount)\<rparr>;
             (seq, l2) = next_seq l1;
             rec = \<lparr>tu_payer = payer, tu_amount = amount, tu_currency = pl_currency l,
                    tu_funding_ref = fref, tu_tx_seq = seq\<rparr>
         in Some (rec, l2\<lparr>pl_top_ups := pl_top_ups l2 @ [rec],
                          pl_credited_refs := insert fref (pl_credited_refs l2)\<rparr>)))"

definition balance :: "prepaid_ledger \<Rightarrow> bytes \<Rightarrow> u64" where
  "balance l payer = get_or 0 (pl_balances l) payer"

definition account :: "prepaid_ledger \<Rightarrow> bytes \<Rightarrow> credit_account" where
  "account l payer = \<lparr>ca_payer = payer, ca_currency = pl_currency l, ca_balance = balance l payer,
     ca_low_balance_threshold = pl_low_balance_threshold l\<rparr>"

definition payer_state :: "prepaid_ledger \<Rightarrow> bytes \<Rightarrow> billing_state" where
  "payer_state l payer = account_state (account l payer)"

definition debit :: "prepaid_ledger \<Rightarrow> bytes \<Rightarrow> bill \<Rightarrow> prepaid_error + (debit_record \<times> prepaid_ledger)" where
  "debit l payer bill =
     (if bill_currency bill \<noteq> pl_currency l
      then Inl (PCurrencyMismatch (bill_currency bill) (pl_currency l))
      else
        (let bal = get_or 0 (pl_balances l) payer in
         if bal < bill_amount bill
         then Inl (PExhausted payer bal (bill_amount bill) (pl_currency l))
         else
           (let l1 = l\<lparr>pl_balances := (pl_balances l)(payer \<mapsto> bal - bill_amount bill)\<rparr>;
                (seq, l2) = next_seq l1;
                rec = \<lparr>db_payer = payer, db_amount = bill_amount bill, db_currency = pl_currency l,
                       db_tx_seq = seq\<rparr>
            in Inr (rec, l2\<lparr>pl_debits := pl_debits l2 @ [rec]\<rparr>))))"

definition debit_and_receipt :: "'f cbor_api \<Rightarrow> 'k identity_api \<Rightarrow> prepaid_ledger \<Rightarrow> bytes \<Rightarrow> bill
    \<Rightarrow> receipt_log \<Rightarrow> 'k
    \<Rightarrow> prepaid_error + ((debit_record \<times> usage_receipt list) \<times> prepaid_ledger \<times> receipt_log)" where
  "debit_and_receipt api ia l payer bill log ik =
     bindE (debit l payer bill) (\<lambda>(rec, l').
     let (receipts, log') = issue_for_bill api ia log payer bill ik
     in Inr ((rec, receipts), l', log'))"

definition refund :: "prepaid_ledger \<Rightarrow> bytes \<Rightarrow> u64 \<Rightarrow> prepaid_error + (refund_record \<times> prepaid_ledger)" where
  "refund l payer amount =
     (let bal = get_or 0 (pl_balances l) payer in
      if amount > bal then Inl (PRefundExceedsBalance payer amount bal)
      else
        (let l1 = l\<lparr>pl_balances := (pl_balances l)(payer \<mapsto> bal - amount)\<rparr>;
             (seq, l2) = next_seq l1;
             rec = \<lparr>rf_payer = payer, rf_amount = amount, rf_currency = pl_currency l, rf_tx_seq = seq\<rparr>
         in Inr (rec, l2\<lparr>pl_refunds := pl_refunds l2 @ [rec]\<rparr>)))"

section \<open>Idempotent crediting\<close>

locale credit_book =
  fixes credit :: "'s \<Rightarrow> bytes \<Rightarrow> u64 \<Rightarrow> string \<Rightarrow> 's"
    and credited :: "'s \<Rightarrow> string set"
    and bal :: "'s \<Rightarrow> bytes \<Rightarrow> u64"
  assumes credit_known: "ref \<in> credited s \<Longrightarrow> credit s p n ref = s"
    and credit_new_bal: "ref \<notin> credited s \<Longrightarrow>
        bal (credit s p n ref) q = (if q = p then sat_add (bal s p) n else bal s q)"
    and credit_new_ref: "ref \<notin> credited s \<Longrightarrow> credited (credit s p n ref) = insert ref (credited s)"
begin

definition credit_all :: "'s \<Rightarrow> (bytes \<times> u64 \<times> string) list \<Rightarrow> 's" where
  "credit_all s evs = foldl (\<lambda>s (p, n, ref). credit s p n ref) s evs"

lemma credit_all_simps [simp]:
  "credit_all s [] = s" "credit_all s ((p, n, ref) # evs) = credit_all (credit s p n ref) evs"
  by (simp_all add: credit_all_def)

lemma credited_credit: "credited (credit s p n ref) = insert ref (credited s)"
  by (cases "ref \<in> credited s") (auto simp: credit_known credit_new_ref)

lemma credited_credit_all: "credited (credit_all s evs) = credited s \<union> (snd \<circ> snd) ` set evs"
  by (induction evs arbitrary: s) (force simp: credited_credit)+

text \<open>Replaying confirmations that were already credited changes nothing.\<close>

lemma replay_noop: "(snd \<circ> snd) ` set evs \<subseteq> credited s \<Longrightarrow> credit_all s evs = s"
  by (induction evs arbitrary: s) (auto simp: credit_known)

lemma replay_twice: "credit_all s (evs @ evs) = credit_all s evs"
proof -
  have "credit_all s (evs @ evs) = credit_all (credit_all s evs) evs"
    by (simp add: credit_all_def)
  also have "\<dots> = credit_all s evs"
    by (rule replay_noop) (simp add: credited_credit_all)
  finally show ?thesis .
qed

text \<open>With distinct fresh references, every credit counts once.\<close>

lemma credit_all_total:
  assumes "distinct (map (snd \<circ> snd) evs)" and "(snd \<circ> snd) ` set evs \<inter> credited s = {}"
  shows "unat (bal (credit_all s evs) q) =
    min (unat (bal s q) + (\<Sum>(p, n, ref) \<leftarrow> evs. if p = q then unat n else 0)) (2 ^ 64 - 1)"
  using assms
proof (induction evs arbitrary: s)
  case Nil
  then show ?case using unat_le_max [of "bal s q"] by simp
next
  case (Cons e evs)
  obtain p n ref where e: "e = (p, n, ref)" by (cases e)
  from Cons.prems e have "ref \<notin> credited s" by auto
  moreover from Cons.prems e have "ref \<notin> (snd \<circ> snd) ` set evs" by auto
  ultimately show ?case
    using Cons.IH [of "credit s p n ref"] Cons.prems e
    by (auto simp: credit_new_bal credited_credit unat_sat_add add.assoc)
qed

end

section \<open>The ledger as a state machine\<close>

definition top_up_state :: "prepaid_ledger \<Rightarrow> bytes \<Rightarrow> u64 \<Rightarrow> string \<Rightarrow> prepaid_ledger" where
  "top_up_state l payer amount fref =
     (case top_up l payer amount fref of None \<Rightarrow> l | Some (_, l') \<Rightarrow> l')"

interpretation prepaid: credit_book top_up_state pl_credited_refs balance
  by unfold_locales
    (auto simp: top_up_state_def top_up_def balance_def next_seq_def Let_def split: option.splits)

inductive ledger_step :: "prepaid_ledger \<Rightarrow> prepaid_ledger \<Rightarrow> bool" where
  step_top_up: "top_up l payer amount fref = Some (r, l') \<Longrightarrow> ledger_step l l'"
| step_debit: "debit l payer bill = Inr (d, l') \<Longrightarrow> ledger_step l l'"
| step_refund: "refund l payer amount = Inr (r, l') \<Longrightarrow> ledger_step l l'"

inductive ledger_reach :: "prepaid_ledger \<Rightarrow> bool" where
  reach_new: "ledger_reach (ledger_new currency threshold)"
| reach_step: "ledger_reach l \<Longrightarrow> ledger_step l l' \<Longrightarrow> ledger_reach l'"

inductive_cases ledger_stepE: "ledger_step l l'"

definition paid_in :: "prepaid_ledger \<Rightarrow> bytes \<Rightarrow> nat" where
  "paid_in l p = (\<Sum>r \<leftarrow> pl_top_ups l. if tu_payer r = p then unat (tu_amount r) else 0)"

definition debited :: "prepaid_ledger \<Rightarrow> bytes \<Rightarrow> nat" where
  "debited l p = (\<Sum>r \<leftarrow> pl_debits l. if db_payer r = p then unat (db_amount r) else 0)"

definition refunded :: "prepaid_ledger \<Rightarrow> bytes \<Rightarrow> nat" where
  "refunded l p = (\<Sum>r \<leftarrow> pl_refunds l. if rf_payer r = p then unat (rf_amount r) else 0)"

definition tx_count :: "prepaid_ledger \<Rightarrow> nat" where
  "tx_count l = length (pl_top_ups l) + length (pl_debits l) + length (pl_refunds l)"

definition tx_seqs :: "prepaid_ledger \<Rightarrow> u64 list" where
  "tx_seqs l = map tu_tx_seq (pl_top_ups l) @ map db_tx_seq (pl_debits l) @ map rf_tx_seq (pl_refunds l)"

text \<open>The invariant: what a payer holds, has spent and was refunded never exceeds what was paid in,
  and equals it unless a top-up saturated; the credited references are those of the top-up records,
  each once; sequence numbers count the transactions.\<close>

definition ledger_inv :: "prepaid_ledger \<Rightarrow> bool" where
  "ledger_inv l \<longleftrightarrow>
     (\<forall>p. unat (balance l p) + debited l p + refunded l p \<le> paid_in l p) \<and>
     (\<forall>p. paid_in l p < 2 ^ 64 \<longrightarrow> unat (balance l p) + debited l p + refunded l p = paid_in l p) \<and>
     pl_credited_refs l = tu_funding_ref ` set (pl_top_ups l) \<and>
     distinct (map tu_funding_ref (pl_top_ups l)) \<and>
     pl_next_tx_seq l = of_nat (tx_count l) \<and>
     set (tx_seqs l) = of_nat ` {0..<tx_count l}"

lemmas ledger_totals = paid_in_def debited_def refunded_def tx_count_def tx_seqs_def balance_def

lemma ledger_inv_new: "ledger_inv (ledger_new c t)"
  by (simp add: ledger_inv_def ledger_new_def ledger_totals)

lemma of_nat_upto_Suc: "of_nat ` {0..<Suc n} = insert (of_nat n) (of_nat ` {0..<n})"
  by (auto simp: lessThan_Suc atLeast0LessThan)

lemma top_up_new:
  assumes "fref \<notin> pl_credited_refs l"
  shows "top_up l payer amount fref =
    (let rec = \<lparr>tu_payer = payer, tu_amount = amount, tu_currency = pl_currency l,
                tu_funding_ref = fref, tu_tx_seq = pl_next_tx_seq l\<rparr>
     in Some (rec, l\<lparr>pl_balances := (pl_balances l)(payer \<mapsto> sat_add (balance l payer) amount),
          pl_next_tx_seq := pl_next_tx_seq l + 1, pl_top_ups := pl_top_ups l @ [rec],
          pl_credited_refs := insert fref (pl_credited_refs l)\<rparr>))"
  using assms by (simp add: top_up_def next_seq_def Let_def balance_def)

lemma ledger_inv_top_up:
  assumes inv: "ledger_inv l" and step: "top_up l payer amount fref = Some (r, l')"
  shows "ledger_inv l'"
proof (cases "fref \<in> pl_credited_refs l")
  case True
  with step have "l' = l" by (auto simp: top_up_def)
  with inv show ?thesis by simp
next
  case False
  let ?b = "sat_add (balance l payer) amount"
  from step top_up_new [OF False] have l': "l' = l\<lparr>pl_balances := (pl_balances l)(payer \<mapsto> ?b),
      pl_next_tx_seq := pl_next_tx_seq l + 1,
      pl_top_ups := pl_top_ups l @ [\<lparr>tu_payer = payer, tu_amount = amount, tu_currency = pl_currency l,
                tu_funding_ref = fref, tu_tx_seq = pl_next_tx_seq l\<rparr>],
      pl_credited_refs := insert fref (pl_credited_refs l)\<rparr>"
    by (auto simp: Let_def)
  have bal: "balance l' p = (if p = payer then ?b else balance l p)" for p
    by (simp add: l' balance_def)
  have paid: "paid_in l' p = paid_in l p + (if p = payer then unat amount else 0)" for p
    by (simp add: l' paid_in_def)
  have rest: "debited l' p = debited l p" "refunded l' p = refunded l p" for p
    by (simp_all add: l' debited_def refunded_def)
  have le: "unat (balance l p) + debited l p + refunded l p \<le> paid_in l p"
    and eq: "paid_in l p < 2 ^ 64 \<Longrightarrow> unat (balance l p) + debited l p + refunded l p = paid_in l p" for p
    using inv by (auto simp: ledger_inv_def)
  have b: "unat ?b = min (unat (balance l payer) + unat amount) (2 ^ 64 - 1)"
    by (simp add: unat_sat_add)
  have "unat (balance l' p) + debited l' p + refunded l' p \<le> paid_in l' p" for p
    using le [of p] b by (auto simp: bal paid rest)
  moreover have "unat (balance l' p) + debited l' p + refunded l' p = paid_in l' p"
    if "paid_in l' p < 2 ^ 64" for p
    using le [of p] eq [of p] b that by (auto simp: bal paid rest split: if_splits)
  moreover have "tx_count l' = Suc (tx_count l)" "set (tx_seqs l') = insert (pl_next_tx_seq l) (set (tx_seqs l))"
    by (auto simp: l' tx_count_def tx_seqs_def)
  moreover have "pl_credited_refs l' = tu_funding_ref ` set (pl_top_ups l')"
    "distinct (map tu_funding_ref (pl_top_ups l'))"
    using inv False by (auto simp: l' ledger_inv_def)
  ultimately show ?thesis
    using inv by (simp add: ledger_inv_def of_nat_upto_Suc l')
qed

text \<open>The shared argument for a debit and a refund: an amount within the balance moves from the
  balance to the spent totals.\<close>

lemma ledger_inv_spend:
  assumes inv: "ledger_inv l" and amount: "amount \<le> balance l payer"
    and bal: "\<And>p. balance l' p = (if p = payer then balance l payer - amount else balance l p)"
    and spent: "\<And>p. debited l' p + refunded l' p
                     = debited l p + refunded l p + (if p = payer then unat amount else 0)"
    and frame: "pl_top_ups l' = pl_top_ups l" "pl_credited_refs l' = pl_credited_refs l"
    and seq: "pl_next_tx_seq l' = pl_next_tx_seq l + 1" "tx_count l' = Suc (tx_count l)"
      "set (tx_seqs l') = insert (pl_next_tx_seq l) (set (tx_seqs l))"
  shows "ledger_inv l'"
proof -
  have paid: "paid_in l' p = paid_in l p" for p
    by (simp add: paid_in_def frame)
  have "unat (balance l payer - amount) + unat amount = unat (balance l payer)"
    using amount by (simp add: unat_sub_le word_le_nat_alt)
  then have "unat (balance l' p) + debited l' p + refunded l' p
      = unat (balance l p) + debited l p + refunded l p" for p
    using spent [of p] by (auto simp: bal)
  then show ?thesis
    using inv by (simp add: ledger_inv_def paid frame seq of_nat_upto_Suc)
qed

lemma debit_ok:
  assumes "debit l payer bill = Inr (d, l')"
  shows "bill_currency bill = pl_currency l" and "bill_amount bill \<le> balance l payer"
    and "d = \<lparr>db_payer = payer, db_amount = bill_amount bill, db_currency = pl_currency l,
              db_tx_seq = pl_next_tx_seq l\<rparr>"
    and "l' = l\<lparr>pl_balances := (pl_balances l)(payer \<mapsto> balance l payer - bill_amount bill),
               pl_next_tx_seq := pl_next_tx_seq l + 1, pl_debits := pl_debits l @ [d]\<rparr>"
  using assms by (auto simp: debit_def Let_def next_seq_def balance_def split: if_splits)

lemma debit_balance:
  assumes "debit l payer bill = Inr (d, l')"
  shows "unat (balance l' payer) + unat (bill_amount bill) = unat (balance l payer)"
    and "q \<noteq> payer \<Longrightarrow> balance l' q = balance l q"
  using debit_ok [OF assms] by (simp_all add: balance_def unat_sub_le word_le_nat_alt)

lemma debit_refused:
  assumes "debit l payer bill = Inl err"
  shows "bill_currency bill \<noteq> pl_currency l \<or> unat (balance l payer) < unat (bill_amount bill)"
  using assms by (auto simp: debit_def Let_def next_seq_def balance_def word_less_nat_alt split: if_splits)

lemma refund_ok:
  assumes "refund l payer amount = Inr (r, l')"
  shows "amount \<le> balance l payer"
    and "r = \<lparr>rf_payer = payer, rf_amount = amount, rf_currency = pl_currency l, rf_tx_seq = pl_next_tx_seq l\<rparr>"
    and "l' = l\<lparr>pl_balances := (pl_balances l)(payer \<mapsto> balance l payer - amount),
               pl_next_tx_seq := pl_next_tx_seq l + 1, pl_refunds := pl_refunds l @ [r]\<rparr>"
  using assms by (auto simp: refund_def Let_def next_seq_def balance_def split: if_splits)

lemma ledger_inv_debit:
  assumes "ledger_inv l" and "debit l payer bill = Inr (d, l')"
  shows "ledger_inv l'"
  using assms(1) debit_ok(2) [OF assms(2)]
  by (rule ledger_inv_spend)
    (auto simp: debit_ok(3,4) [OF assms(2)] ledger_totals)

lemma ledger_inv_refund:
  assumes "ledger_inv l" and "refund l payer amount = Inr (r, l')"
  shows "ledger_inv l'"
  using assms(1) refund_ok(1) [OF assms(2)]
  by (rule ledger_inv_spend)
    (auto simp: refund_ok(2,3) [OF assms(2)] ledger_totals)

lemma ledger_step_inv: "ledger_step l l' \<Longrightarrow> ledger_inv l \<Longrightarrow> ledger_inv l'"
  by (auto elim!: ledger_stepE intro: ledger_inv_top_up ledger_inv_debit ledger_inv_refund)

lemma ledger_reach_inv: "ledger_reach l \<Longrightarrow> ledger_inv l"
  by (induction rule: ledger_reach.induct) (auto intro: ledger_inv_new ledger_step_inv)

lemma top_up_returns:
  assumes "ledger_reach l"
  shows "\<exists>r l'. top_up l payer amount fref = Some (r, l')"
proof (cases "fref \<in> pl_credited_refs l")
  case True
  then obtain r0 where "r0 \<in> set (pl_top_ups l)" "tu_funding_ref r0 = fref"
    using ledger_reach_inv [OF assms] by (auto simp: ledger_inv_def)
  then obtain r where "find (\<lambda>r. tu_funding_ref r = fref) (pl_top_ups l) = Some r"
    using find_exists [of r0 "pl_top_ups l" "\<lambda>r. tu_funding_ref r = fref"] by blast
  with True show ?thesis by (simp add: top_up_def)
qed (simp add: top_up_new Let_def)

section \<open>Properties\<close>

text \<open>C3: credit conservation. In every state the ledger can reach by any interleaving of top-ups,
  debits and refunds, each payer's balance plus everything debited from and refunded to that payer
  is at most what was paid in, and exactly that as long as the payer's total top-ups stay below
  \<open>2\<^sup>6\<^sup>4\<close>. No payer is driven negative and no credit appears from nowhere.\<close>

theorem ledger_conservation:
  assumes "ledger_reach l"
  shows "unat (balance l p) + debited l p + refunded l p \<le> paid_in l p
    \<and> (paid_in l p < 2 ^ 64 \<longrightarrow> unat (balance l p) + debited l p + refunded l p = paid_in l p)"
  using ledger_reach_inv [OF assms] by (simp add: ledger_inv_def)

definition demo_ledger :: prepaid_ledger where
  "demo_ledger = top_up_state (ledger_new ''USD'' 5) [1] 20 ''tx-1''"

lemma demo_ledger_reach: "ledger_reach demo_ledger"
proof (rule ledger_reach.reach_step)
  show "ledger_reach (ledger_new ''USD'' 5)" by (rule ledger_reach.reach_new)
  show "ledger_step (ledger_new ''USD'' 5) demo_ledger"
    unfolding demo_ledger_def top_up_state_def
    by (rule ledger_step.step_top_up [where payer = "[1]" and amount = 20 and fref = "''tx-1''"])
      (simp add: top_up_def ledger_new_def Let_def next_seq_def)
qed

lemma demo_ledger_paid: "paid_in demo_ledger [1] = 20" "balance demo_ledger [1] = 20"
  by (simp_all add: demo_ledger_def top_up_state_def top_up_def ledger_new_def Let_def next_seq_def
      paid_in_def balance_def)

theorem ledger_conservation_witness:
  "unat (balance demo_ledger [1]) + debited demo_ledger [1] + refunded demo_ledger [1] = 20"
  using ledger_conservation [OF demo_ledger_reach, of "[1]"] by (simp add: demo_ledger_paid)

text \<open>Funding confirmations are idempotent and \<open>top_up\<close> never panics. In every reachable state a
  top-up returns; if its funding reference was credited before, the ledger is unchanged and the
  record of the original credit is returned, whatever payer and amount the replay names; otherwise
  exactly the named payer's balance grows, saturating.\<close>

theorem top_up_idempotent:
  assumes "ledger_reach l"
  shows "\<exists>r l'. top_up l payer amount fref = Some (r, l') \<and> tu_funding_ref r = fref
    \<and> (if fref \<in> tu_funding_ref ` set (pl_top_ups l)
       then l' = l \<and> r \<in> set (pl_top_ups l)
       else pl_top_ups l' = pl_top_ups l @ [r]
            \<and> (\<forall>p. balance l' p = (if p = payer then sat_add (balance l payer) amount else balance l p)))"
proof (cases "fref \<in> pl_credited_refs l")
  case True
  have refs: "pl_credited_refs l = tu_funding_ref ` set (pl_top_ups l)"
    using ledger_reach_inv [OF assms] by (simp add: ledger_inv_def)
  with True obtain r0 where "r0 \<in> set (pl_top_ups l)" "tu_funding_ref r0 = fref" by auto
  then obtain r where r: "find (\<lambda>r. tu_funding_ref r = fref) (pl_top_ups l) = Some r"
    using find_exists [of r0 "pl_top_ups l" "\<lambda>r. tu_funding_ref r = fref"] by blast
  have "top_up l payer amount fref = Some (r, l)" by (simp add: top_up_def True r)
  with True refs find_Some_mem [OF r] show ?thesis by simp
next
  case False
  moreover have "pl_credited_refs l = tu_funding_ref ` set (pl_top_ups l)"
    using ledger_reach_inv [OF assms] by (simp add: ledger_inv_def)
  ultimately show ?thesis
    by (simp add: top_up_new Let_def) (simp add: balance_def)
qed

theorem top_up_idempotent_witness:
  "\<exists>r. top_up demo_ledger [2] 999 ''tx-1'' = Some (r, demo_ledger)"
  using top_up_idempotent [OF demo_ledger_reach, of "[2]" 999 "''tx-1''"]
  by (auto simp: demo_ledger_def top_up_state_def top_up_def ledger_new_def Let_def next_seq_def)

text \<open>Replaying any batch of funding confirmations, in any order and with any overlap, a second
  time leaves the ledger exactly as the first pass left it.\<close>

theorem top_up_replay:
  "foldl (\<lambda>l (p, n, ref). top_up_state l p n ref) l (evs @ evs) =
   foldl (\<lambda>l (p, n, ref). top_up_state l p n ref) l evs"
  using prepaid.replay_twice [of l evs] by (simp add: prepaid.credit_all_def)

text \<open>Debits fail closed. A bill in another currency, or above the payer's balance, is refused
  with the matching error and no state; a debit succeeds exactly in the remaining case, takes
  exactly the bill's amount from that payer and no other, and records it. A combined debit issues
  receipts exactly when the debit succeeds.\<close>

theorem debit_fail_closed:
  "debit l payer bill =
     (if bill_currency bill \<noteq> pl_currency l
      then Inl (PCurrencyMismatch (bill_currency bill) (pl_currency l))
      else if balance l payer < bill_amount bill
      then Inl (PExhausted payer (balance l payer) (bill_amount bill) (pl_currency l))
      else let d = \<lparr>db_payer = payer, db_amount = bill_amount bill, db_currency = pl_currency l,
                    db_tx_seq = pl_next_tx_seq l\<rparr>
           in Inr (d, l\<lparr>pl_balances := (pl_balances l)(payer \<mapsto> balance l payer - bill_amount bill),
                pl_next_tx_seq := pl_next_tx_seq l + 1, pl_debits := pl_debits l @ [d]\<rparr>))
   \<and> debit_and_receipt api ia l payer bill log ik =
       (case debit l payer bill of
          Inl e \<Rightarrow> Inl e
        | Inr (d, l') \<Rightarrow> Inr ((d, fst (issue_for_bill api ia log payer bill ik)), l',
                             snd (issue_for_bill api ia log payer bill ik)))"
  by (auto simp: debit_def debit_and_receipt_def Let_def next_seq_def balance_def case_prod_unfold
      split: sum.splits)

text \<open>Transaction sequence numbers. As long as fewer than \<open>2\<^sup>6\<^sup>4\<close> transactions were recorded, the
  sequence numbers of all top-ups, debits and refunds together are exactly \<open>0\<close> up to the count, so
  no two records share one.\<close>

theorem tx_seqs_unique:
  assumes "ledger_reach l" and "tx_count l < 2 ^ 64"
  shows "distinct (tx_seqs l) \<and> unat ` set (tx_seqs l) = {0..<tx_count l}"
proof -
  have set: "set (tx_seqs l) = of_nat ` {0..<tx_count l}"
    using ledger_reach_inv [OF assms(1)] by (simp add: ledger_inv_def)
  have unat: "unat (of_nat n :: u64) = n" if "n < tx_count l" for n
    using that assms(2) by (simp add: unat_of_nat)
  have img: "unat ` set (tx_seqs l) = {0..<tx_count l}"
    unfolding set by (auto simp: image_image unat intro!: image_eqI)
  then have "card (set (tx_seqs l)) \<ge> tx_count l"
    by (metis card_atLeastLessThan card_image_le diff_zero finite_set)
  moreover have "length (tx_seqs l) = tx_count l"
    by (simp add: tx_seqs_def tx_count_def)
  ultimately have "distinct (tx_seqs l)"
    by (metis card_distinct card_length le_antisym)
  with img show ?thesis by simp
qed

theorem tx_seqs_unique_witness:
  "distinct (tx_seqs demo_ledger) \<and> unat ` set (tx_seqs demo_ledger) = {0..<tx_count demo_ledger}"
  by (rule tx_seqs_unique [OF demo_ledger_reach])
    (simp add: demo_ledger_def top_up_state_def top_up_def ledger_new_def Let_def next_seq_def tx_count_def)

end
