(* ===== verification/Billing_Settlement.thy ===== *)
theory Billing_Settlement
  imports Billing_Prepaid
begin

text \<open>
  The settlement seam: \<open>crates/broker-billing/src/settlement.rs\<close> (the trait and the in-memory
  double-entry ledger), \<open>crates/broker-billing-patala/src/lib.rs\<close> (the patala adapter),
  \<open>subscription.rs\<close> and \<open>stake.rs\<close>. The trait \<open>SettlementRail\<close> is the locale \<open>settlement_rail\<close>; it is
  interpreted at both ledgers, for the in-memory one at amounts that fit \<open>i64\<close>, because its casts
  \<open>amount as i64\<close> are kept. An \<open>i64\<close> is a 64-bit word read through \<open>sint\<close>.
\<close>

section \<open>The SettlementRail trait\<close>

record settlement_receipt =
  sr_payer :: bytes
  sr_amount :: u64
  sr_currency :: string
  sr_tx_seq :: u64

text \<open>A rail charges a payer or reports an error and stays as it is. \<open>ok\<close> is the range of amounts
  the rail handles. A successful charge returns a receipt for exactly what was asked, takes it from
  that payer's funds in that currency and touches no other account.\<close>

locale settlement_rail =
  fixes charge :: "'s \<Rightarrow> bytes \<Rightarrow> u64 \<Rightarrow> string \<Rightarrow> 'e + (settlement_receipt \<times> 's)"
    and funds :: "'s \<Rightarrow> bytes \<Rightarrow> string \<Rightarrow> int"
    and ok :: "'s \<Rightarrow> u64 \<Rightarrow> bool"
  assumes charge_receipt: "charge s p n c = Inr (r, s') \<Longrightarrow> sr_payer r = p \<and> sr_amount r = n \<and> sr_currency r = c"
    and charge_covered: "ok s n \<Longrightarrow> charge s p n c = Inr (r, s') \<Longrightarrow> int (unat n) \<le> funds s p c"
    and charge_moves: "ok s n \<Longrightarrow> charge s p n c = Inr (r, s') \<Longrightarrow>
        funds s' q d = funds s q d - (if q = p \<and> d = c then int (unat n) else 0)"
begin

text \<open>Charges in sequence, as a subscription makes them month after month: stop at the first
  refusal.\<close>

fun charge_months :: "nat \<Rightarrow> 's \<Rightarrow> bytes \<Rightarrow> u64 \<Rightarrow> string \<Rightarrow> settlement_receipt list \<times> 's" where
  "charge_months 0 s p n c = ([], s)"
| "charge_months (Suc k) s p n c =
     (case charge s p n c of
        Inl _ \<Rightarrow> ([], s)
      | Inr (r, s') \<Rightarrow> (let (rs, s'') = charge_months k s' p n c in (r # rs, s'')))"

lemma charge_months_funds:
  assumes "\<And>s. ok s n"
  shows "funds (snd (charge_months k s p n c)) p c
       = funds s p c - int (length (fst (charge_months k s p n c))) * int (unat n)"
proof (induction k arbitrary: s)
  case (Suc k)
  show ?case
  proof (cases "charge s p n c")
    case (Inr x)
    then obtain r s' where x: "charge s p n c = Inr (r, s')" by (cases x) auto
    have "funds s' p c = funds s p c - int (unat n)"
      using charge_moves [OF assms x, of p c] by simp
    with x Suc [of s'] show ?thesis by (simp add: case_prod_unfold Let_def algebra_simps)
  qed simp
qed simp

end

section \<open>InMemoryLedger\<close>

datatype ledger_error = InsufficientBalance bytes u64 u64 string

record in_memory_ledger =
  im_balances :: "bytes \<times> string \<rightharpoonup> u64"
  im_house :: "string \<rightharpoonup> u64"
  im_next_tx_seq :: u64

definition im_new :: in_memory_ledger where
  "im_new = \<lparr>im_balances = Map.empty, im_house = Map.empty, im_next_tx_seq = 0\<rparr>"

definition im_deposit :: "in_memory_ledger \<Rightarrow> bytes \<Rightarrow> u64 \<Rightarrow> string \<Rightarrow> in_memory_ledger" where
  "im_deposit l payer amount currency =
     l\<lparr>im_balances := (im_balances l)((payer, currency) \<mapsto> get_or 0 (im_balances l) (payer, currency) + amount),
       im_house := (im_house l)(currency \<mapsto> get_or 0 (im_house l) currency - amount)\<rparr>"

definition im_charge :: "in_memory_ledger \<Rightarrow> bytes \<Rightarrow> u64 \<Rightarrow> string
    \<Rightarrow> ledger_error + (settlement_receipt \<times> in_memory_ledger)" where
  "im_charge l payer amount currency =
     (let key = (payer, currency);
          bal = get_or 0 (im_balances l) key
      in if sint bal < sint amount
         then Inl (InsufficientBalance payer bal amount currency)
         else Inr (\<lparr>sr_payer = payer, sr_amount = amount, sr_currency = currency,
                    sr_tx_seq = im_next_tx_seq l\<rparr>,
                   l\<lparr>im_balances := (im_balances l)(key \<mapsto> bal - amount),
                     im_house := (im_house l)(currency \<mapsto> get_or 0 (im_house l) currency + amount),
                     im_next_tx_seq := im_next_tx_seq l + 1\<rparr>))"

definition im_balance :: "in_memory_ledger \<Rightarrow> bytes \<Rightarrow> string \<Rightarrow> ledger_error + u64" where
  "im_balance l payer currency = Inr (get_or 0 (im_balances l) (payer, currency))"

definition im_grand_total :: "in_memory_ledger \<Rightarrow> string \<Rightarrow> u64" where
  "im_grand_total l currency =
     (\<Sum>k \<in> {k \<in> dom (im_balances l). snd k = currency}. get_or 0 (im_balances l) k)
     + get_or 0 (im_house l) currency"

definition im_funds :: "in_memory_ledger \<Rightarrow> bytes \<Rightarrow> string \<Rightarrow> int" where
  "im_funds l p c = sint (get_or 0 (im_balances l) (p, c))"

definition im_ok :: "in_memory_ledger \<Rightarrow> u64 \<Rightarrow> bool" where
  "im_ok l n = (unat n < 2 ^ 63)"

lemma sint_small:
  assumes "unat (n :: u64) < 2 ^ 63"
  shows "sint n = int (unat n)"
proof -
  have "nat (uint n) < nat (2 ^ 63)" using assms unfolding unat_eq_nat_uint by simp
  then have u: "uint n < 2 ^ 63" by (simp only: nat_less_eq_zless uint_ge_0)
  have "- (2 ^ 63) \<le> (0 :: int)" by simp
  then have l: "- (2 ^ 63) \<le> uint n" using uint_ge_0 [of n] by (rule order_trans)
  have "signed_take_bit 63 (uint n) = uint n"
    using l u by (rule signed_take_bit_int_eq_self)
  then have "sint n = uint n" by (simp add: sint_uint)
  then show ?thesis by (simp only: uint_nat)
qed

lemma sint_sub_covered:
  fixes b n :: u64
  assumes "unat n < 2 ^ 63" and "sint n \<le> sint b"
  shows "sint (b - n) = sint b - int (unat n)"
proof -
  have n: "sint n = int (unat n)" using assms(1) by (rule sint_small)
  have "sint b < 2 ^ 63" "- (2 ^ 63) \<le> sint b"
    using sint_less [of b] sint_ge [of b] by simp_all
  with n assms(2) have "- (2 ^ 63) \<le> sint b - sint n" "sint b - sint n < 2 ^ 63" by linarith+
  then have "sint (b - n) = sint b - sint n"
    by (simp add: sint_word_ariths(2) signed_take_bit_int_eq_self)
  with n show ?thesis by simp
qed

interpretation im: settlement_rail im_charge im_funds im_ok
proof unfold_locales
  fix s p n c r s' q d
  assume ch: "im_charge s p n c = Inr (r, s')"
  show "sr_payer r = p \<and> sr_amount r = n \<and> sr_currency r = c"
    using ch by (auto simp: im_charge_def Let_def split: if_splits)
  assume ok: "im_ok s n"
  then have small: "unat n < 2 ^ 63" by (simp add: im_ok_def)
  from ch have le: "sint n \<le> sint (get_or 0 (im_balances s) (p, c))"
    by (auto simp: im_charge_def Let_def split: if_splits)
  with small show "int (unat n) \<le> im_funds s p c"
    by (simp add: im_funds_def sint_small)
  show "im_funds s' q d = im_funds s q d - (if q = p \<and> d = c then int (unat n) else 0)"
    using ch le small
    by (auto simp: im_charge_def Let_def im_funds_def sint_sub_covered split: if_splits)
qed

text \<open>Double entry: deposits and charges move the same amount between a payer and the house.\<close>

definition im_inv :: "in_memory_ledger \<Rightarrow> bool" where
  "im_inv l \<longleftrightarrow> finite (dom (im_balances l)) \<and> (\<forall>c. im_grand_total l c = 0)"

inductive im_reach :: "in_memory_ledger \<Rightarrow> bool" where
  im_start: "im_reach im_new"
| im_dep: "im_reach l \<Longrightarrow> im_reach (im_deposit l p n c)"
| im_chg: "im_reach l \<Longrightarrow> im_charge l p n c = Inr (r, l') \<Longrightarrow> im_reach l'"

lemma im_total_upd:
  fixes m :: "bytes \<times> string \<rightharpoonup> u64"
  assumes "finite (dom m)"
  shows "(\<Sum>k \<in> {k \<in> dom (m((p, c) \<mapsto> v)). snd k = d}. get_or 0 (m((p, c) \<mapsto> v)) k)
       = (\<Sum>k \<in> {k \<in> dom m. snd k = d}. get_or 0 m k) + (if d = c then v - get_or 0 m (p, c) else 0)"
proof -
  define m' where "m' = m |` {k. snd k = d}"
  have "{k \<in> dom m. snd k = d} = dom m'"
    by (auto simp: m'_def dom_restrict)
  moreover have "(\<Sum>k \<in> {k \<in> dom m. snd k = d}. get_or 0 m k) = (\<Sum>k \<in> {k \<in> dom m. snd k = d}. get_or 0 m' k)"
    by (rule sum.cong) (auto simp: m'_def get_or_def)
  ultimately have old: "(\<Sum>k \<in> {k \<in> dom m. snd k = d}. get_or 0 m k) = (\<Sum>k \<in> dom m'. get_or 0 m' k)"
    by simp
  show ?thesis
  proof (cases "d = c")
    case True
    have "{k \<in> dom (m((p, c) \<mapsto> v)). snd k = d} = dom (m'((p, c) \<mapsto> v))"
      using True by (auto simp: m'_def dom_restrict)
    moreover have "(\<Sum>k \<in> {k \<in> dom (m((p, c) \<mapsto> v)). snd k = d}. get_or 0 (m((p, c) \<mapsto> v)) k)
        = (\<Sum>k \<in> {k \<in> dom (m((p, c) \<mapsto> v)). snd k = d}. get_or 0 (m'((p, c) \<mapsto> v)) k)"
      by (rule sum.cong) (auto simp: m'_def get_or_def)
    moreover have "get_or 0 m' (p, c) = get_or 0 m (p, c)"
      using True by (simp add: m'_def get_or_def)
    moreover have "finite (dom m')" using assms by (simp add: m'_def)
    ultimately show ?thesis
      using True old sum_get_or_upd [of m' "(p, c)" v] by simp
  next
    case False
    then have "{k \<in> dom (m((p, c) \<mapsto> v)). snd k = d} = {k \<in> dom m. snd k = d}" by auto
    moreover have "(\<Sum>k \<in> {k \<in> dom m. snd k = d}. get_or 0 (m((p, c) \<mapsto> v)) k)
        = (\<Sum>k \<in> {k \<in> dom m. snd k = d}. get_or 0 m k)"
      using False by (intro sum.cong) auto
    ultimately show ?thesis using False by simp
  qed
qed

lemma im_grand_total_deposit:
  "finite (dom (im_balances l)) \<Longrightarrow> im_grand_total (im_deposit l p n c) d = im_grand_total l d"
  using im_total_upd [of "im_balances l" p c "get_or 0 (im_balances l) (p, c) + n" d]
  by (simp add: im_grand_total_def im_deposit_def)

lemma im_grand_total_charge:
  assumes "finite (dom (im_balances l))" and "im_charge l p n c = Inr (r, l')"
  shows "im_grand_total l' d = im_grand_total l d \<and> finite (dom (im_balances l'))"
  using assms im_total_upd [of "im_balances l" p c "get_or 0 (im_balances l) (p, c) - n" d]
  by (auto simp: im_grand_total_def im_charge_def Let_def split: if_splits)

lemma im_reach_inv: "im_reach l \<Longrightarrow> im_inv l"
proof (induction rule: im_reach.induct)
  case im_start
  then show ?case by (simp add: im_inv_def im_new_def im_grand_total_def)
next
  case (im_dep l p n c)
  then have "finite (dom (im_balances (im_deposit l p n c)))"
    by (simp add: im_inv_def im_deposit_def)
  with im_dep show ?case by (simp add: im_inv_def im_grand_total_deposit)
next
  case (im_chg l p n c r l')
  then show ?case using im_grand_total_charge [of l p n c r l'] by (simp add: im_inv_def)
qed

text \<open>Double entry. After any sequence of deposits and successful charges, in any currencies, the
  payer balances of a currency plus its house account sum to zero (in the ledger's own wrapping
  64-bit arithmetic, so overflow included).\<close>

theorem im_ledger_balances:
  assumes "im_reach l"
  shows "im_grand_total l currency = 0"
  using im_reach_inv [OF assms] by (simp add: im_inv_def)

theorem im_ledger_balances_witness: "im_grand_total (im_deposit im_new [1] 5 ''USD'') ''USD'' = 0"
  by (rule im_ledger_balances) (rule im_reach.im_dep [OF im_reach.im_start])

text \<open>The in-memory rail charges correctly for amounts up to \<open>i64::MAX\<close>: a charge succeeds
  exactly when the payer's balance covers it, and then moves exactly that amount from that account
  and no other; a refused charge names the balance and changes nothing.\<close>

theorem im_charge_correct:
  assumes "unat amount < 2 ^ 63"
  shows "case im_charge l payer amount currency of
      Inl e \<Rightarrow> im_funds l payer currency < int (unat amount)
               \<and> e = InsufficientBalance payer (get_or 0 (im_balances l) (payer, currency)) amount currency
    | Inr (r, l') \<Rightarrow> int (unat amount) \<le> im_funds l payer currency
               \<and> sr_amount r = amount
               \<and> im_funds l' q d = im_funds l q d - (if q = payer \<and> d = currency then int (unat amount) else 0)"
proof (cases "im_charge l payer amount currency")
  case (Inl e)
  then show ?thesis
    using assms by (auto simp: im_charge_def Let_def im_funds_def sint_small split: if_splits)
next
  case (Inr x)
  then obtain r l' where x: "im_charge l payer amount currency = Inr (r, l')" by (cases x) auto
  have "im_ok l amount" using assms by (simp add: im_ok_def)
  with x show ?thesis
    using im.charge_covered [OF _ x] im.charge_moves [OF _ x, of q d] im.charge_receipt [OF x] by simp
qed

theorem im_charge_correct_witness:
  "im_charge im_new [1] 3 ''USD'' = Inl (InsufficientBalance [1] 0 3 ''USD'')"
  using im_charge_correct [of 3 im_new "[1]" "''USD''" "[1]" "''USD''"]
  by (simp add: im_new_def im_charge_def Let_def)

text \<open>Beyond \<open>i64::MAX\<close> the cast turns the amount negative: a payer with no funds at all is
  charged \<open>2\<^sup>6\<^sup>3\<close> successfully, and one charged \<open>2\<^sup>6\<^sup>4 - 5\<close> ends up with a balance of 5.\<close>

theorem im_charge_wraps:
  "is_ok (im_charge im_new p (2 ^ 63) c)
   \<and> (\<exists>r l'. im_charge im_new p (- 5) c = Inr (r, l') \<and> sr_amount r = - 5 \<and> im_balance l' p c = Inr 5)"
  by (simp add: im_charge_def im_new_def Let_def im_balance_def)

section \<open>PatalaSettlement\<close>

text \<open>\<open>patala_core\<close>'s payment rail is the parameter \<open>verify\<close>: an error, or whether the receipt
  holds. The \<open>await\<close> on it splits \<open>credit_from_receipt\<close> in two: \<open>credit_begin\<close> is everything before
  it and \<open>credit_finish\<close> everything after.\<close>

datatype patala_error =
    PaCurrencyMismatch string string
  | PaInsufficientCredit u64 u64 string
  | PaRail string
  | PaNotVerified
  | PaReceiptCurrencyMismatch string string

record rail_receipt =
  rr_currency :: string
  rr_reference :: string
  rr_amount_minor :: u64

record patala_settlement =
  pa_destination :: string
  pa_currency :: string
  pa_ledger :: "bytes \<rightharpoonup> u64"
  pa_credited :: "string set"
  pa_next_tx_seq :: u64

definition pa_new :: "string \<Rightarrow> string \<Rightarrow> patala_settlement" where
  "pa_new destination currency = \<lparr>pa_destination = destination, pa_currency = currency,
     pa_ledger = Map.empty, pa_credited = {}, pa_next_tx_seq = 0\<rparr>"

definition local_balance :: "patala_settlement \<Rightarrow> bytes \<Rightarrow> u64" where
  "local_balance s payer = get_or 0 (pa_ledger s) payer"

text \<open>Before the \<open>await\<close>: \<open>Some\<close> is an early return, \<open>None\<close> goes on to verification.\<close>

definition credit_begin :: "patala_settlement \<Rightarrow> bytes \<Rightarrow> rail_receipt \<Rightarrow> (patala_error + u64) option" where
  "credit_begin s payer receipt =
     (if rr_currency receipt \<noteq> pa_currency s
      then Some (Inl (PaReceiptCurrencyMismatch (rr_currency receipt) (pa_currency s)))
      else if rr_reference receipt \<in> pa_credited s then Some (Inr (local_balance s payer))
      else None)"

definition credit_finish :: "(rail_receipt \<Rightarrow> string + bool) \<Rightarrow> patala_settlement \<Rightarrow> bytes \<Rightarrow> rail_receipt
    \<Rightarrow> (patala_error + u64) \<times> patala_settlement" where
  "credit_finish verify s payer receipt =
     (case verify receipt of
        Inl e \<Rightarrow> (Inl (PaRail e), s)
      | Inr verified \<Rightarrow>
          if \<not> verified then (Inl PaNotVerified, s)
          else
            (let new_balance = sat_add (local_balance s payer) (rr_amount_minor receipt)
             in (Inr new_balance,
                 s\<lparr>pa_ledger := (pa_ledger s)(payer \<mapsto> new_balance),
                   pa_credited := insert (rr_reference receipt) (pa_credited s)\<rparr>)))"

definition credit_from_receipt :: "(rail_receipt \<Rightarrow> string + bool) \<Rightarrow> patala_settlement \<Rightarrow> bytes \<Rightarrow> rail_receipt
    \<Rightarrow> (patala_error + u64) \<times> patala_settlement" where
  "credit_from_receipt verify s payer receipt =
     (case credit_begin s payer receipt of
        Some r \<Rightarrow> (r, s)
      | None \<Rightarrow> credit_finish verify s payer receipt)"

definition pa_charge :: "patala_settlement \<Rightarrow> bytes \<Rightarrow> u64 \<Rightarrow> string
    \<Rightarrow> patala_error + (settlement_receipt \<times> patala_settlement)" where
  "pa_charge s payer amount currency =
     (if currency \<noteq> pa_currency s then Inl (PaCurrencyMismatch currency (pa_currency s))
      else
        (let bal = get_or 0 (pa_ledger s) payer in
         if bal < amount then Inl (PaInsufficientCredit bal amount currency)
         else Inr (\<lparr>sr_payer = payer, sr_amount = amount, sr_currency = currency,
                    sr_tx_seq = pa_next_tx_seq s\<rparr>,
                   s\<lparr>pa_ledger := (pa_ledger s)(payer \<mapsto> bal - amount),
                     pa_next_tx_seq := pa_next_tx_seq s + 1\<rparr>)))"

definition pa_balance :: "patala_settlement \<Rightarrow> bytes \<Rightarrow> string \<Rightarrow> patala_error + u64" where
  "pa_balance s payer currency =
     (if currency \<noteq> pa_currency s then Inr 0 else Inr (local_balance s payer))"

definition pa_funds :: "patala_settlement \<Rightarrow> bytes \<Rightarrow> string \<Rightarrow> int" where
  "pa_funds s p c = (if c = pa_currency s then int (unat (local_balance s p)) else 0)"

interpretation pa: settlement_rail pa_charge pa_funds "\<lambda>_ _. True"
proof unfold_locales
  fix s p n c r s' q d
  assume ch: "pa_charge s p n c = Inr (r, s')"
  show "sr_payer r = p \<and> sr_amount r = n \<and> sr_currency r = c"
    using ch by (auto simp: pa_charge_def Let_def split: if_splits)
  from ch have c: "c = pa_currency s" and le: "n \<le> local_balance s p"
    and s': "s' = s\<lparr>pa_ledger := (pa_ledger s)(p \<mapsto> local_balance s p - n),
                     pa_next_tx_seq := pa_next_tx_seq s + 1\<rparr>"
    by (auto simp: pa_charge_def Let_def local_balance_def split: if_splits)
  show "int (unat n) \<le> pa_funds s p c"
    using c le by (simp add: pa_funds_def word_le_def)
  show "pa_funds s' q d = pa_funds s q d - (if q = p \<and> d = c then int (unat n) else 0)"
  proof -
    have "int (unat (local_balance s p - n)) = int (unat (local_balance s p)) - int (unat n)"
      using le unat_sub_le [OF le] by (simp only: word_le_nat_alt of_nat_diff)
    then show ?thesis using c by (auto simp: s' pa_funds_def local_balance_def)
  qed
qed

text \<open>Crediting verified receipts of the rail's own currency, one call at a time.\<close>

definition pa_credit :: "patala_settlement \<Rightarrow> bytes \<Rightarrow> u64 \<Rightarrow> string \<Rightarrow> patala_settlement" where
  "pa_credit s payer amount reference =
     snd (credit_from_receipt (\<lambda>_. Inr True) s payer
       \<lparr>rr_currency = pa_currency s, rr_reference = reference, rr_amount_minor = amount\<rparr>)"

interpretation patala: credit_book pa_credit pa_credited local_balance
  by unfold_locales
    (auto simp: pa_credit_def credit_from_receipt_def credit_begin_def credit_finish_def
      local_balance_def Let_def)

text \<open>The patala rail credits only verified receipts. If a call changes the state at all, the
  receipt is in the rail's currency, its reference was not credited before, the rail verified it,
  and the change is exactly its amount on that payer and its reference marked; every other outcome
  leaves the rail untouched. A later call with the same reference credits nothing.\<close>

theorem credit_from_receipt_sound:
  assumes "credit_from_receipt verify s payer receipt = (res, s')" and "s' \<noteq> s"
  shows "rr_currency receipt = pa_currency s \<and> rr_reference receipt \<notin> pa_credited s
    \<and> verify receipt = Inr True
    \<and> local_balance s' p = (if p = payer then sat_add (local_balance s payer) (rr_amount_minor receipt)
                              else local_balance s p)
    \<and> snd (credit_from_receipt verify s' q receipt) = s'"
proof -
  have cur: "rr_currency receipt = pa_currency s" and fresh: "rr_reference receipt \<notin> pa_credited s"
    and ver: "verify receipt = Inr True"
    using assms by (auto simp: credit_from_receipt_def credit_begin_def credit_finish_def Let_def
        split: if_splits sum.splits)
  then have s': "s' = s\<lparr>pa_ledger := (pa_ledger s)(payer \<mapsto> sat_add (local_balance s payer) (rr_amount_minor receipt)),
      pa_credited := insert (rr_reference receipt) (pa_credited s)\<rparr>"
    using assms(1) by (simp add: credit_from_receipt_def credit_begin_def credit_finish_def Let_def)
  show ?thesis
    using cur fresh ver
    by (simp add: s' local_balance_def credit_from_receipt_def credit_begin_def)
qed

definition demo_receipt :: rail_receipt where
  "demo_receipt = \<lparr>rr_currency = ''USDC'', rr_reference = ''r1'', rr_amount_minor = 7\<rparr>"

lemma demo_credit:
  "credit_from_receipt (\<lambda>_. Inr True) (pa_new ''d'' ''USDC'') [1] demo_receipt =
     (Inr 7, (pa_new ''d'' ''USDC'')\<lparr>pa_ledger := [[1] \<mapsto> 7], pa_credited := {''r1''}\<rparr>)"
  by (simp add: credit_from_receipt_def credit_begin_def credit_finish_def pa_new_def demo_receipt_def
      Let_def local_balance_def)

theorem credit_from_receipt_sound_witness:
  "local_balance ((pa_new ''d'' ''USDC'')\<lparr>pa_ledger := [[1] \<mapsto> 7], pa_credited := {''r1''}\<rparr>) [1] = 7"
  using credit_from_receipt_sound [OF demo_credit, of "[1]" "[1]"]
  by (simp add: pa_new_def demo_receipt_def local_balance_def)

lemma credit_finish_verified:
  "verify receipt = Inr True \<Longrightarrow> credit_finish verify s payer receipt
     = (Inr (sat_add (local_balance s payer) (rr_amount_minor receipt)),
        s\<lparr>pa_ledger := (pa_ledger s)(payer \<mapsto> sat_add (local_balance s payer) (rr_amount_minor receipt)),
          pa_credited := insert (rr_reference receipt) (pa_credited s)\<rparr>)"
  by (simp add: credit_finish_def Let_def)

lemma credit_finish_repeated:
  assumes "verify receipt = Inr True" and "unat (local_balance s payer) + n * unat (rr_amount_minor receipt) < 2 ^ 64"
  shows "unat (local_balance (((\<lambda>s. snd (credit_finish verify s payer receipt)) ^^ n) s) payer)
    = unat (local_balance s payer) + n * unat (rr_amount_minor receipt)"
  using assms(2)
proof (induction n)
  case (Suc n)
  then show ?case by (simp add: credit_finish_verified [of verify, OF assms(1)] local_balance_def unat_sat_add)
qed simp

lemma credit_repeated:
  assumes "rr_reference receipt \<in> pa_credited s" and "rr_currency receipt = pa_currency s"
  shows "((\<lambda>s. snd (credit_from_receipt verify s payer receipt)) ^^ n) s = s"
  using assms by (induction n) (simp_all add: credit_from_receipt_def credit_begin_def)

text \<open>C40: the check and the credit are not one step. For any rail state, payer and verified receipt in the rail's
  currency that has not been credited: every call passes its check, and when the checks of any number of calls for the one
  receipt have run before the first of them returns from the verification, each of the calls
  credits, so the receipt is credited as many times as there are calls; one call after the other credit it once. The
  balances are those without saturation.\<close>

theorem credit_race_double_credits:
  assumes "verify receipt = Inr True" and "rr_currency receipt = pa_currency s"
    and "rr_reference receipt \<notin> pa_credited s" and "0 < n"
    and "unat (local_balance s payer) + n * unat (rr_amount_minor receipt) < 2 ^ 64"
  shows "credit_begin s payer receipt = None
    \<and> unat (local_balance (((\<lambda>s. snd (credit_finish verify s payer receipt)) ^^ n) s) payer)
        = unat (local_balance s payer) + n * unat (rr_amount_minor receipt)
    \<and> unat (local_balance (((\<lambda>s. snd (credit_from_receipt verify s payer receipt)) ^^ n) s) payer)
        = unat (local_balance s payer) + unat (rr_amount_minor receipt)"
proof -
  from assms(4) obtain k where n: "n = Suc k" by (cases n) auto
  have b: "credit_begin s payer receipt = None" using assms(2,3) by (simp add: credit_begin_def)
  let ?s = "snd (credit_from_receipt verify s payer receipt)"
  have one: "?s = s\<lparr>pa_ledger := (pa_ledger s)(payer \<mapsto> sat_add (local_balance s payer) (rr_amount_minor receipt)),
      pa_credited := insert (rr_reference receipt) (pa_credited s)\<rparr>"
    by (simp add: credit_from_receipt_def b credit_finish_verified [of verify, OF assms(1)])
  have "((\<lambda>s. snd (credit_from_receipt verify s payer receipt)) ^^ n) s = ?s"
    using credit_repeated [of receipt ?s k verify payer] assms(2) by (simp add: n funpow_Suc_right one del: funpow.simps)
  moreover have "unat (local_balance s payer) + unat (rr_amount_minor receipt) < 2 ^ 64" using assms(5) by (simp add: n)
  ultimately show ?thesis
    using b credit_finish_repeated [where verify = verify, OF assms(1,5)] by (simp add: one local_balance_def unat_sat_add)
qed

theorem credit_race_double_credits_witness:
  "unat (local_balance (((\<lambda>s. snd (credit_finish (\<lambda>_. Inr True) s [1] demo_receipt)) ^^ 2) (pa_new ''d'' ''USDC'')) [1]) = 14"
  using credit_race_double_credits [of "\<lambda>_. Inr True" demo_receipt "pa_new ''d'' ''USDC''" 2 "[1]"]
  by (simp add: demo_receipt_def pa_new_def local_balance_def)

section \<open>Subscriptions and stake\<close>

record subscription =
  su_payer :: bytes
  su_monthly_amount :: u64
  su_currency :: string
  su_active :: bool

definition subscription_new :: "bytes \<Rightarrow> u64 \<Rightarrow> string \<Rightarrow> subscription" where
  "subscription_new payer monthly_amount currency =
     \<lparr>su_payer = payer, su_monthly_amount = monthly_amount, su_currency = currency, su_active = True\<rparr>"

definition subscription_charge ::
    "('s \<Rightarrow> bytes \<Rightarrow> u64 \<Rightarrow> string \<Rightarrow> 'e + (settlement_receipt \<times> 's)) \<Rightarrow> 's \<Rightarrow> subscription
     \<Rightarrow> 'e + (settlement_receipt \<times> 's)" where
  "subscription_charge charge s sub = charge s (su_payer sub) (su_monthly_amount sub) (su_currency sub)"

definition verify_stake :: "bytes \<Rightarrow> string \<Rightarrow> u64 \<Rightarrow> bool" where
  "verify_stake identity asset minimum = False"

text \<open>A subscription on the patala rail. Charging it month after month until a charge is refused
  takes exactly one monthly amount from the subscriber's credit per receipt returned, so the
  receipts account for every unit that left the account.\<close>

theorem subscription_months_account:
  "pa_funds (snd (pa.charge_months k s (su_payer sub) (su_monthly_amount sub) (su_currency sub)))
       (su_payer sub) (su_currency sub)
   = pa_funds s (su_payer sub) (su_currency sub)
     - int (length (fst (pa.charge_months k s (su_payer sub) (su_monthly_amount sub) (su_currency sub))))
       * int (unat (su_monthly_amount sub))
   \<and> subscription_charge pa_charge s sub = pa_charge s (su_payer sub) (su_monthly_amount sub) (su_currency sub)"
  by (simp add: pa.charge_months_funds subscription_charge_def)

end
