(* ===== verification/Billing_Sim.thy ===== *)
theory Billing_Sim
  imports Billing_Settlement
begin

text \<open>
  The billing engine: \<open>crates/broker-billing/src/sim.rs\<close>, which drives meter, tariff, prepaid ledger,
  receipt log and settlement rail through a stream of events. The borrowed rail is part of the state
  passed along and its \<open>charge\<close> a parameter of the engine; \<open>show_err\<close> stands for the rail error's
  \<open>Debug\<close> rendering. The \<open>expect\<close> inside \<open>top_up\<close> makes an event return an option: \<open>None\<close> is the panic.
\<close>

datatype billing_event =
    EvTopUp bytes u64 string
  | EvMeteredUsage bytes resource_kind u64
  | EvTariffChange tariff_schedule
  | EvRefund bytes u64
  | EvMonthlyCharge bytes u64 string

datatype billing_outcome =
    ToppedUp top_up_record
  | Debited debit_record "usage_receipt list"
  | DebitFailed bytes prepaid_error
  | TariffChanged
  | Refunded refund_record
  | LowBalance bytes u64
  | OutExhausted bytes
  | MonthlyCharged settlement_receipt
  | MonthlyChargeFailed bytes string

record ('k, 'r) sim_engine =
  se_meter :: in_memory_meter
  se_ledger :: prepaid_ledger
  se_schedule :: tariff_schedule
  se_log :: receipt_log
  se_ik :: 'k
  se_rail :: 'r

type_synonym ('r, 'e) rail_charge = "'r \<Rightarrow> bytes \<Rightarrow> u64 \<Rightarrow> string \<Rightarrow> 'e + (settlement_receipt \<times> 'r)"

definition sim_new :: "prepaid_ledger \<Rightarrow> tariff_schedule \<Rightarrow> 'k \<Rightarrow> 'r \<Rightarrow> ('k, 'r) sim_engine" where
  "sim_new ledger schedule ik rail =
     \<lparr>se_meter = meter_new, se_ledger = ledger, se_schedule = schedule, se_log = log_new,
      se_ik = ik, se_rail = rail\<rparr>"

definition state_notification :: "prepaid_ledger \<Rightarrow> bytes \<Rightarrow> billing_outcome list" where
  "state_notification l payer =
     (case payer_state l payer of
        BLowBalance \<Rightarrow> [LowBalance payer (balance l payer)]
      | BExhausted \<Rightarrow> [OutExhausted payer]
      | BOk \<Rightarrow> [])"

fun apply_event :: "'f cbor_api \<Rightarrow> 'k identity_api \<Rightarrow> ('r, 'e) rail_charge \<Rightarrow> ('e \<Rightarrow> string)
    \<Rightarrow> ('k, 'r) sim_engine \<Rightarrow> billing_event
    \<Rightarrow> (billing_outcome list \<times> ('k, 'r) sim_engine) option" where
  "apply_event api ia charge show_err e (EvTopUp payer amount fref) =
     map_option (\<lambda>(rec, l'). ([ToppedUp rec], e\<lparr>se_ledger := l'\<rparr>))
       (top_up (se_ledger e) payer amount fref)"
| "apply_event api ia charge show_err e (EvMeteredUsage payer kind units) =
     (let m1 = meter_record (se_meter e) payer kind units;
          (usage, m2) = meter_reset m1 payer;
          e1 = e\<lparr>se_meter := m2\<rparr>
      in case evaluate (se_schedule e) usage of
           Inr bill \<Rightarrow>
             (case debit_and_receipt api ia (se_ledger e) payer bill (se_log e) (se_ik e) of
                Inr ((rec, receipts), l', log') \<Rightarrow>
                  Some (Debited rec receipts # state_notification l' payer,
                        e1\<lparr>se_ledger := l', se_log := log'\<rparr>)
              | Inl err \<Rightarrow> Some ([DebitFailed payer err], e1))
         | Inl _ \<Rightarrow>
             Some ([DebitFailed payer
                      (PCurrencyMismatch ''unpriced-kind'' (pl_currency (se_ledger e)))], e1))"
| "apply_event api ia charge show_err e (EvTariffChange schedule) =
     Some ([TariffChanged], e\<lparr>se_schedule := schedule\<rparr>)"
| "apply_event api ia charge show_err e (EvRefund payer amount) =
     (case refund (se_ledger e) payer amount of
        Inr (rec, l') \<Rightarrow> Some (Refunded rec # state_notification l' payer, e\<lparr>se_ledger := l'\<rparr>)
      | Inl err \<Rightarrow> Some ([DebitFailed payer err], e))"
| "apply_event api ia charge show_err e (EvMonthlyCharge payer amount currency) =
     (case charge (se_rail e) payer amount currency of
        Inr (r, rail') \<Rightarrow> Some ([MonthlyCharged r], e\<lparr>se_rail := rail'\<rparr>)
      | Inl err \<Rightarrow> Some ([MonthlyChargeFailed payer (show_err err)], e))"

fun replay :: "'f cbor_api \<Rightarrow> 'k identity_api \<Rightarrow> ('r, 'e) rail_charge \<Rightarrow> ('e \<Rightarrow> string)
    \<Rightarrow> ('k, 'r) sim_engine \<Rightarrow> billing_event list
    \<Rightarrow> (billing_outcome list \<times> ('k, 'r) sim_engine) option" where
  "replay api ia charge show_err e [] = Some ([], e)"
| "replay api ia charge show_err e (ev # evs) =
     Option.bind (apply_event api ia charge show_err e ev) (\<lambda>(out, e').
       map_option (\<lambda>(outs, e''). (out @ outs, e'')) (replay api ia charge show_err e' evs))"

section \<open>The books\<close>

text \<open>What the receipts of a payer claim, read off the operations they were signed for.\<close>

definition claimed :: "billed_operation list \<Rightarrow> bytes \<Rightarrow> nat" where
  "claimed ops p = (\<Sum>op \<leftarrow> ops. if bo_payer op = p then unat (bo_amount op) else 0)"

lemma claimed_append [simp]: "claimed (a @ b) p = claimed a p + claimed b p"
  by (simp add: claimed_def)

text \<open>The invariant relative to the ledger the engine started with: the ledger is reachable, nothing
  is left on the meter, and the log holds one signed operation per debit, numbered from zero, whose
  amounts add up, per payer, to what the ledger debited.\<close>

definition sim_inv :: "'f cbor_api \<Rightarrow> 'k identity_api \<Rightarrow> prepaid_ledger \<Rightarrow> ('k, 'r) sim_engine \<Rightarrow> bool" where
  "sim_inv api ia l0 e \<longleftrightarrow>
     ledger_reach (se_ledger e) \<and> pl_currency (se_ledger e) = pl_currency l0 \<and>
     (\<forall>p. meter_usage (se_meter e) p = Map.empty) \<and>
     (\<exists>ops. rl_receipts (se_log e) = map (\<lambda>op. operation_sign api ia op (se_ik e)) ops \<and>
        map bo_sequence ops = map of_nat [0..<length ops] \<and>
        rl_next_sequence (se_log e) = of_nat (length ops) \<and>
        list_all (\<lambda>op. bo_currency op = pl_currency l0) ops \<and>
        length (pl_debits (se_ledger e)) = length (pl_debits l0) + length ops \<and>
        (\<forall>p. debited (se_ledger e) p = debited l0 p + claimed ops p))"

lemma sim_inv_new: "ledger_reach l \<Longrightarrow> sim_inv api ia l (sim_new l t ik r)"
  by (simp add: sim_inv_def sim_new_def log_new_def claimed_def)

text \<open>With an empty meter an event is billed alone: one line, whose amount is the bill.\<close>

lemma evaluate_single:
  "evaluate t [kind \<mapsto> units] =
     (case ts_prices t kind of
        None \<Rightarrow> Inl (UnpricedKind kind)
      | Some price \<Rightarrow>
          let item = mk_line_item t kind units price
          in Inr \<lparr>bill_currency = ts_currency t, bill_amount = li_amount item, bill_line_items = [item]\<rparr>)"
  by (cases kind) (simp_all add: evaluate_def kind_entries_def all_kinds_def Let_def
      split: option.splits)

lemma metered_usage:
  assumes "meter_usage (se_meter e) payer = Map.empty"
  shows "\<exists>m. meter_usage m = meter_usage (se_meter e) \<and>
    apply_event api ia charge show_err e (EvMeteredUsage payer kind units) =
      (case evaluate (se_schedule e) [kind \<mapsto> units] of
         Inl _ \<Rightarrow> Some ([DebitFailed payer (PCurrencyMismatch ''unpriced-kind'' (pl_currency (se_ledger e)))],
                       e\<lparr>se_meter := m\<rparr>)
       | Inr bill \<Rightarrow>
          (case debit (se_ledger e) payer bill of
             Inl err \<Rightarrow> Some ([DebitFailed payer err], e\<lparr>se_meter := m\<rparr>)
           | Inr (d, l') \<Rightarrow>
               let (rs, log') = issue_for_bill api ia (se_log e) payer bill (se_ik e)
               in Some (Debited d rs # state_notification l' payer,
                        e\<lparr>se_meter := m, se_ledger := l', se_log := log'\<rparr>)))"
proof -
  let ?r = "meter_reset (meter_record (se_meter e) payer kind units) payer"
  have "fst ?r = [kind \<mapsto> units]" "meter_usage (snd ?r) = meter_usage (se_meter e)"
    using mem.record_then_reset [OF assms, of kind units] by simp_all
  then show ?thesis
    by (intro exI [of _ "snd ?r"])
      (auto simp: apply_event.simps(2) case_prod_unfold Let_def debit_and_receipt_def split: sum.splits)
qed

lemma metered_outcomes:
  assumes "meter_usage (se_meter e) payer = Map.empty"
    and "apply_event api ia charge show_err e (EvMeteredUsage payer kind units) = Some (out, e')"
  shows "case evaluate (se_schedule e) [kind \<mapsto> units] of
      Inl _ \<Rightarrow> se_ledger e' = se_ledger e \<and> se_log e' = se_log e \<and> (\<exists>err. out = [DebitFailed payer err])
    | Inr bill \<Rightarrow>
        (case debit (se_ledger e) payer bill of
           Inl err \<Rightarrow> se_ledger e' = se_ledger e \<and> se_log e' = se_log e \<and> (\<exists>err. out = [DebitFailed payer err])
         | Inr (d, l') \<Rightarrow> se_ledger e' = l' \<and>
             (\<exists>rs. length rs = length (bill_line_items bill) \<and> out = Debited d rs # state_notification l' payer))"
  using metered_usage [OF assms(1), of api ia charge show_err kind units] assms(2)
  by (auto simp: issue_for_bill_def issue_items_spec Let_def split: sum.splits prod.splits)

lemma single_bill:
  assumes "ts_prices t kind = Some price"
  obtains bill where "evaluate t [kind \<mapsto> units] = Inr bill" "bill_currency bill = ts_currency t"
    "length (bill_line_items bill) = 1" "unat (bill_amount bill) = min (line_cost t (kind, units)) (2 ^ 64 - 1)"
  using li_amount_cost [of t "(kind, units)"] assms
  by (simp add: evaluate_single Let_def get_or_def)

declare apply_event.simps(2) [simp del]

lemma sim_inv_ledger_move:
  assumes "sim_inv api ia l0 e" and "ledger_step (se_ledger e) l'"
    and "pl_currency l' = pl_currency (se_ledger e)" "pl_debits l' = pl_debits (se_ledger e)"
  shows "sim_inv api ia l0 (e\<lparr>se_ledger := l'\<rparr>)"
proof -
  have "debited l' = debited (se_ledger e)" by (simp add: fun_eq_iff debited_def assms(4))
  moreover have "ledger_reach l'"
    using assms(1,2) ledger_reach.reach_step by (auto simp: sim_inv_def)
  ultimately show ?thesis
    using assms(1,3,4) by (simp add: sim_inv_def)
qed

lemma sim_inv_debit:
  assumes inv: "sim_inv api ia l0 e" and "meter_usage m = meter_usage (se_meter e)"
    and deb: "debit (se_ledger e) payer bill = Inr (d, l')"
    and bill: "bill_line_items bill = [item]" "bill_amount bill = li_amount item"
    and iss: "issue_for_bill api ia (se_log e) payer bill (se_ik e) = (rs, log')"
  shows "sim_inv api ia l0 (e\<lparr>se_meter := m, se_ledger := l', se_log := log'\<rparr>)"
proof -
  from inv obtain ops where ops: "rl_receipts (se_log e) = map (\<lambda>op. operation_sign api ia op (se_ik e)) ops"
      "map bo_sequence ops = map of_nat [0..<length ops]" "rl_next_sequence (se_log e) = of_nat (length ops)"
      "list_all (\<lambda>op. bo_currency op = pl_currency l0) ops"
      "length (pl_debits (se_ledger e)) = length (pl_debits l0) + length ops"
      "\<And>p. debited (se_ledger e) p = debited l0 p + claimed ops p"
    by (auto simp: sim_inv_def)
  define op where "op = operation_for payer (bill_currency bill) item (of_nat (length ops))"
  have log': "log' = (se_log e)\<lparr>rl_receipts := rl_receipts (se_log e) @ [operation_sign api ia op (se_ik e)],
                 rl_next_sequence := of_nat (length ops) + 1\<rparr>"
    using iss by (auto simp: issue_for_bill_def bill Let_def ops(3) op_def)
  note d = debit_ok [OF deb]
  have reach: "ledger_reach l'"
    using inv deb by (auto simp: sim_inv_def intro: ledger_reach.reach_step ledger_step.step_debit)
  have deb': "debited l' p = debited (se_ledger e) p + (if payer = p then unat (li_amount item) else 0)" for p
    by (simp add: d(3,4) debited_def bill)
  have cur: "bill_currency bill = pl_currency l0" "pl_currency l' = pl_currency l0"
    using inv d(1) by (simp_all add: sim_inv_def d(4))
  have len: "length (pl_debits l') = Suc (length (pl_debits (se_ledger e)))" by (simp add: d(4))
  have cl: "claimed [op] p = (if payer = p then unat (li_amount item) else 0)" for p
    by (simp add: claimed_def operation_for_def op_def)
  have m: "meter_usage m p = Map.empty" for p
    using inv assms(2) by (simp add: sim_inv_def)
  have op: "bo_sequence op = of_nat (length ops)" "bo_currency op = pl_currency l0"
    by (simp_all add: operation_for_def cur op_def)
  show ?thesis
    unfolding sim_inv_def
    by (intro conjI exI [of _ "ops @ [op]"])
      (use reach cur m ops op in \<open>simp_all add: log' deb' len cl\<close>)
qed

text \<open>Every event returns and keeps the books.\<close>

lemma apply_event_inv:
  assumes inv: "sim_inv api ia l0 e"
  shows "\<exists>out e'. apply_event api ia charge show_err e ev = Some (out, e') \<and> sim_inv api ia l0 e'
           \<and> out \<noteq> [] \<and> se_ik e' = se_ik e"
proof (cases ev)
  case (EvTopUp payer amount fref)
  have "ledger_reach (se_ledger e)" using inv by (simp add: sim_inv_def)
  then obtain r l' where up: "top_up (se_ledger e) payer amount fref = Some (r, l')"
    using top_up_returns by blast
  then have "pl_currency l' = pl_currency (se_ledger e)" "pl_debits l' = pl_debits (se_ledger e)"
    by (auto simp: top_up_def Let_def next_seq_def split: if_splits)
  then have "sim_inv api ia l0 (e\<lparr>se_ledger := l'\<rparr>)"
    using inv up by (auto intro: sim_inv_ledger_move ledger_step.step_top_up)
  then show ?thesis using up by (simp add: EvTopUp)
next
  case (EvMeteredUsage payer kind units)
  have empty: "meter_usage (se_meter e) payer = Map.empty" using inv by (simp add: sim_inv_def)
  obtain m where m: "meter_usage m = meter_usage (se_meter e)" and
    step: "apply_event api ia charge show_err e (EvMeteredUsage payer kind units) =
      (case evaluate (se_schedule e) [kind \<mapsto> units] of
         Inl _ \<Rightarrow> Some ([DebitFailed payer (PCurrencyMismatch ''unpriced-kind'' (pl_currency (se_ledger e)))],
                       e\<lparr>se_meter := m\<rparr>)
       | Inr bill \<Rightarrow>
          (case debit (se_ledger e) payer bill of
             Inl err \<Rightarrow> Some ([DebitFailed payer err], e\<lparr>se_meter := m\<rparr>)
           | Inr (d, l') \<Rightarrow>
               let (rs, log') = issue_for_bill api ia (se_log e) payer bill (se_ik e)
               in Some (Debited d rs # state_notification l' payer,
                        e\<lparr>se_meter := m, se_ledger := l', se_log := log'\<rparr>)))"
    using metered_usage [OF empty, of api ia charge show_err kind units] by blast
  have keep: "sim_inv api ia l0 (e\<lparr>se_meter := m\<rparr>)"
    using inv m by (simp add: sim_inv_def)
  show ?thesis
  proof (cases "evaluate (se_schedule e) [kind \<mapsto> units]")
    case (Inl err)
    with keep show ?thesis by (simp add: EvMeteredUsage step)
  next
    case (Inr bill)
    then obtain item where bill: "bill_line_items bill = [item]" "bill_amount bill = li_amount item"
      by (auto simp: evaluate_single Let_def split: option.splits)
    show ?thesis
    proof (cases "debit (se_ledger e) payer bill")
      case (Inl err)
      with keep Inr show ?thesis by (simp add: EvMeteredUsage step)
    next
      case deb: (Inr x)
      obtain d l' where x: "x = (d, l')" by (cases x)
      obtain rs log' where iss: "issue_for_bill api ia (se_log e) payer bill (se_ik e) = (rs, log')"
        by (cases "issue_for_bill api ia (se_log e) payer bill (se_ik e)")
      show ?thesis
        using sim_inv_debit [OF inv m deb [unfolded x] bill iss] Inr deb
        by (simp add: EvMeteredUsage step x iss)
    qed
  qed
next
  case (EvTariffChange t)
  then show ?thesis using inv by (simp add: sim_inv_def)
next
  case (EvRefund payer amount)
  show ?thesis
  proof (cases "refund (se_ledger e) payer amount")
    case (Inr x)
    obtain r l' where x: "x = (r, l')" by (cases x)
    with Inr have rf: "refund (se_ledger e) payer amount = Inr (r, l')" by simp
    have "sim_inv api ia l0 (e\<lparr>se_ledger := l'\<rparr>)"
      using inv rf
      by (intro sim_inv_ledger_move) (auto simp: refund_ok(3) [OF rf] intro: ledger_step.step_refund)
    then show ?thesis by (simp add: EvRefund rf)
  qed (use inv in \<open>simp add: EvRefund\<close>)
next
  case (EvMonthlyCharge payer amount currency)
  then show ?thesis using inv
    by (cases "charge (se_rail e) payer amount currency") (auto simp: sim_inv_def)
qed

lemma replay_inv:
  assumes "sim_inv api ia l0 e"
  shows "\<exists>outs e'. replay api ia charge show_err e evs = Some (outs, e') \<and> sim_inv api ia l0 e'
           \<and> length evs \<le> length outs \<and> se_ik e' = se_ik e"
  using assms
proof (induction evs arbitrary: e)
  case (Cons ev evs)
  obtain out e1 where a: "apply_event api ia charge show_err e ev = Some (out, e1)"
      "sim_inv api ia l0 e1" "out \<noteq> []" "se_ik e1 = se_ik e"
    using apply_event_inv [OF Cons.prems, of charge show_err ev] by blast
  obtain outs e' where r: "replay api ia charge show_err e1 evs = Some (outs, e')" "sim_inv api ia l0 e'"
      "length evs \<le> length outs" "se_ik e' = se_ik e1"
    using Cons.IH [OF a(2)] by blast
  from a(3) have "Suc 0 \<le> length out" by (simp add: Suc_le_eq)
  with a r show ?case by simp
qed simp

section \<open>Properties\<close>

text \<open>C4: the engine's books agree, whatever the events and the rail do. Replaying any event stream
  from a new engine over a reachable ledger returns (no panic) with at least one outcome per event;
  afterwards the meter is empty for every payer, the log verifies, every receipt in it decodes, and
  for every payer the ledger debited exactly what the decoded receipts claim, one receipt per debit,
  numbered from zero.\<close>

theorem replay_books_agree:
  assumes "cbor_laws api" and "identity_laws ia" and "ledger_reach l"
  shows "\<exists>outs e ops. replay api ia charge show_err (sim_new l t ik rail) evs = Some (outs, e)
    \<and> length evs \<le> length outs
    \<and> (\<forall>p. meter_usage (se_meter e) p = Map.empty)
    \<and> verify_all api ia (se_log e) = Inr ()
    \<and> map (operation_from_receipt api) (rl_receipts (se_log e)) = map Inr ops
    \<and> map bo_sequence ops = map of_nat [0..<length ops]
    \<and> length (pl_debits (se_ledger e)) = length (pl_debits l) + length ops
    \<and> (\<forall>p. debited (se_ledger e) p = debited l p + claimed ops p)"
proof -
  obtain outs e where r: "replay api ia charge show_err (sim_new l t ik rail) evs = Some (outs, e)"
      "sim_inv api ia l e" "length evs \<le> length outs"
    using replay_inv [of api ia l "sim_new l t ik rail" charge show_err evs, OF sim_inv_new [OF assms(3)]]
    by blast
  from r(2) obtain ops where ops: "rl_receipts (se_log e) = map (\<lambda>op. operation_sign api ia op (se_ik e)) ops"
      "map bo_sequence ops = map of_nat [0..<length ops]"
      "length (pl_debits (se_ledger e)) = length (pl_debits l) + length ops"
      "\<forall>p. debited (se_ledger e) p = debited l p + claimed ops p"
    and m: "\<forall>p. meter_usage (se_meter e) p = Map.empty"
    by (auto simp: sim_inv_def)
  have "verify_receipts api ia (map (\<lambda>op. operation_sign api ia op (se_ik e)) ops) = Inr ()" for ops
    by (induction ops) (simp_all add: verify_signed [OF assms(2)])
  moreover have "map (operation_from_receipt api) (rl_receipts (se_log e)) = map Inr ops"
    by (simp add: ops(1) operation_from_sign [OF assms(1)])
  ultimately show ?thesis
    using r(1,3) ops m
    by (intro exI [of _ outs] exI [of _ e] exI [of _ ops]) (simp add: verify_all_def)
qed

theorem replay_books_agree_witness:
  "\<exists>outs e ops. replay assoc_cbor tag_identity im_charge (\<lambda>_. ''err'')
      (sim_new demo_ledger demo_schedule 7 im_new)
      [EvMeteredUsage [1] Messages 12, EvMonthlyCharge [1] 4 ''USD''] = Some (outs, e)
    \<and> map (operation_from_receipt assoc_cbor) (rl_receipts (se_log e)) = map Inr ops
    \<and> debited (se_ledger e) [1] = debited demo_ledger [1] + claimed ops [1]"
  using replay_books_agree [OF assoc_cbor_laws tag_identity_laws demo_ledger_reach,
      of im_charge "\<lambda>_. ''err''" demo_schedule 7 im_new
        "[EvMeteredUsage [1] Messages 12, EvMonthlyCharge [1] 4 ''USD'']"]
  by blast

text \<open>Billing one usage event. On an engine with an empty meter, usage of a priced kind within
  the payer's balance (in the schedule's currency) debits exactly the units beyond the free
  allowance times the unit price, capped at \<open>u64::MAX\<close>; an unpriced kind, a foreign currency or a
  bill above the balance debits nothing, issues no receipt and reports the failure.\<close>

theorem metered_usage_debits:
  assumes "meter_usage (se_meter e) payer = Map.empty"
    and "apply_event api ia charge show_err e (EvMeteredUsage payer kind units) = Some (out, e')"
  shows "if ts_prices (se_schedule e) kind = None
            \<or> ts_currency (se_schedule e) \<noteq> pl_currency (se_ledger e)
            \<or> unat (balance (se_ledger e) payer)
                 < min (line_cost (se_schedule e) (kind, units)) (2 ^ 64 - 1)
         then se_ledger e' = se_ledger e \<and> se_log e' = se_log e \<and> (\<exists>err. out = [DebitFailed payer err])
         else unat (balance (se_ledger e') payer) + min (line_cost (se_schedule e) (kind, units)) (2 ^ 64 - 1)
                = unat (balance (se_ledger e) payer)
              \<and> (\<forall>q. q \<noteq> payer \<longrightarrow> balance (se_ledger e') q = balance (se_ledger e) q)
              \<and> (\<exists>d r. out = Debited d [r] # state_notification (se_ledger e') payer)"
proof -
  note out = metered_outcomes [OF assms]
  show ?thesis
  proof (cases "ts_prices (se_schedule e) kind")
    case None
    with out show ?thesis by (simp add: evaluate_single)
  next
    case (Some price)
    then obtain bill where ev: "evaluate (se_schedule e) [kind \<mapsto> units] = Inr bill"
      and bill: "bill_currency bill = ts_currency (se_schedule e)" "length (bill_line_items bill) = 1"
        "unat (bill_amount bill) = min (line_cost (se_schedule e) (kind, units)) (2 ^ 64 - 1)"
      by (rule single_bill)
    show ?thesis
    proof (cases "debit (se_ledger e) payer bill")
      case (Inl err)
      with out ev debit_refused [OF Inl] show ?thesis unfolding bill by simp
    next
      case (Inr x)
      then obtain d l' where deb: "debit (se_ledger e) payer bill = Inr (d, l')" by (cases x) auto
      with out ev obtain rs where e': "se_ledger e' = l'" "length rs = length (bill_line_items bill)"
          "out = Debited d rs # state_notification l' payer"
        by auto
      moreover obtain r where "rs = [r]" using e'(2) bill(2) by (cases rs) auto
      ultimately show ?thesis
        using Some debit_ok(1) [OF deb] bill(1) debit_balance [OF deb]
        unfolding bill(3) [symmetric] by simp
    qed
  qed
qed

theorem metered_usage_debits_witness:
  "\<exists>out e'. apply_event assoc_cbor tag_identity im_charge (\<lambda>_. ''err'')
      (sim_new demo_ledger demo_schedule 7 im_new) (EvMeteredUsage [1] Messages 12) = Some (out, e')
    \<and> unat (balance (se_ledger e') [1]) = 14"
proof -
  let ?e = "sim_new demo_ledger demo_schedule 7 im_new"
  have emp: "meter_usage (se_meter ?e) [1] = Map.empty" by (simp add: sim_new_def)
  obtain out e' where ev: "apply_event assoc_cbor tag_identity im_charge (\<lambda>_. ''err'') ?e
      (EvMeteredUsage [1] Messages 12) = Some (out, e')"
    using apply_event_inv [of assoc_cbor tag_identity demo_ledger ?e im_charge "\<lambda>_. ''err''"
        "EvMeteredUsage [1] Messages 12", OF sim_inv_new [OF demo_ledger_reach]] by blast
  have "line_cost demo_schedule (Messages, 12) = 6"
    by (simp add: line_cost_def demo_schedule_def get_or_def)
  moreover have "pl_currency demo_ledger = ''USD''"
    by (simp add: demo_ledger_def top_up_state_def top_up_def ledger_new_def Let_def next_seq_def)
  ultimately have "unat (balance (se_ledger e') [1]) = 14"
    using metered_usage_debits [OF emp ev] demo_ledger_paid(2)
    by (simp add: sim_new_def demo_schedule_def)
  with ev show ?thesis by blast
qed

end
