(* ===== verification/Conformance.thy ===== *)
theory Conformance
  imports Descriptor
begin

text \<open>
  \<open>crates/broker-conformance/src/lib.rs\<close>: the COORD-1..8 harness. A coordinator is the record of
  what its trait methods return; \<open>check\<close> produces the report the harness prints.
\<close>

datatype lock_in = NoLockIn | Requires string
datatype self_host = Backstop | ScarceReachabilityException | NoSelfHost string
datatype gate = Authorization | Classification string | DerivedViewOnly | NoDeliveryPath
datatype metering = NotMetered | SignedReceiptsToPayer | NoReceipts string
datatype settlement = ExistingAssetsOnly | MintsToken string

datatype check_outcome = OPass | OViolation string | OBehavioral string

record coordinator =
  co_kind :: coordinator_kind
  co_descriptor :: descriptor
  co_lock_in :: lock_in
  co_self_host :: self_host
  co_gate :: gate
  co_metering :: metering
  co_settlement :: settlement

record check_finding =
  fi_id :: string
  fi_clause :: string
  fi_outcome :: check_outcome

record report =
  rp_kind :: coordinator_kind
  rp_findings :: "check_finding list"

text \<open>The section sign in UTF-8.\<close>

definition SECT :: string where "SECT = [CHR 0xC2, CHR 0xA7]"

fun is_violation :: "check_outcome \<Rightarrow> bool" where
  "is_violation (OViolation _) = True"
| "is_violation _ = False"

fun is_behavioral :: "check_outcome \<Rightarrow> bool" where
  "is_behavioral (OBehavioral _) = True"
| "is_behavioral _ = False"

definition is_conformant :: "report \<Rightarrow> bool" where
  "is_conformant r = (\<not> list_ex (\<lambda>f. is_violation (fi_outcome f)) (rp_findings r))"

definition behavioral :: "report \<Rightarrow> check_finding list" where
  "behavioral r = filter (\<lambda>f. is_behavioral (fi_outcome f)) (rp_findings r)"

definition coord4 :: "content_visibility \<Rightarrow> check_outcome" where
  "coord4 v =
     (if must_not_present_as_verified v
      then OBehavioral (''declared-level '' @ visibility_str v
             @ '' claim: client MUST surface it as unverified, not verified ('' @ SECT @ ''3.4)'')
      else OPass)"

definition check :: "coordinator \<Rightarrow> report" where
  "check c =
     \<lparr>rp_kind = co_kind c,
      rp_findings =
       [\<lparr>fi_id = ''COORD-1'', fi_clause = SECT @ ''2.1'',
         fi_outcome = (if d_kind (co_descriptor c) = co_kind c
           then OBehavioral ''verify descriptor signature once kotva-core is pinned''
           else OViolation (''descriptor kind '' @ kind_as_str (d_kind (co_descriptor c))
                  @ '' != operating kind '' @ kind_as_str (co_kind c)))\<rparr>,
        \<lparr>fi_id = ''COORD-2'', fi_clause = SECT @ ''2.2'',
         fi_outcome = (case co_lock_in c of NoLockIn \<Rightarrow> OPass | Requires why \<Rightarrow> OViolation why)\<rparr>,
        \<lparr>fi_id = ''COORD-3'', fi_clause = SECT @ ''2.3'',
         fi_outcome = (case co_self_host c of
             Backstop \<Rightarrow> OPass
           | ScarceReachabilityException \<Rightarrow>
               if is_scarce_reachability (co_kind c) then OPass
               else OViolation (kind_as_str (co_kind c)
                 @ '' claims the scarce-reachability exception but is not a member of that class'')
           | NoSelfHost why \<Rightarrow> OViolation why)\<rparr>,
        \<lparr>fi_id = ''COORD-4'', fi_clause = SECT @ ''2.4/'' @ SECT @ ''3'',
         fi_outcome = coord4 (d_visibility (co_descriptor c))\<rparr>,
        \<lparr>fi_id = ''COORD-5'', fi_clause = SECT @ ''3.2'',
         fi_outcome = OBehavioral ''assert observed TLS behavior matches the declared visibility class''\<rparr>,
        \<lparr>fi_id = ''COORD-6'', fi_clause = SECT @ ''4'',
         fi_outcome = (case co_gate c of
             Classification why \<Rightarrow> OViolation why | _ \<Rightarrow> OPass)\<rparr>,
        \<lparr>fi_id = ''COORD-7'', fi_clause = SECT @ ''6'',
         fi_outcome = (case co_metering c of
             NoReceipts why \<Rightarrow> OViolation why | _ \<Rightarrow> OPass)\<rparr>,
        \<lparr>fi_id = ''COORD-8'', fi_clause = SECT @ ''6'',
         fi_outcome = (case co_settlement c of
             ExistingAssetsOnly \<Rightarrow> OPass | MintsToken why \<Rightarrow> OViolation why)\<rparr>]\<rparr>"

text \<open>The verdict of the conformance harness. A coordinator is reported conformant exactly when
  its descriptor names the kind it operates as, switching away from it requires nothing, it has a
  self-hosting backstop or is one of the two scarce-reachability kinds claiming that exception, it
  does not classify content on a delivery path, it does not meter without receipts, and it mints
  no token. COORD-5 is always left to behavioural testing, and a declared-level blindness claim is
  always flagged behavioural, never passed.\<close>

theorem check_conformant_iff:
  "(is_conformant (check c) \<longleftrightarrow>
      d_kind (co_descriptor c) = co_kind c
      \<and> co_lock_in c = NoLockIn
      \<and> (co_self_host c = Backstop
         \<or> co_self_host c = ScarceReachabilityException \<and> co_kind c \<in> {Gateway, ReachabilityAdapter})
      \<and> co_gate c \<in> {Authorization, DerivedViewOnly, NoDeliveryPath}
      \<and> co_metering c \<in> {NotMetered, SignedReceiptsToPayer}
      \<and> co_settlement c = ExistingAssetsOnly)
   \<and> map fi_id (rp_findings (check c))
       = [''COORD-1'', ''COORD-2'', ''COORD-3'', ''COORD-4'', ''COORD-5'', ''COORD-6'', ''COORD-7'', ''COORD-8'']
   \<and> ''COORD-5'' \<in> set (map fi_id (behavioral (check c)))
   \<and> (''COORD-4'' \<in> set (map fi_id (behavioral (check c)))
        \<longleftrightarrow> must_not_present_as_verified (d_visibility (co_descriptor c)))"
proof (intro conjI)
  show "is_conformant (check c) \<longleftrightarrow>
      d_kind (co_descriptor c) = co_kind c
      \<and> co_lock_in c = NoLockIn
      \<and> (co_self_host c = Backstop
         \<or> co_self_host c = ScarceReachabilityException \<and> co_kind c \<in> {Gateway, ReachabilityAdapter})
      \<and> co_gate c \<in> {Authorization, DerivedViewOnly, NoDeliveryPath}
      \<and> co_metering c \<in> {NotMetered, SignedReceiptsToPayer}
      \<and> co_settlement c = ExistingAssetsOnly"
    by (cases "co_self_host c"; cases "co_gate c"; cases "co_metering c"; cases "co_settlement c";
        cases "co_lock_in c")
      (simp_all add: is_conformant_def check_def coord4_def is_scarce_reachability_def)
qed (auto simp: check_def behavioral_def coord4_def)

end
