(* ===== verification/Coordinators.thy ===== *)
theory Coordinators
  imports Conformance Cbor_Instance
begin

text \<open>
  The coordinators of the other kinds (\<open>crates/relay\<close>, \<open>media-relay\<close>, \<open>indexer\<close>, \<open>labeler\<close>, \<open>matcher\<close>, \<open>oracle\<close>,
  \<open>arbiter\<close>, \<open>compute\<close>, and the postures of the gateway and the reachability adapter): what each declares of itself to
  the conformance harness, and the descriptor it signs and publishes.
\<close>

section \<open>What a kind declares of itself\<close>

definition metering_of :: "bool \<Rightarrow> metering" where
  "metering_of metered = (if metered then SignedReceiptsToPayer else NotMetered)"

definition relay_coordinator :: "descriptor \<Rightarrow> bool \<Rightarrow> coordinator" where
  "relay_coordinator d metered =
     \<lparr>co_kind = Relay, co_descriptor = d, co_lock_in = NoLockIn, co_self_host = Backstop, co_gate = NoDeliveryPath,
      co_metering = metering_of metered, co_settlement = ExistingAssetsOnly\<rparr>"

definition media_relay_coordinator :: "descriptor \<Rightarrow> bool \<Rightarrow> coordinator" where
  "media_relay_coordinator d metered =
     \<lparr>co_kind = MediaRelay, co_descriptor = d, co_lock_in = NoLockIn, co_self_host = Backstop, co_gate = NoDeliveryPath,
      co_metering = metering_of metered, co_settlement = ExistingAssetsOnly\<rparr>"

definition indexer_coordinator :: "descriptor \<Rightarrow> bool \<Rightarrow> coordinator" where
  "indexer_coordinator d metered =
     \<lparr>co_kind = Indexer, co_descriptor = d, co_lock_in = NoLockIn, co_self_host = Backstop, co_gate = DerivedViewOnly,
      co_metering = metering_of metered, co_settlement = ExistingAssetsOnly\<rparr>"

definition labeler_coordinator :: "descriptor \<Rightarrow> bool \<Rightarrow> coordinator" where
  "labeler_coordinator d metered =
     \<lparr>co_kind = Labeler, co_descriptor = d, co_lock_in = NoLockIn, co_self_host = Backstop, co_gate = DerivedViewOnly,
      co_metering = metering_of metered, co_settlement = ExistingAssetsOnly\<rparr>"

definition arbiter_coordinator :: "descriptor \<Rightarrow> bool \<Rightarrow> coordinator" where
  "arbiter_coordinator d metered =
     \<lparr>co_kind = Arbiter, co_descriptor = d, co_lock_in = NoLockIn, co_self_host = Backstop, co_gate = NoDeliveryPath,
      co_metering = metering_of metered, co_settlement = ExistingAssetsOnly\<rparr>"

definition matcher_coordinator :: "descriptor \<Rightarrow> bool \<Rightarrow> coordinator" where
  "matcher_coordinator d metered =
     \<lparr>co_kind = Matcher, co_descriptor = d, co_lock_in = NoLockIn, co_self_host = Backstop, co_gate = DerivedViewOnly,
      co_metering = metering_of metered, co_settlement = ExistingAssetsOnly\<rparr>"

definition oracle_coordinator :: "descriptor \<Rightarrow> bool \<Rightarrow> coordinator" where
  "oracle_coordinator d metered =
     \<lparr>co_kind = Oracle, co_descriptor = d, co_lock_in = NoLockIn, co_self_host = Backstop, co_gate = NoDeliveryPath,
      co_metering = metering_of metered, co_settlement = ExistingAssetsOnly\<rparr>"

definition compute_coordinator :: "descriptor \<Rightarrow> bool \<Rightarrow> coordinator" where
  "compute_coordinator d metered =
     \<lparr>co_kind = Compute, co_descriptor = d, co_lock_in = NoLockIn, co_self_host = Backstop, co_gate = NoDeliveryPath,
      co_metering = metering_of metered, co_settlement = ExistingAssetsOnly\<rparr>"

definition gateway_coordinator :: "descriptor \<Rightarrow> bool \<Rightarrow> coordinator" where
  "gateway_coordinator d metered =
     \<lparr>co_kind = Gateway, co_descriptor = d, co_lock_in = NoLockIn, co_self_host = ScarceReachabilityException,
      co_gate = Authorization, co_metering = metering_of metered, co_settlement = ExistingAssetsOnly\<rparr>"

definition reachability_coordinator :: "descriptor \<Rightarrow> bool \<Rightarrow> coordinator" where
  "reachability_coordinator d metered =
     \<lparr>co_kind = ReachabilityAdapter, co_descriptor = d, co_lock_in = NoLockIn, co_self_host = ScarceReachabilityException,
      co_gate = NoDeliveryPath, co_metering = metering_of metered, co_settlement = ExistingAssetsOnly\<rparr>"

section \<open>Visibility\<close>

definition RELAY_VISIBILITY :: content_visibility where
  "RELAY_VISIBILITY = content_visibility_new Blind Structural"

definition MEDIA_RELAY_VISIBILITY :: content_visibility where
  "MEDIA_RELAY_VISIBILITY = content_visibility_new BlindRouting Structural"

definition LABELER_VISIBILITY :: content_visibility where
  "LABELER_VISIBILITY = content_visibility_new Terminating Declared"

definition ARBITER_VISIBILITY :: content_visibility where
  "ARBITER_VISIBILITY = content_visibility_new Terminating Declared"

definition ORACLE_VISIBILITY :: content_visibility where
  "ORACLE_VISIBILITY = content_visibility_new Terminating Declared"

datatype query_channel = QueryTerminating | QueryAttested

fun query_visibility :: "query_channel \<Rightarrow> content_visibility" where
  "query_visibility QueryTerminating = content_visibility_new Terminating Declared"
| "query_visibility QueryAttested = content_visibility_new Blind Attested"

datatype match_channel = MatchTerminating | MatchAttested

fun match_visibility :: "match_channel \<Rightarrow> content_visibility" where
  "match_visibility MatchTerminating = content_visibility_new Terminating Declared"
| "match_visibility MatchAttested = content_visibility_new Blind Attested"

datatype compute_channel = ComputeTerminating | ComputeAttested

fun compute_visibility :: "compute_channel \<Rightarrow> content_visibility" where
  "compute_visibility ComputeTerminating = content_visibility_new Terminating Declared"
| "compute_visibility ComputeAttested = content_visibility_new Blind Attested"

datatype name_kind = OwnDomain | AdapterZoneVanity

fun name_visibility :: "name_kind \<Rightarrow> content_visibility" where
  "name_visibility OwnDomain = content_visibility_new BlindRouting Structural"
| "name_visibility AdapterZoneVanity = content_visibility_new BlindRouting Declared"

section \<open>Signed descriptors\<close>

definition relay_signed ::
    "'f cbor_api \<Rightarrow> 'k identity_api \<Rightarrow> 'k \<Rightarrow> bytes \<Rightarrow> tariff option \<Rightarrow> bool \<Rightarrow> coordinator \<times> signed_descriptor" where
  "relay_signed api ia ik policy tf metered =
     (let d = \<lparr>d_identity = ia_public ia ik, d_kind = Relay, d_visibility = RELAY_VISIBILITY, d_policy = policy, d_tariff = tf\<rparr>
      in (relay_coordinator d metered, descriptor_sign api ia d ik))"

definition media_relay_signed ::
    "'f cbor_api \<Rightarrow> 'k identity_api \<Rightarrow> 'k \<Rightarrow> bytes \<Rightarrow> tariff option \<Rightarrow> bool \<Rightarrow> coordinator \<times> signed_descriptor" where
  "media_relay_signed api ia ik policy tf metered =
     (let d = \<lparr>d_identity = ia_public ia ik, d_kind = MediaRelay, d_visibility = MEDIA_RELAY_VISIBILITY, d_policy = policy,
               d_tariff = tf\<rparr>
      in (media_relay_coordinator d metered, descriptor_sign api ia d ik))"

definition indexer_signed ::
    "'f cbor_api \<Rightarrow> 'k identity_api \<Rightarrow> query_channel \<Rightarrow> 'k \<Rightarrow> bytes \<Rightarrow> tariff option \<Rightarrow> bool \<Rightarrow> coordinator \<times> signed_descriptor" where
  "indexer_signed api ia channel ik policy tf metered =
     (let d = \<lparr>d_identity = ia_public ia ik, d_kind = Indexer, d_visibility = query_visibility channel, d_policy = policy,
               d_tariff = tf\<rparr>
      in (indexer_coordinator d metered, descriptor_sign api ia d ik))"

definition labeler_signed ::
    "'f cbor_api \<Rightarrow> 'k identity_api \<Rightarrow> 'k \<Rightarrow> bytes \<Rightarrow> tariff option \<Rightarrow> bool \<Rightarrow> coordinator \<times> signed_descriptor" where
  "labeler_signed api ia ik policy tf metered =
     (let d = \<lparr>d_identity = ia_public ia ik, d_kind = Labeler, d_visibility = LABELER_VISIBILITY, d_policy = policy, d_tariff = tf\<rparr>
      in (labeler_coordinator d metered, descriptor_sign api ia d ik))"

definition arbiter_signed ::
    "'f cbor_api \<Rightarrow> 'k identity_api \<Rightarrow> 'k \<Rightarrow> bytes \<Rightarrow> tariff option \<Rightarrow> bool \<Rightarrow> coordinator \<times> signed_descriptor" where
  "arbiter_signed api ia ik policy tf metered =
     (let d = \<lparr>d_identity = ia_public ia ik, d_kind = Arbiter, d_visibility = ARBITER_VISIBILITY, d_policy = policy, d_tariff = tf\<rparr>
      in (arbiter_coordinator d metered, descriptor_sign api ia d ik))"

definition matcher_signed ::
    "'f cbor_api \<Rightarrow> 'k identity_api \<Rightarrow> match_channel \<Rightarrow> 'k \<Rightarrow> bytes \<Rightarrow> tariff option \<Rightarrow> bool \<Rightarrow> coordinator \<times> signed_descriptor" where
  "matcher_signed api ia channel ik policy tf metered =
     (let d = \<lparr>d_identity = ia_public ia ik, d_kind = Matcher, d_visibility = match_visibility channel, d_policy = policy,
               d_tariff = tf\<rparr>
      in (matcher_coordinator d metered, descriptor_sign api ia d ik))"

definition oracle_signed ::
    "'f cbor_api \<Rightarrow> 'k identity_api \<Rightarrow> 'k \<Rightarrow> bytes \<Rightarrow> tariff option \<Rightarrow> bool \<Rightarrow> coordinator \<times> signed_descriptor" where
  "oracle_signed api ia ik policy tf metered =
     (let d = \<lparr>d_identity = ia_public ia ik, d_kind = Oracle, d_visibility = ORACLE_VISIBILITY, d_policy = policy, d_tariff = tf\<rparr>
      in (oracle_coordinator d metered, descriptor_sign api ia d ik))"

definition compute_signed ::
    "'f cbor_api \<Rightarrow> 'k identity_api \<Rightarrow> compute_channel \<Rightarrow> 'k \<Rightarrow> bytes \<Rightarrow> tariff option \<Rightarrow> bool \<Rightarrow> coordinator \<times> signed_descriptor" where
  "compute_signed api ia channel ik policy tf metered =
     (let d = \<lparr>d_identity = ia_public ia ik, d_kind = Compute, d_visibility = compute_visibility channel, d_policy = policy,
               d_tariff = tf\<rparr>
      in (compute_coordinator d metered, descriptor_sign api ia d ik))"

definition gateway_coordinator_new :: "'k identity_api \<Rightarrow> 'k \<Rightarrow> bytes \<Rightarrow> bool \<Rightarrow> coordinator" where
  "gateway_coordinator_new ia ik policy metered =
     gateway_coordinator \<lparr>d_identity = ia_public ia ik, d_kind = Gateway,
       d_visibility = content_visibility_new Terminating Declared, d_policy = policy, d_tariff = None\<rparr> metered"

definition gateway_coordinator_sign :: "'f cbor_api \<Rightarrow> 'k identity_api \<Rightarrow> coordinator \<Rightarrow> 'k \<Rightarrow> signed_descriptor" where
  "gateway_coordinator_sign api ia c ik = descriptor_sign api ia (co_descriptor c) ik"

section \<open>The contract of a kind\<close>

text \<open>A kind's posture is fixed: whatever descriptor it is given, the rest of what it declares passes.\<close>

locale posture =
  fixes mk :: "descriptor \<Rightarrow> bool \<Rightarrow> coordinator" and k :: coordinator_kind
  assumes kind: "co_kind (mk d m) = k"
    and descr: "co_descriptor (mk d m) = d"
    and rest: "co_lock_in (mk d m) = NoLockIn \<and> co_gate (mk d m) \<in> {Authorization, DerivedViewOnly, NoDeliveryPath} \<and>
      co_metering (mk d m) \<in> {NotMetered, SignedReceiptsToPayer} \<and> co_settlement (mk d m) = ExistingAssetsOnly"
    and host: "co_self_host (mk d m) = Backstop \<or>
      co_self_host (mk d m) = ScarceReachabilityException \<and> k \<in> {Gateway, ReachabilityAdapter}"
begin

lemma conformant: "is_conformant (check (mk d m)) \<longleftrightarrow> d_kind d = k"
  using rest [of d m] host [of d m] by (auto simp: check_conformant_iff kind descr)

end

lemmas posture_defs = relay_coordinator_def media_relay_coordinator_def indexer_coordinator_def labeler_coordinator_def
  arbiter_coordinator_def matcher_coordinator_def oracle_coordinator_def compute_coordinator_def gateway_coordinator_def
  reachability_coordinator_def metering_of_def

interpretation relay: posture relay_coordinator Relay by unfold_locales (simp_all add: posture_defs)
interpretation media_relay: posture media_relay_coordinator MediaRelay by unfold_locales (simp_all add: posture_defs)
interpretation indexer: posture indexer_coordinator Indexer by unfold_locales (simp_all add: posture_defs)
interpretation labeler: posture labeler_coordinator Labeler by unfold_locales (simp_all add: posture_defs)
interpretation arbiter: posture arbiter_coordinator Arbiter by unfold_locales (simp_all add: posture_defs)
interpretation matcher: posture matcher_coordinator Matcher by unfold_locales (simp_all add: posture_defs)
interpretation oracle_kind: posture oracle_coordinator Oracle by unfold_locales (simp_all add: posture_defs)
interpretation compute: posture compute_coordinator Compute by unfold_locales (simp_all add: posture_defs)
interpretation gateway: posture gateway_coordinator Gateway by unfold_locales (simp_all add: posture_defs)
interpretation reachability: posture reachability_coordinator ReachabilityAdapter by unfold_locales (simp_all add: posture_defs)

lemmas conformant_kinds = relay.conformant media_relay.conformant indexer.conformant labeler.conformant arbiter.conformant
  matcher.conformant oracle_kind.conformant compute.conformant gateway.conformant reachability.conformant

lemmas signed_defs = relay_signed_def media_relay_signed_def indexer_signed_def labeler_signed_def arbiter_signed_def
  matcher_signed_def oracle_signed_def compute_signed_def

text \<open>Every coordinator the kinds can publish.\<close>

definition published ::
    "'f cbor_api \<Rightarrow> 'k identity_api \<Rightarrow> query_channel \<Rightarrow> match_channel \<Rightarrow> compute_channel \<Rightarrow> 'k \<Rightarrow> bytes \<Rightarrow> tariff option \<Rightarrow> bool
      \<Rightarrow> (coordinator \<times> signed_descriptor) list" where
  "published api ia q m x ik policy tf metered =
     [relay_signed api ia ik policy tf metered, media_relay_signed api ia ik policy tf metered,
      indexer_signed api ia q ik policy tf metered, labeler_signed api ia ik policy tf metered,
      arbiter_signed api ia ik policy tf metered, matcher_signed api ia m ik policy tf metered,
      oracle_signed api ia ik policy tf metered, compute_signed api ia x ik policy tf metered,
      (let g = gateway_coordinator_new ia ik policy metered in (g, gateway_coordinator_sign api ia g ik))]"


section \<open>What is published\<close>

text \<open>C30: every coordinator a kind builds and signs for publication passes the conformance harness, its descriptor
  reads back from the wire as it was signed and is the one the coordinator operates under, and none of them claims a
  blindness that a client would have to show as unverified; a coordinator made from another kind's descriptor fails.\<close>

theorem published_coordinators_conform:
  assumes "cbor_laws api" and "identity_laws ia"
    and "(c, sd) \<in> set (published api ia q m x ik policy tf metered)"
  shows "is_conformant (check c) \<and> sd_descriptor sd = co_descriptor c \<and>
    from_det_cbor api ia (det_cbor api sd) = Inr sd \<and> \<not> must_not_present_as_verified (d_visibility (co_descriptor c)) \<and>
    (\<forall>d. d_kind d \<noteq> co_kind c \<longrightarrow> \<not> is_conformant (check (c\<lparr>co_descriptor := d\<rparr>)))"
proof -
  have v: "\<not> must_not_present_as_verified (query_visibility q)" "\<not> must_not_present_as_verified (match_visibility m)"
      "\<not> must_not_present_as_verified (compute_visibility x)"
    by (cases q; cases m; cases x; simp add: must_not_present_as_verified_def content_visibility_new_def)+
  note vis = RELAY_VISIBILITY_def MEDIA_RELAY_VISIBILITY_def LABELER_VISIBILITY_def ARBITER_VISIBILITY_def
    ORACLE_VISIBILITY_def content_visibility_new_def must_not_present_as_verified_def
  have p: "from_det_cbor api ia (det_cbor api (descriptor_sign api ia d ik)) = Inr (descriptor_sign api ia d ik)"
    if "d_identity d = ia_public ia ik" for d
    using descriptor_publish_parses [OF assms(1,2) that] .
  have s: "sd_descriptor (descriptor_sign api ia d ik) = d" for d by (simp add: descriptor_sign_def)
  have bad: "d_kind d \<noteq> co_kind c \<longrightarrow> \<not> is_conformant (check (c\<lparr>co_descriptor := d\<rparr>))" for d c
    by (simp add: check_conformant_iff)
  have all: "list_all (\<lambda>(c, sd). is_conformant (check c) \<and> sd_descriptor sd = co_descriptor c \<and>
    from_det_cbor api ia (det_cbor api sd) = Inr sd \<and> \<not> must_not_present_as_verified (d_visibility (co_descriptor c)))
    (published api ia q m x ik policy tf metered)"
    using v by (simp add: published_def signed_defs gateway_coordinator_new_def gateway_coordinator_sign_def Let_def
        conformant_kinds relay.descr media_relay.descr indexer.descr labeler.descr arbiter.descr matcher.descr
        oracle_kind.descr compute.descr gateway.descr p s) (simp add: vis)
  show ?thesis using all assms(3) bad by (auto simp: list_all_iff)
qed

theorem published_coordinators_conform_witness:
  "is_conformant (check (fst (relay_signed assoc_cbor tag_identity 7 [] None True))) \<and>
   from_det_cbor assoc_cbor tag_identity (det_cbor assoc_cbor (snd (relay_signed assoc_cbor tag_identity 7 [] None True))) =
     Inr (snd (relay_signed assoc_cbor tag_identity 7 [] None True))"
  using published_coordinators_conform [OF assoc_cbor_laws tag_identity_laws,
      of "fst (relay_signed assoc_cbor tag_identity 7 [] None True)" "snd (relay_signed assoc_cbor tag_identity 7 [] None True)"
        QueryTerminating MatchTerminating ComputeTerminating 7 "[]" None True]
  by (simp add: published_def)

section \<open>The relay server\<close>

text \<open>The task that owns the swarm (\<open>crates/relay/src/server.rs\<close>): it takes commands and the swarm's events, of which
  only new listen addresses matter here; \<open>with_p2p\<close> appends the peer's own component to an address.\<close>

datatype 'a relay_event = AddExternalAddress 'a | HandleDropped | NewListenAddr 'a | OtherSwarmEvent

record 'a relay_state =
  rs_external :: "'a list"
  rs_listeners :: "'a list"

fun swarm_loop :: "('a \<Rightarrow> 'a option) \<Rightarrow> 'a relay_event list \<Rightarrow> 'a relay_state \<Rightarrow> 'a relay_state" where
  "swarm_loop with_p2p [] s = s"
| "swarm_loop with_p2p (AddExternalAddress a # es) s = swarm_loop with_p2p es (s\<lparr>rs_external := rs_external s @ [a]\<rparr>)"
| "swarm_loop with_p2p (HandleDropped # es) s = s"
| "swarm_loop with_p2p (NewListenAddr a # es) s =
     (let full = (case with_p2p a of Some f \<Rightarrow> f | None \<Rightarrow> a)
      in swarm_loop with_p2p es (s\<lparr>rs_listeners := rs_listeners s @ [full]\<rparr>))"
| "swarm_loop with_p2p (OtherSwarmEvent # es) s = swarm_loop with_p2p es s"

text \<open>\<open>wait_for_listener\<close>: the listeners at successive polls, each with whether the deadline has passed.\<close>

fun wait_for_listener :: "('a list \<times> bool) list \<Rightarrow> 'a list option" where
  "wait_for_listener [] = None"
| "wait_for_listener ((ls, late) # polls) = (if ls \<noteq> [] \<or> late then Some ls else wait_for_listener polls)"

lemma wait_returns: "list_ex snd polls \<Longrightarrow> \<exists>ls. wait_for_listener polls = Some ls"
  by (induction polls rule: wait_for_listener.induct) auto

lemma wait_empty_only_late: "wait_for_listener polls = Some [] \<Longrightarrow> ([], True) \<in> set polls"
  by (induction polls rule: wait_for_listener.induct) (auto split: if_splits)

lemma swarm_listeners: "prefix (rs_listeners s) (rs_listeners (swarm_loop f es s))"
  by (induction f es s rule: swarm_loop.induct) (auto dest: append_prefixD)

end
