(* ===== verification/Media_Sfu.thy ===== *)
theory Media_Sfu
  imports Rust_Strings
begin

text \<open>
  Orchestration of an external media server (\<open>crates/media-relay/src/sfu.rs\<close>, \<open>mock.rs\<close>, \<open>external.rs\<close>): the contract of
  \<open>MediaSfu\<close>, the in-memory adapter, the adapter that spawns a process, and the configuration it documents. Processes
  are an operating-system parameter acting on a world state.
\<close>

section \<open>Sessions\<close>

record session_config =
  sc_session_id :: string
  sc_max_tracks :: u32
  sc_max_bitrate_kbps :: u32

type_synonym sfu_handle = string

datatype sfu_status = SfuRunning string | SfuStopped | SfuUnavailable string

datatype sfu_error = SfuErrUnavailable string | SfuAlreadyRunning string | SfuNotFound string

fun sfu_error_text :: "sfu_error \<Rightarrow> string" where
  "sfu_error_text (SfuErrUnavailable reason) = ''SFU unavailable: '' @ reason"
| "sfu_error_text (SfuAlreadyRunning i) = ''session '' @ [CHR 0x27] @ i @ [CHR 0x27] @ '' is already running''"
| "sfu_error_text (SfuNotFound i) = ''no session '' @ [CHR 0x27] @ i @ [CHR 0x27] @ '' on this adapter''"

section \<open>The in-memory adapter\<close>

datatype mock_state = MockRunning | MockStopped

type_synonym mock_sfu = "string \<rightharpoonup> mock_state"

definition mock_start :: "session_config \<Rightarrow> mock_sfu \<Rightarrow> (sfu_error + sfu_handle) \<times> mock_sfu" where
  "mock_start cfg s =
     (if s (sc_session_id cfg) = Some MockRunning then (Inl (SfuAlreadyRunning (sc_session_id cfg)), s)
      else (Inr (sc_session_id cfg), s(sc_session_id cfg \<mapsto> MockRunning)))"

definition mock_stop :: "sfu_handle \<Rightarrow> mock_sfu \<Rightarrow> (sfu_error + unit) \<times> mock_sfu" where
  "mock_stop h s =
     (case s h of
        Some MockRunning \<Rightarrow> (Inr (), s(h \<mapsto> MockStopped))
      | _ \<Rightarrow> (Inl (SfuNotFound h), s))"

definition mock_status :: "mock_sfu \<Rightarrow> sfu_handle \<Rightarrow> sfu_status" where
  "mock_status s h = (case s h of Some MockRunning \<Rightarrow> SfuRunning (''mock://'' @ h) | _ \<Rightarrow> SfuStopped)"

section \<open>The process adapter\<close>

datatype external_sfu_kind = Coturn | LiveKit

fun sfu_label :: "external_sfu_kind \<Rightarrow> string" where
  "sfu_label Coturn = ''coturn''"
| "sfu_label LiveKit = ''livekit-server''"

datatype session_state = ProcRunning nat string | ProcUnavailable string

record external_sfu =
  ex_kind :: external_sfu_kind
  ex_binary :: string
  ex_sessions :: "string \<rightharpoonup> session_state"

text \<open>Spawning a program with its arguments gives a child or an error; \<open>os_try_wait\<close> says whether the child is still alive.\<close>

datatype spawn_error = SpawnNotFound | SpawnOther string

record 'w sfu_os =
  os_spawn :: "string \<Rightarrow> string list \<Rightarrow> 'w \<Rightarrow> (spawn_error + nat) \<times> 'w"
  os_try_wait :: "nat \<Rightarrow> 'w \<Rightarrow> string + bool"
  os_kill :: "nat \<Rightarrow> 'w \<Rightarrow> 'w"

definition external_new :: "external_sfu_kind \<Rightarrow> string \<Rightarrow> external_sfu" where
  "external_new k binary = \<lparr>ex_kind = k, ex_binary = binary, ex_sessions = Map.empty\<rparr>"

definition coturn :: external_sfu where
  "coturn = external_new Coturn ''turnserver''"

definition livekit :: external_sfu where
  "livekit = external_new LiveKit ''livekit-server''"

definition with_binary :: "string \<Rightarrow> external_sfu \<Rightarrow> external_sfu" where
  "with_binary b x = x\<lparr>ex_binary := b\<rparr>"

text \<open>The dash of the message is its UTF-8 encoding.\<close>

definition not_found_reason :: "external_sfu \<Rightarrow> string" where
  "not_found_reason x =
     sfu_label (ex_kind x) @ '' binary '' @ [CHR 0x27] @ ex_binary x @ [CHR 0x27] @ '' not found on PATH '' @
     [CHR 0xE2, CHR 0x80, CHR 0x94] @ '' sidecar not installed; see ExternalSfu'' @ [CHR 0x27] @
     ''s crate docs for the documented launch command an operator runs''"

definition external_start ::
    "'w sfu_os \<Rightarrow> session_config \<Rightarrow> external_sfu \<times> 'w \<Rightarrow> (sfu_error + sfu_handle) \<times> external_sfu \<times> 'w" where
  "external_start os cfg xw =
     (let (x, w) = xw; sid = sc_session_id cfg in
      case ex_sessions x sid of
        Some (ProcRunning _ _) \<Rightarrow> (Inl (SfuAlreadyRunning sid), x, w)
      | _ \<Rightarrow>
          (case os_spawn os (ex_binary x) [''--version''] w of
             (Inr child, w') \<Rightarrow>
               (Inr sid, x\<lparr>ex_sessions := (ex_sessions x)(sid \<mapsto> ProcRunning child (sfu_label (ex_kind x) @ ''://'' @ sid))\<rparr>, w')
           | (Inl SpawnNotFound, w') \<Rightarrow>
               (Inl (SfuErrUnavailable (not_found_reason x)),
                x\<lparr>ex_sessions := (ex_sessions x)(sid \<mapsto> ProcUnavailable (not_found_reason x))\<rparr>, w')
           | (Inl (SpawnOther e), w') \<Rightarrow>
               (let reason = ''failed to spawn '' @ sfu_label (ex_kind x) @ '': '' @ e in
                (Inl (SfuErrUnavailable reason),
                 x\<lparr>ex_sessions := (ex_sessions x)(sid \<mapsto> ProcUnavailable reason)\<rparr>, w'))))"

definition external_stop :: "'w sfu_os \<Rightarrow> sfu_handle \<Rightarrow> external_sfu \<times> 'w \<Rightarrow> (sfu_error + unit) \<times> external_sfu \<times> 'w" where
  "external_stop os h xw =
     (let (x, w) = xw; x' = x\<lparr>ex_sessions := (ex_sessions x)(h := None)\<rparr> in
      case ex_sessions x h of
        Some (ProcRunning child _) \<Rightarrow> (Inr (), x', os_kill os child w)
      | _ \<Rightarrow> (Inl (SfuNotFound h), x', w))"

definition external_status :: "'w sfu_os \<Rightarrow> external_sfu \<times> 'w \<Rightarrow> sfu_handle \<Rightarrow> sfu_status" where
  "external_status os xw h =
     (let (x, w) = xw in
      case ex_sessions x h of
        Some (ProcRunning child endpoint) \<Rightarrow>
          (case os_try_wait os child w of Inr True \<Rightarrow> SfuRunning endpoint | _ \<Rightarrow> SfuStopped)
      | Some (ProcUnavailable reason) \<Rightarrow> SfuUnavailable reason
      | None \<Rightarrow> SfuStopped)"

section \<open>Configuration\<close>

definition DENIED_PEER_IP_RANGES :: "string list" where
  "DENIED_PEER_IP_RANGES =
     [''0.0.0.0-0.255.255.255'', ''10.0.0.0-10.255.255.255'', ''100.64.0.0-100.127.255.255'', ''127.0.0.0-127.255.255.255'',
      ''169.254.0.0-169.254.255.255'', ''172.16.0.0-172.31.255.255'', ''192.0.0.0-192.0.0.255'', ''192.0.2.0-192.0.2.255'',
      ''192.88.99.0-192.88.99.255'', ''192.168.0.0-192.168.255.255'', ''198.18.0.0-198.19.255.255'',
      ''198.51.100.0-198.51.100.255'', ''203.0.113.0-203.0.113.255'', ''240.0.0.0-255.255.255.255'', ''::1'',
      ''fc00::-fdff:ffff:ffff:ffff:ffff:ffff:ffff:ffff'', ''fe80::-febf:ffff:ffff:ffff:ffff:ffff:ffff:ffff'']"

record coturn_config =
  cc_listening_port :: u16
  cc_relay_ip :: string
  cc_external_ip :: "string option"
  cc_realm :: string
  cc_min_port :: u16
  cc_max_port :: u16
  cc_static_auth_secret :: string

definition coturn_reference :: "string \<Rightarrow> string \<Rightarrow> coturn_config" where
  "coturn_reference realm secret =
     \<lparr>cc_listening_port = 3478, cc_relay_ip = ''0.0.0.0'', cc_external_ip = None, cc_realm = realm, cc_min_port = 49152,
      cc_max_port = 49452, cc_static_auth_secret = secret\<rparr>"

definition conf_lines :: "coturn_config \<Rightarrow> string list" where
  "conf_lines c =
     [''# generated by ephor media-relay '' @ [CHR 0xE2, CHR 0x80, CHR 0x94] @ '' coturn sidecar config (RFC 8656)'',
      ''listening-port='' @ dec (unat (cc_listening_port c)),
      ''relay-ip='' @ cc_relay_ip c] @
     (case cc_external_ip c of Some ip \<Rightarrow> [''external-ip='' @ ip] | None \<Rightarrow> []) @
     [''realm='' @ cc_realm c, ''min-port='' @ dec (unat (cc_min_port c)), ''max-port='' @ dec (unat (cc_max_port c)),
      ''use-auth-secret'', ''static-auth-secret='' @ cc_static_auth_secret c, ''fingerprint'', ''no-cli'',
      ''no-loopback-peers'', ''no-multicast-peers''] @
     map (\<lambda>r. ''denied-peer-ip='' @ r) DENIED_PEER_IP_RANGES"

definition to_conf_text :: "coturn_config \<Rightarrow> string" where
  "to_conf_text c = concat (map (\<lambda>l. l @ [LF]) (conf_lines c))"

definition coturn_launch_command :: "string \<Rightarrow> string list" where
  "coturn_launch_command path = [''turnserver'', ''-c'', path, ''-n'']"

record livekit_config =
  lk_port :: u16
  lk_tcp_port :: u16
  lk_port_range_start :: u16
  lk_port_range_end :: u16
  lk_use_external_ip :: bool
  lk_keys :: "string \<rightharpoonup> string"
  lk_turn_enabled :: bool
  lk_turn_domain :: string
  lk_turn_tls_port :: u16

definition livekit_reference :: "string \<Rightarrow> string \<Rightarrow> string \<Rightarrow> livekit_config" where
  "livekit_reference api_key api_secret turn_domain =
     \<lparr>lk_port = 7880, lk_tcp_port = 7881, lk_port_range_start = 50000, lk_port_range_end = 60000, lk_use_external_ip = True,
      lk_keys = [api_key \<mapsto> api_secret], lk_turn_enabled = True, lk_turn_domain = turn_domain, lk_turn_tls_port = 5349\<rparr>"

definition livekit_launch_command :: "string \<Rightarrow> string list" where
  "livekit_launch_command path = [''livekit-server'', ''--config'', path]"

section \<open>The contract\<close>

text \<open>What every adapter promises: a failed start leaves the failure on record and no session running, a stop is final
  until the next start, and only a session that was started can be stopped.\<close>

locale media_sfu =
  fixes start :: "session_config \<Rightarrow> 's \<Rightarrow> (sfu_error + sfu_handle) \<times> 's"
    and stop :: "sfu_handle \<Rightarrow> 's \<Rightarrow> (sfu_error + unit) \<times> 's"
    and status :: "'s \<Rightarrow> sfu_handle \<Rightarrow> sfu_status"
  assumes start_handle: "start cfg s = (Inr h, s') \<Longrightarrow> h = sc_session_id cfg"
    and start_fails: "start cfg s = (Inl (SfuErrUnavailable r), s') \<Longrightarrow> status s' (sc_session_id cfg) = SfuUnavailable r"
    and start_again: "start cfg s = (Inr h, s') \<Longrightarrow> fst (start cfg s') = Inl (SfuAlreadyRunning h)"
    and stop_stops: "stop h s = (u, s') \<Longrightarrow> status s' h = SfuStopped"
    and stop_started: "start cfg s = (Inr h, s') \<Longrightarrow> fst (stop h s') = Inr ()"
    and stop_twice: "stop h s = (u, s') \<Longrightarrow> fst (stop h s') = Inl (SfuNotFound h)"
begin

lemma restart:
  assumes "start cfg s = (Inr h, s1)" and "stop h s1 = (r, s2)"
  shows "r = Inr () \<and> status s2 h = SfuStopped \<and> fst (stop h s2) = Inl (SfuNotFound h)"
  using assms stop_started stop_stops stop_twice by (metis fst_conv)

lemma never_running_when_unavailable: "start cfg s = (Inl (SfuErrUnavailable r), s') \<Longrightarrow> status s' (sc_session_id cfg) \<noteq> SfuRunning e"
  by (simp add: start_fails)

end

interpretation mock_adapter: media_sfu mock_start mock_stop mock_status
  by unfold_locales (auto simp: mock_start_def mock_stop_def mock_status_def split: option.splits mock_state.splits if_splits)

text \<open>For the process adapter the world is part of the state.\<close>

lemmas external_defs = external_start_def external_stop_def external_status_def

interpretation process_adapter: media_sfu "external_start os" "external_stop os" "external_status os" for os
  by unfold_locales
    (auto simp: external_defs Let_def split: option.splits session_state.splits prod.splits sum.splits spawn_error.splits)

text \<open>The lifecycle of the process adapter. Starting a session and stopping its handle succeeds, after
  which the session reports stopped and cannot be stopped again; and a start that reports the server unavailable leaves
  that reason as the status, never a running session, whatever the operating system does.\<close>

theorem sfu_lifecycle:
  assumes "external_start os cfg xw = (res, xw1)"
  shows "case res of
     Inr h \<Rightarrow> fst (external_stop os h xw1) = Inr () \<and>
       external_status os (snd (external_stop os h xw1)) h = SfuStopped \<and>
       fst (external_stop os h (snd (external_stop os h xw1))) = Inl (SfuNotFound h)
   | Inl (SfuErrUnavailable r) \<Rightarrow> external_status os xw1 (sc_session_id cfg) = SfuUnavailable r
   | Inl (SfuAlreadyRunning i) \<Rightarrow> i = sc_session_id cfg \<and> xw1 = xw
   | Inl (SfuNotFound i) \<Rightarrow> False"
proof (cases res)
  case (Inl e)
  then have e: "external_start os cfg xw = (Inl e, xw1)" using assms by simp
  show ?thesis
  proof (cases e)
    case (SfuErrUnavailable r)
    then show ?thesis using process_adapter.start_fails [of os cfg xw r xw1] e Inl by simp
  qed (use e Inl in \<open>auto simp: external_start_def Let_def
      split: option.splits session_state.splits prod.splits sum.splits spawn_error.splits\<close>)
next
  case (Inr h)
  have r: "external_stop os h xw1 = (fst (external_stop os h xw1), snd (external_stop os h xw1))" by simp
  show ?thesis using process_adapter.restart [OF assms [unfolded Inr] r] Inr by simp
qed

text \<open>C32: a session whose process has exited is reported stopped and yet cannot be started again: the process adapter
  refuses with "already running" until it is stopped explicitly, although nothing runs; the in-memory adapter refuses
  only sessions that do run.\<close>

theorem exited_session_blocks_start:
  assumes "ex_sessions x (sc_session_id cfg) = Some (ProcRunning child endpoint)" and "os_try_wait os child w = Inr False"
  shows "external_status os (x, w) (sc_session_id cfg) = SfuStopped \<and>
    fst (external_start os cfg (x, w)) = Inl (SfuAlreadyRunning (sc_session_id cfg)) \<and>
    (fst (mock_start cfg m) = Inl (SfuAlreadyRunning (sc_session_id cfg)) \<longrightarrow> mock_status m (sc_session_id cfg) \<noteq> SfuStopped)"
  using assms by (auto simp: external_defs mock_start_def mock_status_def)

text \<open>A host on which one process was started and has exited since.\<close>

definition demo_os :: "bool sfu_os" where
  "demo_os = \<lparr>os_spawn = \<lambda>_ _ w. (Inr 1, w), os_try_wait = \<lambda>_ w. Inr w, os_kill = \<lambda>_ _. False\<rparr>"

definition demo_session :: session_config where
  "demo_session = \<lparr>sc_session_id = ''room'', sc_max_tracks = 2, sc_max_bitrate_kbps = 500\<rparr>"

lemma demo_started: "external_start demo_os demo_session (coturn, True) =
    (Inr ''room'', coturn\<lparr>ex_sessions := [''room'' \<mapsto> ProcRunning 1 ''coturn://room'']\<rparr>, True)"
  by (simp add: external_start_def demo_os_def demo_session_def coturn_def external_new_def Let_def)

theorem sfu_lifecycle_witness:
  "external_status demo_os (snd (external_stop demo_os ''room''
     (coturn\<lparr>ex_sessions := [''room'' \<mapsto> ProcRunning 1 ''coturn://room'']\<rparr>, True))) ''room'' = SfuStopped"
  using sfu_lifecycle [OF demo_started] by simp

theorem exited_session_blocks_start_witness:
  "fst (external_start demo_os demo_session (coturn\<lparr>ex_sessions := [''room'' \<mapsto> ProcRunning 1 ''coturn://room'']\<rparr>, False)) =
     Inl (SfuAlreadyRunning ''room'')"
  using exited_session_blocks_start [of "coturn\<lparr>ex_sessions := [''room'' \<mapsto> ProcRunning 1 ''coturn://room'']\<rparr>" demo_session 1
      "''coturn://room''" demo_os False Map.empty]
  by (simp add: demo_session_def demo_os_def)

end
