(* ===== verification/Byte_Io.thy ===== *)
theory Byte_Io
  imports Rust_Strings
begin

text \<open>
  Byte-level input and output as the network code uses it: big-endian fixed-width integers
  (\<open>u16::from_be_bytes\<close>, \<open>write_u16\<close>), UTF-8 validation with the acceptance table of
  \<open>core::str::from_utf8\<close>, and reading from a connection. A connection that is only read is the list of
  bytes still to come; a read past its end is the error \<open>Eof\<close> of \<open>read_exact\<close>.
\<close>

named_theorems byte_io "evaluation of byte readers and writers"

section \<open>Big-endian integers\<close>

definition be16 :: "u16 \<Rightarrow> bytes" where
  "be16 w = [of_nat (unat w div 256), of_nat (unat w)]"

definition u16_of_be :: "u8 \<Rightarrow> u8 \<Rightarrow> u16" where
  "u16_of_be a b = of_nat (unat a * 256 + unat b)"

definition be24 :: "nat \<Rightarrow> bytes" where
  "be24 n = [of_nat (n div 65536), of_nat (n div 256), of_nat n]"

definition u24_of_be :: "u8 \<Rightarrow> u8 \<Rightarrow> u8 \<Rightarrow> u32" where
  "u24_of_be a b c = of_nat (unat a * 65536 + unat b * 256 + unat c)"

lemma unat_u8_le: "unat (a :: u8) \<le> 255"
  using unat_le_max [of a] by simp

lemma unat_of_nat_u8: "unat (of_nat n :: u8) = n mod 256"
  using unat_of_nat [of n, where 'a = 8] by simp

lemma of_nat_u8_eqI: "n mod 256 = unat b \<Longrightarrow> (of_nat n :: u8) = b"
  by (simp add: unsigned_word_eqI [where 'a = nat] unat_of_nat_u8 del: unsigned_of_nat)

lemma unat_of_nat_less: "n < 2 ^ LENGTH('a) \<Longrightarrow> unat (of_nat n :: 'a::len word) = n"
  by (simp add: unat_of_nat)

lemma of_nat_word_inj:
  "n < 2 ^ LENGTH('a) \<Longrightarrow> m < 2 ^ LENGTH('a) \<Longrightarrow> (of_nat n :: 'a::len word) = of_nat m \<Longrightarrow> n = m"
  by (metis unat_of_nat_less)

lemma unat_u16_of_be [simp]: "unat (u16_of_be a b) = unat a * 256 + unat b"
  unfolding u16_of_be_def using unat_u8_le [of a] unat_u8_le [of b]
  by (intro unat_of_nat_less) simp

lemma unat_u24_of_be [simp]: "unat (u24_of_be a b c) = unat a * 65536 + unat b * 256 + unat c"
  unfolding u24_of_be_def using unat_u8_le [of a] unat_u8_le [of b] unat_u8_le [of c]
  by (intro unat_of_nat_less) simp

lemma u16_of_be16 [byte_io]: "u16_of_be (of_nat (unat w div 256)) (of_nat (unat w)) = w"
proof (rule unsigned_word_eqI)
  have "unat w < 65536" using unsigned_less [of w] by simp
  then have "unat w div 256 mod 256 = unat w div 256" by simp
  then show "unat (u16_of_be (of_nat (unat w div 256)) (of_nat (unat w))) = unat w"
    by (simp only: unat_u16_of_be unat_of_nat_u8 div_mult_mod_eq)
qed

lemma be16_u16_of_be [byte_io]: "be16 (u16_of_be a b) = [a, b]"
  unfolding be16_def unat_u16_of_be using unat_u8_le [of a] unat_u8_le [of b]
  by (auto intro!: of_nat_u8_eqI simp del: of_nat_add of_nat_mult)

lemma length_be16 [simp]: "length (be16 w) = 2"
  by (simp add: be16_def)

lemma length_be24 [simp]: "length (be24 n) = 3"
  by (simp add: be24_def)

lemma u24_of_be24 [byte_io]:
  assumes "n < 2 ^ 24"
  shows "unat (u24_of_be (of_nat (n div 65536)) (of_nat (n div 256)) (of_nat n)) = n"
proof -
  have "n div 65536 mod 256 = n div 65536" using assms by simp
  moreover have "n div 65536 * 65536 + n div 256 mod 256 * 256 + n mod 256 = n"
  proof -
    have "n div 65536 = n div 256 div 256" by (simp add: div_mult2_eq [symmetric])
    then show ?thesis
      using div_mult_mod_eq [of "n div 256" 256] div_mult_mod_eq [of n 256] by linarith
  qed
  ultimately show ?thesis by (simp only: unat_u24_of_be unat_of_nat_u8)
qed

lemma be24_u24_of_be [byte_io]: "be24 (unat (u24_of_be a b c)) = [a, b, c]"
proof -
  have le: "unat a \<le> 255" "unat b \<le> 255" "unat c \<le> 255" by (rule unat_u8_le)+
  let ?n = "unat a * 65536 + unat b * 256 + unat c"
  have "?n div 65536 = unat a" "?n div 256 = unat a * 256 + unat b"
    using le by linarith+
  then have "?n div 65536 mod 256 = unat a" "?n div 256 mod 256 = unat b" "?n mod 256 = unat c"
    using le by (simp_all add: minus_mult_div_eq_mod [symmetric])
  then show ?thesis
    unfolding be24_def unat_u24_of_be by (simp add: of_nat_u8_eqI del: of_nat_add of_nat_mult)
qed

section \<open>UTF-8\<close>

definition cont_byte :: "u8 \<Rightarrow> bool" where
  "cont_byte b = (0x80 \<le> b \<and> b \<le> 0xBF)"

fun valid_utf8 :: "bytes \<Rightarrow> bool" where
  "valid_utf8 [] = True"
| "valid_utf8 (b0 # rest) =
     (if b0 \<le> 0x7F then valid_utf8 rest
      else if 0xC2 \<le> b0 \<and> b0 \<le> 0xDF then
        (case rest of b1 # rest1 \<Rightarrow> cont_byte b1 \<and> valid_utf8 rest1 | _ \<Rightarrow> False)
      else if 0xE0 \<le> b0 \<and> b0 \<le> 0xEF then
        (case rest of b1 # b2 # rest2 \<Rightarrow>
            (if b0 = 0xE0 then 0xA0 \<le> b1 \<and> b1 \<le> 0xBF
             else if b0 = 0xED then 0x80 \<le> b1 \<and> b1 \<le> 0x9F else cont_byte b1)
            \<and> cont_byte b2 \<and> valid_utf8 rest2
         | _ \<Rightarrow> False)
      else if 0xF0 \<le> b0 \<and> b0 \<le> 0xF4 then
        (case rest of b1 # b2 # b3 # rest3 \<Rightarrow>
            (if b0 = 0xF0 then 0x90 \<le> b1 \<and> b1 \<le> 0xBF
             else if b0 = 0xF4 then 0x80 \<le> b1 \<and> b1 \<le> 0x8F else cont_byte b1)
            \<and> cont_byte b2 \<and> cont_byte b3 \<and> valid_utf8 rest3
         | _ \<Rightarrow> False)
      else False)"

definition from_utf8 :: "bytes \<Rightarrow> string option" where
  "from_utf8 bs = (if valid_utf8 bs then Some (map (\<lambda>b. char_of (unat b)) bs) else None)"

text \<open>A Rust \<open>String\<close> is a string whose bytes are UTF-8.\<close>

definition is_str :: "string \<Rightarrow> bool" where
  "is_str s = valid_utf8 (as_bytes s)"

lemma char_of_byte [simp]: "char_of (unat (of_nat (byte_of c) :: u8)) = c"
  by (simp add: unat_of_nat)

lemma byte_of_char [simp]: "(of_nat (byte_of (char_of (unat (b :: u8)))) :: u8) = b"
proof -
  have "unat b < 256" using unat_u8_le [of b] by simp
  then show ?thesis by simp
qed

lemma from_utf8_as_bytes [byte_io]: "is_str s \<Longrightarrow> from_utf8 (as_bytes s) = Some s"
  by (simp add: is_str_def from_utf8_def as_bytes_def comp_def)

lemma from_utf8_Some [byte_io]: "from_utf8 bs = Some s \<longleftrightarrow> bs = as_bytes s \<and> is_str s"
proof
  assume "from_utf8 bs = Some s"
  then have v: "valid_utf8 bs" and s: "s = map (\<lambda>b. char_of (unat b)) bs"
    by (auto simp: from_utf8_def split: if_splits)
  have "as_bytes s = bs" unfolding s as_bytes_def
    by (simp add: comp_def del: of_char_of)
  with v show "bs = as_bytes s \<and> is_str s" by (simp add: is_str_def)
qed (simp add: from_utf8_as_bytes)

lemma from_utf8_length: "from_utf8 bs = Some s \<Longrightarrow> length s = length bs"
  by (auto simp: from_utf8_def split: if_splits)

lemma ascii_is_str: "list_all (\<lambda>c. byte_of c < 128) s \<Longrightarrow> is_str s"
  unfolding is_str_def
proof (induction s)
  case (Cons c s)
  then have "(of_nat (byte_of c) :: u8) \<le> 0x7F"
    by (simp add: word_le_nat_alt unat_of_nat)
  with Cons show ?case by (simp add: as_bytes_def)
qed (simp add: as_bytes_def)

text \<open>\<open>String::from_utf8_lossy\<close>: the longest valid step at the front, or the replacement character for
  the bytes the decoder had accepted when it found the sequence broken.\<close>

definition second_ok :: "u8 \<Rightarrow> u8 \<Rightarrow> bool" where
  "second_ok b0 b1 =
     (if b0 = 0xE0 then 0xA0 \<le> b1 \<and> b1 \<le> 0xBF
      else if b0 = 0xED then 0x80 \<le> b1 \<and> b1 \<le> 0x9F
      else if b0 = 0xF0 then 0x90 \<le> b1 \<and> b1 \<le> 0xBF
      else if b0 = 0xF4 then 0x80 \<le> b1 \<and> b1 \<le> 0x8F else cont_byte b1)"

definition utf8_step :: "u8 \<Rightarrow> bytes \<Rightarrow> nat \<times> bool" where
  "utf8_step b0 rest =
     (if b0 \<le> 0x7F then (1, True)
      else if 0xC2 \<le> b0 \<and> b0 \<le> 0xDF then
        (case rest of b1 # _ \<Rightarrow> if cont_byte b1 then (2, True) else (1, False) | [] \<Rightarrow> (1, False))
      else if 0xE0 \<le> b0 \<and> b0 \<le> 0xEF then
        (case rest of
           b1 # rest1 \<Rightarrow>
             if \<not> second_ok b0 b1 then (1, False)
             else (case rest1 of b2 # _ \<Rightarrow> if cont_byte b2 then (3, True) else (2, False) | [] \<Rightarrow> (2, False))
         | [] \<Rightarrow> (1, False))
      else if 0xF0 \<le> b0 \<and> b0 \<le> 0xF4 then
        (case rest of
           b1 # rest1 \<Rightarrow>
             if \<not> second_ok b0 b1 then (1, False)
             else (case rest1 of
                     b2 # rest2 \<Rightarrow>
                       if \<not> cont_byte b2 then (2, False)
                       else (case rest2 of b3 # _ \<Rightarrow> if cont_byte b3 then (4, True) else (3, False) | [] \<Rightarrow> (3, False))
                   | [] \<Rightarrow> (2, False))
         | [] \<Rightarrow> (1, False))
      else (1, False))"

definition replacement_char :: string where
  "replacement_char = map char_of [0xEF, 0xBF, 0xBD :: nat]"

definition text_of :: "bytes \<Rightarrow> string" where
  "text_of bs = map (\<lambda>b. char_of (unat b)) bs"

function from_utf8_lossy :: "bytes \<Rightarrow> string" where
  "from_utf8_lossy [] = []"
| "from_utf8_lossy (b # bs) =
     (let (n, ok) = utf8_step b bs in
      (if ok then text_of (take n (b # bs)) else replacement_char) @ from_utf8_lossy (drop (n - 1) bs))"
  by pat_completeness auto
termination
  by (relation "measure length") auto

lemma from_utf8_lossy_ascii:
  "list_all (\<lambda>b. b \<le> 0x7F) bs \<Longrightarrow> from_utf8_lossy bs = text_of bs"
  by (induction bs) (simp_all add: utf8_step_def text_of_def)

lemma valid_utf8_step:
  assumes "valid_utf8 (b # bs)"
  shows "\<exists>n. utf8_step b bs = (n, True) \<and> 1 \<le> n \<and> valid_utf8 (drop (n - 1) bs)"
proof -
  consider (one) "b \<le> 0x7F" | (two) "\<not> b \<le> 0x7F" "0xC2 \<le> b \<and> b \<le> 0xDF"
    | (three) "\<not> b \<le> 0x7F" "\<not> (0xC2 \<le> b \<and> b \<le> 0xDF)" "0xE0 \<le> b \<and> b \<le> 0xEF"
    | (four) "\<not> b \<le> 0x7F" "\<not> (0xC2 \<le> b \<and> b \<le> 0xDF)" "\<not> (0xE0 \<le> b \<and> b \<le> 0xEF)" "0xF0 \<le> b \<and> b \<le> 0xF4"
    using assms by (auto split: if_splits)
  then show ?thesis
  proof cases
    case one
    with assms show ?thesis by (simp add: utf8_step_def)
  next
    case two
    with assms obtain b1 bs1 where "bs = b1 # bs1" "cont_byte b1" "valid_utf8 bs1" by (auto split: list.splits)
    with two show ?thesis by (simp add: utf8_step_def)
  next
    case three
    then have n: "\<not> b \<le> 0x7F" "\<not> b \<le> 0xDF" "0xE0 \<le> b" "b \<le> 0xEF" "b \<noteq> 0xF0" "b \<noteq> 0xF4"
      by (auto simp: word_le_nat_alt)
    with assms obtain b1 b2 bs2 where "bs = b1 # b2 # bs2" by (cases bs; cases "tl bs") auto
    with n assms show ?thesis by (auto simp: utf8_step_def second_ok_def)
  next
    case four
    then have n: "\<not> b \<le> 0x7F" "\<not> b \<le> 0xDF" "\<not> b \<le> 0xEF" "0xF0 \<le> b" "b \<le> 0xF4" "b \<noteq> 0xE0" "b \<noteq> 0xED"
      by (auto simp: word_le_nat_alt)
    with assms obtain b1 b2 b3 bs3 where "bs = b1 # b2 # b3 # bs3"
      by (cases bs; cases "tl bs"; cases "tl (tl bs)") auto
    with n assms show ?thesis by (auto simp: utf8_step_def second_ok_def)
  qed
qed

lemma from_utf8_lossy_valid: "valid_utf8 bs \<Longrightarrow> from_utf8_lossy bs = text_of bs"
proof (induction bs rule: from_utf8_lossy.induct)
  case (2 b bs)
  from valid_utf8_step [OF 2(2)] obtain n where n: "utf8_step b bs = (n, True)" "1 \<le> n" "valid_utf8 (drop (n - 1) bs)"
    by blast
  have "take n (b # bs) = b # take (n - 1) bs" using n(2) by (cases n) simp_all
  moreover have "map f (take m xs) @ map f (drop m xs) = map f xs" for f :: "u8 \<Rightarrow> char" and m xs
    by (metis append_take_drop_id map_append)
  ultimately show ?case
    using 2(1) [OF n(1) [symmetric] refl n(3)] by (simp add: n(1) text_of_def)
qed (simp add: text_of_def)

lemma text_of_as_bytes [simp]: "text_of (as_bytes s) = s"
  by (simp add: text_of_def as_bytes_def comp_def)

lemma as_bytes_text_of [simp]: "as_bytes (text_of bs) = bs"
  by (simp add: text_of_def as_bytes_def comp_def del: of_char_of)

lemma from_utf8_lossy_str: "is_str s \<Longrightarrow> from_utf8_lossy (as_bytes s) = s"
  by (simp add: is_str_def from_utf8_lossy_valid)

lemma utf8_step_append: "utf8_step b bs = (n, True) \<Longrightarrow> utf8_step b (bs @ cs) = (n, True) \<and> n - 1 \<le> length bs \<and> 1 \<le> n \<and> n - Suc (length bs) = 0"
  by (auto simp: utf8_step_def split: list.splits if_splits)

lemma utf8_step_valid_rest:
  assumes "utf8_step b bs = (n, True)" and "valid_utf8 (drop (n - 1) bs)"
  shows "valid_utf8 (b # bs)"
proof -
  consider "b \<le> 0x7F" "n = 1"
    | b1 bs1 where "\<not> b \<le> 0x7F" "0xC2 \<le> b \<and> b \<le> 0xDF" "bs = b1 # bs1" "cont_byte b1" "n = 2"
    | b1 b2 bs2 where "\<not> b \<le> 0x7F" "\<not> b \<le> 0xDF" "0xE0 \<le> b \<and> b \<le> 0xEF" "bs = b1 # b2 # bs2" "second_ok b b1" "cont_byte b2" "n = 3"
    | b1 b2 b3 bs3 where "\<not> b \<le> 0x7F" "\<not> b \<le> 0xDF" "\<not> b \<le> 0xEF" "0xF0 \<le> b \<and> b \<le> 0xF4" "bs = b1 # b2 # b3 # bs3"
        "second_ok b b1" "cont_byte b2" "cont_byte b3" "n = 4"
    using assms(1) by (force simp: utf8_step_def word_le_nat_alt split: list.splits if_splits)
  then show ?thesis
  proof cases
    case 3
    then have "b \<noteq> 0xF0" "b \<noteq> 0xF4" by (auto simp: word_le_nat_alt)
    with 3 assms(2) show ?thesis by (simp add: second_ok_def)
  next
    case 4
    then have "b \<noteq> 0xE0" "b \<noteq> 0xED" by (auto simp: word_le_nat_alt)
    with 4 assms(2) show ?thesis by (simp add: second_ok_def)
  qed (use assms(2) in simp_all)
qed

lemma valid_utf8_append: "valid_utf8 a \<Longrightarrow> valid_utf8 b \<Longrightarrow> valid_utf8 (a @ b)"
proof (induction a rule: from_utf8_lossy.induct)
  case (2 x xs)
  from valid_utf8_step [OF 2(2)] obtain n where n: "utf8_step x xs = (n, True)" "valid_utf8 (drop (n - 1) xs)"
    by blast
  have "valid_utf8 (drop (n - 1) xs @ b)" by (rule 2(1) [OF n(1) [symmetric] refl n(2) 2(3)])
  with utf8_step_append [OF n(1), of b] have "utf8_step x (xs @ b) = (n, True)" "valid_utf8 (drop (n - 1) (xs @ b))"
    by simp_all
  then have "valid_utf8 (x # (xs @ b))" by (rule utf8_step_valid_rest)
  then show ?case unfolding append_Cons .
qed simp

lemma utf8_step_valid: "utf8_step b bs = (n, True) \<Longrightarrow> valid_utf8 (take n (b # bs))"
  by (auto simp: utf8_step_def second_ok_def split: list.splits if_splits)

lemma is_str_from_utf8_lossy: "is_str (from_utf8_lossy bs)"
  unfolding is_str_def
proof (induction bs rule: from_utf8_lossy.induct)
  case (2 b bs)
  obtain n ok where st: "utf8_step b bs = (n, ok)" by fastforce
  have r: "valid_utf8 (as_bytes replacement_char)" by (simp add: replacement_char_def as_bytes_def cont_byte_def)
  have "valid_utf8 (as_bytes (if ok then text_of (take n (b # bs)) else replacement_char))"
    using utf8_step_valid [of b bs n] st r by auto
  from valid_utf8_append [OF this 2 [OF st [symmetric] refl]]
  show ?case by (simp add: st as_bytes_def)
qed (simp add: as_bytes_def)

lemma length_from_utf8_lossy: "length (from_utf8_lossy bs) \<le> 3 * length bs"
proof (induction bs rule: from_utf8_lossy.induct)
  case (2 b bs)
  obtain n ok where st: "utf8_step b bs = (n, ok)" by (cases "utf8_step b bs")
  have "1 \<le> n" "n \<le> Suc (length bs)"
    using st by (auto simp: utf8_step_def split: if_splits list.splits)
  with 2 [OF st [symmetric] refl] show ?case
    by (auto simp: st replacement_char_def text_of_def)
qed simp

section \<open>Reading a connection\<close>

datatype io_error = Eof | IoOther string

definition read_exact :: "nat \<Rightarrow> bytes \<Rightarrow> io_error + (bytes \<times> bytes)" where
  "read_exact n s = (if n \<le> length s then Inr (take n s, drop n s) else Inl Eof)"

definition read_u16 :: "bytes \<Rightarrow> io_error + (u16 \<times> bytes)" where
  "read_u16 s = bindE (read_exact 2 s) (\<lambda>(b, s'). Inr (u16_of_be (b ! 0) (b ! 1), s'))"

lemma read_exact_Inr [byte_io]:
  "read_exact n s = Inr (b, s') \<longleftrightarrow> s = b @ s' \<and> length b = n"
  by (auto simp: read_exact_def)

lemma read_exact_append [simp]: "length b = n \<Longrightarrow> read_exact n (b @ s) = Inr (b, s)"
  by (simp add: read_exact_Inr)

lemma read_u16_be16 [simp]: "read_u16 (be16 w @ s) = Inr (w, s)"
  by (simp add: read_u16_def) (simp add: be16_def u16_of_be16 del: of_nat_unat)

lemma read_u16_Inr [byte_io]: "read_u16 s = Inr (w, s') \<longleftrightarrow> s = be16 w @ s'"
proof
  assume "read_u16 s = Inr (w, s')"
  then obtain b where b: "s = b @ s'" "length b = 2" "w = u16_of_be (b ! 0) (b ! 1)"
    by (auto simp: read_u16_def res read_exact_Inr)
  then have "b = [b ! 0, b ! 1]"
    by (auto simp: numeral_2_eq_2 length_Suc_conv)
  with b show "s = be16 w @ s'" by (simp add: be16_u16_of_be)
qed simp

end
