(* ===== verification/Reach_Sni.thy ===== *)
theory Reach_Sni
  imports Byte_Io
begin

text \<open>
  The ClientHello peek of the reachability adapter, \<open>crates/reachability-adapter/src/sni.rs\<close>: the
  bounds-checked cursor, the record, body, extension and server-name parsers, and the read loop.
  A position of the cursor is a \<open>usize\<close> that never passes the buffer's length, so it is a natural
  number. The client connection is the list of results its \<open>read\<close> calls return: an I/O error or a
  chunk, the empty chunk being end of file; an exhausted list is end of file too.
\<close>

datatype sni_error =
    NotHandshake
  | SniMalformed string
  | NoSni
  | EmptySni
  | TooLarge
  | UnexpectedEof
  | SniIo io_error

record client_hello_peek =
  ch_server_name :: string
  ch_raw :: bytes

datatype parsed = Incomplete | Complete string

definition MAX_CLIENT_HELLO_BYTES :: nat where
  "MAX_CLIENT_HELLO_BYTES = 16 * 1024"

section \<open>The cursor\<close>

record cursor =
  cu_buf :: bytes
  cu_pos :: nat

definition cur_new :: "bytes \<Rightarrow> cursor" where
  "cur_new buf = \<lparr>cu_buf = buf, cu_pos = 0\<rparr>"

definition cur_remaining :: "cursor \<Rightarrow> nat" where
  "cur_remaining c = length (cu_buf c) - cu_pos c"

definition cur_take :: "nat \<Rightarrow> cursor \<Rightarrow> sni_error + (bytes \<times> cursor)" where
  "cur_take n c =
     (if n > cur_remaining c then Inl (SniMalformed ''truncated field'')
      else Inr (take n (drop (cu_pos c) (cu_buf c)), c\<lparr>cu_pos := cu_pos c + n\<rparr>))"

definition cur_u8 :: "cursor \<Rightarrow> sni_error + (u8 \<times> cursor)" where
  "cur_u8 c = bindE (cur_take 1 c) (\<lambda>(b, c'). Inr (b ! 0, c'))"

definition cur_u16 :: "cursor \<Rightarrow> sni_error + (u16 \<times> cursor)" where
  "cur_u16 c = bindE (cur_take 2 c) (\<lambda>(b, c'). Inr (u16_of_be (b ! 0) (b ! 1), c'))"

definition cur_u24 :: "cursor \<Rightarrow> sni_error + (u32 \<times> cursor)" where
  "cur_u24 c = bindE (cur_take 3 c) (\<lambda>(b, c'). Inr (u24_of_be (b ! 0) (b ! 1) (b ! 2), c'))"

text \<open>What is left to read, and the cursor moved on; the readers described over them.\<close>

definition rest :: "cursor \<Rightarrow> bytes" where
  "rest c = drop (cu_pos c) (cu_buf c)"

definition adv :: "nat \<Rightarrow> cursor \<Rightarrow> cursor" where
  "adv n c = c\<lparr>cu_pos := cu_pos c + n\<rparr>"

lemma rest_new [simp]: "rest (cur_new b) = b"
  by (simp add: rest_def cur_new_def)

lemma rest_adv [simp]: "rest (adv n c) = drop n (rest c)"
  by (simp add: rest_def adv_def add.commute)

lemma adv_adv [simp]: "adv n (adv m c) = adv (m + n) c"
  by (simp add: adv_def)

lemma remaining_rest: "cur_remaining c = length (rest c)"
  by (simp add: cur_remaining_def rest_def)

lemma cur_take_Inr [byte_io]:
  "cur_take n c = Inr (s, c') \<longleftrightarrow> c' = adv n c \<and> length s = n \<and> (\<exists>t. rest c = s @ t)"
proof -
  have "take n (rest c) = s \<longleftrightarrow> (\<exists>t. rest c = s @ t)" if "n \<le> length (rest c)" "length s = n"
    using that by (metis append_eq_conv_conj append_take_drop_id)
  moreover have "n \<le> length (rest c)" if "rest c = s @ t" "length s = n" for t
    using that by simp
  ultimately show ?thesis
    by (auto simp: cur_take_def remaining_rest adv_def rest_def [symmetric])
qed

lemma cur_take_Inl [byte_io]:
  "cur_take n c = Inl e \<longleftrightarrow> length (rest c) < n \<and> e = SniMalformed ''truncated field''"
  by (auto simp: cur_take_def remaining_rest)

lemma cur_bind_Inr:
  assumes "bindE (cur_take n c) (\<lambda>(b, c'). Inr (f b, c')) = Inr (w, c')"
  obtains b t where "c' = adv n c" "length b = n" "rest c = b @ t" "w = f b"
proof (cases "cur_take n c")
  case (Inr x)
  obtain b c1 where x: "x = (b, c1)" by (cases x)
  with Inr assms have "cur_take n c = Inr (b, c')" "w = f b" by simp_all
  then show thesis using that unfolding cur_take_Inr by blast
qed (use assms in simp)

lemma cur_u8_Inr [byte_io]: "cur_u8 c = Inr (w, c') \<longleftrightarrow> c' = adv 1 c \<and> (\<exists>t. rest c = w # t)"
proof
  assume "cur_u8 c = Inr (w, c')"
  obtain b t where b: "c' = adv 1 c" "length b = 1" "rest c = b @ t" "w = b ! 0"
    using cur_bind_Inr [OF \<open>cur_u8 c = Inr (w, c')\<close> [unfolded cur_u8_def]] by blast
  then have "b = [w]" by (cases b) auto
  with b(1,3) show "c' = adv 1 c \<and> (\<exists>t. rest c = w # t)" by simp
next
  assume a: "c' = adv 1 c \<and> (\<exists>t. rest c = w # t)"
  then have "cur_take 1 c = Inr ([w], adv 1 c)" by (simp add: cur_take_Inr)
  with a show "cur_u8 c = Inr (w, c')" by (simp add: cur_u8_def)
qed

lemma cur_u16_Inr [byte_io]: "cur_u16 c = Inr (w, c') \<longleftrightarrow> c' = adv 2 c \<and> (\<exists>t. rest c = be16 w @ t)"
proof
  assume "cur_u16 c = Inr (w, c')"
  obtain b t where b: "c' = adv 2 c" "length b = 2" "rest c = b @ t" "w = u16_of_be (b ! 0) (b ! 1)"
    using cur_bind_Inr [OF \<open>cur_u16 c = Inr (w, c')\<close> [unfolded cur_u16_def]] by blast
  then have "b = [b ! 0, b ! 1]" by (auto simp: numeral_2_eq_2 length_Suc_conv)
  then have "b = be16 w" using b(4) by (simp add: be16_u16_of_be)
  with b(1,3) show "c' = adv 2 c \<and> (\<exists>t. rest c = be16 w @ t)" by auto
next
  assume a: "c' = adv 2 c \<and> (\<exists>t. rest c = be16 w @ t)"
  then have "cur_take 2 c = Inr (be16 w, adv 2 c)" by (auto simp: cur_take_Inr)
  with a show "cur_u16 c = Inr (w, c')"
    by (simp add: cur_u16_def) (simp add: be16_def u16_of_be16 del: of_nat_unat)
qed

lemma cur_u24_Inr [byte_io]:
  "cur_u24 c = Inr (w, c') \<longleftrightarrow> c' = adv 3 c \<and> unat w < 2 ^ 24 \<and> (\<exists>t. rest c = be24 (unat w) @ t)"
proof
  assume "cur_u24 c = Inr (w, c')"
  obtain b t where b: "c' = adv 3 c" "length b = 3" "rest c = b @ t"
      "w = u24_of_be (b ! 0) (b ! 1) (b ! 2)"
    using cur_bind_Inr [OF \<open>cur_u24 c = Inr (w, c')\<close> [unfolded cur_u24_def]] by blast
  then have "b = [b ! 0, b ! 1, b ! 2]" by (auto simp: numeral_3_eq_3 length_Suc_conv)
  then have "b = be24 (unat w)" unfolding b(4) be24_u24_of_be .
  moreover have "unat w < 2 ^ 24"
    using unat_u8_le [of "b ! 0"] unat_u8_le [of "b ! 1"] unat_u8_le [of "b ! 2"] by (simp add: b(4))
  ultimately show "c' = adv 3 c \<and> unat w < 2 ^ 24 \<and> (\<exists>t. rest c = be24 (unat w) @ t)"
    using b(1,3) by auto
next
  assume a: "c' = adv 3 c \<and> unat w < 2 ^ 24 \<and> (\<exists>t. rest c = be24 (unat w) @ t)"
  then have "cur_take 3 c = Inr (be24 (unat w), adv 3 c)" by (auto simp: cur_take_Inr)
  moreover have "u24_of_be (be24 (unat w) ! 0) (be24 (unat w) ! 1) (be24 (unat w) ! 2) = w"
    using a u24_of_be24 [of "unat w"] by (simp add: be24_def unsigned_word_eqI [where 'a = nat] del: of_nat_unat unat_u24_of_be)
  ultimately show "cur_u24 c = Inr (w, c')" using a by (simp add: cur_u24_def)
qed

lemmas cursor_dec = cur_take_Inr cur_u8_Inr cur_u16_Inr cur_u24_Inr

section \<open>The parsers\<close>

function name_loop :: "cursor \<Rightarrow> sni_error + string" where
  "name_loop lc =
     (if cur_remaining lc > 0 then
        bindE (cur_u8 lc) (\<lambda>(name_type, c1).
        bindE (cur_u16 c1) (\<lambda>(name_len, c2).
        bindE (cur_take (unat name_len) c2) (\<lambda>(name, c3).
          if name_type = 0 then
            (if name = [] then Inl EmptySni
             else ok_or (SniMalformed ''server_name is not valid UTF-8'') (from_utf8 name))
          else name_loop c3)))
      else Inl NoSni)"
  by auto

termination
  by (relation "measure cur_remaining") (auto simp: remaining_rest cursor_dec)

definition parse_server_name_extension :: "bytes \<Rightarrow> sni_error + string" where
  "parse_server_name_extension data =
     bindE (cur_u16 (cur_new data)) (\<lambda>(list_len, c1).
     bindE (cur_take (unat list_len) c1) (\<lambda>(list, _).
     name_loop (cur_new list)))"

function ext_loop :: "cursor \<Rightarrow> sni_error + string" where
  "ext_loop ec =
     (if cur_remaining ec > 0 then
        bindE (cur_u16 ec) (\<lambda>(ext_type, c1).
        bindE (cur_u16 c1) (\<lambda>(ext_len, c2).
        bindE (cur_take (unat ext_len) c2) (\<lambda>(ext_data, c3).
          if ext_type = 0 then parse_server_name_extension ext_data
          else ext_loop c3)))
      else Inl NoSni)"
  by auto

termination
  by (relation "measure cur_remaining") (auto simp: remaining_rest cursor_dec)

declare name_loop.simps [simp del] ext_loop.simps [simp del]

definition parse_client_hello_body :: "bytes \<Rightarrow> sni_error + string" where
  "parse_client_hello_body body =
     bindE (cur_take 2 (cur_new body)) (\<lambda>(_, c1).
     bindE (cur_take 32 c1) (\<lambda>(_, c2).
     bindE (cur_u8 c2) (\<lambda>(session_id_len, c3).
     bindE (cur_take (unat session_id_len) c3) (\<lambda>(_, c4).
     bindE (cur_u16 c4) (\<lambda>(cipher_suites_len, c5).
     bindE (cur_take (unat cipher_suites_len) c5) (\<lambda>(_, c6).
     bindE (cur_u8 c6) (\<lambda>(compression_methods_len, c7).
     bindE (cur_take (unat compression_methods_len) c7) (\<lambda>(_, c8).
     if cur_remaining c8 = 0 then Inl NoSni
     else
       bindE (cur_u16 c8) (\<lambda>(extensions_len, c9).
       bindE (cur_take (unat extensions_len) c9) (\<lambda>(extensions, _).
       ext_loop (cur_new extensions)))))))))))"

definition parse_record :: "bytes \<Rightarrow> sni_error + parsed" where
  "parse_record record =
     bindE (cur_u8 (cur_new record)) (\<lambda>(hs_type, c1).
     if hs_type \<noteq> 0x01 then Inl (SniMalformed ''first handshake message is not ClientHello'')
     else
       bindE (cur_u24 c1) (\<lambda>(hs_len, c2).
       bindE (map_err (\<lambda>_. SniMalformed ''ClientHello spans multiple TLS records (unsupported)'')
                (cur_take (unat hs_len) c2)) (\<lambda>(body, _).
       bindE (parse_client_hello_body body) (\<lambda>name. Inr (Complete name)))))"

definition try_parse :: "bytes \<Rightarrow> sni_error + parsed" where
  "try_parse buf =
     (if length buf < 5 then Inr Incomplete
      else if buf ! 0 \<noteq> 0x16 then Inl NotHandshake
      else
        (let record_len = unat (u16_of_be (buf ! 3) (buf ! 4)) in
         if record_len = 0 \<or> record_len > 0x4000 then Inl (SniMalformed ''record length out of range'')
         else
           (let record_end = 5 + record_len in
            if length buf < record_end then Inr Incomplete
            else parse_record (take record_len (drop 5 buf)))))"

fun peek_loop :: "bytes \<Rightarrow> (io_error + bytes) list \<Rightarrow> (sni_error + client_hello_peek) \<times> (io_error + bytes) list" where
  "peek_loop buf reads =
     (case try_parse buf of
        Inl e \<Rightarrow> (Inl e, reads)
      | Inr (Complete server_name) \<Rightarrow> (Inr \<lparr>ch_server_name = server_name, ch_raw = buf\<rparr>, reads)
      | Inr Incomplete \<Rightarrow>
          (if length buf \<ge> MAX_CLIENT_HELLO_BYTES then (Inl TooLarge, reads)
           else case reads of
              [] \<Rightarrow> (Inl UnexpectedEof, [])
            | Inl e # reads' \<Rightarrow> (Inl (SniIo e), reads')
            | Inr chunk # reads' \<Rightarrow>
                (if chunk = [] then (Inl UnexpectedEof, reads')
                 else peek_loop (buf @ chunk) reads')))"

declare peek_loop.simps [simp del]

definition peek_client_hello :: "(io_error + bytes) list \<Rightarrow> (sni_error + client_hello_peek) \<times> (io_error + bytes) list" where
  "peek_client_hello reads = peek_loop [] reads"

section \<open>Scanning tagged entries\<close>

text \<open>Both parser loops scan a sequence of tagged, length-prefixed entries for the first one with a
  given tag and hand its data on.\<close>

locale tagged_scan =
  fixes entry :: "cursor \<Rightarrow> sni_error + ('t \<times> bytes \<times> cursor)"
    and enc :: "'t \<Rightarrow> bytes \<Rightarrow> bytes"
    and tag :: 't
    and found :: "bytes \<Rightarrow> sni_error + string"
    and scan :: "cursor \<Rightarrow> sni_error + string"
  assumes entry_ok: "entry c = Inr (t, d, c') \<longleftrightarrow>
      length d < 2 ^ 16 \<and> c' = adv (length (enc t d)) c \<and> (\<exists>post. rest c = enc t d @ post)"
    and enc_nonempty: "enc t d \<noteq> []"
    and scan_unfold: "scan c = (if cur_remaining c > 0
        then bindE (entry c) (\<lambda>(t, d, c'). if t = tag then found d else scan c')
        else Inl NoSni)"
begin

definition enc_all :: "('t \<times> bytes) list \<Rightarrow> bytes" where
  "enc_all es = concat (map (\<lambda>(t, d). enc t d) es)"

lemma enc_all_simps [simp]: "enc_all [] = []" "enc_all ((t, d) # es) = enc t d @ enc_all es"
  by (simp_all add: enc_all_def)

lemma scan_hit:
  assumes "rest c = enc t d @ post" and "length d < 2 ^ 16"
  shows "scan c = (if t = tag then found d else scan (adv (length (enc t d)) c))"
proof -
  have "cur_remaining c > 0" using assms(1) enc_nonempty [of t d] by (simp add: remaining_rest)
  moreover have "entry c = Inr (t, d, adv (length (enc t d)) c)"
    using assms by (subst entry_ok) blast
  ultimately show ?thesis by (simp add: scan_unfold [of c])
qed

lemma scan_complete:
  assumes "rest c = enc_all pre @ enc tag d @ post" and "length d < 2 ^ 16"
    and "list_all (\<lambda>(t, d). t \<noteq> tag \<and> length d < 2 ^ 16) pre"
  shows "scan c = found d"
  using assms(1,3)
proof (induction pre arbitrary: c)
  case Nil
  then show ?case using scan_hit [of c tag d post] assms(2) by simp
next
  case (Cons e pre)
  obtain t d' where e: "e = (t, d')" by (cases e)
  have "scan c = scan (adv (length (enc t d')) c)"
    using Cons.prems e scan_hit [of c t d' "enc_all pre @ enc tag d @ post"] by simp
  also have "\<dots> = found d"
    by (rule Cons.IH) (use Cons.prems e in simp_all)
  finally show ?case .
qed

lemma scan_sound:
  assumes "scan c = Inr nm"
  shows "\<exists>pre d post. rest c = enc_all pre @ enc tag d @ post \<and> length d < 2 ^ 16
    \<and> list_all (\<lambda>(t, d). t \<noteq> tag \<and> length d < 2 ^ 16) pre \<and> found d = Inr nm"
  using assms
proof (induction "length (rest c)" arbitrary: c rule: less_induct)
  case less
  then obtain t d c' where en: "entry c = Inr (t, d, c')" and more: "cur_remaining c > 0"
      and val: "(if t = tag then found d else scan c') = Inr nm"
    by (subst (asm) (2) scan_unfold) (auto simp: bindE_Inr split: if_splits)
  then obtain post where d: "length d < 2 ^ 16" "c' = adv (length (enc t d)) c" "rest c = enc t d @ post"
    using entry_ok [of c t d c'] by blast
  show ?case
  proof (cases "t = tag")
    case True
    with d val show ?thesis by (intro exI [of _ "[]"] exI [of _ d] exI [of _ post]) simp
  next
    case False
    have post: "rest c' = post" using d by simp
    then have "length (rest c') < length (rest c)" using d enc_nonempty [of t d] by simp
    from less.hyps [OF this] False val obtain pre d2 post2 where
      "rest c' = enc_all pre @ enc tag d2 @ post2" "length d2 < 2 ^ 16"
      "list_all (\<lambda>(t, d). t \<noteq> tag \<and> length d < 2 ^ 16) pre" "found d2 = Inr nm"
      by auto
    with d post False show ?thesis
      by (intro exI [of _ "(t, d) # pre"] exI [of _ d2] exI [of _ post2]) simp
  qed
qed

lemma scan_iff:
  "scan c = Inr nm \<longleftrightarrow>
     (\<exists>pre d post. rest c = enc_all pre @ enc tag d @ post \<and> length d < 2 ^ 16
        \<and> list_all (\<lambda>(t, d). t \<noteq> tag \<and> length d < 2 ^ 16) pre \<and> found d = Inr nm)"
  using scan_sound scan_complete by metis

end

definition name_entry :: "u8 \<Rightarrow> bytes \<Rightarrow> bytes" where
  "name_entry t d = t # be16 (of_nat (length d)) @ d"

definition ext_entry :: "u16 \<Rightarrow> bytes \<Rightarrow> bytes" where
  "ext_entry t d = be16 t @ be16 (of_nat (length d)) @ d"

definition read_name_entry :: "cursor \<Rightarrow> sni_error + (u8 \<times> bytes \<times> cursor)" where
  "read_name_entry c =
     bindE (cur_u8 c) (\<lambda>(t, c1). bindE (cur_u16 c1) (\<lambda>(n, c2).
     bindE (cur_take (unat n) c2) (\<lambda>(d, c3). Inr (t, d, c3))))"

definition read_ext_entry :: "cursor \<Rightarrow> sni_error + (u16 \<times> bytes \<times> cursor)" where
  "read_ext_entry c =
     bindE (cur_u16 c) (\<lambda>(t, c1). bindE (cur_u16 c1) (\<lambda>(n, c2).
     bindE (cur_take (unat n) c2) (\<lambda>(d, c3). Inr (t, d, c3))))"

definition host_name :: "bytes \<Rightarrow> sni_error + string" where
  "host_name name = (if name = [] then Inl EmptySni
     else ok_or (SniMalformed ''server_name is not valid UTF-8'') (from_utf8 name))"

lemma of_nat_length_u16: "length d < 2 ^ 16 \<Longrightarrow> unat (of_nat (length d) :: u16) = length d"
  by (rule unat_of_nat_less) simp

text \<open>A length-prefixed field: the two-byte length and then that many bytes.\<close>

lemma read_field16:
  "(\<exists>n. cur_u16 c = Inr (n, c2) \<and> cur_take (unat n) c2 = Inr (d, c3)) \<longleftrightarrow>
     length d < 2 ^ 16 \<and> c2 = adv 2 c \<and> c3 = adv (2 + length d) c
     \<and> (\<exists>post. rest c = be16 (of_nat (length d)) @ d @ post)"
proof
  assume "\<exists>n. cur_u16 c = Inr (n, c2) \<and> cur_take (unat n) c2 = Inr (d, c3)"
  then obtain n t u where n: "c2 = adv 2 c" "rest c = be16 n @ t" "c3 = adv (unat n) c2"
      "length d = unat n" "rest c2 = d @ u"
    unfolding cursor_dec by blast
  have "unat n < 2 ^ 16" using unsigned_less [of n] by simp
  moreover have "of_nat (length d) = n" by (simp add: n(4))
  ultimately show "length d < 2 ^ 16 \<and> c2 = adv 2 c \<and> c3 = adv (2 + length d) c
     \<and> (\<exists>post. rest c = be16 (of_nat (length d)) @ d @ post)"
    using n by auto
next
  assume a: "length d < 2 ^ 16 \<and> c2 = adv 2 c \<and> c3 = adv (2 + length d) c
     \<and> (\<exists>post. rest c = be16 (of_nat (length d)) @ d @ post)"
  then show "\<exists>n. cur_u16 c = Inr (n, c2) \<and> cur_take (unat n) c2 = Inr (d, c3)"
    by (intro exI [of _ "of_nat (length d)"]) (auto simp: cursor_dec of_nat_length_u16)
qed

lemma bind_pair_Inr: "bindE r (\<lambda>(a, b). f a b) = Inr v \<longleftrightarrow> (\<exists>a b. r = Inr (a, b) \<and> f a b = Inr v)"
  by (cases r) auto

lemma read_name_entry_ok:
  "read_name_entry c = Inr (t, d, c') \<longleftrightarrow>
     length d < 2 ^ 16 \<and> c' = adv (length (name_entry t d)) c \<and> (\<exists>post. rest c = name_entry t d @ post)"
proof -
  have "read_name_entry c = Inr (t, d, c') \<longleftrightarrow>
      (\<exists>c1 c2. cur_u8 c = Inr (t, c1) \<and> (\<exists>n. cur_u16 c1 = Inr (n, c2) \<and> cur_take (unat n) c2 = Inr (d, c')))"
    unfolding read_name_entry_def bind_pair_Inr by auto
  also have "\<dots> \<longleftrightarrow> length d < 2 ^ 16 \<and> c' = adv (length (name_entry t d)) c
      \<and> (\<exists>post. rest c = name_entry t d @ post)"
    unfolding read_field16 cur_u8_Inr by (auto simp: name_entry_def)
  finally show ?thesis .
qed

lemma read_ext_entry_ok:
  "read_ext_entry c = Inr (t, d, c') \<longleftrightarrow>
     length d < 2 ^ 16 \<and> c' = adv (length (ext_entry t d)) c \<and> (\<exists>post. rest c = ext_entry t d @ post)"
proof -
  have "read_ext_entry c = Inr (t, d, c') \<longleftrightarrow>
      (\<exists>c1 c2. cur_u16 c = Inr (t, c1) \<and> (\<exists>n. cur_u16 c1 = Inr (n, c2) \<and> cur_take (unat n) c2 = Inr (d, c')))"
    unfolding read_ext_entry_def bind_pair_Inr by auto
  also have "\<dots> \<longleftrightarrow> length d < 2 ^ 16 \<and> c' = adv (length (ext_entry t d)) c
      \<and> (\<exists>post. rest c = ext_entry t d @ post)"
    unfolding read_field16 unfolding cur_u16_Inr by (auto simp: ext_entry_def)
  finally show ?thesis .
qed

lemma bindE_assoc: "bindE (bindE r f) g = bindE r (\<lambda>a. bindE (f a) g)"
  by (cases r) simp_all

interpretation names: tagged_scan read_name_entry name_entry 0 host_name name_loop
proof (unfold_locales, rule read_name_entry_ok)
  show "name_entry t d \<noteq> []" for t d by (simp add: name_entry_def)
  show "name_loop c = (if cur_remaining c > 0
        then bindE (read_name_entry c) (\<lambda>(t, d, c'). if t = 0 then host_name d else name_loop c')
        else Inl NoSni)" for c
    by (subst name_loop.simps) (simp add: read_name_entry_def bindE_assoc case_prod_unfold host_name_def cong: if_cong)
qed

interpretation exts: tagged_scan read_ext_entry ext_entry 0 parse_server_name_extension ext_loop
proof (unfold_locales, rule read_ext_entry_ok)
  show "ext_entry t d \<noteq> []" for t d by (simp add: ext_entry_def be16_def)
  show "ext_loop c = (if cur_remaining c > 0
        then bindE (read_ext_entry c) (\<lambda>(t, d, c'). if t = 0 then parse_server_name_extension d else ext_loop c')
        else Inl NoSni)" for c
    by (subst ext_loop.simps) (simp add: read_ext_entry_def bindE_assoc case_prod_unfold cong: if_cong)
qed

section \<open>The wire format\<close>

text \<open>A ClientHello with a server name: what the parser interprets, and as raw bytes what it skips
  (the parts after the entry it looks for included).\<close>

record client_hello =
  he_rec_version :: bytes
  he_version :: bytes
  he_random :: bytes
  he_session :: bytes
  he_ciphers :: bytes
  he_compression :: bytes
  he_exts :: "(u16 \<times> bytes) list"
  he_names :: "(u8 \<times> bytes) list"
  he_name :: string
  he_names_after :: bytes
  he_sni_after :: bytes
  he_exts_after :: bytes
  he_body_after :: bytes
  he_rec_after :: bytes

definition he_name_list :: "client_hello \<Rightarrow> bytes" where
  "he_name_list h = concat (map (\<lambda>(t, d). name_entry t d) (he_names h))
     @ name_entry 0 (as_bytes (he_name h)) @ he_names_after h"

definition he_sni_data :: "client_hello \<Rightarrow> bytes" where
  "he_sni_data h = be16 (of_nat (length (he_name_list h))) @ he_name_list h @ he_sni_after h"

definition he_ext_block :: "client_hello \<Rightarrow> bytes" where
  "he_ext_block h = concat (map (\<lambda>(t, d). ext_entry t d) (he_exts h))
     @ ext_entry 0 (he_sni_data h) @ he_exts_after h"

definition he_body :: "client_hello \<Rightarrow> bytes" where
  "he_body h = he_version h @ he_random h
     @ of_nat (length (he_session h)) # he_session h
     @ be16 (of_nat (length (he_ciphers h))) @ he_ciphers h
     @ of_nat (length (he_compression h)) # he_compression h
     @ be16 (of_nat (length (he_ext_block h))) @ he_ext_block h @ he_body_after h"

definition he_record :: "client_hello \<Rightarrow> bytes" where
  "he_record h = 0x01 # be24 (length (he_body h)) @ he_body h @ he_rec_after h"

definition encode_hello :: "client_hello \<Rightarrow> bytes" where
  "encode_hello h = 0x16 # he_rec_version h @ be16 (of_nat (length (he_record h))) @ he_record h"

definition hello_body_ok :: "client_hello \<Rightarrow> bool" where
  "hello_body_ok h \<longleftrightarrow> length (he_version h) = 2 \<and> length (he_random h) = 32
     \<and> length (he_session h) < 2 ^ 8 \<and> length (he_ciphers h) < 2 ^ 16 \<and> length (he_compression h) < 2 ^ 8
     \<and> length (he_ext_block h) < 2 ^ 16
     \<and> list_all (\<lambda>(t, d). t \<noteq> 0 \<and> length d < 2 ^ 16) (he_exts h) \<and> length (he_sni_data h) < 2 ^ 16
     \<and> length (he_name_list h) < 2 ^ 16
     \<and> list_all (\<lambda>(t, d). t \<noteq> 0 \<and> length d < 2 ^ 16) (he_names h) \<and> length (he_name h) < 2 ^ 16
     \<and> he_name h \<noteq> [] \<and> is_str (he_name h)"

definition hello_ok :: "client_hello \<Rightarrow> bool" where
  "hello_ok h \<longleftrightarrow> hello_body_ok h \<and> length (he_rec_version h) = 2 \<and> length (he_record h) \<le> 0x4000"

lemma host_name_iff:
  "host_name d = Inr nm \<longleftrightarrow> d = as_bytes nm \<and> nm \<noteq> [] \<and> is_str nm"
proof -
  have "as_bytes nm = [] \<longleftrightarrow> nm = []" by (simp add: as_bytes_def)
  then show ?thesis by (auto simp: host_name_def ok_or_Inr from_utf8_Some split: if_splits)
qed

lemma parse_sne_iff:
  "parse_server_name_extension data = Inr nm \<longleftrightarrow>
     (\<exists>list post. data = be16 (of_nat (length list)) @ list @ post \<and> length list < 2 ^ 16
        \<and> name_loop (cur_new list) = Inr nm)"
proof -
  have "parse_server_name_extension data = Inr nm \<longleftrightarrow>
     (\<exists>list c2 c3. (\<exists>n. cur_u16 (cur_new data) = Inr (n, c2) \<and> cur_take (unat n) c2 = Inr (list, c3))
        \<and> name_loop (cur_new list) = Inr nm)"
    unfolding parse_server_name_extension_def bind_pair_Inr by auto
  then show ?thesis unfolding read_field16 by auto
qed

text \<open>A field with a one-byte length.\<close>

lemma read_field8:
  "(\<exists>n. cur_u8 c = Inr (n, c2) \<and> cur_take (unat n) c2 = Inr (d, c3)) \<longleftrightarrow>
     length d < 2 ^ 8 \<and> c2 = adv 1 c \<and> c3 = adv (1 + length d) c
     \<and> (\<exists>post. rest c = of_nat (length d) # d @ post)"
proof
  assume "\<exists>n. cur_u8 c = Inr (n, c2) \<and> cur_take (unat n) c2 = Inr (d, c3)"
  then obtain n t u where n: "c2 = adv 1 c" "rest c = n # t" "c3 = adv (unat n) c2"
      "length d = unat n" "rest c2 = d @ u"
    unfolding cursor_dec by blast
  have "unat n < 2 ^ 8" using unsigned_less [of n] by simp
  moreover have "of_nat (length d) = n" by (simp add: n(4))
  ultimately show "length d < 2 ^ 8 \<and> c2 = adv 1 c \<and> c3 = adv (1 + length d) c
     \<and> (\<exists>post. rest c = of_nat (length d) # d @ post)"
    using n by auto
next
  assume a: "length d < 2 ^ 8 \<and> c2 = adv 1 c \<and> c3 = adv (1 + length d) c
     \<and> (\<exists>post. rest c = of_nat (length d) # d @ post)"
  moreover from a have "unat (of_nat (length d) :: u8) = length d" by (intro unat_of_nat_less) simp
  ultimately show "\<exists>n. cur_u8 c = Inr (n, c2) \<and> cur_take (unat n) c2 = Inr (d, c3)"
    by (intro exI [of _ "of_nat (length d)"]) (auto simp: cursor_dec)
qed

text \<open>Reading a run of bytes: the cursor moves over them. Consecutive reads append.\<close>

definition reads :: "cursor \<Rightarrow> bytes \<Rightarrow> cursor \<Rightarrow> bool" where
  "reads c s c' \<longleftrightarrow> c' = adv (length s) c \<and> (\<exists>t. rest c = s @ t)"

lemma reads_append: "reads c (s @ s') c' \<longleftrightarrow> (\<exists>c1. reads c s c1 \<and> reads c1 s' c')"
  unfolding reads_def by (auto simp: append_eq_append_conv2)

lemma reads_take: "cur_take n c = Inr (d, c') \<longleftrightarrow> length d = n \<and> reads c d c'"
  by (auto simp: cur_take_Inr reads_def)

lemma reads_field16:
  "(\<exists>n c2. cur_u16 c = Inr (n, c2) \<and> cur_take (unat n) c2 = Inr (d, c3)) \<longleftrightarrow>
     length d < 2 ^ 16 \<and> reads c (be16 (of_nat (length d)) @ d) c3"
  unfolding ex_comm [of "\<lambda>n c2. cur_u16 c = Inr (n, c2) \<and> cur_take (unat n) c2 = Inr (d, c3)"] read_field16
  by (auto simp: reads_def)

lemma reads_field8:
  "(\<exists>n c2. cur_u8 c = Inr (n, c2) \<and> cur_take (unat n) c2 = Inr (d, c3)) \<longleftrightarrow>
     length d < 2 ^ 8 \<and> reads c (of_nat (length d) # d) c3"
  unfolding ex_comm [of "\<lambda>n c2. cur_u8 c = Inr (n, c2) \<and> cur_take (unat n) c2 = Inr (d, c3)"] read_field8
  by (auto simp: reads_def)

lemma reads_remaining: "reads c (be16 w @ d) c' \<Longrightarrow> cur_remaining c \<noteq> 0"
  by (auto simp: reads_def remaining_rest be16_def)

definition body_prefix :: "bytes \<Rightarrow> bytes \<Rightarrow> bytes \<Rightarrow> bytes \<Rightarrow> bytes \<Rightarrow> bytes" where
  "body_prefix v r sid ciphers cmp =
     v @ r @ (of_nat (length sid) # sid) @ (be16 (of_nat (length ciphers)) @ ciphers)
     @ (of_nat (length cmp) # cmp)"

lemma parse_body_iff:
  "parse_client_hello_body body = Inr nm \<longleftrightarrow>
     (\<exists>v r sid ciphers cmp ex post.
        body = body_prefix v r sid ciphers cmp @ be16 (of_nat (length ex)) @ ex @ post
        \<and> length v = 2 \<and> length r = 32 \<and> length sid < 2 ^ 8 \<and> length ciphers < 2 ^ 16
        \<and> length cmp < 2 ^ 8 \<and> length ex < 2 ^ 16 \<and> ext_loop (cur_new ex) = Inr nm)"
  (is "_ \<longleftrightarrow> ?rhs")
proof -
  have "parse_client_hello_body body = Inr nm \<longleftrightarrow>
     (\<exists>v c1 r c2 sid c3 ciphers c4 cmp c5 ex c6.
        cur_take 2 (cur_new body) = Inr (v, c1) \<and> cur_take 32 c1 = Inr (r, c2)
        \<and> (\<exists>n c'. cur_u8 c2 = Inr (n, c') \<and> cur_take (unat n) c' = Inr (sid, c3))
        \<and> (\<exists>n c'. cur_u16 c3 = Inr (n, c') \<and> cur_take (unat n) c' = Inr (ciphers, c4))
        \<and> (\<exists>n c'. cur_u8 c4 = Inr (n, c') \<and> cur_take (unat n) c' = Inr (cmp, c5))
        \<and> cur_remaining c5 \<noteq> 0
        \<and> (\<exists>n c'. cur_u16 c5 = Inr (n, c') \<and> cur_take (unat n) c' = Inr (ex, c6))
        \<and> ext_loop (cur_new ex) = Inr nm)"
    unfolding parse_client_hello_body_def bind_pair_Inr by (simp add: bind_pair_Inr split: if_split) blast
  also have "\<dots> \<longleftrightarrow>
     (\<exists>v c1 r c2 sid c3 ciphers c4 cmp c5 ex c6.
        (length v = 2 \<and> reads (cur_new body) v c1) \<and> (length r = 32 \<and> reads c1 r c2)
        \<and> (length sid < 2 ^ 8 \<and> reads c2 (of_nat (length sid) # sid) c3)
        \<and> (length ciphers < 2 ^ 16 \<and> reads c3 (be16 (of_nat (length ciphers)) @ ciphers) c4)
        \<and> (length cmp < 2 ^ 8 \<and> reads c4 (of_nat (length cmp) # cmp) c5)
        \<and> (length ex < 2 ^ 16 \<and> reads c5 (be16 (of_nat (length ex)) @ ex) c6)
        \<and> ext_loop (cur_new ex) = Inr nm)"
    unfolding reads_field16 reads_field8 unfolding reads_take using reads_remaining by meson
  also have "\<dots> \<longleftrightarrow>
     (\<exists>v r sid ciphers cmp ex c6.
        reads (cur_new body) (body_prefix v r sid ciphers cmp @ (be16 (of_nat (length ex)) @ ex)) c6
        \<and> length v = 2 \<and> length r = 32 \<and> length sid < 2 ^ 8 \<and> length ciphers < 2 ^ 16
        \<and> length cmp < 2 ^ 8 \<and> length ex < 2 ^ 16 \<and> ext_loop (cur_new ex) = Inr nm)"
    unfolding body_prefix_def reads_append [of _ _ "be16 w @ d" for w d] append_assoc
      reads_append [of _ v for v] by meson
  also have "\<dots> \<longleftrightarrow> ?rhs"
    unfolding reads_def rest_new append_assoc by blast
  finally show ?thesis .
qed

lemma parse_body_hello:
  "parse_client_hello_body body = Inr nm \<longleftrightarrow> (\<exists>h. he_body h = body \<and> hello_body_ok h \<and> he_name h = nm)"
proof
  assume "parse_client_hello_body body = Inr nm"
  then obtain v r sid ciphers cmp ex post where
      body: "body = body_prefix v r sid ciphers cmp @ be16 (of_nat (length ex)) @ ex @ post"
        "length v = 2" "length r = 32" "length sid < 2 ^ 8" "length ciphers < 2 ^ 16"
        "length cmp < 2 ^ 8" "length ex < 2 ^ 16" and "ext_loop (cur_new ex) = Inr nm"
    unfolding parse_body_iff by blast
  then obtain epre d epost where
      ex: "ex = exts.enc_all epre @ ext_entry 0 d @ epost" "length d < 2 ^ 16"
        "list_all (\<lambda>(t, d). t \<noteq> 0 \<and> length d < 2 ^ 16) epre" and "parse_server_name_extension d = Inr nm"
    unfolding exts.scan_iff rest_new by blast
  then obtain l lpost where l: "d = be16 (of_nat (length l)) @ l @ lpost" "length l < 2 ^ 16"
      and "name_loop (cur_new l) = Inr nm"
    unfolding parse_sne_iff by blast
  then obtain npre n npost where
      n: "l = names.enc_all npre @ name_entry 0 n @ npost" "length n < 2 ^ 16"
        "list_all (\<lambda>(t, d). t \<noteq> 0 \<and> length d < 2 ^ 16) npre" and "host_name n = Inr nm"
    unfolding names.scan_iff rest_new by blast
  then have nm: "n = as_bytes nm" "nm \<noteq> []" "is_str nm" by (simp_all add: host_name_iff)
  let ?h = "\<lparr>he_rec_version = [], he_version = v, he_random = r, he_session = sid,
      he_ciphers = ciphers, he_compression = cmp, he_exts = epre, he_names = npre, he_name = nm,
      he_names_after = npost, he_sni_after = lpost, he_exts_after = epost, he_body_after = post,
      he_rec_after = []\<rparr>"
  have l': "he_name_list ?h = l" by (simp add: he_name_list_def n(1) nm(1) names.enc_all_def)
  have d': "he_sni_data ?h = d" by (simp add: he_sni_data_def l' l(1))
  have ex': "he_ext_block ?h = ex" by (simp add: he_ext_block_def d' ex(1) exts.enc_all_def)
  have "he_body ?h = body" by (simp add: he_body_def ex' body(1) body_prefix_def)
  moreover have "hello_body_ok ?h"
    using body(2-7) ex(2,3) l(2) n(2,3) nm unfolding hello_body_ok_def l' d' ex' by simp
  ultimately show "\<exists>h. he_body h = body \<and> hello_body_ok h \<and> he_name h = nm"
    by (intro exI [of _ ?h]) simp
next
  assume "\<exists>h. he_body h = body \<and> hello_body_ok h \<and> he_name h = nm"
  then obtain h where h: "body = he_body h" "hello_body_ok h" "nm = he_name h" by blast
  have "name_loop (cur_new (he_name_list h)) = host_name (as_bytes nm)"
    by (rule names.scan_complete [of _ "he_names h" _ "he_names_after h"])
      (use h in \<open>simp_all add: he_name_list_def names.enc_all_def hello_body_ok_def\<close>)
  also have "\<dots> = Inr nm"
    using h by (simp add: host_name_iff hello_body_ok_def)
  finally have "parse_server_name_extension (he_sni_data h) = Inr nm"
    unfolding parse_sne_iff using h(2)
    by (intro exI [of _ "he_name_list h"] exI [of _ "he_sni_after h"])
      (simp add: he_sni_data_def hello_body_ok_def)
  moreover have "ext_loop (cur_new (he_ext_block h)) = parse_server_name_extension (he_sni_data h)"
    by (rule exts.scan_complete [of _ "he_exts h" _ "he_exts_after h"])
      (use h in \<open>simp_all add: he_ext_block_def exts.enc_all_def hello_body_ok_def\<close>)
  ultimately have "ext_loop (cur_new (he_ext_block h)) = Inr nm" by simp
  moreover have "body = body_prefix (he_version h) (he_random h) (he_session h) (he_ciphers h)
      (he_compression h) @ be16 (of_nat (length (he_ext_block h))) @ he_ext_block h @ he_body_after h"
    unfolding h(1) he_body_def body_prefix_def by simp
  moreover have "length (he_version h) = 2" "length (he_random h) = 32" "length (he_session h) < 2 ^ 8"
      "length (he_ciphers h) < 2 ^ 16" "length (he_compression h) < 2 ^ 8" "length (he_ext_block h) < 2 ^ 16"
    using h(2) unfolding hello_body_ok_def by blast+
  ultimately show "parse_client_hello_body body = Inr nm"
    unfolding parse_body_iff by blast
qed

lemma parse_record_iff:
  "parse_record record = Inr (Complete nm) \<longleftrightarrow>
     (\<exists>body post. record = 0x01 # be24 (length body) @ body @ post \<and> length body < 2 ^ 24
        \<and> parse_client_hello_body body = Inr nm)"
proof -
  have mE: "map_err f r = Inr v \<longleftrightarrow> r = Inr v" for f :: "sni_error \<Rightarrow> sni_error" and r and v :: "bytes \<times> cursor"
    by (cases r) simp_all
  have "parse_record record = Inr (Complete nm) \<longleftrightarrow>
     (\<exists>c1 n c2 body c3. cur_u8 (cur_new record) = Inr (0x01, c1) \<and> cur_u24 c1 = Inr (n, c2)
        \<and> cur_take (unat n) c2 = Inr (body, c3) \<and> parse_client_hello_body body = Inr nm)"
    unfolding parse_record_def bind_pair_Inr by (auto simp: bind_pair_Inr bindE_Inr mE split: if_splits)
  also have "\<dots> \<longleftrightarrow> (\<exists>body post. record = 0x01 # be24 (length body) @ body @ post \<and> length body < 2 ^ 24
        \<and> parse_client_hello_body body = Inr nm)" (is "?l \<longleftrightarrow> ?r")
  proof
    assume ?l
    then obtain c1 n c2 body c3 where "cur_u8 (cur_new record) = Inr (0x01, c1)" "cur_u24 c1 = Inr (n, c2)"
        "cur_take (unat n) c2 = Inr (body, c3)" and p: "parse_client_hello_body body = Inr nm"
      by blast
    then obtain t u v where "record = 0x01 # t" "unat n < 2 ^ 24" "drop 1 record = be24 (unat n) @ u"
        "length body = unat n" "drop 4 record = body @ v"
      unfolding cursor_dec by auto
    then have r: "record = 0x01 # be24 (length body) @ body @ v" "length body < 2 ^ 24" by auto
    with p show ?r by blast
  next
    assume ?r
    then obtain body post where r: "record = 0x01 # be24 (length body) @ body @ post" "length body < 2 ^ 24"
        "parse_client_hello_body body = Inr nm" by blast
    have n: "unat (of_nat (length body) :: u32) = length body"
      using r(2) by (intro unat_of_nat_less) simp
    show ?l
      unfolding cursor_dec
      by (rule exI [of _ "adv 1 (cur_new record)"], rule exI [of _ "of_nat (length body)"],
          rule exI [of _ "adv 4 (cur_new record)"], rule exI [of _ body]) (use r n in auto)
  qed
  finally show ?thesis .
qed

text \<open>How the record header decides: fewer than five bytes or a record still arriving is
  incomplete; otherwise the verdict depends on the record alone.\<close>

lemma try_parse_record:
  assumes "length v = 2" and "record \<noteq> []" and "length record \<le> 0x4000"
  shows "try_parse (0x16 # v @ be16 (of_nat (length record)) @ record @ junk) = parse_record record"
proof -
  obtain a b where v: "v = [a, b]" using assms(1) by (auto simp: numeral_2_eq_2 length_Suc_conv)
  have n: "unat (of_nat (length record) :: u16) = length record"
    using assms(3) by (intro unat_of_nat_less) simp
  obtain x y where xy: "be16 (of_nat (length record)) = [x, y]" by (simp add: be16_def)
  have "u16_of_be x y = of_nat (length record)"
    using read_u16_be16 [of "of_nat (length record)" "[]"] by (simp add: xy read_u16_def read_exact_def)
  then have "unat (u16_of_be x y) = length record" using n by simp
  then show ?thesis using assms(2,3) by (simp add: try_parse_def v xy Let_def del: unat_u16_of_be)
qed

lemma try_parse_complete:
  "try_parse buf = Inr (Complete nm) \<longleftrightarrow>
     (\<exists>v record junk. buf = 0x16 # v @ be16 (of_nat (length record)) @ record @ junk
        \<and> length v = 2 \<and> record \<noteq> [] \<and> length record \<le> 0x4000
        \<and> parse_record record = Inr (Complete nm))"
proof
  assume p: "try_parse buf = Inr (Complete nm)"
  let ?n = "unat (u16_of_be (buf ! 3) (buf ! 4))"
  let ?r = "take ?n (drop 5 buf)"
  from p have b: "5 \<le> length buf" "buf ! 0 = 0x16" "?n \<noteq> 0" "?n \<le> 0x4000" "5 + ?n \<le> length buf"
      "parse_record ?r = Inr (Complete nm)"
    by (auto simp: try_parse_def Let_def simp del: unat_u16_of_be split: if_splits)
  have t5: "take 5 buf = [buf ! 0, buf ! 1, buf ! 2, buf ! 3, buf ! 4]"
    using b(1) by (auto simp: Suc_le_length_iff numeral_eq_Suc)
  have len: "length ?r = ?n" using b(5) by (simp del: unat_u16_of_be)
  have hd: "be16 (of_nat ?n) = [buf ! 3, buf ! 4]"
    by (simp only: of_nat_unat ucast_id be16_u16_of_be)
  have "0x16 # [buf ! 1, buf ! 2] @ be16 (of_nat (length ?r)) @ ?r @ drop ?n (drop 5 buf)
      = take 5 buf @ ?r @ drop ?n (drop 5 buf)"
    unfolding len hd t5 b(2) by simp
  also have "\<dots> = buf" by (simp only: append_take_drop_id)
  finally have eq: "buf = 0x16 # [buf ! 1, buf ! 2] @ be16 (of_nat (length ?r)) @ ?r @ drop ?n (drop 5 buf)"
    by (rule sym)
  have r: "?r \<noteq> []" "length ?r \<le> 0x4000" using b(3,4) len by (auto simp del: unat_u16_of_be)
  show "\<exists>v record junk. buf = 0x16 # v @ be16 (of_nat (length record)) @ record @ junk
        \<and> length v = 2 \<and> record \<noteq> [] \<and> length record \<le> 0x4000
        \<and> parse_record record = Inr (Complete nm)"
    by (rule exI [of _ "[buf ! 1, buf ! 2]"], rule exI [of _ ?r], rule exI [of _ "drop ?n (drop 5 buf)"],
        intro conjI, rule eq, simp, rule r(1), rule r(2), rule b(6))
next
  assume "\<exists>v record junk. buf = 0x16 # v @ be16 (of_nat (length record)) @ record @ junk
        \<and> length v = 2 \<and> record \<noteq> [] \<and> length record \<le> 0x4000
        \<and> parse_record record = Inr (Complete nm)"
  then obtain v rcd junk where b: "buf = 0x16 # v @ be16 (of_nat (length rcd)) @ rcd @ junk"
      "length v = 2" "rcd \<noteq> []" "length rcd \<le> 0x4000" "parse_record rcd = Inr (Complete nm)"
    by (elim exE conjE)
  show "try_parse buf = Inr (Complete nm)"
    unfolding b(1) try_parse_record [OF b(2-4)] by (rule b(5))
qed


section \<open>Properties\<close>

text \<open>C5: the SNI parser accepts exactly the ClientHello wire format. A buffer parses to a server name
  if and only if it is a TLS handshake record of at most \<open>0x4000\<close> bytes, possibly followed by more
  bytes, holding one whole ClientHello whose first \<open>server_name\<close> extension has the name as its first
  \<open>host_name\<close> entry, non-empty and valid UTF-8. Everything between is skipped by its length.\<close>

theorem try_parse_wire_format:
  "try_parse buf = Inr (Complete name) \<longleftrightarrow>
     (\<exists>h junk. buf = encode_hello h @ junk \<and> hello_ok h \<and> he_name h = name)"
proof
  assume "try_parse buf = Inr (Complete name)"
  then obtain v rcd junk where buf: "buf = 0x16 # v @ be16 (of_nat (length rcd)) @ rcd @ junk"
      "length v = 2" "length rcd \<le> 0x4000" and "parse_record rcd = Inr (Complete name)"
    unfolding try_parse_complete by blast
  then obtain body post where r: "rcd = 0x01 # be24 (length body) @ body @ post"
      and "parse_client_hello_body body = Inr name"
    unfolding parse_record_iff by blast
  then obtain h where h: "he_body h = body" "hello_body_ok h" "he_name h = name"
    unfolding parse_body_hello by blast
  let ?h = "h\<lparr>he_rec_version := v, he_rec_after := post\<rparr>"
  have same: "he_name_list ?h = he_name_list h" "he_sni_data ?h = he_sni_data h"
      "he_ext_block ?h = he_ext_block h" "he_body ?h = he_body h"
    by (simp_all add: he_name_list_def he_sni_data_def he_ext_block_def he_body_def)
  have rec: "he_record ?h = rcd" by (simp add: he_record_def same h(1) r)
  have "buf = encode_hello ?h @ junk" by (simp add: encode_hello_def rec buf(1))
  moreover have "hello_ok ?h"
    using h(2) buf(2,3) by (simp add: hello_ok_def hello_body_ok_def rec same)
  ultimately show "\<exists>h junk. buf = encode_hello h @ junk \<and> hello_ok h \<and> he_name h = name"
    using h(3) by (intro exI [of _ ?h] exI [of _ junk]) simp
next
  assume "\<exists>h junk. buf = encode_hello h @ junk \<and> hello_ok h \<and> he_name h = name"
  then obtain h junk where h: "buf = encode_hello h @ junk" "hello_ok h" "he_name h = name" by blast
  have "parse_client_hello_body (he_body h) = Inr name"
    using h(2,3) unfolding parse_body_hello by (auto simp: hello_ok_def)
  moreover have "length (he_body h) < 2 ^ 24"
    using h(2) by (simp add: hello_ok_def he_record_def)
  ultimately have "parse_record (he_record h) = Inr (Complete name)"
    unfolding parse_record_iff by (auto simp: he_record_def)
  moreover have "buf = 0x16 # he_rec_version h @ be16 (of_nat (length (he_record h))) @ he_record h @ junk"
    by (simp add: h(1) encode_hello_def)
  moreover have "he_record h \<noteq> []" by (simp add: he_record_def)
  ultimately show "try_parse buf = Inr (Complete name)"
    unfolding try_parse_complete using h(2) by (auto simp: hello_ok_def)
qed

text \<open>The bytes the reads delivered, up to the first error.\<close>

fun delivered :: "(io_error + bytes) list \<Rightarrow> bytes" where
  "delivered [] = []"
| "delivered (Inl e # rs) = []"
| "delivered (Inr b # rs) = b @ delivered rs"

lemma peek_loop_sound:
  assumes "peek_loop buf rds = (Inr p, left)" and "list_all (\<lambda>r. \<forall>b. r = Inr b \<longrightarrow> length b \<le> 1024) rds"
    and "length buf < MAX_CLIENT_HELLO_BYTES + 1024"
  shows "try_parse (ch_raw p) = Inr (Complete (ch_server_name p))
    \<and> length (ch_raw p) < MAX_CLIENT_HELLO_BYTES + 1024
    \<and> (\<exists>used. rds = used @ left \<and> ch_raw p = buf @ delivered used \<and> list_all (\<lambda>r. \<exists>b. r = Inr b) used)"
  using assms
proof (induction rds arbitrary: buf)
  case Nil
  then show ?case
    by (auto simp: peek_loop.simps [of buf] split: sum.splits parsed.splits if_splits)
next
  case (Cons r rds)
  show ?case
  proof (cases "try_parse buf")
    case (Inl e)
    with Cons.prems(1) show ?thesis by (simp add: peek_loop.simps [of buf])
  next
    case (Inr x)
    show ?thesis
    proof (cases x)
      case (Complete nm)
      with Inr Cons.prems show ?thesis by (auto simp: peek_loop.simps [of buf])
    next
      case Incomplete
      with Inr Cons.prems(1) obtain b where r: "r = Inr b" "length buf < MAX_CLIENT_HELLO_BYTES"
          and rec: "peek_loop (buf @ b) rds = (Inr p, left)"
        by (auto simp: peek_loop.simps [of buf] split: if_splits sum.splits)
      have "length (buf @ b) < MAX_CLIENT_HELLO_BYTES + 1024" using r Cons.prems(2) by auto
      with Cons.IH [OF rec] Cons.prems(2) obtain used where
          "try_parse (ch_raw p) = Inr (Complete (ch_server_name p))"
          "length (ch_raw p) < MAX_CLIENT_HELLO_BYTES + 1024"
          "rds = used @ left" "ch_raw p = (buf @ b) @ delivered used" "list_all (\<lambda>r. \<exists>b. r = Inr b) used"
        by auto
      then show ?thesis by (auto simp: r(1) intro!: exI [of _ "Inr b # used"])
    qed
  qed
qed

text \<open>What a successful peek returns. The server name is the one the buffered bytes parse to; the
  buffered bytes are exactly the bytes read from the client so far, in order and nothing lost or
  added, so replaying them ahead of the rest of the connection reproduces the client's stream; and
  at most \<open>16 KiB + 1024\<close> bytes are ever buffered. Each read returns at most the chunk's 1024 bytes.\<close>

theorem peek_client_hello_sound:
  assumes "peek_client_hello rds = (Inr p, left)"
    and "list_all (\<lambda>r. \<forall>b. r = Inr b \<longrightarrow> length b \<le> 1024) rds"
  shows "try_parse (ch_raw p) = Inr (Complete (ch_server_name p))
    \<and> length (ch_raw p) < MAX_CLIENT_HELLO_BYTES + 1024
    \<and> (\<exists>used. rds = used @ left \<and> ch_raw p = delivered used \<and> list_all (\<lambda>r. \<exists>b. r = Inr b) used)"
  using peek_loop_sound [of "[]" rds p left] assms
  by (simp add: peek_client_hello_def MAX_CLIENT_HELLO_BYTES_def)

lemma try_parse_complete_hello:
  assumes "hello_ok h"
  shows "try_parse (encode_hello h) = Inr (Complete (he_name h))"
proof -
  have "he_record h \<noteq> []" "length (he_record h) \<le> 0x4000" "length (he_rec_version h) = 2"
    using assms by (simp_all add: hello_ok_def he_record_def)
  then have "try_parse (encode_hello h) = parse_record (he_record h)"
    using try_parse_record [of "he_rec_version h" "he_record h" "[]"] by (simp add: encode_hello_def)
  moreover have "parse_client_hello_body (he_body h) = Inr (he_name h)"
    using assms unfolding parse_body_hello by (auto simp: hello_ok_def)
  then have "parse_record (he_record h) = Inr (Complete (he_name h))"
    unfolding parse_record_iff using assms by (auto simp: he_record_def hello_ok_def)
  ultimately show ?thesis by simp
qed




definition demo_hello :: client_hello where
  "demo_hello = \<lparr>he_rec_version = [3, 1], he_version = [3, 3], he_random = replicate 32 7, he_session = [],
     he_ciphers = [0x13, 1], he_compression = [0], he_exts = [(10, [0, 29])], he_names = [], he_name = ''a.b'',
     he_names_after = [], he_sni_after = [], he_exts_after = [0, 43], he_body_after = [], he_rec_after = []\<rparr>"

lemma demo_hello_parts:
  "he_name_list demo_hello = [0, 0, 3, 0x61, 0x2E, 0x62]"
  "length (he_ext_block demo_hello) = 20" "length (he_body demo_hello) = 63"
  by (simp_all add: demo_hello_def he_name_list_def he_sni_data_def he_ext_block_def he_body_def
      name_entry_def ext_entry_def be16_def as_bytes_def)

lemma demo_hello_ok: "hello_ok demo_hello" "length (encode_hello demo_hello) = 72"
proof -
  have "he_sni_data demo_hello = [0, 6, 0, 0, 3, 0x61, 0x2E, 0x62]"
    by (simp add: he_sni_data_def demo_hello_parts) (simp add: demo_hello_def be16_def)
  moreover have "is_str ''a.b''" by (rule ascii_is_str) simp
  moreover have rec: "length (he_record demo_hello) = 67"
    by (simp add: he_record_def demo_hello_parts) (simp add: demo_hello_def)
  ultimately show "hello_ok demo_hello"
    by (simp add: hello_ok_def hello_body_ok_def demo_hello_parts) (simp add: demo_hello_def)
  show "length (encode_hello demo_hello) = 72"
    using rec by (simp add: encode_hello_def) (simp add: demo_hello_def)
qed


theorem peek_client_hello_sound_witness:
  "\<exists>p. peek_client_hello [Inr (encode_hello demo_hello), Inl Eof] = (Inr p, [Inl Eof])
     \<and> try_parse (ch_raw p) = Inr (Complete (ch_server_name p))"
proof -
  have "try_parse (encode_hello demo_hello) = Inr (Complete ''a.b'')"
    unfolding try_parse_complete_hello [OF demo_hello_ok(1)] by (simp add: demo_hello_def)
  then have "peek_client_hello [Inr (encode_hello demo_hello), Inl Eof]
      = (Inr \<lparr>ch_server_name = ''a.b'', ch_raw = encode_hello demo_hello\<rparr>, [Inl Eof])"
    by (simp add: peek_client_hello_def peek_loop.simps try_parse_def [of "[]"] MAX_CLIENT_HELLO_BYTES_def)
      (simp add: encode_hello_def)
  from this peek_client_hello_sound [OF this] show ?thesis by (simp add: demo_hello_ok)
qed

end
