(* ===== verification/Reach_Tunnel.thy ===== *)
theory Reach_Tunnel
  imports Byte_Io
begin

text \<open>
  The box tunnels of the reachability adapter, \<open>crates/reachability-adapter/src/tunnel.rs\<close>: the
  registration frame on the control connection and the registry of live tunnels with its
  generation-checked guards. The yamux session behind a \<open>TunnelHandle\<close> is the type parameter \<open>'h\<close>.
  Iterating a \<open>HashSet\<close> when writing takes its order as an argument. A lock is held for the whole of
  each registry operation, so operations are atomic steps; the deregistration a dropped guard spawns
  runs as a step of its own at any later time.
\<close>

datatype tunnel_error =
    TunClosed
  | TunYamux string
  | TunIo io_error
  | MalformedRegistration string

record registration =
  rg_name :: string
  rg_allowed_services :: "string set"

definition MAX_REGISTRATION_FIELD_BYTES :: nat where
  "MAX_REGISTRATION_FIELD_BYTES = 4096"

definition MAX_REGISTRATION_SERVICES :: nat where
  "MAX_REGISTRATION_SERVICES = 256"

section \<open>The registration frame\<close>

definition read_length_prefixed_string :: "bytes \<Rightarrow> tunnel_error + (string \<times> bytes)" where
  "read_length_prefixed_string stream =
     bindE (map_err TunIo (read_u16 stream)) (\<lambda>(len, s1).
     if unat len > MAX_REGISTRATION_FIELD_BYTES
     then Inl (MalformedRegistration ''field exceeds max length'')
     else
       bindE (map_err TunIo (read_exact (unat len) s1)) (\<lambda>(buf, s2).
       bindE (ok_or (MalformedRegistration ''field is not UTF-8'') (from_utf8 buf)) (\<lambda>str.
       Inr (str, s2))))"

fun read_services :: "nat \<Rightarrow> string set \<Rightarrow> bytes \<Rightarrow> tunnel_error + (string set \<times> bytes)" where
  "read_services 0 acc stream = Inr (acc, stream)"
| "read_services (Suc n) acc stream =
     bindE (read_length_prefixed_string stream) (\<lambda>(svc, s1). read_services n (insert svc acc) s1)"

definition read_registration :: "bytes \<Rightarrow> tunnel_error + (registration \<times> bytes)" where
  "read_registration stream =
     bindE (read_length_prefixed_string stream) (\<lambda>(name, s1).
     if name = [] then Inl (MalformedRegistration ''name is empty'')
     else
       bindE (map_err TunIo (read_u16 s1)) (\<lambda>(service_count, s2).
       if unat service_count > MAX_REGISTRATION_SERVICES
       then Inl (MalformedRegistration ''too many declared services'')
       else
         bindE (read_services (unat service_count) {} s2) (\<lambda>(allowed_services, s3).
         Inr (\<lparr>rg_name = name, rg_allowed_services = allowed_services\<rparr>, s3))))"

definition write_field :: "string \<Rightarrow> bytes" where
  "write_field s = be16 (of_nat (length s)) @ as_bytes s"

definition write_registration :: "string list \<Rightarrow> registration \<Rightarrow> bytes" where
  "write_registration order reg =
     write_field (rg_name reg) @ be16 (of_nat (card (rg_allowed_services reg)))
     @ concat (map write_field order)"

definition field_ok :: "string \<Rightarrow> bool" where
  "field_ok s \<longleftrightarrow> is_str s \<and> length s \<le> MAX_REGISTRATION_FIELD_BYTES"

definition registration_ok :: "registration \<Rightarrow> bool" where
  "registration_ok reg \<longleftrightarrow> field_ok (rg_name reg) \<and> rg_name reg \<noteq> []
     \<and> (\<forall>s \<in> rg_allowed_services reg. field_ok s)
     \<and> finite (rg_allowed_services reg) \<and> card (rg_allowed_services reg) \<le> MAX_REGISTRATION_SERVICES"

lemma read_write_field:
  assumes "field_ok s"
  shows "read_length_prefixed_string (write_field s @ stream) = Inr (s, stream)"
proof -
  have "unat (of_nat (length s) :: u16) = length s"
    using assms by (intro unat_of_nat_less) (simp add: field_ok_def MAX_REGISTRATION_FIELD_BYTES_def)
  then show ?thesis
    using assms by (simp add: read_length_prefixed_string_def write_field_def field_ok_def from_utf8_as_bytes)
qed

lemma read_field_ok:
  assumes "read_length_prefixed_string stream = Inr (s, s')"
  shows "field_ok s \<and> stream = write_field s @ s'"
proof -
  from assms obtain len s1 buf where r: "read_u16 stream = Inr (len, s1)" "unat len \<le> MAX_REGISTRATION_FIELD_BYTES"
      "read_exact (unat len) s1 = Inr (buf, s')" "from_utf8 buf = Some s"
    by (auto simp: read_length_prefixed_string_def res split: if_splits prod.splits)
  then show ?thesis
    by (auto simp: read_u16_Inr read_exact_Inr from_utf8_Some field_ok_def write_field_def)
qed

lemma read_write_services:
  assumes "\<forall>s \<in> set order. field_ok s"
  shows "read_services (length order) acc (concat (map write_field order) @ stream) = Inr (set order \<union> acc, stream)"
  using assms by (induction order arbitrary: acc) (simp_all add: read_write_field)

lemma read_services_ok:
  assumes "read_services n acc stream = Inr (svcs, s')"
  shows "(\<forall>s \<in> svcs - acc. field_ok s) \<and> (finite acc \<longrightarrow> finite svcs \<and> card svcs \<le> card acc + n)"
  using assms
proof (induction n arbitrary: acc stream)
  case (Suc n)
  then obtain svc s1 where r: "read_length_prefixed_string stream = Inr (svc, s1)"
      "read_services n (insert svc acc) s1 = Inr (svcs, s')"
    by (auto simp: res)
  have "card (insert svc acc) \<le> Suc (card acc)" by (rule card_insert_le_m1) simp_all
  with Suc.IH [OF r(2)] read_field_ok [OF r(1)] show ?case by auto
qed simp

lemma read_services_suffix:
  "read_services n acc stream = Inr (svcs, s') \<Longrightarrow> \<exists>f. stream = f @ s'"
proof (induction n arbitrary: acc stream)
  case (Suc n)
  then obtain svc s1 where r: "read_length_prefixed_string stream = Inr (svc, s1)"
      "read_services n (insert svc acc) s1 = Inr (svcs, s')"
    by (auto simp: res)
  obtain f where "s1 = f @ s'" using Suc.IH [OF r(2)] by blast
  then have "stream = (write_field svc @ f) @ s'" using read_field_ok [OF r(1)] by simp
  then show ?case by blast
qed simp

section \<open>The registry\<close>

datatype registry_error = OwnedByDifferentIdentity string

record 'h registered_tunnel =
  rt_handle :: 'h
  rt_allowed_services :: "string set"
  rt_owner_ik :: bytes
  rt_generation :: u64

record 'h registry_state =
  rs_tunnels :: "string \<rightharpoonup> 'h registered_tunnel"
  rs_next_generation :: u64

record 'h tunnel_lookup =
  tl_handle :: 'h
  tl_allowed_services :: "string set"

record registration_guard =
  gd_name :: string
  gd_generation :: u64

definition registry_new :: "'h registry_state" where
  "registry_new = \<lparr>rs_tunnels = Map.empty, rs_next_generation = 0\<rparr>"

definition register :: "'h registry_state \<Rightarrow> registration \<Rightarrow> bytes \<Rightarrow> 'h
    \<Rightarrow> registry_error + (registration_guard \<times> 'h registry_state)" where
  "register state reg owner_ik handle =
     (let name = rg_name reg;
          generation = rs_next_generation state;
          entry = \<lparr>rt_handle = handle, rt_allowed_services = rg_allowed_services reg,
                   rt_owner_ik = owner_ik, rt_generation = generation\<rparr>;
          ok = Inr (\<lparr>gd_name = name, gd_generation = generation\<rparr>,
                    state\<lparr>rs_next_generation := generation + 1,
                          rs_tunnels := (rs_tunnels state)(name \<mapsto> entry)\<rparr>)
      in case rs_tunnels state name of
           Some existing \<Rightarrow>
             if rt_owner_ik existing \<noteq> owner_ik then Inl (OwnedByDifferentIdentity name) else ok
         | None \<Rightarrow> ok)"

definition lookup :: "'h registry_state \<Rightarrow> string \<Rightarrow> 'h tunnel_lookup option" where
  "lookup state sni_name =
     map_option (\<lambda>t. \<lparr>tl_handle = rt_handle t, tl_allowed_services = rt_allowed_services t\<rparr>)
       (rs_tunnels state (to_ascii_lowercase sni_name))"

definition deregister :: "'h registry_state \<Rightarrow> string \<Rightarrow> u64 \<Rightarrow> 'h registry_state" where
  "deregister state name generation =
     (case rs_tunnels state name of
        Some existing \<Rightarrow>
          if rt_generation existing = generation
          then state\<lparr>rs_tunnels := (rs_tunnels state)(name := None)\<rparr> else state
      | None \<Rightarrow> state)"

definition guard_drop :: "'h registry_state \<Rightarrow> registration_guard \<Rightarrow> 'h registry_state" where
  "guard_drop state g = deregister state (gd_name g) (gd_generation g)"

section \<open>Runs of the registry\<close>

text \<open>A run's state: the registry and, for every registration made so far, its guard with the entry
  it inserted. Guards are dropped in any order, any number of operations later.\<close>

type_synonym 'h issued = "(registration_guard \<times> 'h registered_tunnel) list"

inductive registry_step :: "'h registry_state \<times> 'h issued \<Rightarrow> 'h registry_state \<times> 'h issued \<Rightarrow> bool" where
  step_register: "register st reg ik h = Inr (g, st') \<Longrightarrow> rs_tunnels st' (rg_name reg) = Some t \<Longrightarrow>
      registry_step (st, iss) (st', (g, t) # iss)"
| step_refused: "register st reg ik h = Inl e \<Longrightarrow> registry_step (st, iss) (st, iss)"
| step_drop: "(g, t) \<in> set iss \<Longrightarrow> registry_step (st, iss) (guard_drop st g, iss)"

inductive registry_reach :: "'h registry_state \<times> 'h issued \<Rightarrow> bool" where
  reg_start: "registry_reach (registry_new, [])"
| reg_step: "registry_reach a \<Longrightarrow> registry_step a b \<Longrightarrow> registry_reach b"

inductive_cases registry_stepE: "registry_step a b"

definition registry_inv :: "'h registry_state \<times> 'h issued \<Rightarrow> bool" where
  "registry_inv a \<longleftrightarrow> (case a of (st, iss) \<Rightarrow>
     rs_next_generation st = of_nat (length iss) \<and>
     map (gd_generation \<circ> fst) iss = rev (map of_nat [0..<length iss]) \<and>
     (\<forall>(g, t) \<in> set iss. rt_generation t = gd_generation g) \<and>
     (\<forall>n t. rs_tunnels st n = Some t \<longrightarrow> (\<lparr>gd_name = n, gd_generation = rt_generation t\<rparr>, t) \<in> set iss))"

lemma register_cases:
  "register st reg ik h =
     (if \<exists>t. rs_tunnels st (rg_name reg) = Some t \<and> rt_owner_ik t \<noteq> ik
      then Inl (OwnedByDifferentIdentity (rg_name reg))
      else Inr (\<lparr>gd_name = rg_name reg, gd_generation = rs_next_generation st\<rparr>,
        st\<lparr>rs_next_generation := rs_next_generation st + 1,
           rs_tunnels := (rs_tunnels st)(rg_name reg \<mapsto>
             \<lparr>rt_handle = h, rt_allowed_services = rg_allowed_services reg, rt_owner_ik = ik,
              rt_generation = rs_next_generation st\<rparr>)\<rparr>))"
  by (auto simp: register_def Let_def split: option.splits)

lemma register_tunnels:
  "register st reg ik h = Inr (g, st') \<Longrightarrow> rs_tunnels st' = (rs_tunnels st)(rg_name reg \<mapsto>
     \<lparr>rt_handle = h, rt_allowed_services = rg_allowed_services reg, rt_owner_ik = ik,
      rt_generation = rs_next_generation st\<rparr>)"
  by (auto simp: register_cases split: if_splits)

lemma registry_step_inv: "registry_step a b \<Longrightarrow> registry_inv a \<Longrightarrow> registry_inv b"
proof (induction rule: registry_step.induct)
  case (step_register st reg ik h g st' t iss)
  then have g: "g = \<lparr>gd_name = rg_name reg, gd_generation = rs_next_generation st\<rparr>"
      "rt_generation t = rs_next_generation st"
      "rs_tunnels st' = (rs_tunnels st)(rg_name reg \<mapsto> t)"
      "rs_next_generation st' = rs_next_generation st + 1"
    by (auto simp: register_cases split: if_splits)
  with step_register.prems show ?case by (auto simp: registry_inv_def)
next
  case (step_drop g t iss st)
  then show ?case
    by (auto simp: registry_inv_def guard_drop_def deregister_def split: option.splits if_splits)
qed simp

lemma registry_reach_inv: "registry_reach a \<Longrightarrow> registry_inv a"
proof (induction rule: registry_reach.induct)
  case reg_start
  show ?case by (simp add: registry_inv_def registry_new_def)
qed (rule registry_step_inv)

lemma registry_generations_distinct:
  assumes "registry_inv (st, iss)" and "length iss \<le> 2 ^ 64"
  shows "distinct (map (gd_generation \<circ> fst) iss)"
proof -
  have "inj_on (of_nat :: nat \<Rightarrow> u64) {0..<length iss}"
  proof (rule inj_onI)
    fix x y assume "x \<in> {0..<length iss}" "y \<in> {0..<length iss}" "(of_nat x :: u64) = of_nat y"
    then show "x = y" using assms(2) of_nat_word_inj [of x y, where 'a = 64] by auto
  qed
  then show ?thesis using assms(1) by (simp add: registry_inv_def distinct_map)
qed

section \<open>Properties\<close>

lemma read_write_registration:
  assumes "registration_ok reg" and "set order = rg_allowed_services reg" and "distinct order"
  shows "read_registration (write_registration order reg @ stream) = Inr (reg, stream)"
proof -
  have n: "card (rg_allowed_services reg) = length order"
    using assms(2,3) by (metis distinct_card)
  have "unat (of_nat (length order) :: u16) = length order"
    using assms(1) n by (intro unat_of_nat_less) (simp add: registration_ok_def MAX_REGISTRATION_SERVICES_def)
  moreover have "read_services (length order) {} (concat (map write_field order) @ stream)
      = Inr (rg_allowed_services reg, stream)"
    using read_write_services [of order "{}" stream] assms(1,2) by (simp add: registration_ok_def)
  ultimately show ?thesis
    using assms(1) n
    by (simp add: read_registration_def write_registration_def read_write_field registration_ok_def)
qed

text \<open>The registration frame round-trips. A registration within the limits, written in any order of
  its services, reads back as itself and leaves what follows it on the connection untouched.\<close>

theorem registration_roundtrip:
  assumes "registration_ok reg" and "set order = rg_allowed_services reg" and "distinct order"
  shows "read_registration (write_registration order reg @ stream) = Inr (reg, stream)"
  using assms by (rule read_write_registration)

theorem registration_roundtrip_witness:
  "read_registration (write_registration [''443''] \<lparr>rg_name = ''a.b'', rg_allowed_services = {''443''}\<rparr> @ [7])
     = Inr (\<lparr>rg_name = ''a.b'', rg_allowed_services = {''443''}\<rparr>, [7])"
proof (rule registration_roundtrip)
  have "field_ok ''a.b''" "field_ok ''443''"
    by (simp_all add: field_ok_def MAX_REGISTRATION_FIELD_BYTES_def ascii_is_str)
  then show "registration_ok \<lparr>rg_name = ''a.b'', rg_allowed_services = {''443''}\<rparr>"
    by (simp add: registration_ok_def MAX_REGISTRATION_SERVICES_def)
qed simp_all

lemma read_registration_consumes:
  assumes "read_registration stream = Inr (reg, left)"
  shows "registration_ok reg \<and> (\<exists>frame. frame \<noteq> [] \<and> stream = frame @ left)"
proof -
  from assms obtain name s1 n s2 svcs where r: "read_length_prefixed_string stream = Inr (name, s1)" "name \<noteq> []"
      "read_u16 s1 = Inr (n, s2)" "unat n \<le> MAX_REGISTRATION_SERVICES"
      "read_services (unat n) {} s2 = Inr (svcs, left)"
      "reg = \<lparr>rg_name = name, rg_allowed_services = svcs\<rparr>"
    by (auto simp: read_registration_def res split: if_splits prod.splits)
  obtain f where "s2 = f @ left" using read_services_suffix [OF r(5)] by blast
  moreover have "s1 = be16 n @ s2" using r(3) by (simp add: read_u16_Inr)
  moreover have "stream = write_field name @ s1" using read_field_ok [OF r(1)] by simp
  ultimately have "stream = (write_field name @ be16 n @ f) @ left" by (simp only: append_assoc)
  moreover have "write_field name @ be16 n @ f \<noteq> []" by (simp add: be16_def)
  moreover have "registration_ok reg"
    using r(2,4,6) read_field_ok [OF r(1)] read_services_ok [OF r(5)] by (simp add: registration_ok_def)
  ultimately show ?thesis by (intro conjI exI [of _ "write_field name @ be16 n @ f"])
qed

text \<open>Reading a registration is total and bounded: whatever the peer sends, the result is an error
  or a registration with a non-empty name, at most 256 services and fields of at most 4096 bytes of
  valid UTF-8, and the frame is cut off the front of the stream.\<close>

theorem read_registration_bounded:
  "case read_registration stream of
     Inl e \<Rightarrow> True
   | Inr (reg, left) \<Rightarrow> registration_ok reg \<and> (\<exists>frame. frame \<noteq> [] \<and> stream = frame @ left)"
  using read_registration_consumes [of stream] by (auto split: sum.splits)

text \<open>C33: a live name cannot be hijacked. In every state the registry can reach, registering a name a
  live tunnel of another identity holds is refused and changes nothing; and no single operation, a
  guard drop included, hands a registered name from one owner to another.\<close>

theorem no_hijack:
  assumes "rs_tunnels st n = Some t"
  shows "(rg_name reg = n \<and> ik \<noteq> rt_owner_ik t \<longrightarrow>
           register st reg ik h = Inl (OwnedByDifferentIdentity n))
    \<and> (registry_step (st, iss) (st', iss') \<longrightarrow>
         rs_tunnels st' n = None \<or> (\<exists>t'. rs_tunnels st' n = Some t' \<and> rt_owner_ik t' = rt_owner_ik t))"
proof (intro conjI impI)
  assume "rg_name reg = n \<and> ik \<noteq> rt_owner_ik t"
  with assms show "register st reg ik h = Inl (OwnedByDifferentIdentity n)"
    by (auto simp: register_cases)
next
  assume "registry_step (st, iss) (st', iss')"
  then show "rs_tunnels st' n = None \<or> (\<exists>t'. rs_tunnels st' n = Some t' \<and> rt_owner_ik t' = rt_owner_ik t)"
    using assms
    by (auto elim!: registry_stepE simp: register_cases guard_drop_def deregister_def
        split: if_splits option.splits)
qed

definition demo_reg :: registration where
  "demo_reg = \<lparr>rg_name = ''a.b'', rg_allowed_services = {''443''}\<rparr>"

definition demo_entry :: "u64 \<Rightarrow> nat registered_tunnel" where
  "demo_entry g = \<lparr>rt_handle = 5, rt_allowed_services = {''443''}, rt_owner_ik = [1], rt_generation = g\<rparr>"

definition demo_state :: "nat registry_state" where
  "demo_state = \<lparr>rs_tunnels = [''a.b'' \<mapsto> demo_entry 0], rs_next_generation = 1\<rparr>"

theorem no_hijack_witness:
  "register demo_state demo_reg [2] 9 = Inl (OwnedByDifferentIdentity ''a.b'')"
  using no_hijack [of demo_state "''a.b''" "demo_entry 0" demo_reg "[2]" 9 "[]" demo_state "[]"]
  by (simp add: demo_state_def demo_entry_def demo_reg_def)

text \<open>A guard removes only the registration it was returned for. In every reachable run of fewer
  than \<open>2\<^sup>6\<^sup>4\<close> registrations, dropping a guard leaves the registry as it is unless the name still maps
  to the very entry that guard's registration inserted, and then removes exactly that name: a stale
  guard cannot tear down the tunnel of a reconnected box.\<close>

theorem guard_drops_own_entry:
  assumes "registry_reach (st, iss)" and "length iss \<le> 2 ^ 64" and "(g, t) \<in> set iss"
  shows "guard_drop st g =
    (if rs_tunnels st (gd_name g) = Some t
     then st\<lparr>rs_tunnels := (rs_tunnels st)(gd_name g := None)\<rparr> else st)"
proof -
  note inv = registry_reach_inv [OF assms(1)]
  have gen: "rt_generation t = gd_generation g"
    using inv assms(3) by (auto simp: registry_inv_def)
  have own: "t' = t" if t': "rs_tunnels st (gd_name g) = Some t'" "rt_generation t' = gd_generation g" for t'
  proof -
    have "(\<lparr>gd_name = gd_name g, gd_generation = gd_generation g\<rparr>, t') \<in> set iss"
      using inv t' by (simp add: registry_inv_def) metis
    with assms(3) registry_generations_distinct [OF inv assms(2)]
    have "(\<lparr>gd_name = gd_name g, gd_generation = gd_generation g\<rparr>, t') = (g, t)"
      by (intro inj_onD [of "gd_generation \<circ> fst" "set iss"]) (simp_all add: distinct_map)
    then show ?thesis by simp
  qed
  show ?thesis
  proof (cases "rs_tunnels st (gd_name g)")
    case (Some t')
    then show ?thesis
      using own [of t'] gen by (cases "rt_generation t' = gd_generation g") (auto simp: guard_drop_def deregister_def)
  qed (simp add: guard_drop_def deregister_def)
qed

lemma demo_reach:
  "registry_reach (demo_state, [(\<lparr>gd_name = ''a.b'', gd_generation = 0\<rparr>, demo_entry 0)])"
proof (rule registry_reach.reg_step [OF registry_reach.reg_start])
  show "registry_step (registry_new, []) (demo_state, [(\<lparr>gd_name = ''a.b'', gd_generation = 0\<rparr>, demo_entry 0)])"
    by (rule registry_step.step_register [where reg = demo_reg and ik = "[1]" and h = 5])
      (simp_all add: register_cases registry_new_def demo_reg_def demo_state_def demo_entry_def)
qed

theorem guard_drops_own_entry_witness:
  "rs_tunnels (guard_drop demo_state \<lparr>gd_name = ''a.b'', gd_generation = 0\<rparr>) ''a.b'' = None"
  using guard_drops_own_entry [OF demo_reach, of "\<lparr>gd_name = ''a.b'', gd_generation = 0\<rparr>" "demo_entry 0"]
  by (simp add: demo_state_def)

text \<open>Lookups ignore ASCII case but registrations do not. A tunnel registered under a name with an
  upper-case ASCII letter is accepted and then found by no lookup at all, its own name included.\<close>

theorem uppercase_registration_unreachable:
  assumes "to_ascii_lowercase (rg_name reg) \<noteq> rg_name reg" and "register st reg ik h = Inr (g, st')"
  shows "rs_tunnels st' (rg_name reg) \<noteq> None \<and> lookup st' sni = lookup st sni"
proof -
  have "to_ascii_lowercase sni \<noteq> rg_name reg"
    using assms(1) lowercase_idem by metis
  then show ?thesis
    using assms(2) by (auto simp: register_cases lookup_def split: if_splits)
qed

theorem uppercase_registration_unreachable_witness:
  "\<exists>g st'. register (registry_new :: nat registry_state) \<lparr>rg_name = ''Box'', rg_allowed_services = {}\<rparr> [1] 5 = Inr (g, st')
     \<and> lookup st' ''Box'' = None"
proof -
  let ?reg = "\<lparr>rg_name = ''Box'', rg_allowed_services = {}\<rparr>"
  obtain g st' where r: "register (registry_new :: nat registry_state) ?reg [1] 5 = Inr (g, st')"
    by (simp add: register_cases registry_new_def)
  have "to_ascii_lowercase (rg_name ?reg) \<noteq> rg_name ?reg"
    by (simp add: to_ascii_lowercase_def ascii_lower_def char_of_def)
  from uppercase_registration_unreachable [OF this r, of "''Box''"] r show ?thesis
    by (auto simp: lookup_def registry_new_def)
qed

end
