(* ===== verification/Single_Use.thy ===== *)
theory Single_Use
  imports Prelude
begin

text \<open>
  The contract of a store of single-use tokens: the challenge nonces of the reachability adapter
  (\<open>crates/reachability-adapter/src/auth.rs\<close>, \<open>NonceRegistry\<close>) and of the gateway's admission
  (\<open>crates/gateway/src/authz.rs\<close>, \<open>IdentityRegistry\<close>) implement it. Issuing may drop other tokens
  (expiry, eviction); redeeming succeeds exactly for a live token and ends it.
\<close>

datatype 't token_op = Issue 't | Redeem 't

text \<open>How often a token is redeemed successfully in a sequence of operations.\<close>

fun redeemed :: "('s \<Rightarrow> 't \<Rightarrow> 's) \<Rightarrow> ('s \<Rightarrow> 't \<Rightarrow> bool \<times> 's) \<Rightarrow> 's \<Rightarrow> 't token_op list \<Rightarrow> 't \<Rightarrow> nat" where
  "redeemed iss red s [] t = 0"
| "redeemed iss red s (Issue u # ops) t = redeemed iss red (iss s u) ops t"
| "redeemed iss red s (Redeem u # ops) t =
     (if u = t \<and> fst (red s u) then 1 else 0) + redeemed iss red (snd (red s u)) ops t"

locale single_use =
  fixes iss :: "'s \<Rightarrow> 't \<Rightarrow> 's"
    and red :: "'s \<Rightarrow> 't \<Rightarrow> bool \<times> 's"
    and live :: "'s \<Rightarrow> 't set"
  assumes issue_adds: "live (iss s t) \<subseteq> insert t (live s)"
    and issue_live: "t \<in> live (iss s t)"
    and redeem_iff: "fst (red s t) \<longleftrightarrow> t \<in> live s"
    and redeem_removes: "live (snd (red s t)) = live s - {t}"
begin

lemma redeem_twice: "\<not> fst (red (snd (red s t)) t)"
  by (simp add: redeem_iff redeem_removes)

lemma issue_redeem: "fst (red (iss s t) t)"
  by (simp add: redeem_iff issue_live)

lemma redeemed_bound:
  "redeemed iss red s ops t \<le> (if t \<in> live s then 1 else 0) + count_list ops (Issue t)"
proof (induction ops arbitrary: s)
  case (Cons a ops)
  show ?case
  proof (cases a)
    case (Issue u)
    have "t \<in> live (iss s u) \<Longrightarrow> u \<noteq> t \<Longrightarrow> t \<in> live s" using issue_adds [of s u] by auto
    with Issue Cons [of "iss s u"] show ?thesis by (auto split: if_splits)
  next
    case (Redeem u)
    with Cons [of "snd (red s u)"] show ?thesis
      by (auto simp: redeem_iff redeem_removes split: if_splits)
  qed
qed simp

end

end
