(* ===== verification/Reach_Auth.thy ===== *)
theory Reach_Auth
  imports Reach_Tunnel Single_Use Descriptor
begin

text \<open>
  The tunnel authentication handshake, \<open>crates/reachability-adapter/src/auth.rs\<close>: announce, challenge,
  response, and the registry of challenge nonces. The random nonce and \<open>verify_domain\<close> /
  \<open>sign_domain\<close> of \<open>kotva_core\<close> are arguments (\<open>ia_verify\<close>, \<open>ia_sign\<close>). Other connections use the shared
  nonce registry while this one awaits its peer: \<open>others\<close> is what they did to it between the challenge
  and the response. A socket is the bytes to come, the bytes written and the error a write would return.
\<close>

datatype auth_error =
    AuthIo io_error
  | AuthMalformed string
  | AuthRegistration tunnel_error
  | NonceReplayed
  | BadSignature

record auth_announce =
  an_claimed_ik :: bytes
  an_registration :: registration

record authenticated_registration =
  ar_registration :: registration
  ar_authenticated_ik :: bytes

record tcp =
  tc_in :: bytes
  tc_out :: bytes
  tc_write_err :: "io_error option"

definition TUNNEL_AUTH_DS :: bytes where
  "TUNNEL_AUTH_DS = as_bytes ''EPHOR-REACH-v0/tunnel-auth'' @ [0]"

definition IK_LEN :: nat where "IK_LEN = 32"

definition NONCE_LEN :: nat where "NONCE_LEN = 32"

definition SIG_LEN :: nat where "SIG_LEN = 64"

definition MAX_PENDING_NONCES :: nat where "MAX_PENDING_NONCES = 10000"

definition signing_preimage :: "bytes \<Rightarrow> string \<Rightarrow> bytes" where
  "signing_preimage nonce name = nonce @ as_bytes name"

section \<open>Frames\<close>

definition tcp_write :: "bytes \<Rightarrow> tcp \<Rightarrow> io_error + tcp" where
  "tcp_write bs s = (case tc_write_err s of Some e \<Rightarrow> Inl e | None \<Rightarrow> Inr (s\<lparr>tc_out := tc_out s @ bs\<rparr>))"

definition read_fixed :: "nat \<Rightarrow> tcp \<Rightarrow> io_error + (bytes \<times> tcp)" where
  "read_fixed n s = bindE (read_exact n (tc_in s)) (\<lambda>(b, rest). Inr (b, s\<lparr>tc_in := rest\<rparr>))"

definition read_announce :: "tcp \<Rightarrow> auth_error + (auth_announce \<times> tcp)" where
  "read_announce s =
     bindE (map_err AuthIo (read_fixed IK_LEN s)) (\<lambda>(claimed_ik, s1).
     bindE (map_err AuthRegistration (read_registration (tc_in s1))) (\<lambda>(reg, rest).
     Inr (\<lparr>an_claimed_ik = claimed_ik, an_registration = reg\<rparr>, s1\<lparr>tc_in := rest\<rparr>)))"

definition write_announce :: "string list \<Rightarrow> auth_announce \<Rightarrow> tcp \<Rightarrow> auth_error + tcp" where
  "write_announce order a s =
     bindE (map_err AuthIo (tcp_write (an_claimed_ik a) s)) (\<lambda>s1.
     map_err (\<lambda>e. AuthRegistration (TunIo e)) (tcp_write (write_registration order (an_registration a)) s1))"

definition read_challenge :: "tcp \<Rightarrow> auth_error + (bytes \<times> tcp)" where
  "read_challenge s = map_err AuthIo (read_fixed NONCE_LEN s)"

definition write_challenge :: "bytes \<Rightarrow> tcp \<Rightarrow> auth_error + tcp" where
  "write_challenge nonce s = map_err AuthIo (tcp_write nonce s)"

definition read_response :: "tcp \<Rightarrow> auth_error + (bytes \<times> tcp)" where
  "read_response s = map_err AuthIo (read_fixed SIG_LEN s)"

definition write_response :: "bytes \<Rightarrow> tcp \<Rightarrow> auth_error + tcp" where
  "write_response sig s = map_err AuthIo (tcp_write sig s)"

section \<open>The nonce registry\<close>

record nonce_state =
  ns_pending :: "bytes set"
  ns_order :: "bytes list"

definition nonces_new :: nonce_state where
  "nonces_new = \<lparr>ns_pending = {}, ns_order = []\<rparr>"

definition nonce_issue :: "nonce_state \<Rightarrow> bytes \<Rightarrow> nonce_state" where
  "nonce_issue st nonce =
     (let st1 = (if length (ns_order st) \<ge> MAX_PENDING_NONCES
                 then case ns_order st of
                        [] \<Rightarrow> st
                      | oldest # rest \<Rightarrow> st\<lparr>ns_pending := ns_pending st - {oldest}, ns_order := rest\<rparr>
                 else st)
      in st1\<lparr>ns_pending := insert nonce (ns_pending st1), ns_order := ns_order st1 @ [nonce]\<rparr>)"

definition nonce_consume :: "nonce_state \<Rightarrow> bytes \<Rightarrow> bool \<times> nonce_state" where
  "nonce_consume st nonce = (nonce \<in> ns_pending st, st\<lparr>ns_pending := ns_pending st - {nonce}\<rparr>)"

interpretation nonces: single_use nonce_issue nonce_consume ns_pending
  by unfold_locales (auto simp: nonce_issue_def nonce_consume_def Let_def split: list.splits)

section \<open>The handshake\<close>

definition authenticate_box_connection :: "'k identity_api \<Rightarrow> (nonce_state \<Rightarrow> nonce_state) \<Rightarrow> bytes
    \<Rightarrow> tcp \<Rightarrow> nonce_state \<Rightarrow> (auth_error + authenticated_registration) \<times> tcp \<times> nonce_state" where
  "authenticate_box_connection ia others nonce s st =
     (case read_announce s of
        Inl e \<Rightarrow> (Inl e, s, st)
      | Inr (announce, s1) \<Rightarrow>
          (let st1 = nonce_issue st nonce in
           case write_challenge nonce s1 of
             Inl e \<Rightarrow> (Inl e, s1, st1)
           | Inr s2 \<Rightarrow>
               (let st2 = others st1 in
                case read_response s2 of
                  Inl e \<Rightarrow> (Inl e, s2, st2)
                | Inr (sig, s3) \<Rightarrow>
                    (let (fresh, st3) = nonce_consume st2 nonce in
                     if \<not> fresh then (Inl NonceReplayed, s3, st3)
                     else
                       (let preimage = signing_preimage nonce (rg_name (an_registration announce)) in
                        case ia_verify ia (an_claimed_ik announce) TUNNEL_AUTH_DS preimage sig of
                          Inl _ \<Rightarrow> (Inl BadSignature, s3, st3)
                        | Inr _ \<Rightarrow>
                            (Inr \<lparr>ar_registration = an_registration announce,
                                  ar_authenticated_ik = an_claimed_ik announce\<rparr>, s3, st3))))))"

definition authenticate_as_box :: "'k identity_api \<Rightarrow> string list \<Rightarrow> 'k \<Rightarrow> registration \<Rightarrow> tcp \<Rightarrow> auth_error + tcp" where
  "authenticate_as_box ia order ik reg s =
     bindE (write_announce order \<lparr>an_claimed_ik = ia_public ia ik, an_registration = reg\<rparr> s) (\<lambda>s1.
     bindE (read_challenge s1) (\<lambda>(nonce, s2).
     (let sig = ia_sign ia ik TUNNEL_AUTH_DS (signing_preimage nonce (rg_name reg)) in
      if length sig \<noteq> SIG_LEN then Inl (AuthMalformed ''IK signature was not 64 bytes'')
      else write_response sig s2)))"

section \<open>Nonce lifetime\<close>

fun nonce_run :: "nonce_state \<Rightarrow> bytes token_op list \<Rightarrow> nonce_state" where
  "nonce_run st [] = st"
| "nonce_run st (Issue n # ops) = nonce_run (nonce_issue st n) ops"
| "nonce_run st (Redeem n # ops) = nonce_run (snd (nonce_consume st n)) ops"

definition nonce_inv :: "nonce_state \<Rightarrow> bool" where
  "nonce_inv st \<longleftrightarrow> ns_pending st \<subseteq> set (ns_order st) \<and> length (ns_order st) \<le> MAX_PENDING_NONCES"

lemma nonce_inv_run: "nonce_inv st \<Longrightarrow> nonce_inv (nonce_run st ops)"
proof (induction st ops rule: nonce_run.induct)
  case (2 st n ops)
  then have "nonce_inv (nonce_issue st n)"
    by (auto simp: nonce_inv_def nonce_issue_def Let_def MAX_PENDING_NONCES_def split: list.splits)
  with 2 show ?case by simp
next
  case (3 st n ops)
  then have "nonce_inv (snd (nonce_consume st n))" by (auto simp: nonce_inv_def nonce_consume_def)
  with 3 show ?case by simp
qed simp

fun issues :: "bytes token_op list \<Rightarrow> nat" where
  "issues [] = 0"
| "issues (Issue n # ops) = Suc (issues ops)"
| "issues (Redeem n # ops) = issues ops"

text \<open>A nonce is only ever popped from the front of the order, and enough others must be behind it.\<close>

lemma nonce_kept:
  assumes "n \<in> ns_pending st" and "ns_order st = xs @ n # ys" and "n \<notin> set xs"
    and "length ys + issues ops < MAX_PENDING_NONCES" and "Issue n \<notin> set ops" "Redeem n \<notin> set ops"
  shows "n \<in> ns_pending (nonce_run st ops)"
  using assms
proof (induction st ops arbitrary: xs ys rule: nonce_run.induct)
  case (2 st u ops)
  show ?case
  proof (cases "length (ns_order st) \<ge> MAX_PENDING_NONCES")
    case True
    with 2 obtain x xs' where xs: "xs = x # xs'" by (cases xs) auto
    with 2 True have st': "nonce_issue st u = st\<lparr>ns_pending := insert u (ns_pending st - {x}),
        ns_order := xs' @ n # (ys @ [u])\<rparr>"
      by (simp add: nonce_issue_def Let_def)
    show ?thesis
      using 2 by (simp only: nonce_run.simps, intro 2(1)) (auto simp: st' xs)
  next
    case False
    then have st': "nonce_issue st u = st\<lparr>ns_pending := insert u (ns_pending st), ns_order := ns_order st @ [u]\<rparr>"
      by (simp add: nonce_issue_def Let_def)
    show ?thesis
      using 2 by (simp only: nonce_run.simps, intro 2(1) [where xs = xs and ys = "ys @ [u]"]) (auto simp: st')
  qed
next
  case (3 st u ops)
  show ?case
    using 3 by (simp only: nonce_run.simps, intro 3(1) [where xs = xs and ys = ys])
      (auto simp: nonce_consume_def)
qed simp

lemma nonce_issue_shape:
  assumes "n \<notin> set (ns_order st)"
  shows "\<exists>xs. ns_order (nonce_issue st n) = xs @ [n] \<and> n \<notin> set xs \<and> n \<in> ns_pending (nonce_issue st n)"
  using assms by (auto simp: nonce_issue_def Let_def split: list.splits)

section \<open>Properties\<close>

text \<open>C10: challenge nonces are single-use and bounded. In any sequence of issues and consumes, by any
  interleaving of connections, a nonce that is issued at most once is consumed successfully at most
  once; and from an empty registry at most \<open>MAX_PENDING_NONCES\<close> nonces are ever outstanding.\<close>

theorem nonce_single_use:
  assumes "n \<notin> ns_pending st" and "count_list ops (Issue n) \<le> 1"
  shows "redeemed nonce_issue nonce_consume st ops n \<le> 1
    \<and> card (ns_pending (nonce_run nonces_new ops)) \<le> MAX_PENDING_NONCES"
proof
  show "redeemed nonce_issue nonce_consume st ops n \<le> 1"
    using nonces.redeemed_bound [of st ops n] assms by simp
  have "nonce_inv (nonce_run nonces_new ops)"
    by (rule nonce_inv_run) (simp add: nonce_inv_def nonces_new_def)
  then have "ns_pending (nonce_run nonces_new ops) \<subseteq> set (ns_order (nonce_run nonces_new ops))"
    "length (ns_order (nonce_run nonces_new ops)) \<le> MAX_PENDING_NONCES"
    by (simp_all add: nonce_inv_def)
  then show "card (ns_pending (nonce_run nonces_new ops)) \<le> MAX_PENDING_NONCES"
    by (meson List.finite_set card_length card_mono order_trans)
qed

theorem nonce_single_use_witness:
  "redeemed nonce_issue nonce_consume nonces_new [Issue [7], Redeem [7], Redeem [7]] [7] \<le> 1"
  using nonce_single_use [of "[7]" nonces_new "[Issue [7], Redeem [7], Redeem [7]]"]
  by (simp add: nonces_new_def)

text \<open>A pending handshake survives concurrent ones. A fresh nonce stays live through any sequence of
  other connections' issues and consumes with fewer than \<open>MAX_PENDING_NONCES\<close> issues among them.\<close>

theorem nonce_survives:
  assumes "n \<notin> set (ns_order st)" and "issues ops < MAX_PENDING_NONCES"
    and "Issue n \<notin> set ops" and "Redeem n \<notin> set ops"
  shows "fst (nonce_consume (nonce_run (nonce_issue st n) ops) n)"
proof -
  obtain xs where "ns_order (nonce_issue st n) = xs @ [n]" "n \<notin> set xs" "n \<in> ns_pending (nonce_issue st n)"
    using nonce_issue_shape [OF assms(1)] by blast
  then have "n \<in> ns_pending (nonce_run (nonce_issue st n) ops)"
    using assms by (intro nonce_kept [where xs = xs and ys = "[]"]) simp_all
  then show ?thesis by (simp add: nonce_consume_def)
qed

theorem nonce_survives_witness:
  "fst (nonce_consume (nonce_run (nonce_issue nonces_new [7]) [Issue [8], Redeem [8], Issue [9]]) [7])"
  using nonce_survives [of "[7]" nonces_new "[Issue [8], Redeem [8], Issue [9]]"]
  by (simp add: nonces_new_def MAX_PENDING_NONCES_def)

lemma nonce_rounds:
  assumes "length us < MAX_PENDING_NONCES" and "n \<notin> set us"
  shows "nonce_run (nonce_issue nonces_new n) (concat (map (\<lambda>u. [Issue u, Redeem u]) us))
    = \<lparr>ns_pending = {n}, ns_order = n # us\<rparr>"
  using assms
proof (induction us rule: rev_induct)
  case Nil
  then show ?case by (simp add: nonce_issue_def nonces_new_def MAX_PENDING_NONCES_def)
next
  case (snoc u us)
  have app: "nonce_run st (a @ b) = nonce_run (nonce_run st a) b" for st a b
    by (induction st a rule: nonce_run.induct) simp_all
  from snoc show ?case
    by (auto simp: app nonce_issue_def nonce_consume_def Let_def)
qed

text \<open>The registry's capacity counts consumed nonces too. One stalled handshake loses its nonce once
  \<open>MAX_PENDING_NONCES\<close> others have come and gone, each consumed at once, although at every moment
  at most two nonces are outstanding: the oldest entry is evicted, not the oldest pending one of a
  full set.\<close>

theorem nonce_evicted_while_alone:
  assumes "length us = MAX_PENDING_NONCES" and "n \<notin> set us"
  shows "\<not> fst (nonce_consume
      (nonce_run (nonce_issue nonces_new n) (concat (map (\<lambda>u. [Issue u, Redeem u]) us))) n)
    \<and> (\<forall>k < MAX_PENDING_NONCES. ns_pending (nonce_run (nonce_issue nonces_new n)
          (concat (map (\<lambda>u. [Issue u, Redeem u]) (take k us)))) = {n})"
proof
  have app: "nonce_run st (a @ b) = nonce_run (nonce_run st a) b" for st a b
    by (induction st a rule: nonce_run.induct) simp_all
  obtain vs v where us: "us = vs @ [v]"
    using assms(1) by (cases us rule: rev_exhaust) (auto simp: MAX_PENDING_NONCES_def)
  have "nonce_run (nonce_issue nonces_new n) (concat (map (\<lambda>u. [Issue u, Redeem u]) vs))
      = \<lparr>ns_pending = {n}, ns_order = n # vs\<rparr>"
    using assms us by (intro nonce_rounds) auto
  then show "\<not> fst (nonce_consume
      (nonce_run (nonce_issue nonces_new n) (concat (map (\<lambda>u. [Issue u, Redeem u]) us))) n)"
    using assms us by (auto simp: us app nonce_issue_def nonce_consume_def Let_def)
  show "\<forall>k < MAX_PENDING_NONCES. ns_pending (nonce_run (nonce_issue nonces_new n)
          (concat (map (\<lambda>u. [Issue u, Redeem u]) (take k us)))) = {n}"
  proof (intro allI impI)
    fix k assume "k < MAX_PENDING_NONCES"
    moreover have "n \<notin> set (take k us)" using assms(2) by (auto dest: in_set_takeD)
    ultimately show "ns_pending (nonce_run (nonce_issue nonces_new n)
          (concat (map (\<lambda>u. [Issue u, Redeem u]) (take k us)))) = {n}"
      using assms(1) nonce_rounds [of "take k us" n] by simp
  qed
qed

theorem nonce_evicted_while_alone_witness:
  "\<not> fst (nonce_consume (nonce_run (nonce_issue nonces_new [1])
      (concat (map (\<lambda>u. [Issue u, Redeem u]) (map (\<lambda>i. replicate i 0) [0..<10000])))) [1])"
proof -
  have "[1] \<noteq> replicate i (0 :: u8)" for i by (cases i) simp_all
  then show ?thesis
    using nonce_evicted_while_alone [of "map (\<lambda>i. replicate i 0) [0..<10000]" "[1]"]
    by (auto simp: MAX_PENDING_NONCES_def)
qed

lemma authenticate_ok:
  assumes "authenticate_box_connection ia others nonce s st = (Inr a, s', st')"
  shows "\<exists>frame_rest sig. tc_in s = ar_authenticated_ik a @ frame_rest @ sig @ tc_in s'
      \<and> length (ar_authenticated_ik a) = IK_LEN \<and> length sig = SIG_LEN
      \<and> ia_verify ia (ar_authenticated_ik a) TUNNEL_AUTH_DS
           (signing_preimage nonce (rg_name (ar_registration a))) sig = Inr ()
      \<and> registration_ok (ar_registration a)
      \<and> nonce \<in> ns_pending (others (nonce_issue st nonce)) \<and> nonce \<notin> ns_pending st'
      \<and> tc_out s' = tc_out s @ nonce"
proof -
  obtain an s1 where an: "read_announce s = Inr (an, s1)"
    using assms by (cases "read_announce s") (auto simp: authenticate_box_connection_def)
  obtain s2 where s2: "write_challenge nonce s1 = Inr s2"
    using assms an by (cases "write_challenge nonce s1") (auto simp: authenticate_box_connection_def Let_def)
  obtain sig s3 where s3: "read_response s2 = Inr (sig, s3)"
    using assms an s2 by (cases "read_response s2") (auto simp: authenticate_box_connection_def Let_def)
  have fin: "nonce \<in> ns_pending (others (nonce_issue st nonce))" "s' = s3"
      "st' = snd (nonce_consume (others (nonce_issue st nonce)) nonce)"
      "a = \<lparr>ar_registration = an_registration an, ar_authenticated_ik = an_claimed_ik an\<rparr>"
      "ia_verify ia (an_claimed_ik an) TUNNEL_AUTH_DS
         (signing_preimage nonce (rg_name (an_registration an))) sig = Inr ()"
    using assms
    by (auto simp: authenticate_box_connection_def an s2 s3 Let_def nonce_consume_def
        split: if_splits sum.splits)
  from an obtain reg rest where rd: "length (an_claimed_ik an) = IK_LEN" "tc_in s = an_claimed_ik an @ rest"
      "read_registration rest = Inr (an_registration an, tc_in s1)" "tc_out s1 = tc_out s"
    by (auto simp: read_announce_def read_fixed_def res read_exact_Inr split: prod.splits)
  have ok: "registration_ok (an_registration an)" and "\<exists>frame. rest = frame @ tc_in s1"
    using read_registration_consumes [OF rd(3)] by auto
  then obtain frame where "rest = frame @ tc_in s1" by blast
  moreover have "tc_in s2 = tc_in s1" "tc_out s2 = tc_out s1 @ nonce"
    using s2 by (auto simp: write_challenge_def tcp_write_def res split: option.splits)
  moreover have "length sig = SIG_LEN" "tc_in s2 = sig @ tc_in s3" "tc_out s3 = tc_out s2"
    using s3 by (auto simp: read_response_def read_fixed_def res read_exact_Inr)
  ultimately show ?thesis
    using fin rd ok by (intro exI [of _ frame] exI [of _ sig]) (simp add: nonce_consume_def)
qed

text \<open>C9: authentication is sound. If the handshake succeeds, the peer's 64 response bytes are a valid
  tunnel-authentication signature, under the identity key the registration is then bound to, over the
  very nonce this handshake issued and the registered name; the nonce was still live when the response
  arrived and is dead afterwards; and the challenge is all the adapter wrote.\<close>

theorem authenticate_sound:
  assumes "authenticate_box_connection ia others nonce s st = (Inr a, s', st')"
  shows "\<exists>frame_rest sig. tc_in s = ar_authenticated_ik a @ frame_rest @ sig @ tc_in s'
      \<and> length (ar_authenticated_ik a) = IK_LEN \<and> length sig = SIG_LEN
      \<and> ia_verify ia (ar_authenticated_ik a) TUNNEL_AUTH_DS
           (signing_preimage nonce (rg_name (ar_registration a))) sig = Inr ()
      \<and> registration_ok (ar_registration a)
      \<and> nonce \<in> ns_pending (others (nonce_issue st nonce)) \<and> nonce \<notin> ns_pending st'
      \<and> tc_out s' = tc_out s @ nonce"
  using assms by (rule authenticate_ok)

text \<open>A concrete key scheme of the right sizes, for the witnesses.\<close>

definition sized_identity :: "u8 identity_api" where
  "sized_identity = \<lparr>ia_public = (\<lambda>k. replicate 32 k),
     ia_sign = (\<lambda>k ds body. replicate 32 k @ take 32 (body @ replicate 32 0)),
     ia_verify = (\<lambda>pk ds body sig. if sig = pk @ take 32 (body @ replicate 32 0) then Inr () else Inl ''bad''),
     ia_suite_classical = (\<lambda>b. b = 1)\<rparr>"

lemma sized_identity_laws: "identity_laws sized_identity"
  by (simp add: identity_laws_def sized_identity_def)

definition demo_box_reg :: registration where
  "demo_box_reg = \<lparr>rg_name = ''a.b'', rg_allowed_services = {''443''}\<rparr>"

lemma demo_box_reg_ok: "registration_ok demo_box_reg"
proof -
  have "field_ok ''a.b''" "field_ok ''443''"
    by (simp_all add: field_ok_def MAX_REGISTRATION_FIELD_BYTES_def ascii_is_str)
  then show ?thesis by (simp add: registration_ok_def demo_box_reg_def MAX_REGISTRATION_SERVICES_def)
qed

lemma read_announce_written:
  assumes "registration_ok reg" and "set order = rg_allowed_services reg" and "distinct order"
    and "length ik = IK_LEN"
  shows "read_announce \<lparr>tc_in = ik @ write_registration order reg @ left, tc_out = out, tc_write_err = w\<rparr>
    = Inr (\<lparr>an_claimed_ik = ik, an_registration = reg\<rparr>, \<lparr>tc_in = left, tc_out = out, tc_write_err = w\<rparr>)"
  using read_write_registration [OF assms(1-3), of left] assms(4)
  by (simp add: read_announce_def read_fixed_def)

lemma honest_handshake:
  assumes ia: "identity_laws ia" "length (ia_public ia ik) = IK_LEN"
      "\<And>body. length (ia_sign ia ik TUNNEL_AUTH_DS body) = SIG_LEN"
    and reg: "registration_ok reg" "set order = rg_allowed_services reg" "distinct order"
    and nonce: "length nonce = NONCE_LEN" "nonce \<in> ns_pending (others (nonce_issue st nonce))"
  shows "\<exists>box. authenticate_as_box ia order ik reg \<lparr>tc_in = nonce, tc_out = [], tc_write_err = None\<rparr> = Inr box
    \<and> authenticate_box_connection ia others nonce
         \<lparr>tc_in = tc_out box @ left, tc_out = [], tc_write_err = None\<rparr> st
       = (Inr \<lparr>ar_registration = reg, ar_authenticated_ik = ia_public ia ik\<rparr>,
          \<lparr>tc_in = left, tc_out = nonce, tc_write_err = None\<rparr>,
          snd (nonce_consume (others (nonce_issue st nonce)) nonce))"
proof -
  let ?sig = "ia_sign ia ik TUNNEL_AUTH_DS (signing_preimage nonce (rg_name reg))"
  let ?box = "\<lparr>tc_in = [], tc_out = ia_public ia ik @ write_registration order reg @ ?sig, tc_write_err = None\<rparr>"
  have rd: "read_exact NONCE_LEN nonce = Inr (nonce, [])"
    using read_exact_append [OF nonce(1), of "[]"] by simp
  have box: "authenticate_as_box ia order ik reg \<lparr>tc_in = nonce, tc_out = [], tc_write_err = None\<rparr> = Inr ?box"
    by (simp add: authenticate_as_box_def write_announce_def tcp_write_def read_challenge_def read_fixed_def
        rd ia(3) write_response_def Let_def)
  have an: "read_announce \<lparr>tc_in = tc_out ?box @ left, tc_out = [], tc_write_err = None\<rparr>
      = Inr (\<lparr>an_claimed_ik = ia_public ia ik, an_registration = reg\<rparr>,
             \<lparr>tc_in = ?sig @ left, tc_out = [], tc_write_err = None\<rparr>)"
    using read_announce_written [OF reg ia(2), of "?sig @ left" "[]" None] by simp
  have "authenticate_box_connection ia others nonce \<lparr>tc_in = tc_out ?box @ left, tc_out = [], tc_write_err = None\<rparr> st
     = (Inr \<lparr>ar_registration = reg, ar_authenticated_ik = ia_public ia ik\<rparr>,
        \<lparr>tc_in = left, tc_out = nonce, tc_write_err = None\<rparr>,
        snd (nonce_consume (others (nonce_issue st nonce)) nonce))"
    unfolding authenticate_box_connection_def an using nonce(2)
    by (simp add: write_challenge_def tcp_write_def read_response_def read_fixed_def ia(3) Let_def
        nonce_consume_def identity_verify_sign [OF ia(1)])
  with box show ?thesis by blast
qed

text \<open>C39: an honest box is accepted. A box that announces a registration within the limits and signs the
  challenge it receives authenticates, bound to its own public key, if fewer than
  \<open>MAX_PENDING_NONCES\<close> other handshakes started meanwhile; the bytes it sends after its response are
  left for the tunnel session.\<close>

theorem honest_box_accepted:
  assumes "identity_laws ia" and "length (ia_public ia ik) = IK_LEN"
    and "\<And>body. length (ia_sign ia ik TUNNEL_AUTH_DS body) = SIG_LEN"
    and "registration_ok reg" and "set order = rg_allowed_services reg" and "distinct order"
    and "length nonce = NONCE_LEN" and "nonce \<notin> set (ns_order st)"
    and "issues ops < MAX_PENDING_NONCES" and "Issue nonce \<notin> set ops" and "Redeem nonce \<notin> set ops"
  shows "\<exists>box st'. authenticate_as_box ia order ik reg \<lparr>tc_in = nonce, tc_out = [], tc_write_err = None\<rparr> = Inr box
    \<and> authenticate_box_connection ia (\<lambda>s. nonce_run s ops) nonce
         \<lparr>tc_in = tc_out box @ left, tc_out = [], tc_write_err = None\<rparr> st
       = (Inr \<lparr>ar_registration = reg, ar_authenticated_ik = ia_public ia ik\<rparr>,
          \<lparr>tc_in = left, tc_out = nonce, tc_write_err = None\<rparr>, st')"
proof -
  have "nonce \<in> ns_pending (nonce_run (nonce_issue st nonce) ops)"
    using nonce_issue_shape [OF assms(8)] nonce_kept [of nonce "nonce_issue st nonce" _ "[]" ops] assms(9-11)
    by auto
  from honest_handshake [OF assms(1-7), of "\<lambda>s. nonce_run s ops", OF this] show ?thesis by blast
qed

theorem honest_box_accepted_witness:
  "\<exists>box st'. authenticate_as_box sized_identity [''443''] 5 demo_box_reg
       \<lparr>tc_in = replicate 32 9, tc_out = [], tc_write_err = None\<rparr> = Inr box
    \<and> authenticate_box_connection sized_identity (\<lambda>s. nonce_run s [Issue [1]]) (replicate 32 9)
         \<lparr>tc_in = tc_out box @ [0], tc_out = [], tc_write_err = None\<rparr> nonces_new
       = (Inr \<lparr>ar_registration = demo_box_reg, ar_authenticated_ik = replicate 32 5\<rparr>,
          \<lparr>tc_in = [0], tc_out = replicate 32 9, tc_write_err = None\<rparr>, st')"
proof -
  have "length [1 :: u8] \<noteq> length (replicate 32 (9 :: u8))" by simp
  then have "[1 :: u8] \<noteq> replicate 32 9" by metis
  then show ?thesis
    using honest_box_accepted [OF sized_identity_laws _ _ demo_box_reg_ok, of 5 "[''443'']" "replicate 32 9"
        nonces_new "[Issue [1]]" "[0]"]
    by (simp add: sized_identity_def IK_LEN_def SIG_LEN_def NONCE_LEN_def demo_box_reg_def nonces_new_def
        MAX_PENDING_NONCES_def)
qed

theorem authenticate_sound_witness:
  "\<exists>s s' st' sig. authenticate_box_connection sized_identity id (replicate 32 9) s nonces_new
       = (Inr \<lparr>ar_registration = demo_box_reg, ar_authenticated_ik = replicate 32 5\<rparr>, s', st')
     \<and> ia_verify sized_identity (replicate 32 5) TUNNEL_AUTH_DS
         (signing_preimage (replicate 32 9) ''a.b'') sig = Inr ()
     \<and> replicate 32 9 \<notin> ns_pending st'"
proof -
  have sz: "ia_public sized_identity 5 = replicate 32 5" "length (ia_public sized_identity 5) = IK_LEN"
      "length (ia_sign sized_identity 5 TUNNEL_AUTH_DS body) = SIG_LEN" for body
    by (simp_all add: sized_identity_def IK_LEN_def SIG_LEN_def)
  have "replicate 32 9 \<in> ns_pending (id (nonce_issue nonces_new (replicate 32 9)))"
    using nonces.issue_live by simp
  then obtain s s' st' where "authenticate_box_connection sized_identity id (replicate 32 9) s nonces_new
       = (Inr \<lparr>ar_registration = demo_box_reg, ar_authenticated_ik = replicate 32 5\<rparr>, s', st')"
    using honest_handshake [OF sized_identity_laws sz(2,3) demo_box_reg_ok, of "[''443'']" "replicate 32 9" id
        nonces_new "[]"]
    by (auto simp: demo_box_reg_def NONCE_LEN_def sz)
  with authenticate_sound [OF this] show ?thesis by (auto simp: demo_box_reg_def)
qed

end
