(* ===== verification/Reach_Ingress.thy ===== *)
theory Reach_Ingress
  imports Reach_Sni Reach_Auth
begin

text \<open>
  The adapter itself, \<open>crates/reachability-adapter/src/ingress.rs\<close>: accepting a box's control
  connection and routing a public connection. The tunnel session is the handle \<open>'h\<close>; what opening a
  stream on it returns, how writing the buffered ClientHello to it ends (\<open>Some (e, k)\<close>: error \<open>e\<close>
  after \<open>k\<close> bytes) and which bytes \<open>tokio::io::copy_bidirectional\<close> moves from the client to the box
  are arguments. \<open>fail_closed\<close> resets and drops the socket: \<open>ig_reset\<close>.
\<close>

datatype ingress_error =
    IngSni sni_error
  | UnregisteredName string
  | ServiceNotAllowed string string
  | IngTunnel tunnel_error

datatype tunnel_accept_error =
    AccAuth auth_error
  | AccRegistry registry_error

record 'h adapter_server =
  ad_registry :: "'h registry_state"
  ad_nonces :: nonce_state

text \<open>What an ingress connection did: its result, whether the client socket was reset, and the handle
  and bytes written if a tunnel stream was opened.\<close>

record 'h ingress_outcome =
  ig_result :: "ingress_error + unit"
  ig_reset :: bool
  ig_stream :: "('h \<times> bytes) option"

definition adapter_new :: "'h adapter_server" where
  "adapter_new = \<lparr>ad_registry = registry_new, ad_nonces = nonces_new\<rparr>"

definition accept_box_connection :: "'k identity_api \<Rightarrow> (nonce_state \<Rightarrow> nonce_state) \<Rightarrow> bytes \<Rightarrow> 'h
    \<Rightarrow> 'h adapter_server \<Rightarrow> tcp \<Rightarrow> (tunnel_accept_error + registration_guard) \<times> 'h adapter_server" where
  "accept_box_connection ia others nonce handle ad socket =
     (case authenticate_box_connection ia others nonce socket (ad_nonces ad) of
        (Inl e, _, nonces') \<Rightarrow> (Inl (AccAuth e), ad\<lparr>ad_nonces := nonces'\<rparr>)
      | (Inr authed, _, nonces') \<Rightarrow>
          (case register (ad_registry ad) (ar_registration authed) (ar_authenticated_ik authed) handle of
             Inl e \<Rightarrow> (Inl (AccRegistry e), ad\<lparr>ad_nonces := nonces'\<rparr>)
           | Inr (guard, registry') \<Rightarrow> (Inr guard, ad\<lparr>ad_nonces := nonces', ad_registry := registry'\<rparr>)))"

definition service_allowed :: "string set \<Rightarrow> string \<Rightarrow> bool" where
  "service_allowed allowed_services service_id = (service_id \<in> allowed_services)"

definition fail_closed :: "ingress_error \<Rightarrow> ('h \<times> bytes) option \<Rightarrow> 'h ingress_outcome" where
  "fail_closed e stream = \<lparr>ig_result = Inl e, ig_reset = True, ig_stream = stream\<rparr>"

definition handle_ingress_connection :: "('h \<Rightarrow> tunnel_error + unit) \<Rightarrow> (io_error \<times> nat) option
    \<Rightarrow> ((io_error + bytes) list \<Rightarrow> bytes) \<Rightarrow> 'h adapter_server \<Rightarrow> (io_error + bytes) list \<Rightarrow> string
    \<Rightarrow> 'h ingress_outcome" where
  "handle_ingress_connection open_stream write_end copy_up ad socket service_id =
     (case peek_client_hello socket of
        (Inl e, _) \<Rightarrow> fail_closed (IngSni e) None
      | (Inr peek, socket') \<Rightarrow>
          (case lookup (ad_registry ad) (ch_server_name peek) of
             None \<Rightarrow> fail_closed (UnregisteredName (ch_server_name peek)) None
           | Some l \<Rightarrow>
               if \<not> service_allowed (tl_allowed_services l) service_id
               then fail_closed (ServiceNotAllowed (ch_server_name peek) service_id) None
               else
                 (case open_stream (tl_handle l) of
                    Inl e \<Rightarrow> fail_closed (IngTunnel e) None
                  | Inr _ \<Rightarrow>
                      (case write_end of
                         Some (e, k) \<Rightarrow> fail_closed (IngTunnel (TunIo e)) (Some (tl_handle l, take k (ch_raw peek)))
                       | None \<Rightarrow>
                           \<lparr>ig_result = Inr (), ig_reset = False,
                            ig_stream = Some (tl_handle l, ch_raw peek @ copy_up socket')\<rparr>))))"

section \<open>Runs of the adapter\<close>

text \<open>Control connections with any bytes, their guards dropped at any time, and any effect of other
  handshakes on the nonce registry.\<close>

inductive adapter_reach :: "'k identity_api \<Rightarrow> 'h adapter_server \<Rightarrow> bool" for ia where
  ad_start: "adapter_reach ia adapter_new"
| ad_accept: "adapter_reach ia ad \<Longrightarrow> accept_box_connection ia others nonce h ad socket = (r, ad') \<Longrightarrow>
     adapter_reach ia ad'"
| ad_drop: "adapter_reach ia ad \<Longrightarrow> adapter_reach ia (ad\<lparr>ad_registry := guard_drop (ad_registry ad) g\<rparr>)"

text \<open>A key has proven a name: it signed the name with some challenge nonce.\<close>

definition proven :: "'k identity_api \<Rightarrow> bytes \<Rightarrow> string \<Rightarrow> bool" where
  "proven ia ik name \<longleftrightarrow>
     (\<exists>nonce sig. ia_verify ia ik TUNNEL_AUTH_DS (signing_preimage nonce name) sig = Inr ())"

lemma accept_ok:
  assumes "accept_box_connection ia others nonce h ad socket = (Inr g, ad')"
  shows "\<exists>a :: authenticated_registration. proven ia (ar_authenticated_ik a) (rg_name (ar_registration a))
    \<and> registration_ok (ar_registration a)
    \<and> register (ad_registry ad) (ar_registration a) (ar_authenticated_ik a) h = Inr (g, ad_registry ad')"
proof -
  obtain r s' st' where auth: "authenticate_box_connection ia others nonce socket (ad_nonces ad) = (r, s', st')"
    by (metis prod_cases3)
  with assms obtain a where r: "r = Inr a" by (cases r) (auto simp: accept_box_connection_def)
  have "register (ad_registry ad) (ar_registration a) (ar_authenticated_ik a) h = Inr (g, ad_registry ad')"
    using assms auth r by (auto simp: accept_box_connection_def split: sum.splits)
  moreover have "proven ia (ar_authenticated_ik a) (rg_name (ar_registration a))"
      "registration_ok (ar_registration a)"
    using authenticate_ok [OF auth [unfolded r]] by (auto simp: proven_def)
  ultimately show ?thesis by blast
qed

lemma accept_refused:
  "accept_box_connection ia others nonce h ad socket = (Inl e, ad') \<Longrightarrow> ad_registry ad' = ad_registry ad"
  by (auto simp: accept_box_connection_def split: prod.splits sum.splits)

lemma adapter_reach_proven:
  "adapter_reach ia ad \<Longrightarrow> rs_tunnels (ad_registry ad) n = Some t \<Longrightarrow> proven ia (rt_owner_ik t) n"
proof (induction arbitrary: t rule: adapter_reach.induct)
  case ad_start
  then show ?case by (simp add: adapter_new_def registry_new_def)
next
  case (ad_accept ad others nonce h socket r ad')
  show ?case
  proof (cases r)
    case (Inl e)
    with ad_accept accept_refused show ?thesis by metis
  next
    case (Inr g)
    with ad_accept obtain a :: authenticated_registration where "proven ia (ar_authenticated_ik a) (rg_name (ar_registration a))"
      "register (ad_registry ad) (ar_registration a) (ar_authenticated_ik a) h = Inr (g, ad_registry ad')"
      using accept_ok [of ia others nonce h ad socket g ad'] by blast
    with ad_accept.prems ad_accept.IH [of t] register_tunnels show ?thesis
      by (fastforce split: if_splits)
  qed
next
  case (ad_drop ad g)
  then show ?case by (auto simp: guard_drop_def deregister_def split: option.splits if_splits)
qed

lemma ingress_stream:
  assumes "ig_stream (handle_ingress_connection open_stream write_end copy_up ad socket service_id) = Some (h, bs)"
  shows "\<exists>peek left t. peek_client_hello socket = (Inr peek, left)
    \<and> rs_tunnels (ad_registry ad) (to_ascii_lowercase (ch_server_name peek)) = Some t
    \<and> rt_handle t = h \<and> service_id \<in> rt_allowed_services t
    \<and> (bs = ch_raw peek @ copy_up left \<or> (\<exists>k. bs = take k (ch_raw peek)))"
  using assms
  by (auto simp: handle_ingress_connection_def fail_closed_def lookup_def service_allowed_def
      split: prod.splits sum.splits option.splits if_splits)

section \<open>Properties\<close>

text \<open>Ingress fails closed. Every failure, from a missing or malformed SNI to an unregistered name, a
  service outside the tunnel's allow-list or a tunnel error, resets the client's socket, and success
  does not; the first three never touch any tunnel, and an ingress that reports success opened a
  stream.\<close>

theorem ingress_fails_closed:
  "let out = handle_ingress_connection open_stream write_end copy_up ad socket service_id in
     ig_reset out = (case ig_result out of Inl _ \<Rightarrow> True | Inr _ \<Rightarrow> False)
     \<and> (case ig_result out of
          Inl (IngTunnel e) \<Rightarrow> True
        | Inl _ \<Rightarrow> ig_stream out = None
        | Inr _ \<Rightarrow> ig_stream out \<noteq> None)"
  by (auto simp: handle_ingress_connection_def fail_closed_def Let_def
      split: prod.splits sum.splits option.splits if_splits)

text \<open>C1: what reaches a box, end to end. In every state the adapter can reach, whatever boxes and clients
  send, bytes put on a tunnel stream go to the tunnel registered for the ClientHello's server name
  (lower-cased), whose owner key has signed that very name in a challenge handshake and whose declared
  services include the listener's; and they are the client's own bytes from the first one on, nothing
  inserted, dropped or reordered. The copy loop is assumed to move a prefix of what the client sends.\<close>

theorem ingress_reaches_proven_box:
  assumes "adapter_reach ia ad"
    and "\<And>left. prefix (copy_up left) (delivered left)"
    and "list_all (\<lambda>r. \<forall>b. r = Inr b \<longrightarrow> length b \<le> 1024) socket"
    and "ig_stream (handle_ingress_connection open_stream write_end copy_up ad socket service_id) = Some (h, bs)"
  shows "\<exists>name t. rs_tunnels (ad_registry ad) (to_ascii_lowercase name) = Some t \<and> rt_handle t = h
    \<and> proven ia (rt_owner_ik t) (to_ascii_lowercase name) \<and> service_id \<in> rt_allowed_services t
    \<and> prefix bs (delivered socket)
    \<and> (\<exists>raw. try_parse raw = Inr (Complete name) \<and> prefix raw (delivered socket))"
proof -
  obtain peek left t where i: "peek_client_hello socket = (Inr peek, left)"
      "rs_tunnels (ad_registry ad) (to_ascii_lowercase (ch_server_name peek)) = Some t"
      "rt_handle t = h" "service_id \<in> rt_allowed_services t"
      "bs = ch_raw peek @ copy_up left \<or> (\<exists>k. bs = take k (ch_raw peek))"
    using ingress_stream [OF assms(4)] by blast
  from peek_loop_sound [of "[]" socket peek left] i(1) assms(3)
  obtain used where u: "try_parse (ch_raw peek) = Inr (Complete (ch_server_name peek))"
      "socket = used @ left" "ch_raw peek = delivered used" "list_all (\<lambda>r. \<exists>b. r = Inr b) used"
    by (auto simp: peek_client_hello_def MAX_CLIENT_HELLO_BYTES_def)
  have "delivered socket = ch_raw peek @ delivered left"
    unfolding u(2,3) using u(4) by (induction used) auto
  then have "prefix bs (delivered socket)" "prefix (ch_raw peek) (delivered socket)"
    using i(5) assms(2) [of left] by (auto simp: take_is_prefix prefix_prefix)
  with i u adapter_reach_proven [OF assms(1) i(2)] show ?thesis by blast
qed

theorem ingress_reaches_proven_box_witness:
  "\<exists>(ad :: nat adapter_server) bs name t. adapter_reach sized_identity ad
     \<and> ig_stream (handle_ingress_connection (\<lambda>_. Inr ()) None (\<lambda>_. []) ad [Inr (encode_hello demo_hello)] ''443'')
         = Some (5, bs)
     \<and> rs_tunnels (ad_registry ad) (to_ascii_lowercase name) = Some t
     \<and> proven sized_identity (rt_owner_ik t) (to_ascii_lowercase name)"
proof -
  let ?n = "replicate 32 9"
  have sz: "ia_public sized_identity 5 = replicate 32 5" "length (ia_public sized_identity 5) = IK_LEN"
      "length (ia_sign sized_identity 5 TUNNEL_AUTH_DS body) = SIG_LEN" for body
    by (simp_all add: sized_identity_def IK_LEN_def SIG_LEN_def)
  have "?n \<in> ns_pending (id (nonce_issue nonces_new ?n))" using nonces.issue_live by simp
  then obtain s s' st' where auth: "authenticate_box_connection sized_identity id ?n s nonces_new
       = (Inr \<lparr>ar_registration = demo_box_reg, ar_authenticated_ik = replicate 32 5\<rparr>, s', st')"
    using honest_handshake [OF sized_identity_laws sz(2,3) demo_box_reg_ok, of "[''443'']" "?n" id nonces_new "[]"]
    by (auto simp: demo_box_reg_def NONCE_LEN_def sz)
  obtain r and ad :: "nat adapter_server" where
      acc: "accept_box_connection sized_identity id ?n 5 adapter_new s = (r, ad)"
    by (cases "accept_box_connection sized_identity id ?n (5 :: nat) adapter_new s") auto
  then have reg: "lookup (ad_registry ad) ''a.b'' = Some \<lparr>tl_handle = 5, tl_allowed_services = {''443''}\<rparr>"
    using auth by (auto simp: accept_box_connection_def adapter_new_def register_cases registry_new_def
        demo_box_reg_def lookup_def to_ascii_lowercase_def ascii_lower_def)
  have reach: "adapter_reach sized_identity ad"
    by (rule adapter_reach.ad_accept [OF adapter_reach.ad_start acc])
  have "encode_hello demo_hello \<noteq> []" by (simp add: encode_hello_def)
  then have "peek_client_hello [Inr (encode_hello demo_hello)]
      = (Inr \<lparr>ch_server_name = ''a.b'', ch_raw = encode_hello demo_hello\<rparr>, [])"
    using try_parse_complete_hello [OF demo_hello_ok(1)]
    by (simp add: peek_client_hello_def peek_loop.simps try_parse_def [of "[]"] MAX_CLIENT_HELLO_BYTES_def)
      (simp add: demo_hello_def)
  with reg have st: "ig_stream (handle_ingress_connection (\<lambda>_. Inr ()) None (\<lambda>_. []) ad
      [Inr (encode_hello demo_hello)] ''443'') = Some (5, encode_hello demo_hello)"
    by (simp add: handle_ingress_connection_def service_allowed_def)
  obtain name t where "rs_tunnels (ad_registry ad) (to_ascii_lowercase name) = Some t"
      "proven sized_identity (rt_owner_ik t) (to_ascii_lowercase name)"
    using ingress_reaches_proven_box [OF reach _ _ st] by (auto simp: demo_hello_ok)
  with reach st show ?thesis by blast
qed

end
