(* ===== verification/Gw_Admission.thy ===== *)
theory Gw_Admission
  imports Single_Use Descriptor
begin

text \<open>
  Gateway admission and quotas, \<open>crates/gateway/src/authz.rs\<close> lines 40 to 571: the challenge ledger and
  \<open>admit\<close>, domain authorization, and the quota ledger. \<open>verify_domain\<close> is \<open>ia_verify\<close>, the content digest
  and the meter's message digest are arguments. \<open>admit\<close> takes the nonce lock twice, once to look and once
  to consume; \<open>others\<close> is what concurrent calls did to the ledger in between.
\<close>

datatype authz_mode = OpenPublic | KeyRegistered

datatype gateway_mode = GmPrivate | RegisteredClientsOnly | GmPublic

definition gateway_mode_parse :: "string \<Rightarrow> gateway_mode option" where
  "gateway_mode_parse v =
     (let s = map (\<lambda>c. if c = CHR ''_'' then CHR ''-'' else c) (to_ascii_lowercase (trim v)) in
      if s \<in> set [''private'', ''single'', ''operator''] then Some GmPrivate
      else if s \<in> set [''registered-clients-only'', ''registered-clients'', ''registered'', ''clients'']
      then Some RegisteredClientsOnly
      else if s \<in> set [''public'', ''open'', ''open-registration''] then Some GmPublic
      else None)"

fun gateway_mode_label :: "gateway_mode \<Rightarrow> string" where
  "gateway_mode_label GmPrivate = ''private''"
| "gateway_mode_label RegisteredClientsOnly = ''registered-clients-only''"
| "gateway_mode_label GmPublic = ''public''"

definition is_zero_third_party :: "gateway_mode \<Rightarrow> bool" where
  "is_zero_third_party m = (m = GmPrivate)"

definition ADMISSION_DS :: bytes where
  "ADMISSION_DS = as_bytes ''DMTAP-v0/gateway-admission'' @ [0]"

record challenge =
  cg_nonce :: bytes
  cg_issued_at :: u64

definition be64 :: "u64 \<Rightarrow> bytes" where
  "be64 w = map (\<lambda>i. of_nat (unat w div 256 ^ (7 - i))) [0..<8]"

definition challenge_signing_body :: "challenge \<Rightarrow> bytes" where
  "challenge_signing_body c = cg_nonce c @ be64 (cg_issued_at c)"

record quota =
  qt_free_messages :: u64
  qt_hard_cap_messages :: u64
  qt_free_bytes :: u64
  qt_hard_cap_bytes :: u64

record registered_identity =
  ri_public_key :: bytes
  ri_account :: string
  ri_domain :: string
  ri_quota :: quota

record admission =
  ad_account :: string
  ad_domain :: string
  ad_public_key :: bytes

datatype admission_error =
    ChallengeExpired
  | AdBadSignature
  | UnknownKey
  | UnknownOrConsumedChallenge

type_synonym nonce_ledger = "bytes \<rightharpoonup> u64"

record identity_registry =
  ir_mode :: authz_mode
  ir_challenge_ttl_ms :: u64
  ir_entries :: "registered_identity list"
  ir_issued_nonces :: nonce_ledger

section \<open>The identity registry\<close>

definition registry_key_registered :: identity_registry where
  "registry_key_registered = \<lparr>ir_mode = KeyRegistered, ir_challenge_ttl_ms = 300000, ir_entries = [],
     ir_issued_nonces = Map.empty\<rparr>"

definition registry_open_public :: identity_registry where
  "registry_open_public = \<lparr>ir_mode = OpenPublic, ir_challenge_ttl_ms = 300000, ir_entries = [],
     ir_issued_nonces = Map.empty\<rparr>"

definition with_challenge_ttl :: "u64 \<Rightarrow> identity_registry \<Rightarrow> identity_registry" where
  "with_challenge_ttl ttl r = r\<lparr>ir_challenge_ttl_ms := ttl\<rparr>"

definition register_identity :: "registered_identity \<Rightarrow> identity_registry \<Rightarrow> identity_registry" where
  "register_identity identity r =
     r\<lparr>ir_entries := filter (\<lambda>e. ri_public_key e \<noteq> ri_public_key identity) (ir_entries r) @ [identity]\<rparr>"

definition identity_for_key :: "identity_registry \<Rightarrow> bytes \<Rightarrow> registered_identity option" where
  "identity_for_key r public_key = find (\<lambda>e. ri_public_key e = public_key) (ir_entries r)"

definition identity_for_domain :: "identity_registry \<Rightarrow> string \<Rightarrow> registered_identity option" where
  "identity_for_domain r domain = find (\<lambda>e. eq_ignore_ascii_case (ri_domain e) domain) (ir_entries r)"

definition issue_nonce :: "u64 \<Rightarrow> nonce_ledger \<Rightarrow> bytes \<times> u64 \<Rightarrow> nonce_ledger" where
  "issue_nonce ttl issued c =
     (let (nonce, issued_at) = c;
          cutoff = sat_sub issued_at ttl;
          kept = (\<lambda>n. case issued n of Some t \<Rightarrow> if t \<ge> cutoff then Some t else None | None \<Rightarrow> None)
      in kept(nonce \<mapsto> issued_at))"

definition issue_challenge :: "identity_registry \<Rightarrow> bytes \<Rightarrow> u64 \<Rightarrow> challenge \<times> identity_registry" where
  "issue_challenge r nonce issued_at =
     (\<lparr>cg_nonce = nonce, cg_issued_at = issued_at\<rparr>,
      r\<lparr>ir_issued_nonces := issue_nonce (ir_challenge_ttl_ms r) (ir_issued_nonces r) (nonce, issued_at)\<rparr>)"

definition peek_issued_at :: "nonce_ledger \<Rightarrow> bytes \<Rightarrow> u64 option" where
  "peek_issued_at issued nonce = issued nonce"

definition consume_nonce :: "nonce_ledger \<Rightarrow> bytes \<Rightarrow> u64 \<Rightarrow> (admission_error + u64) \<times> nonce_ledger" where
  "consume_nonce issued nonce presented_issued_at =
     (case issued nonce of
        Some stored \<Rightarrow>
          if stored = presented_issued_at then (Inr stored, issued(nonce := None))
          else (Inl UnknownOrConsumedChallenge, issued)
      | None \<Rightarrow> (Inl UnknownOrConsumedChallenge, issued))"

definition admission_for :: "(bytes \<Rightarrow> string) \<Rightarrow> identity_registry \<Rightarrow> bytes \<Rightarrow> admission_error + admission" where
  "admission_for key_fingerprint r presented_key =
     (case ir_mode r of
        KeyRegistered \<Rightarrow>
          (case identity_for_key r presented_key of
             Some ident \<Rightarrow> Inr \<lparr>ad_account = ri_account ident, ad_domain = ri_domain ident, ad_public_key = presented_key\<rparr>
           | None \<Rightarrow> Inl UnknownKey)
      | OpenPublic \<Rightarrow>
          (case identity_for_key r presented_key of
             Some ident \<Rightarrow> Inr \<lparr>ad_account = ri_account ident, ad_domain = ri_domain ident, ad_public_key = presented_key\<rparr>
           | None \<Rightarrow> Inr \<lparr>ad_account = ''anon:'' @ key_fingerprint presented_key, ad_domain = [],
                         ad_public_key = presented_key\<rparr>))"

definition admit :: "'k identity_api \<Rightarrow> (bytes \<Rightarrow> string) \<Rightarrow> (nonce_ledger \<Rightarrow> nonce_ledger) \<Rightarrow> identity_registry
    \<Rightarrow> challenge \<Rightarrow> bytes \<Rightarrow> bytes \<Rightarrow> u64 \<Rightarrow> (admission_error + admission) \<times> identity_registry" where
  "admit ia key_fingerprint others r c presented_key sig now =
     (let effective_issued_at =
            (case peek_issued_at (ir_issued_nonces r) (cg_nonce c) of Some t \<Rightarrow> t | None \<Rightarrow> cg_issued_at c) in
      if now < effective_issued_at \<or> sat_sub now effective_issued_at > ir_challenge_ttl_ms r
      then (Inl ChallengeExpired, r)
      else
        (case ia_verify ia presented_key ADMISSION_DS (challenge_signing_body c) sig of
           Inl _ \<Rightarrow> (Inl AdBadSignature, r)
         | Inr _ \<Rightarrow>
             (case admission_for key_fingerprint r presented_key of
                Inl e \<Rightarrow> (Inl e, r)
              | Inr adm \<Rightarrow>
                  (let (consumed, issued') = consume_nonce (others (ir_issued_nonces r)) (cg_nonce c) (cg_issued_at c);
                       r' = r\<lparr>ir_issued_nonces := issued'\<rparr>
                   in case consumed of Inl e \<Rightarrow> (Inl e, r') | Inr _ \<Rightarrow> (Inr adm, r')))))"

datatype authz_decision = AzAllowed string | AzDenied string

definition authorize_domain :: "identity_registry \<Rightarrow> string \<Rightarrow> authz_decision" where
  "authorize_domain r domain =
     (case ir_mode r of
        OpenPublic \<Rightarrow> AzAllowed (''public:'' @ domain)
      | KeyRegistered \<Rightarrow>
          (case identity_for_domain r domain of
             Some ident \<Rightarrow> AzAllowed (ri_account ident)
           | None \<Rightarrow> AzDenied (''domain '' @ domain @ '' is not registered with this gateway'')))"

section \<open>The challenge ledger as single-use tokens\<close>

text \<open>A token is a nonce with its issue time.\<close>

definition redeem_nonce :: "nonce_ledger \<Rightarrow> bytes \<times> u64 \<Rightarrow> bool \<times> nonce_ledger" where
  "redeem_nonce issued c =
     (case consume_nonce issued (fst c) (snd c) of (r, issued') \<Rightarrow> (is_ok r, issued'))"

definition live_nonces :: "nonce_ledger \<Rightarrow> (bytes \<times> u64) set" where
  "live_nonces issued = {(n, t). issued n = Some t}"

interpretation challenges: single_use "issue_nonce ttl" redeem_nonce live_nonces
  by unfold_locales
    (auto simp: issue_nonce_def redeem_nonce_def consume_nonce_def live_nonces_def Let_def is_ok_def
      split: option.splits if_splits)

fun ledger_run :: "u64 \<Rightarrow> nonce_ledger \<Rightarrow> (bytes \<times> u64) token_op list \<Rightarrow> nonce_ledger" where
  "ledger_run ttl issued [] = issued"
| "ledger_run ttl issued (Issue c # ops) = ledger_run ttl (issue_nonce ttl issued c) ops"
| "ledger_run ttl issued (Redeem c # ops) = ledger_run ttl (snd (redeem_nonce issued c)) ops"

lemma ledger_run_dead:
  "c \<notin> live_nonces issued \<Longrightarrow> Issue c \<notin> set ops \<Longrightarrow> c \<notin> live_nonces (ledger_run ttl issued ops)"
proof (induction ttl issued ops rule: ledger_run.induct)
  case (2 ttl issued d ops)
  then show ?case using challenges.issue_adds [of ttl issued d] by auto
next
  case (3 ttl issued d ops)
  then show ?case using challenges.redeem_removes [of issued d] by auto
qed simp

lemma admit_ok:
  assumes "admit ia kf others r c key sig now = (Inr a, r')"
  shows "ia_verify ia key ADMISSION_DS (challenge_signing_body c) sig = Inr ()"
    and "admission_for kf r key = Inr a"
    and "(cg_nonce c, cg_issued_at c) \<in> live_nonces (others (ir_issued_nonces r))"
    and "ir_issued_nonces r' = (others (ir_issued_nonces r))(cg_nonce c := None)"
    and "let t = (case ir_issued_nonces r (cg_nonce c) of Some t \<Rightarrow> t | None \<Rightarrow> cg_issued_at c)
         in t \<le> now \<and> sat_sub now t \<le> ir_challenge_ttl_ms r"
  using assms
  by (auto simp: admit_def Let_def consume_nonce_def live_nonces_def peek_issued_at_def
      split: if_splits sum.splits option.splits prod.splits)

section \<open>Quotas\<close>

record usage =
  us_messages :: u64
  us_bytes :: u64

datatype quota_error =
    QUnregistered string
  | MessageCapExceeded string u64
  | VolumeCapExceeded string u64

record quota_ledger =
  ql_limits :: "string \<rightharpoonup> quota"
  ql_usage :: "string \<rightharpoonup> usage"

definition quota_messages :: "u64 \<Rightarrow> u64 \<Rightarrow> quota" where
  "quota_messages free cap = \<lparr>qt_free_messages = free, qt_hard_cap_messages = cap, qt_free_bytes = 0, qt_hard_cap_bytes = 0\<rparr>"

definition over_free_allowance :: "usage \<Rightarrow> quota \<Rightarrow> bool" where
  "over_free_allowance u q \<longleftrightarrow>
     us_messages u > qt_free_messages q \<or> (qt_free_bytes q \<noteq> 0 \<and> us_bytes u > qt_free_bytes q)"

definition quota_ledger_new :: quota_ledger where
  "quota_ledger_new = \<lparr>ql_limits = Map.empty, ql_usage = Map.empty\<rparr>"

definition upsert_quota :: "string \<Rightarrow> quota \<Rightarrow> quota_ledger \<Rightarrow> quota_ledger" where
  "upsert_quota account q l = l\<lparr>ql_limits := (ql_limits l)(account \<mapsto> q)\<rparr>"

definition usage_default :: usage where
  "usage_default = \<lparr>us_messages = 0, us_bytes = 0\<rparr>"

definition usage_of :: "quota_ledger \<Rightarrow> string \<Rightarrow> usage" where
  "usage_of l account = get_or usage_default (ql_usage l) account"

definition try_charge :: "quota_ledger \<Rightarrow> string \<Rightarrow> u64 \<Rightarrow> (quota_error + usage) \<times> quota_ledger" where
  "try_charge l account msg_bytes =
     (case ql_limits l account of
        None \<Rightarrow> (Inl (QUnregistered account), l)
      | Some quota \<Rightarrow>
          (let cur = get_or usage_default (ql_usage l) account;
               l1 = l\<lparr>ql_usage := (ql_usage l)(account \<mapsto> cur)\<rparr>;
               next_messages = sat_add (us_messages cur) 1 in
           if qt_hard_cap_messages quota \<noteq> 0 \<and> next_messages > qt_hard_cap_messages quota
           then (Inl (MessageCapExceeded account (qt_hard_cap_messages quota)), l1)
           else
             (let next_bytes = sat_add (us_bytes cur) msg_bytes in
              if qt_hard_cap_bytes quota \<noteq> 0 \<and> next_bytes > qt_hard_cap_bytes quota
              then (Inl (VolumeCapExceeded account (qt_hard_cap_bytes quota)), l1)
              else
                (let u = \<lparr>us_messages = next_messages, us_bytes = next_bytes\<rparr>
                 in (Inr u, l1\<lparr>ql_usage := (ql_usage l1)(account \<mapsto> u)\<rparr>)))))"

datatype bridge_direction = Inbound | Outbound

record meter_event =
  me_direction :: bridge_direction
  me_account :: string
  me_domain :: string
  me_msg_digest :: bytes
  me_at :: u64

definition charge_and_meter :: "(bytes \<Rightarrow> bytes) \<Rightarrow> quota_ledger \<Rightarrow> string \<Rightarrow> string \<Rightarrow> bridge_direction \<Rightarrow> bytes \<Rightarrow> u64
    \<Rightarrow> (quota_error + usage) \<times> quota_ledger \<times> meter_event list" where
  "charge_and_meter msg_digest l account domain direction rfc5322 at =
     (case try_charge l account (of_nat (length rfc5322)) of
        (Inl e, l') \<Rightarrow> (Inl e, l', [])
      | (Inr u, l') \<Rightarrow> (Inr u, l', [\<lparr>me_direction = direction, me_account = account, me_domain = domain,
                                       me_msg_digest = msg_digest rfc5322, me_at = at\<rparr>]))"

text \<open>Charge a sequence of messages; collect the sizes accepted for each account.\<close>

fun charge_run :: "quota_ledger \<Rightarrow> (string \<times> u64) list \<Rightarrow> (string \<times> u64) list \<times> quota_ledger" where
  "charge_run l [] = ([], l)"
| "charge_run l ((a, n) # ms) =
     (let (r, l') = try_charge l a n; (acc, l'') = charge_run l' ms
      in (if is_ok r then (a, n) # acc else acc, l''))"

lemma try_charge_limits: "ql_limits (snd (try_charge l a n)) = ql_limits l"
  by (auto simp: try_charge_def Let_def split: option.splits)

lemma try_charge_usage:
  "usage_of (snd (try_charge l a n)) b =
     (if b = a \<and> is_ok (fst (try_charge l a n))
      then \<lparr>us_messages = sat_add (us_messages (usage_of l a)) 1, us_bytes = sat_add (us_bytes (usage_of l a)) n\<rparr>
      else usage_of l b)"
  by (auto simp: try_charge_def Let_def usage_of_def is_ok_def split: option.splits)

lemma charge_run_usage:
  "us_messages (usage_of (snd (charge_run l ms)) a) =
     foldl (\<lambda>m _. sat_add m 1) (us_messages (usage_of l a)) (filter (\<lambda>m. fst m = a) (fst (charge_run l ms)))
   \<and> us_bytes (usage_of (snd (charge_run l ms)) a) =
     foldl (\<lambda>b m. sat_add b (snd m)) (us_bytes (usage_of l a)) (filter (\<lambda>m. fst m = a) (fst (charge_run l ms)))"
proof (induction ms arbitrary: l)
  case (Cons m ms)
  obtain b n where m: "m = (b, n)" by (cases m)
  show ?case
    using Cons [of "snd (try_charge l b n)"] by (auto simp: m case_prod_unfold Let_def try_charge_usage)
qed simp

lemma try_charge_caps:
  assumes "ql_limits l a = Some q"
    and "qt_hard_cap_messages q = 0 \<or> us_messages (usage_of l a) \<le> qt_hard_cap_messages q"
    and "qt_hard_cap_bytes q = 0 \<or> us_bytes (usage_of l a) \<le> qt_hard_cap_bytes q"
  shows "(qt_hard_cap_messages q = 0 \<or> us_messages (usage_of (snd (try_charge l b n)) a) \<le> qt_hard_cap_messages q)
    \<and> (qt_hard_cap_bytes q = 0 \<or> us_bytes (usage_of (snd (try_charge l b n)) a) \<le> qt_hard_cap_bytes q)"
  using assms by (auto simp: try_charge_def Let_def usage_of_def split: option.splits)

lemma charge_run_caps:
  assumes "ql_limits l a = Some q"
    and "qt_hard_cap_messages q = 0 \<or> us_messages (usage_of l a) \<le> qt_hard_cap_messages q"
    and "qt_hard_cap_bytes q = 0 \<or> us_bytes (usage_of l a) \<le> qt_hard_cap_bytes q"
  shows "(qt_hard_cap_messages q = 0 \<or> us_messages (usage_of (snd (charge_run l ms)) a) \<le> qt_hard_cap_messages q)
    \<and> (qt_hard_cap_bytes q = 0 \<or> us_bytes (usage_of (snd (charge_run l ms)) a) \<le> qt_hard_cap_bytes q)"
  using assms
proof (induction ms arbitrary: l)
  case (Cons m ms)
  obtain b n where m: "m = (b, n)" by (cases m)
  have "ql_limits (snd (try_charge l b n)) a = Some q" by (simp add: try_charge_limits Cons.prems(1))
  with try_charge_caps [OF Cons.prems, of b n] Cons.IH [of "snd (try_charge l b n)"] show ?case
    by (simp add: m case_prod_unfold Let_def)
qed simp

lemma foldl_sat_count: "unat (foldl (\<lambda>m _. sat_add m 1) (k :: u64) xs) = min (unat k + length xs) (2 ^ 64 - 1)"
proof (induction xs arbitrary: k)
  case Nil
  show ?case using unat_le_max [of k] by simp
next
  case (Cons x xs)
  show ?case by (simp add: Cons unat_sat_add)
qed

lemma foldl_sat_sum:
  "unat (foldl (\<lambda>b m. sat_add b (snd m)) (k :: u64) xs) = min (unat k + (\<Sum>m \<leftarrow> xs. unat (snd m))) (2 ^ 64 - 1)"
proof (induction xs arbitrary: k)
  case Nil
  show ?case using unat_le_max [of k] by simp
next
  case (Cons x xs)
  show ?case by (simp add: Cons unat_sat_add add.assoc)
qed

section \<open>Properties\<close>

text \<open>What an admission needs: a challenge within its lifetime by the ledger's own time, and a key that is
  registered where the gateway asks for it.\<close>

definition in_time :: "identity_registry \<Rightarrow> challenge \<Rightarrow> u64 \<Rightarrow> bool" where
  "in_time r c now \<longleftrightarrow>
     (let t = (case ir_issued_nonces r (cg_nonce c) of Some t \<Rightarrow> t | None \<Rightarrow> cg_issued_at c)
      in unat t \<le> unat now \<and> unat now - unat t \<le> unat (ir_challenge_ttl_ms r))"

definition key_welcome :: "identity_registry \<Rightarrow> bytes \<Rightarrow> bool" where
  "key_welcome r key \<longleftrightarrow> ir_mode r = OpenPublic \<or> (\<exists>e \<in> set (ir_entries r). ri_public_key e = key)"

lemma in_time_iff:
  "now < t \<or> sat_sub now t > ttl \<longleftrightarrow> \<not> (unat t \<le> unat now \<and> unat now - unat t \<le> unat ttl)"
  by (auto simp: word_less_nat_alt unat_sat_sub)

lemma key_known: "identity_for_key r key = None \<longleftrightarrow> \<not> (\<exists>e \<in> set (ir_entries r). ri_public_key e = key)"
  by (auto simp: identity_for_key_def find_None_iff)

lemma admission_for_Inl: "admission_for kf r key = Inl e \<longleftrightarrow> e = UnknownKey \<and> \<not> key_welcome r key"
  using key_known [of r key]
  by (cases "ir_mode r"; cases "identity_for_key r key") (auto simp: admission_for_def key_welcome_def)

lemma admission_for_Inr: "admission_for kf r key = Inr a \<Longrightarrow> key_welcome r key"
  using admission_for_Inl [of kf r key UnknownKey] by auto

text \<open>C34: what admission decides, on every outcome. A sender is admitted only if the presented key's signature
  over the challenge verifies, the key is registered or the gateway is open, the ledger held exactly
  this challenge when it was consumed, and the challenge was within its lifetime by the ledger's own time. A
  refusal names the first of these that failed, in the order lifetime, signature, key, challenge, with the
  earlier ones met; the first three leave the registry as it was and the last leaves the ledger as the other calls left it,
  so a forged attempt burns nobody's challenge.\<close>

theorem admit_sound:
  "case admit ia kf others r c key sig now of
     (Inr a, r') \<Rightarrow>
        ia_verify ia key ADMISSION_DS (challenge_signing_body c) sig = Inr ()
        \<and> ad_public_key a = key
        \<and> (ir_mode r = OpenPublic \<or> (\<exists>e \<in> set (ir_entries r). ri_public_key e = key
             \<and> ad_account a = ri_account e \<and> ad_domain a = ri_domain e))
        \<and> others (ir_issued_nonces r) (cg_nonce c) = Some (cg_issued_at c)
        \<and> ir_issued_nonces r' = (others (ir_issued_nonces r))(cg_nonce c := None)
        \<and> in_time r c now
   | (Inl e, r') \<Rightarrow>
        (case e of
           ChallengeExpired \<Rightarrow> \<not> in_time r c now \<and> r' = r
         | AdBadSignature \<Rightarrow>
             in_time r c now \<and> (\<exists>x. ia_verify ia key ADMISSION_DS (challenge_signing_body c) sig = Inl x) \<and> r' = r
         | UnknownKey \<Rightarrow>
             in_time r c now \<and> ia_verify ia key ADMISSION_DS (challenge_signing_body c) sig = Inr ()
             \<and> \<not> key_welcome r key \<and> r' = r
         | UnknownOrConsumedChallenge \<Rightarrow>
             in_time r c now \<and> ia_verify ia key ADMISSION_DS (challenge_signing_body c) sig = Inr ()
             \<and> key_welcome r key \<and> others (ir_issued_nonces r) (cg_nonce c) \<noteq> Some (cg_issued_at c)
             \<and> r' = r\<lparr>ir_issued_nonces := others (ir_issued_nonces r)\<rparr>)"
proof (cases "admit ia kf others r c key sig now")
  case (Pair x r')
  show ?thesis
  proof (cases x)
    case (Inl e)
    with Pair show ?thesis
      by (auto simp: admit_def Let_def consume_nonce_def in_time_def peek_issued_at_def in_time_iff
          admission_for_Inl dest: admission_for_Inr split: if_splits sum.splits option.splits prod.splits)
  next
    case (Inr a)
    note ok = admit_ok [OF Pair [unfolded Inr]]
    have "ad_public_key a = key" using ok(2)
      by (auto simp: admission_for_def split: option.splits authz_mode.splits)
    moreover have "ir_mode r = OpenPublic \<or> (\<exists>e \<in> set (ir_entries r). ri_public_key e = key
             \<and> ad_account a = ri_account e \<and> ad_domain a = ri_domain e)"
      using ok(2) by (auto simp: admission_for_def identity_for_key_def find_Some_iff
          split: option.splits authz_mode.splits)
    ultimately show ?thesis
      using ok(1,3,4,5) Pair Inr
      by (simp add: live_nonces_def Let_def in_time_def word_le_nat_alt unat_sat_sub)
  qed
qed

text \<open>A challenge admits at most once. After an admission, whatever sequence of challenges is issued
  and consumed by anyone short of issuing the same nonce and time again, no later admission with that
  challenge succeeds, under any key, signature and clock.\<close>

theorem challenge_admits_once:
  assumes "admit ia kf others r c key sig now = (Inr a, r')"
    and "Issue (cg_nonce c, cg_issued_at c) \<notin> set ops"
  shows "fst (admit ia kf (\<lambda>l. ledger_run ttl l ops) r' c key2 sig2 now2) \<noteq> Inr a2"
proof
  assume "fst (admit ia kf (\<lambda>l. ledger_run ttl l ops) r' c key2 sig2 now2) = Inr a2"
  then obtain r2 where "admit ia kf (\<lambda>l. ledger_run ttl l ops) r' c key2 sig2 now2 = (Inr a2, r2)"
    by (metis prod.collapse)
  from admit_ok(3) [OF this]
  have "(cg_nonce c, cg_issued_at c) \<in> live_nonces (ledger_run ttl (ir_issued_nonces r') ops)" .
  moreover have "(cg_nonce c, cg_issued_at c) \<notin> live_nonces (ir_issued_nonces r')"
    by (simp add: admit_ok(4) [OF assms(1)] live_nonces_def)
  ultimately show False using ledger_run_dead assms(2) by blast
qed

definition demo_gate :: identity_registry where
  "demo_gate = snd (issue_challenge registry_open_public [7] 1000)"

theorem challenge_admits_once_witness:
  "\<exists>a r'. admit tag_identity (\<lambda>_. ''f'') id demo_gate \<lparr>cg_nonce = [7], cg_issued_at = 1000\<rparr> [3]
       (3 # ADMISSION_DS @ challenge_signing_body \<lparr>cg_nonce = [7], cg_issued_at = 1000\<rparr>) 1500 = (Inr a, r')
     \<and> fst (admit tag_identity (\<lambda>_. ''f'') (\<lambda>l. ledger_run 300000 l [Issue ([8], 1200)]) r'
         \<lparr>cg_nonce = [7], cg_issued_at = 1000\<rparr> [3] [] 1600) \<noteq> Inr a"
proof -
  let ?c = "\<lparr>cg_nonce = [7], cg_issued_at = 1000\<rparr>"
  have "admit tag_identity (\<lambda>_. ''f'') id demo_gate ?c [3] (3 # ADMISSION_DS @ challenge_signing_body ?c) 1500
      = (Inr \<lparr>ad_account = ''anon:f'', ad_domain = [], ad_public_key = [3]\<rparr>,
         demo_gate\<lparr>ir_issued_nonces := (ir_issued_nonces demo_gate)([7] := None)\<rparr>)" (is "?l = ?r")
    by (simp add: admit_def demo_gate_def issue_challenge_def issue_nonce_def registry_open_public_def
        peek_issued_at_def Let_def sat_sub_def tag_identity_def admission_for_def identity_for_key_def
        consume_nonce_def)
  from this challenge_admits_once [OF this, of "[Issue ([8], 1200)]" 300000 "[3]" "[]" 1600]
  show ?thesis by auto
qed

text \<open>Quotas are hard. Over any sequence of charges by any accounts, an account's recorded usage is
  exactly the number and the total size of its accepted messages (saturating at \<open>u64::MAX\<close>), and neither
  ever exceeds its cap, a cap of zero meaning none.\<close>

theorem quota_caps_hold:
  assumes "ql_limits l a = Some q" and "ql_usage l a = None"
  shows "let (acc, l') = charge_run l ms; sizes = map snd (filter (\<lambda>m. fst m = a) acc); u = usage_of l' a in
     unat (us_messages u) = min (length sizes) (2 ^ 64 - 1)
     \<and> unat (us_bytes u) = min (sum_list (map unat sizes)) (2 ^ 64 - 1)
     \<and> (qt_hard_cap_messages q = 0 \<or> us_messages u \<le> qt_hard_cap_messages q)
     \<and> (qt_hard_cap_bytes q = 0 \<or> us_bytes u \<le> qt_hard_cap_bytes q)"
proof -
  have 0: "usage_of l a = \<lparr>us_messages = 0, us_bytes = 0\<rparr>"
    using assms(2) by (simp add: usage_of_def get_or_def usage_default_def)
  show ?thesis
    using charge_run_usage [of l ms a] charge_run_caps [OF assms(1), of ms]
    by (simp add: 0 case_prod_unfold Let_def foldl_sat_count foldl_sat_sum comp_def)
qed

theorem quota_caps_hold_witness:
  "us_messages (usage_of (snd (charge_run (upsert_quota ''a'' (quota_messages 0 1) quota_ledger_new)
      [(''a'', 10), (''a'', 20)])) ''a'') \<le> 1"
  using quota_caps_hold [of "upsert_quota ''a'' (quota_messages 0 1) quota_ledger_new" "''a''"
      "quota_messages 0 1" "[(''a'', 10), (''a'', 20)]"]
  by (simp add: upsert_quota_def quota_ledger_new_def quota_messages_def case_prod_unfold Let_def)

end
