(* ===== verification/Gw_Forwarded.thy ===== *)
theory Gw_Forwarded
  imports Rust_Strings Prelude
begin

text \<open>
  Forwarded gateway addresses, \<open>crates/gateway/src/forwarded_addr.rs\<close>: a native address encoded as one
  gateway local-part with a single unescaped dot, and its decoder. Pushing a byte as a \<open>char\<close> onto a
  \<open>String\<close> appends its UTF-8 encoding (\<open>push_byte\<close>).
\<close>

datatype forwarded_addr_error =
    InvalidLocal string
  | InvalidDomain string
  | TooLong nat

definition MAX_LOCALPART_LEN :: nat where
  "MAX_LOCALPART_LEN = 64"

definition push_byte :: "char \<Rightarrow> string" where
  "push_byte c = (if byte_of c < 128 then [c]
     else [char_of (192 + byte_of c div 64), char_of (128 + byte_of c mod 64)])"

fun escape_into :: "string \<Rightarrow> string" where
  "escape_into [] = []"
| "escape_into (b # s) =
     (if b = CHR ''-'' then ''--'' else if b = CHR ''.'' then ''-.'' else push_byte b) @ escape_into s"

definition is_valid_local :: "string \<Rightarrow> bool" where
  "is_valid_local lp =
     (if lp = [] \<or> length lp > MAX_LOCALPART_LEN \<or> starts_with ''.'' lp \<or> ends_with ''.'' lp \<or> contains_dotdot lp
      then False
      else list_all (\<lambda>c. is_ascii_alphanumeric c \<or> c \<in> {CHR ''.'', CHR ''-'', CHR ''_'', CHR ''+''}) lp)"

definition valid_label :: "string \<Rightarrow> bool" where
  "valid_label label \<longleftrightarrow>
     \<not> (label = [] \<or> length label > 63) \<and> \<not> (starts_with ''-'' label \<or> ends_with ''-'' label)
     \<and> list_all (\<lambda>c. is_ascii_alphanumeric c \<or> c = CHR ''-'') label"

definition is_valid_domain :: "string \<Rightarrow> bool" where
  "is_valid_domain domain =
     (if domain = [] \<or> length domain > 253 then False
      else list_all valid_label (split_on (CHR ''.'') domain) \<and> length (split_on (CHR ''.'') domain) \<ge> 1)"

definition forwarded_encode :: "string \<Rightarrow> string \<Rightarrow> forwarded_addr_error + string" where
  "forwarded_encode local0 native_domain0 =
     (let local = to_ascii_lowercase local0; native_domain = to_ascii_lowercase native_domain0 in
      if \<not> is_valid_local local then Inl (InvalidLocal local)
      else if \<not> is_valid_domain native_domain then Inl (InvalidDomain native_domain)
      else
        (let out = escape_into local @ ''.'' @ escape_into native_domain in
         if length out > MAX_LOCALPART_LEN then Inl (TooLong (length out)) else Inr out))"

fun scan_local :: "string \<Rightarrow> string \<Rightarrow> (string \<times> string) option" where
  "scan_local acc [] = None"
| "scan_local acc (c # rest) =
     (if c = CHR ''-'' then
        (case rest of
           d # rest' \<Rightarrow>
             if d = CHR ''-'' then scan_local (acc @ ''-'') rest'
             else if d = CHR ''.'' then scan_local (acc @ ''.'') rest' else None
         | [] \<Rightarrow> None)
      else if c = CHR ''.'' then Some (acc, rest)
      else scan_local (acc @ push_byte c) rest)"

fun unescape_component :: "string \<Rightarrow> string option" where
  "unescape_component [] = Some []"
| "unescape_component (c # rest) =
     (if c = CHR ''-'' then
        (case rest of
           d # rest' \<Rightarrow>
             if d = CHR ''-'' then map_option (\<lambda>s. ''-'' @ s) (unescape_component rest')
             else if d = CHR ''.'' then map_option (\<lambda>s. ''.'' @ s) (unescape_component rest') else None
         | [] \<Rightarrow> None)
      else if c = CHR ''.'' then None
      else map_option (\<lambda>s. push_byte c @ s) (unescape_component rest))"

definition forwarded_decode :: "string \<Rightarrow> (string \<times> string) option" where
  "forwarded_decode gateway_localpart =
     (let s = to_ascii_lowercase gateway_localpart in
      Option.bind (scan_local [] s) (\<lambda>(local, rest).
      Option.bind (unescape_component rest) (\<lambda>native_domain.
      if \<not> is_valid_local local \<or> \<not> is_valid_domain native_domain then None
      else case forwarded_encode local native_domain of
             Inr canonical \<Rightarrow> if canonical = s then Some (local, native_domain) else None
           | Inl _ \<Rightarrow> None)))"

section \<open>Escaping and unescaping\<close>

abbreviation ascii :: "string \<Rightarrow> bool" where
  "ascii s \<equiv> list_all (\<lambda>c. byte_of c < 128) s"

definition lower :: "string \<Rightarrow> bool" where
  "lower s \<longleftrightarrow> to_ascii_lowercase s = s"

lemma lower_simps [simp]:
  "lower []" "lower (c # s) \<longleftrightarrow> ascii_lower c = c \<and> lower s" "lower (a @ b) \<longleftrightarrow> lower a \<and> lower b"
  by (auto simp: lower_def str append_eq_append_conv)

lemma lower_lowercase [simp]: "lower (to_ascii_lowercase s)"
  by (simp add: lower_def)

lemma push_byte_ascii [simp]: "byte_of c < 128 \<Longrightarrow> push_byte c = [c]"
  by (simp add: push_byte_def)

lemma lower_push_byte: "ascii_lower c = c \<Longrightarrow> lower (push_byte c)"
proof (cases "byte_of c < 128")
  case False
  have "byte_of c < 256" using range_nat_of_char by auto
  then have "byte_of c div 64 < 4" "byte_of c mod 64 < 64" by (simp_all add: div_less_iff_less_mult)
  then have "192 + byte_of c div 64 < 256" "128 + byte_of c mod 64 < 256" by linarith+
  with False show ?thesis
    by (simp add: push_byte_def ascii_lower_def)
qed simp

lemma scan_escape: "ascii l \<Longrightarrow> scan_local acc (escape_into l @ CHR ''.'' # r) = Some (acc @ l, r)"
  by (induction l arbitrary: acc) auto

lemma unescape_escape: "ascii d \<Longrightarrow> unescape_component (escape_into d) = Some d"
  by (induction d) auto

lemma scan_lower: "scan_local acc s = Some (l, r) \<Longrightarrow> lower acc \<Longrightarrow> lower s \<Longrightarrow> lower l \<and> lower r"
proof (induction acc s rule: scan_local.induct)
  case (2 acc c rest)
  then show ?case
    by (auto simp: lower_push_byte split: if_splits list.splits)
qed simp

lemma unescape_lower: "unescape_component s = Some d \<Longrightarrow> lower s \<Longrightarrow> lower d"
proof (induction s arbitrary: d rule: unescape_component.induct)
  case (2 c rest)
  show ?case
  proof (cases "c = CHR ''-''")
    case True
    with 2(4) obtain x rest' d' where r: "rest = x # rest'" "x = CHR ''-'' \<or> x = CHR ''.''"
        "unescape_component rest' = Some d'" "d = x # d'"
      by (cases rest) (auto split: if_splits)
    then have "lower d'" using 2(1) [OF True r(1)] 2(2) [OF True r(1)] 2(5) by fastforce
    with r 2(5) show ?thesis by auto
  next
    case False
    with 2(4) obtain d' where r: "unescape_component rest = Some d'" "d = push_byte c @ d'" "c \<noteq> CHR ''.''"
      by (auto split: if_splits)
    then have "lower d'" using 2(3) [OF False] 2(5) by simp
    with r 2(5) show ?thesis by (simp add: lower_push_byte)
  qed
qed simp

lemma split_on_cover: "c \<in> set s \<Longrightarrow> c = x \<or> (\<exists>p \<in> set (split_on x s). c \<in> set p)"
proof (induction s)
  case (Cons a s)
  then show ?case by (cases "split_on x s") auto
qed simp

lemma alnum_ascii: "is_ascii_alphanumeric c \<Longrightarrow> byte_of c < 128"
  by (auto simp: is_ascii_alphanumeric_def is_ascii_digit_def)

lemma valid_local_ascii: "is_valid_local l \<Longrightarrow> ascii l"
  by (auto simp: is_valid_local_def list_all_iff alnum_ascii split: if_splits)

lemma valid_domain_ascii: "is_valid_domain d \<Longrightarrow> ascii d"
proof -
  assume v: "is_valid_domain d"
  have "byte_of c < 128" if "c \<in> set d" for c
  proof (cases "c = CHR ''.''")
    case False
    with split_on_cover [OF that, of "CHR ''.''"] obtain p where "p \<in> set (split_on (CHR ''.'') d)" "c \<in> set p"
      by auto
    with v have "is_ascii_alphanumeric c \<or> c = CHR ''-''"
      by (auto simp: is_valid_domain_def valid_label_def list_all_iff split: if_splits)
    then show ?thesis by (auto simp: alnum_ascii)
  qed simp
  then show ?thesis by (simp add: list_all_iff)
qed

lemma encode_ok:
  "forwarded_encode l d = Inr a \<longleftrightarrow>
     is_valid_local (to_ascii_lowercase l) \<and> is_valid_domain (to_ascii_lowercase d)
     \<and> a = escape_into (to_ascii_lowercase l) @ ''.'' @ escape_into (to_ascii_lowercase d)
     \<and> length a \<le> MAX_LOCALPART_LEN"
  by (auto simp: forwarded_encode_def Let_def)

lemma decode_encoded:
  assumes "forwarded_encode l d = Inr (to_ascii_lowercase a)" and "lower l" and "lower d"
  shows "forwarded_decode a = Some (l, d)"
proof -
  from assms have v: "is_valid_local l" "is_valid_domain d"
      and s: "to_ascii_lowercase a = escape_into l @ CHR ''.'' # escape_into d"
    by (auto simp: encode_ok lower_def)
  have "scan_local [] (to_ascii_lowercase a) = Some (l, escape_into d)"
    unfolding s using scan_escape [OF valid_local_ascii [OF v(1)], of "[]"] by simp
  moreover have "unescape_component (escape_into d) = Some d"
    by (rule unescape_escape [OF valid_domain_ascii [OF v(2)]])
  ultimately show ?thesis
    using v assms(1) by (simp add: forwarded_decode_def Let_def)
qed

lemma decode_ok:
  assumes "forwarded_decode a = Some (l, d)"
  shows "forwarded_encode l d = Inr (to_ascii_lowercase a) \<and> lower l \<and> lower d"
proof -
  from assms obtain r where r: "scan_local [] (to_ascii_lowercase a) = Some (l, r)"
      "unescape_component r = Some d" "forwarded_encode l d = Inr (to_ascii_lowercase a)"
    by (auto simp: forwarded_decode_def Let_def split: bind_splits if_splits sum.splits)
  with scan_lower [OF r(1)] unescape_lower [OF r(2)] show ?thesis by simp
qed

section \<open>Properties\<close>

text \<open>C36: forwarded addresses are a bijection. Decoding a gateway local-part yields a native address if
  and only if encoding that (lower-case) address yields exactly the local-part, up to its case: every
  encoded address decodes to itself, every accepted local-part is the canonical encoding of what it
  decodes to, and no two addresses share an encoding.\<close>

theorem forwarded_addr_bijection:
  "forwarded_decode a = Some (l, d) \<longleftrightarrow>
     forwarded_encode l d = Inr (to_ascii_lowercase a) \<and> to_ascii_lowercase l = l \<and> to_ascii_lowercase d = d"
  using decode_ok [of a l d] decode_encoded [of l d a] by (auto simp: lower_def)

text \<open>Encoding round-trips for every address it accepts, whatever its case, and stays within the
  64-octet local-part limit.\<close>

theorem forwarded_addr_roundtrip:
  assumes "forwarded_encode l d = Inr a"
  shows "forwarded_decode a = Some (to_ascii_lowercase l, to_ascii_lowercase d) \<and> length a \<le> 64"
proof -
  have low: "forwarded_encode (to_ascii_lowercase l) (to_ascii_lowercase d) = Inr a"
    using assms by (simp add: forwarded_encode_def Let_def)
  have "lower (escape_into s)" if "lower s" "ascii s" for s
    using that by (induction s) (auto simp: ascii_lower_def)
  then have "lower a"
    using assms valid_local_ascii valid_domain_ascii by (auto simp: encode_ok ascii_lower_def)
  then have "forwarded_encode (to_ascii_lowercase l) (to_ascii_lowercase d) = Inr (to_ascii_lowercase a)"
    using low by (simp add: lower_def)
  from decode_encoded [OF this] show ?thesis
    using assms by (auto simp: encode_ok MAX_LOCALPART_LEN_def)
qed

theorem forwarded_addr_roundtrip_witness:
  "\<exists>a. forwarded_encode ''Al-Ice'' ''b.Org'' = Inr a \<and> forwarded_decode a = Some (''al-ice'', ''b.org'')"
proof -
  have low: "to_ascii_lowercase ''Al-Ice'' = ''al-ice''" "to_ascii_lowercase ''b.Org'' = ''b.org''"
    by code_simp+
  have "is_valid_local ''al-ice''" "is_valid_domain ''b.org''"
    by (simp_all add: is_valid_local_def is_valid_domain_def valid_label_def MAX_LOCALPART_LEN_def
        starts_with_def ends_with_def is_ascii_alphanumeric_def is_ascii_digit_def)
  then have e: "forwarded_encode ''Al-Ice'' ''b.Org'' = Inr ''al--ice.b-.org''"
    by (simp add: forwarded_encode_def low Let_def MAX_LOCALPART_LEN_def)
  with forwarded_addr_roundtrip [OF e] show ?thesis by (simp add: low)
qed

end
