(* ===== verification/Gw_Alias.thy ===== *)
theory Gw_Alias
  imports Gw_Forwarded
begin

text \<open>
  Gateway aliases. \<open>crates/gateway/src/authz.rs\<close> lines 572 to 907: the base32 labels, key-derived names
  and the vanity allocator; \<open>crates/gateway/src/alias_map.rs\<close>: opaque, expiring and one-time aliases.
  \<open>ContentId::of(key).digest()\<close> is the argument \<open>digest\<close>; the tokens drawn from the system's random
  source are a list the mint loop consumes.
\<close>

section \<open>Base32 labels\<close>

definition BASE32_LOWER :: string where
  "BASE32_LOWER = ''abcdefghijklmnopqrstuvwxyz234567''"

definition b32_char :: "u32 \<Rightarrow> char" where
  "b32_char w = BASE32_LOWER ! unat (and w 0x1f)"

function b32_drain :: "u32 \<Rightarrow> nat \<Rightarrow> string \<times> nat" where
  "b32_drain bits nbits =
     (if nbits \<ge> 5 then
        (let nbits' = nbits - 5; (out, n) = b32_drain bits nbits'
         in (b32_char (drop_bit nbits' bits) # out, n))
      else ([], nbits))"
  by auto

termination
  by (relation "measure snd") auto

declare b32_drain.simps [simp del]

fun b32_loop :: "u32 \<Rightarrow> nat \<Rightarrow> bytes \<Rightarrow> string" where
  "b32_loop bits nbits [] = (if nbits > 0 then [b32_char (push_bit (5 - nbits) bits)] else [])"
| "b32_loop bits nbits (b # input) =
     (let bits' = or (push_bit 8 bits) (ucast b); (out, nbits') = b32_drain bits' (nbits + 8)
      in out @ b32_loop bits' nbits' input)"

definition base32_lower :: "bytes \<Rightarrow> string" where
  "base32_lower input = b32_loop 0 0 input"

lemma b32_char_mem: "b32_char w \<in> set BASE32_LOWER"
proof -
  have "unat (and w 0x1f) < 32"
  proof -
    have "and w 0x1f = take_bit 5 w" by (simp add: take_bit_eq_mask mask_eq_exp_minus_1)
    then have "unat (and w 0x1f) = take_bit 5 (unat w)" by (simp add: unsigned_take_bit_eq)
    then show ?thesis by (simp add: take_bit_eq_mod)
  qed
  then show ?thesis unfolding b32_char_def by (intro nth_mem) (simp add: BASE32_LOWER_def)
qed

lemma b32_drain_spec:
  "snd (b32_drain bits n) = n mod 5 \<and> length (fst (b32_drain bits n)) = n div 5
   \<and> set (fst (b32_drain bits n)) \<subseteq> set BASE32_LOWER"
proof (induction bits n rule: b32_drain.induct)
  case (1 bits n)
  show ?case
  proof (cases "n \<ge> 5")
    case True
    have "n mod 5 = (n - 5) mod 5" "n div 5 = Suc ((n - 5) div 5)"
      using True by (simp_all add: le_mod_geq le_div_geq)
    with 1 True show ?thesis
      by (subst (1 2 3) b32_drain.simps) (auto simp: Let_def case_prod_unfold b32_char_mem)
  qed (simp add: b32_drain.simps)
qed

lemma b32_loop_spec:
  assumes "n < 5"
  shows "length (b32_loop bits n input) = (n + 8 * length input + 4) div 5
    \<and> set (b32_loop bits n input) \<subseteq> set BASE32_LOWER"
  using assms
proof (induction input arbitrary: bits n)
  case Nil
  then show ?case by (cases "n = 0") (auto simp: b32_char_mem)
next
  case (Cons b input)
  let ?bits = "or (push_bit 8 bits) (ucast b)"
  let ?d = "b32_drain ?bits (n + 8)"
  note d = b32_drain_spec [of ?bits "n + 8"]
  have "length (b32_loop ?bits (snd ?d) input) = (snd ?d + 8 * length input + 4) div 5
      \<and> set (b32_loop ?bits (snd ?d) input) \<subseteq> set BASE32_LOWER"
    using Cons.IH [of "snd ?d" ?bits] d by simp
  moreover have "(n + 8) div 5 + ((n + 8) mod 5 + 8 * k + 4) div 5 = (n + 8 + 8 * k + 4) div 5" for k
  proof -
    have "n + 8 + 8 * k + 4 = ((n + 8) div 5) * 5 + ((n + 8) mod 5 + 8 * k + 4)" by simp
    then show ?thesis by (metis add.commute div_mult_self3 zero_neq_numeral)
  qed
  ultimately show ?case
    using d by (simp add: Let_def case_prod_unfold)
qed

lemma base32_length: "length (base32_lower input) = (8 * length input + 4) div 5"
  using b32_loop_spec [of 0 0 input] by (simp add: base32_lower_def)

lemma base32_chars: "set (base32_lower input) \<subseteq> set BASE32_LOWER"
  using b32_loop_spec [of 0 0 input] by (simp add: base32_lower_def)

section \<open>Key-derived names\<close>

definition key_fingerprint :: "(bytes \<Rightarrow> bytes) \<Rightarrow> bytes \<Rightarrow> string" where
  "key_fingerprint digest public_key = base32_lower (take 10 (digest public_key))"

definition key_derived_localpart :: "(bytes \<Rightarrow> bytes) \<Rightarrow> bytes \<Rightarrow> string" where
  "key_derived_localpart digest public_key = ''k'' @ base32_lower (take 10 (digest public_key))"

definition RESERVED_ALIAS_PREFIX :: string where
  "RESERVED_ALIAS_PREFIX = ''dmtap1-''"

definition MAX_VANITY_LEN :: nat where
  "MAX_VANITY_LEN = 64"

definition is_key_derived_form :: "string \<Rightarrow> bool" where
  "is_key_derived_form lp =
     (case strip_prefix ''k'' lp of
        None \<Rightarrow> False
      | Some rest \<Rightarrow> length rest = 16 \<and> list_all (\<lambda>c. c \<in> set BASE32_LOWER) rest)"

definition is_valid_vanity_charset :: "string \<Rightarrow> bool" where
  "is_valid_vanity_charset lp =
     (if lp = [] \<or> length lp > MAX_VANITY_LEN then False
      else list_all (\<lambda>c. is_ascii_alphanumeric c \<or> c \<in> {CHR ''-'', CHR ''_'', CHR ''+''}) lp)"

definition is_valid_dns_domain :: "string \<Rightarrow> bool" where
  "is_valid_dns_domain domain =
     (if domain = [] \<or> length domain > 253 then False
      else list_all valid_label (split_on (CHR ''.'') domain) \<and> length (split_on (CHR ''.'') domain) \<ge> 1)"

lemma key_derived_form:
  assumes "length (digest k) \<ge> 10"
  shows "is_key_derived_form (key_derived_localpart digest k)"
proof -
  have "length (base32_lower (take 10 (digest k))) = 16"
    using assms by (simp add: base32_length)
  then show ?thesis
    using base32_chars [of "take 10 (digest k)"]
    by (auto simp: is_key_derived_form_def key_derived_localpart_def strip_prefix_def starts_with_def list_all_iff)
qed

section \<open>The vanity allocator\<close>

datatype alias_error =
    InvalidLocalPart string
  | ContainsDot string
  | Taken string
  | ReservedCollision string
  | ShadowsDirectoryIdentity string
  | InvalidGatewayDomain string

record alias_allocator =
  aa_domain :: string
  aa_vanity :: "string \<rightharpoonup> bytes"
  aa_reverse :: "(bytes \<times> string) list"
  aa_reserved :: "string set"

definition for_domain :: "string \<Rightarrow> alias_error + alias_allocator" where
  "for_domain raw =
     (let d = to_ascii_lowercase (trim raw) in
      if \<not> is_valid_dns_domain d then Inl (InvalidGatewayDomain raw)
      else Inr \<lparr>aa_domain = d, aa_vanity = Map.empty, aa_reverse = [], aa_reserved = {}\<rparr>)"

definition reserve_localpart :: "string \<Rightarrow> alias_allocator \<Rightarrow> alias_allocator" where
  "reserve_localpart local_part al =
     (let lp = to_ascii_lowercase (trim local_part)
      in al\<lparr>aa_vanity := (aa_vanity al)(lp := None),
            aa_reverse := filter (\<lambda>(_, v). v \<noteq> lp) (aa_reverse al),
            aa_reserved := insert lp (aa_reserved al)\<rparr>)"

definition reserve_directory_address :: "string \<Rightarrow> alias_allocator \<Rightarrow> bool \<times> alias_allocator" where
  "reserve_directory_address email al =
     (case rsplit_once (CHR ''@'') email of
        Some (lp, dm) \<Rightarrow>
          if eq_ignore_ascii_case (trim dm) (aa_domain al) then (True, reserve_localpart lp al) else (False, al)
      | None \<Rightarrow> (False, al))"

definition qualify :: "alias_allocator \<Rightarrow> string \<Rightarrow> string" where
  "qualify al local_part = local_part @ ''@'' @ aa_domain al"

definition check_vanity :: "alias_allocator \<Rightarrow> string \<Rightarrow> alias_error + string" where
  "check_vanity al local_part =
     (if CHR ''.'' \<in> set local_part then Inl (ContainsDot local_part)
      else
        (let lp = to_ascii_lowercase local_part in
         if \<not> is_valid_vanity_charset lp then Inl (InvalidLocalPart local_part)
         else if starts_with RESERVED_ALIAS_PREFIX lp \<or> is_key_derived_form lp
         then Inl (ReservedCollision local_part)
         else if lp \<in> aa_reserved al then Inl (ShadowsDirectoryIdentity local_part)
         else Inr lp))"

text \<open>\<open>position\<close> of the key's entry, removal from both tables.\<close>

fun remove_key :: "bytes \<Rightarrow> (bytes \<times> string) list \<Rightarrow> (string \<times> (bytes \<times> string) list) option" where
  "remove_key k [] = None"
| "remove_key k ((k', lp) # rev') =
     (if k' = k then Some (lp, rev') else map_option (\<lambda>(l, r). (l, (k', lp) # r)) (remove_key k rev'))"

definition allocate_vanity :: "bytes \<Rightarrow> string \<Rightarrow> alias_allocator \<Rightarrow> (alias_error + string) \<times> alias_allocator" where
  "allocate_vanity public_key local_part al =
     (case check_vanity al local_part of
        Inl e \<Rightarrow> (Inl e, al)
      | Inr lp \<Rightarrow>
          (case aa_vanity al lp of
             Some existing \<Rightarrow>
               (if existing = public_key then (Inr (qualify al lp), al) else (Inl (Taken local_part), al))
           | None \<Rightarrow>
               (let al1 = (case remove_key public_key (aa_reverse al) of
                      Some (old, rev') \<Rightarrow> al\<lparr>aa_reverse := rev', aa_vanity := (aa_vanity al)(old := None)\<rparr>
                    | None \<Rightarrow> al);
                    al2 = al1\<lparr>aa_vanity := (aa_vanity al1)(lp \<mapsto> public_key),
                              aa_reverse := aa_reverse al1 @ [(public_key, lp)]\<rparr>
                in (Inr (qualify al2 lp), al2))))"

definition release_vanity :: "bytes \<Rightarrow> alias_allocator \<Rightarrow> string option \<times> alias_allocator" where
  "release_vanity public_key al =
     (case remove_key public_key (aa_reverse al) of
        None \<Rightarrow> (None, al)
      | Some (lp, rev') \<Rightarrow>
          (let al' = al\<lparr>aa_reverse := rev', aa_vanity := (aa_vanity al)(lp := None)\<rparr>
           in (Some (qualify al' lp), al')))"

definition alias_for :: "(bytes \<Rightarrow> bytes) \<Rightarrow> alias_allocator \<Rightarrow> bytes \<Rightarrow> string" where
  "alias_for digest al public_key =
     (let lp = (case find (\<lambda>(k, _). k = public_key) (aa_reverse al) of
                  Some (_, lp) \<Rightarrow> lp
                | None \<Rightarrow> key_derived_localpart digest public_key)
      in qualify al lp)"

definition resolve_alias :: "(bytes \<Rightarrow> bytes) \<Rightarrow> alias_allocator \<Rightarrow> string \<Rightarrow> bytes list \<Rightarrow> bytes option" where
  "resolve_alias digest al address registered_keys =
     (let addr = to_ascii_lowercase (trim address) in
      case rsplit_once (CHR ''@'') addr of
        None \<Rightarrow> None
      | Some (lp, dm) \<Rightarrow>
          if dm \<noteq> aa_domain al then None
          else case aa_vanity al lp of
                 Some k \<Rightarrow> Some k
               | None \<Rightarrow> find (\<lambda>k. key_derived_localpart digest k = lp) registered_keys)"

section \<open>The allocator as a state machine\<close>

inductive alloc_reach :: "alias_allocator \<Rightarrow> bool" where
  alloc_start: "for_domain raw = Inr al \<Longrightarrow> alloc_reach al"
| alloc_reserve: "alloc_reach al \<Longrightarrow> alloc_reach (reserve_localpart lp al)"
| alloc_directory: "alloc_reach al \<Longrightarrow> alloc_reach (snd (reserve_directory_address email al))"
| alloc_take: "alloc_reach al \<Longrightarrow> alloc_reach (snd (allocate_vanity k lp al))"
| alloc_release: "alloc_reach al \<Longrightarrow> alloc_reach (snd (release_vanity k al))"

text \<open>The invariant: the two tables are inverse to each other, one name per key and one key per name;
  every name passed the naming rules and is not reserved; the anchoring domain is valid and lower
  case.\<close>

definition vanity_shape :: "string \<Rightarrow> bool" where
  "vanity_shape lp \<longleftrightarrow> lower lp \<and> is_valid_vanity_charset lp \<and> \<not> is_key_derived_form lp"

definition alloc_inv :: "alias_allocator \<Rightarrow> bool" where
  "alloc_inv al \<longleftrightarrow>
     lower (aa_domain al) \<and> is_valid_dns_domain (aa_domain al) \<and>
     distinct (map fst (aa_reverse al)) \<and> distinct (map snd (aa_reverse al)) \<and>
     (\<forall>lp k. aa_vanity al lp = Some k \<longleftrightarrow> (k, lp) \<in> set (aa_reverse al)) \<and>
     (\<forall>lp \<in> dom (aa_vanity al). vanity_shape lp \<and> lp \<notin> aa_reserved al)"

lemma remove_key_None: "remove_key k rv = None \<longleftrightarrow> k \<notin> fst ` set rv"
  by (induction k rv rule: remove_key.induct) (auto split: option.splits)

lemma remove_key_Some:
  "remove_key k rv = Some (lp, rv') \<Longrightarrow> distinct (map fst rv) \<Longrightarrow>
     (k, lp) \<in> set rv \<and> rv' = filter (\<lambda>e. fst e \<noteq> k) rv"
proof (induction k rv arbitrary: rv' rule: remove_key.induct)
  case (2 k k' l rv)
  show ?case
  proof (cases "k' = k")
    case True
    then have "filter (\<lambda>e. fst e \<noteq> k) rv = rv"
      using 2(3) by (intro filter_True) (auto simp: image_iff)
    with True 2 show ?thesis by auto
  next
    case False
    with 2 show ?thesis by auto
  qed
qed simp

lemma check_vanity_ok:
  "check_vanity al l = Inr lp \<Longrightarrow> lp = to_ascii_lowercase l \<and> vanity_shape lp \<and> lp \<notin> aa_reserved al"
  by (auto simp: check_vanity_def vanity_shape_def Let_def split: if_splits)

lemma alloc_inv_start: "for_domain raw = Inr al \<Longrightarrow> alloc_inv al"
  by (auto simp: for_domain_def alloc_inv_def Let_def split: if_splits)

lemma alloc_inv_reserve: "alloc_inv al \<Longrightarrow> alloc_inv (reserve_localpart lp al)"
  by (auto simp: alloc_inv_def reserve_localpart_def Let_def distinct_map inj_on_def split: if_splits)

lemma alloc_inv_remove:
  assumes "alloc_inv al" and "remove_key k (aa_reverse al) = Some (old, rv)"
  shows "alloc_inv (al\<lparr>aa_reverse := rv, aa_vanity := (aa_vanity al)(old := None)\<rparr>)"
    and "k \<notin> fst ` set rv"
proof -
  have inv: "distinct (map fst (aa_reverse al))" "distinct (map snd (aa_reverse al))"
      "\<And>lp k. aa_vanity al lp = Some k \<longleftrightarrow> (k, lp) \<in> set (aa_reverse al)"
    using assms(1) by (simp_all add: alloc_inv_def)
  note r = remove_key_Some [OF assms(2) inv(1)]
  show "k \<notin> fst ` set rv" using r by auto
  have uniq: "lp = old \<longleftrightarrow> k' = k" if "(k', lp) \<in> set (aa_reverse al)" for k' lp
  proof -
    have "inj_on fst (set (aa_reverse al))" "inj_on snd (set (aa_reverse al))" "(k, old) \<in> set (aa_reverse al)"
      using inv(1,2) r by (simp_all add: distinct_map)
    with that show ?thesis by (metis fst_conv inj_onD snd_conv)
  qed
  have "((aa_vanity al)(old := None)) lp = Some k' \<longleftrightarrow> (k', lp) \<in> set rv" for lp k'
    using r inv(3) uniq by auto
  moreover have "distinct (map fst rv)" "distinct (map snd rv)"
    using r inv(1,2) by (simp_all add: distinct_map_filter)
  ultimately show "alloc_inv (al\<lparr>aa_reverse := rv, aa_vanity := (aa_vanity al)(old := None)\<rparr>)"
    using assms(1) by (auto simp: alloc_inv_def split: if_splits)
qed

lemma alloc_inv_insert:
  assumes "alloc_inv al" and "aa_vanity al lp = None" and "k \<notin> fst ` set (aa_reverse al)"
    and "vanity_shape lp" and "lp \<notin> aa_reserved al"
  shows "alloc_inv (al\<lparr>aa_vanity := (aa_vanity al)(lp \<mapsto> k), aa_reverse := aa_reverse al @ [(k, lp)]\<rparr>)"
proof -
  have "lp \<notin> snd ` set (aa_reverse al)"
    using assms(1,2) by (auto simp: alloc_inv_def) (metis option.distinct(1))
  then show ?thesis using assms by (auto simp: alloc_inv_def image_iff)
qed

lemma alloc_inv_take:
  assumes inv: "alloc_inv al"
  shows "alloc_inv (snd (allocate_vanity k l al))"
proof (cases "check_vanity al l")
  case (Inl e)
  then show ?thesis using inv by (simp add: allocate_vanity_def)
next
  case (Inr lp)
  note ok = check_vanity_ok [OF Inr]
  show ?thesis
  proof (cases "aa_vanity al lp")
    case (Some k')
    then show ?thesis using inv Inr by (simp add: allocate_vanity_def)
  next
    case None
    show ?thesis
    proof (cases "remove_key k (aa_reverse al)")
      case rk: None
      then have "k \<notin> fst ` set (aa_reverse al)" by (simp add: remove_key_None)
      with ok have "alloc_inv (al\<lparr>aa_vanity := (aa_vanity al)(lp \<mapsto> k), aa_reverse := aa_reverse al @ [(k, lp)]\<rparr>)"
        by (intro alloc_inv_insert [OF inv None]) auto
      then show ?thesis using Inr None rk by (simp add: allocate_vanity_def Let_def)
    next
      case (Some x)
      obtain old rv where x: "x = (old, rv)" by (cases x)
      with Some have rk: "remove_key k (aa_reverse al) = Some (old, rv)" by simp
      let ?al = "al\<lparr>aa_reverse := rv, aa_vanity := (aa_vanity al)(old := None)\<rparr>"
      have "aa_vanity ?al lp = None" using None by simp
      with ok alloc_inv_remove(2) [OF inv rk]
      have "alloc_inv (?al\<lparr>aa_vanity := (aa_vanity ?al)(lp \<mapsto> k), aa_reverse := aa_reverse ?al @ [(k, lp)]\<rparr>)"
        by (intro alloc_inv_insert [OF alloc_inv_remove(1) [OF inv rk]]) auto
      then show ?thesis using Inr None rk by (simp add: allocate_vanity_def Let_def)
    qed
  qed
qed

lemma alloc_reach_inv: "alloc_reach al \<Longrightarrow> alloc_inv al"
proof (induction rule: alloc_reach.induct)
  case (alloc_directory al email)
  then show ?case
    by (auto simp: reserve_directory_address_def alloc_inv_reserve split: option.splits)
next
  case (alloc_release al k)
  then show ?case
    using alloc_inv_remove(1) [of al k] by (auto simp: release_vanity_def Let_def split: option.splits)
qed (simp_all add: alloc_inv_start alloc_inv_reserve alloc_inv_take)

text \<open>Qualified addresses resolve without being changed by trimming or folding.\<close>

lemma graphic_alnum: "is_ascii_alphanumeric c \<Longrightarrow> 33 \<le> byte_of c \<and> byte_of c < 128"
  by (auto simp: is_ascii_alphanumeric_def is_ascii_digit_def)

definition graphic :: "string \<Rightarrow> bool" where
  "graphic s \<longleftrightarrow> list_all (\<lambda>c. 33 \<le> byte_of c \<and> byte_of c < 128 \<and> c \<noteq> CHR ''@'') s"

lemma alnum_not_at [simp]: "\<not> is_ascii_alphanumeric (CHR ''@'')"
  by (simp add: is_ascii_alphanumeric_def is_ascii_digit_def)

lemma graphic_vanity: "is_valid_vanity_charset lp \<Longrightarrow> graphic lp"
  by (force simp: is_valid_vanity_charset_def graphic_def list_all_iff graphic_alnum split: if_splits)

lemma graphic_domain: "is_valid_dns_domain d \<Longrightarrow> graphic d"
proof -
  assume v: "is_valid_dns_domain d"
  have "33 \<le> byte_of c \<and> byte_of c < 128 \<and> c \<noteq> CHR ''@''" if "c \<in> set d" for c
  proof (cases "c = CHR ''.''")
    case False
    with split_on_cover [OF that, of "CHR ''.''"] obtain p where "p \<in> set (split_on (CHR ''.'') d)" "c \<in> set p"
      by auto
    with v have "is_ascii_alphanumeric c \<or> c = CHR ''-''"
      by (auto simp: is_valid_dns_domain_def valid_label_def list_all_iff split: if_splits)
    then show ?thesis by (auto simp: graphic_alnum)
  qed simp
  then show ?thesis by (simp add: graphic_def list_all_iff)
qed

lemma base32_graphic: "set s \<subseteq> set BASE32_LOWER \<Longrightarrow> graphic s \<and> lower s"
proof -
  have "\<forall>c \<in> set BASE32_LOWER. 33 \<le> byte_of c \<and> byte_of c < 128 \<and> c \<noteq> CHR ''@'' \<and> ascii_lower c = c"
    by (simp add: BASE32_LOWER_def ascii_lower_def)
  then show "set s \<subseteq> set BASE32_LOWER \<Longrightarrow> graphic s \<and> lower s"
    by (induction s) (auto simp: graphic_def)
qed

lemma resolve_qualified:
  assumes "alloc_inv al" and "graphic lp" and "lower lp"
  shows "resolve_alias digest al (qualify al lp) keys =
    (case aa_vanity al lp of Some k \<Rightarrow> Some k | None \<Rightarrow> find (\<lambda>k. key_derived_localpart digest k = lp) keys)"
proof -
  have d: "graphic (aa_domain al)" "lower (aa_domain al)"
    using assms(1) by (simp_all add: alloc_inv_def graphic_domain)
  have "trim (qualify al lp) = qualify al lp"
    using assms(2) d(1) by (intro trim_graphic) (auto simp: qualify_def graphic_def list_all_iff)
  moreover have "to_ascii_lowercase (qualify al lp) = qualify al lp"
    using assms(3) d(2) by (simp add: qualify_def lower_def str ascii_lower_def)
  moreover have "rsplit_once (CHR ''@'') (qualify al lp) = Some (lp, aa_domain al)"
    unfolding rsplit_once_Some using d(1) by (auto simp: qualify_def graphic_def list_all_iff)
  ultimately show ?thesis by (simp add: resolve_alias_def)
qed

lemma key_derived_graphic: "graphic (key_derived_localpart digest k) \<and> lower (key_derived_localpart digest k)"
  using base32_graphic [OF base32_chars [of "take 10 (digest k)"]]
  by (simp add: key_derived_localpart_def graphic_def ascii_lower_def)

section \<open>Opaque aliases\<close>

datatype alias_target = Native string string | Identity bytes

datatype gateway_alias_error = Unmapped

definition alias_error_code :: "gateway_alias_error \<Rightarrow> u16" where
  "alias_error_code e = 0x0605"

record alias_row =
  aw_target :: alias_target
  aw_correspondent :: "string option"
  aw_expires_at_ms :: "u64 option"
  aw_one_time :: bool
  aw_burned :: bool

type_synonym alias_map = "string \<rightharpoonup> alias_row"

definition is_expired :: "alias_row \<Rightarrow> u64 \<Rightarrow> bool" where
  "is_expired row now_ms = (case aw_expires_at_ms row of Some e \<Rightarrow> now_ms \<ge> e | None \<Rightarrow> False)"

definition alias_map_new :: alias_map where
  "alias_map_new = Map.empty"

definition TOKEN_ENTROPY_BYTES :: nat where
  "TOKEN_ENTROPY_BYTES = 16"

definition random_alias_token :: "bytes \<Rightarrow> string" where
  "random_alias_token raw = base32_lower raw"

fun mint_loop :: "alias_row \<Rightarrow> bytes list \<Rightarrow> alias_map \<Rightarrow> (string \<times> alias_map) option" where
  "mint_loop row [] rows = None"
| "mint_loop row (raw # draws) rows =
     (let token = random_alias_token raw in
      if rows token = None then Some (token, rows(token \<mapsto> row)) else mint_loop row draws rows)"

definition mint_row :: "bytes list \<Rightarrow> alias_map \<Rightarrow> alias_target \<Rightarrow> string option \<Rightarrow> u64 option \<Rightarrow> bool \<Rightarrow> u64
    \<Rightarrow> (string \<times> alias_map) option" where
  "mint_row draws rows target correspondent ttl_ms one_time now_ms =
     (let expires_at_ms = map_option (\<lambda>ttl. sat_add now_ms ttl) ttl_ms;
          row = \<lparr>aw_target = target, aw_correspondent = correspondent, aw_expires_at_ms = expires_at_ms,
                 aw_one_time = one_time, aw_burned = False\<rparr>
      in mint_loop row draws rows)"

definition mint :: "bytes list \<Rightarrow> alias_map \<Rightarrow> alias_target \<Rightarrow> (string \<times> alias_map) option" where
  "mint draws rows target = mint_row draws rows target None None False 0"

definition mint_with :: "bytes list \<Rightarrow> alias_map \<Rightarrow> alias_target \<Rightarrow> string option \<Rightarrow> u64 option \<Rightarrow> bool \<Rightarrow> u64
    \<Rightarrow> (string \<times> alias_map) option" where
  "mint_with draws rows target correspondent ttl_ms one_time now_ms =
     mint_row draws rows target correspondent ttl_ms one_time now_ms"

definition resolve_opaque :: "alias_map \<Rightarrow> string \<Rightarrow> u64 \<Rightarrow> (gateway_alias_error + alias_target) \<times> alias_map" where
  "resolve_opaque rows alias now_ms =
     (case rows alias of
        None \<Rightarrow> (Inl Unmapped, rows)
      | Some row \<Rightarrow>
          if aw_burned row \<or> is_expired row now_ms then (Inl Unmapped, rows)
          else (Inr (aw_target row),
                if aw_one_time row then rows(alias \<mapsto> row\<lparr>aw_burned := True\<rparr>) else rows))"

definition correspondent_of :: "alias_map \<Rightarrow> string \<Rightarrow> u64 \<Rightarrow> string option" where
  "correspondent_of rows alias now_ms =
     (case rows alias of
        None \<Rightarrow> None
      | Some row \<Rightarrow> if aw_burned row \<or> is_expired row now_ms then None else aw_correspondent row)"

definition burn :: "alias_map \<Rightarrow> string \<Rightarrow> bool \<times> alias_map" where
  "burn rows alias =
     (case rows alias of
        Some row \<Rightarrow> (True, rows(alias \<mapsto> row\<lparr>aw_burned := True\<rparr>))
      | None \<Rightarrow> (False, rows))"

text \<open>Runs of the alias map.\<close>

inductive alias_steps :: "alias_map \<Rightarrow> alias_map \<Rightarrow> bool" where
  alias_refl: "alias_steps rows rows"
| alias_mint: "alias_steps rows rows' \<Longrightarrow> mint_row draws rows' tg co ttl ot now = Some (tok, rows'') \<Longrightarrow>
      alias_steps rows rows''"
| alias_resolve: "alias_steps rows rows' \<Longrightarrow> alias_steps rows (snd (resolve_opaque rows' a now))"
| alias_burn: "alias_steps rows rows' \<Longrightarrow> alias_steps rows (snd (burn rows' a))"

lemma mint_loop_Some:
  "mint_loop row draws rows = Some (tok, rows') \<Longrightarrow> rows tok = None \<and> rows' = rows(tok \<mapsto> row)
     \<and> tok \<in> random_alias_token ` set draws"
  by (induction draws) (auto simp: Let_def split: if_splits)

lemma mint_loop_total:
  "\<exists>raw \<in> set draws. rows (random_alias_token raw) = None \<Longrightarrow> mint_loop row draws rows \<noteq> None"
  by (induction draws) (auto simp: Let_def)

text \<open>A row never changes but for its burned flag, which only goes up.\<close>

lemma alias_steps_row:
  assumes "alias_steps rows rows'" and "rows a = Some row"
  shows "\<exists>b. rows' a = Some (row\<lparr>aw_burned := b\<rparr>) \<and> (aw_burned row \<longrightarrow> b)"
  using assms
proof (induction rule: alias_steps.induct)
  case (alias_refl rows)
  then show ?case by (intro exI [of _ "aw_burned row"]) simp
next
  case (alias_mint rows rows' draws tg co ttl ot now tok rows'')
  from alias_mint.IH [OF alias_mint.prems] obtain b
    where b: "rows' a = Some (row\<lparr>aw_burned := b\<rparr>)" "aw_burned row \<longrightarrow> b" by blast
  have "rows' tok = None \<and> (\<exists>r. rows'' = rows'(tok \<mapsto> r))"
    using mint_loop_Some alias_mint.hyps(2) unfolding mint_row_def Let_def by blast
  with b show ?case by fastforce
next
  case (alias_resolve rows rows' a' now)
  then show ?case by (fastforce simp: resolve_opaque_def split: option.splits if_splits)
next
  case (alias_burn rows rows' a')
  then show ?case by (fastforce simp: burn_def split: option.splits if_splits)
qed

section \<open>Properties\<close>

text \<open>The vanity tables stay a bijection. In every state the allocator can reach, a name maps to a key
  exactly if the key's entry holds that name, no key holds two names and no name two keys, and every
  held name is lower case, dot-free, outside the key-derived namespace and not a reserved directory
  name.\<close>

theorem vanity_bijection:
  assumes "alloc_reach al"
  shows "(aa_vanity al lp = Some k \<longleftrightarrow> (k, lp) \<in> set (aa_reverse al))
    \<and> distinct (map fst (aa_reverse al)) \<and> distinct (map snd (aa_reverse al))
    \<and> (aa_vanity al lp = Some k \<longrightarrow> to_ascii_lowercase lp = lp \<and> is_valid_vanity_charset lp
         \<and> CHR ''.'' \<notin> set lp \<and> \<not> is_key_derived_form lp \<and> lp \<notin> aa_reserved al)"
proof -
  note inv = alloc_reach_inv [OF assms]
  have dot: "CHR ''.'' \<notin> set lp" if "is_valid_vanity_charset lp"
    using that by (auto simp: is_valid_vanity_charset_def list_all_iff is_ascii_alphanumeric_def
        is_ascii_digit_def split: if_splits)
  show ?thesis
    using inv dot by (auto simp: alloc_inv_def vanity_shape_def lower_def)
qed

lemma demo_alloc: "\<exists>al. for_domain ''gw.io'' = Inr al \<and> alloc_reach (snd (allocate_vanity [1] ''Bob'' al))
    \<and> aa_vanity (snd (allocate_vanity [1] ''Bob'' al)) ''bob'' = Some [1]"
proof -
  have tr: "trim ''gw.io'' = ''gw.io''" by (rule trim_graphic) simp
  have lw: "to_ascii_lowercase ''gw.io'' = ''gw.io''" "to_ascii_lowercase ''Bob'' = ''bob''"
    by code_simp+
  have ok: "is_valid_dns_domain ''gw.io''" "is_valid_vanity_charset ''bob''"
    by (simp_all add: is_valid_dns_domain_def valid_label_def starts_with_def ends_with_def
        is_ascii_alphanumeric_def is_ascii_digit_def is_valid_vanity_charset_def MAX_VANITY_LEN_def)
  let ?al = "\<lparr>aa_domain = ''gw.io'', aa_vanity = Map.empty, aa_reverse = [], aa_reserved = {}\<rparr>"
  have al: "for_domain ''gw.io'' = Inr ?al"
    by (simp add: for_domain_def Let_def tr lw ok)
  then have "alloc_reach (snd (allocate_vanity [1] ''Bob'' ?al))"
    by (intro alloc_reach.alloc_take alloc_reach.alloc_start)
  moreover have "check_vanity ?al ''Bob'' = Inr ''bob''"
    by (simp add: check_vanity_def Let_def lw ok RESERVED_ALIAS_PREFIX_def starts_with_def
        is_key_derived_form_def strip_prefix_def)
  ultimately show ?thesis using al by (auto simp: allocate_vanity_def Let_def)
qed

theorem vanity_bijection_witness:
  "\<exists>al. alloc_reach al \<and> ([1], ''bob'') \<in> set (aa_reverse al)"
proof -
  obtain al where "alloc_reach al" "aa_vanity al ''bob'' = Some [1]" using demo_alloc by blast
  with vanity_bijection [of al "''bob''" "[1]"] show ?thesis by blast
qed

text \<open>Presented addresses resolve to their owner. In every reachable state, the address presented for
  a registered key, vanity or key-derived, resolves back to exactly that key, provided no other
  registered key has the same key-derived name (a collision of the truncated digest).\<close>

theorem alias_roundtrip:
  assumes "alloc_reach al" and "k \<in> set keys" and "\<forall>key. 10 \<le> length (digest key)"
    and "\<forall>k' \<in> set keys. key_derived_localpart digest k' = key_derived_localpart digest k \<longrightarrow> k' = k"
  shows "resolve_alias digest al (alias_for digest al k) keys = Some k"
proof -
  note inv = alloc_reach_inv [OF assms(1)]
  show ?thesis
  proof (cases "find (\<lambda>(k', _). k' = k) (aa_reverse al)")
    case None
    let ?lp = "key_derived_localpart digest k"
    have "is_key_derived_form ?lp" using assms(3) by (intro key_derived_form) simp
    then have "aa_vanity al ?lp = None"
      using inv by (cases "aa_vanity al ?lp") (force simp: alloc_inv_def vanity_shape_def)+
    moreover have "find (\<lambda>k'. key_derived_localpart digest k' = ?lp) keys = Some k"
      using assms(2,4) by (induction keys) auto
    ultimately show ?thesis
      using key_derived_graphic [of digest k] None
      by (simp add: alias_for_def resolve_qualified [OF inv])
  next
    case (Some e)
    then obtain lp where e: "e = (k, lp)" "(k, lp) \<in> set (aa_reverse al)"
      by (auto dest: find_Some_mem split: prod.splits)
    then have v: "aa_vanity al lp = Some k" using inv by (simp add: alloc_inv_def)
    then have "vanity_shape lp" using inv by (force simp: alloc_inv_def)
    then have "graphic lp" "lower lp" by (auto simp: vanity_shape_def intro: graphic_vanity)
    then show ?thesis
      using Some e v by (simp add: alias_for_def resolve_qualified [OF inv])
  qed
qed

theorem alias_roundtrip_witness:
  "\<exists>al. alloc_reach al \<and> resolve_alias (\<lambda>k. replicate 10 (hd k)) al
      (alias_for (\<lambda>k. replicate 10 (hd k)) al [1]) [[1]] = Some [1]"
proof -
  obtain al where al: "alloc_reach al" using demo_alloc by blast
  from alias_roundtrip [OF al, of "[1]" "[[1]]" "\<lambda>k. replicate 10 (hd k)"] al show ?thesis by auto
qed

text \<open>Opaque aliases live exactly as promised. A minted token was unused; whatever else is minted,
  resolved or burned afterwards, it resolves to its own target or, burned or expired, to the one
  uniform error; from its expiry on it never resolves; and a one-time alias that has resolved once
  never resolves again.\<close>

theorem opaque_alias_lifecycle:
  assumes "mint_row draws rows tg co ttl ot now0 = Some (tok, rows1)" and "alias_steps rows1 rows2"
  shows "rows tok = None
    \<and> fst (resolve_opaque rows2 tok now) \<in> {Inl Unmapped, Inr tg}
    \<and> ((\<exists>t. ttl = Some t \<and> now \<ge> sat_add now0 t) \<longrightarrow> fst (resolve_opaque rows2 tok now) = Inl Unmapped)
    \<and> (ot \<and> fst (resolve_opaque rows2 tok now) = Inr tg \<and> alias_steps (snd (resolve_opaque rows2 tok now)) rows3
         \<longrightarrow> fst (resolve_opaque rows3 tok later) = Inl Unmapped)"
proof -
  let ?row = "\<lparr>aw_target = tg, aw_correspondent = co, aw_expires_at_ms = map_option (\<lambda>t. sat_add now0 t) ttl,
               aw_one_time = ot, aw_burned = False\<rparr>"
  have m: "rows tok = None" "rows1 = rows(tok \<mapsto> ?row)"
    using mint_loop_Some [of ?row draws rows tok rows1] assms(1) by (simp_all add: mint_row_def Let_def)
  then obtain b where b: "rows2 tok = Some (?row\<lparr>aw_burned := b\<rparr>)"
    using alias_steps_row [OF assms(2), of tok ?row] by auto
  have once: "fst (resolve_opaque rows3 tok later) = Inl Unmapped"
    if "ot" "fst (resolve_opaque rows2 tok now) = Inr tg" "alias_steps (snd (resolve_opaque rows2 tok now)) rows3"
  proof -
    have "snd (resolve_opaque rows2 tok now) tok = Some (?row\<lparr>aw_burned := True\<rparr>)"
      using that(1,2) b by (auto simp: resolve_opaque_def split: if_splits)
    from alias_steps_row [OF that(3) this] show ?thesis by (auto simp: resolve_opaque_def)
  qed
  show ?thesis
    using m(1) b once by (auto simp: resolve_opaque_def is_expired_def split: if_splits)
qed

theorem opaque_alias_lifecycle_witness:
  "\<exists>tok rows1. mint_row [[1]] alias_map_new (Identity [9]) None None True 0 = Some (tok, rows1)
     \<and> fst (resolve_opaque rows1 tok 5) \<in> {Inl Unmapped, Inr (Identity [9])}"
proof -
  obtain tok rows1 where m: "mint_row [[1]] alias_map_new (Identity [9]) None None True 0 = Some (tok, rows1)"
    by (simp add: mint_row_def alias_map_new_def Let_def)
  from opaque_alias_lifecycle [OF m alias_steps.alias_refl, of 5] m show ?thesis by blast
qed

end
