(* ===== verification/Gw_Guard.thy ===== *)
theory Gw_Guard
  imports Rust_Strings Prelude
begin

text \<open>
  The outbound sender guard, \<open>crates/gateway/src/outbound_guard.rs\<close>: per-account authentication, volume
  and rate windows, and exponential backoff after delivery failures. The clock reading is an
  argument of each call: the source reads the clock first and takes the state's lock then, so that the calls of
  concurrent senders may take the lock in another order than they read the clock. A run lists the calls in the
  order of the lock. \<open>Vec::len() as u32\<close> is kept as a truncation.
\<close>

datatype sender_verdict =
    Allow
  | Throttle u64 string
  | Refuse string

record sender_state =
  sd_rate_hits :: "u64 list"
  sd_volume_hits :: "u64 list"
  sd_strikes :: u32
  sd_backoff_until :: u64

record outbound_guard =
  og_rate_limit :: u32
  og_rate_window_ms :: u64
  og_volume_cap :: u32
  og_volume_window_ms :: u64
  og_backoff_base_ms :: u64
  og_backoff_max_shift :: u32
  og_registered :: "string list option"

type_synonym guard_state = "string \<rightharpoonup> sender_state"

definition is_allow :: "sender_verdict \<Rightarrow> bool" where
  "is_allow v = (v = Allow)"

definition sender_default :: sender_state where
  "sender_default = \<lparr>sd_rate_hits = [], sd_volume_hits = [], sd_strikes = 0, sd_backoff_until = 0\<rparr>"

definition guard_default :: outbound_guard where
  "guard_default = \<lparr>og_rate_limit = 20, og_rate_window_ms = 60000, og_volume_cap = 500,
     og_volume_window_ms = 24 * 3600000, og_backoff_base_ms = 300000, og_backoff_max_shift = 3,
     og_registered = None\<rparr>"

definition with_rate_limit :: "u32 \<Rightarrow> u64 \<Rightarrow> outbound_guard \<Rightarrow> outbound_guard" where
  "with_rate_limit m w g = g\<lparr>og_rate_limit := m, og_rate_window_ms := w\<rparr>"

definition with_volume_cap :: "u32 \<Rightarrow> u64 \<Rightarrow> outbound_guard \<Rightarrow> outbound_guard" where
  "with_volume_cap m w g = g\<lparr>og_volume_cap := m, og_volume_window_ms := w\<rparr>"

definition with_backoff :: "u64 \<Rightarrow> u32 \<Rightarrow> outbound_guard \<Rightarrow> outbound_guard" where
  "with_backoff b s g = g\<lparr>og_backoff_base_ms := b, og_backoff_max_shift := s\<rparr>"

definition require_registered :: "string list \<Rightarrow> outbound_guard \<Rightarrow> outbound_guard" where
  "require_registered accounts g = g\<lparr>og_registered := Some accounts\<rparr>"

definition is_authenticated :: "outbound_guard \<Rightarrow> string \<Rightarrow> bool" where
  "is_authenticated g account =
     (if trim account = [] then False
      else case og_registered g of Some set' \<Rightarrow> account \<in> set set' | None \<Rightarrow> False)"

definition authorize_send :: "outbound_guard \<Rightarrow> u64 \<Rightarrow> string \<Rightarrow> guard_state \<Rightarrow> sender_verdict \<times> guard_state" where
  "authorize_send g now account states =
     (if \<not> is_authenticated g account
      then (Refuse ''5.7.1 outbound relay denied: sender is not an authenticated account'', states)
      else
        (let st = get_or sender_default states account in
         if now < sd_backoff_until st
         then (Throttle (sd_backoff_until st - now)
                 ''4.7.1 sender in reputation backoff after prior delivery failures'', states(account \<mapsto> st))
         else
           (let vstart = sat_sub now (og_volume_window_ms g);
                st1 = st\<lparr>sd_volume_hits := filter (\<lambda>t. t \<ge> vstart) (sd_volume_hits st)\<rparr> in
            if (of_nat (length (sd_volume_hits st1)) :: u32) \<ge> og_volume_cap g
            then (Refuse ''5.7.1 outbound volume cap reached for this sender; relay refused'',
                  states(account \<mapsto> st1))
            else
              (let rstart = sat_sub now (og_rate_window_ms g);
                   st2 = st1\<lparr>sd_rate_hits := filter (\<lambda>t. t \<ge> rstart) (sd_rate_hits st1)\<rparr> in
               if (of_nat (length (sd_rate_hits st2)) :: u32) \<ge> og_rate_limit g
               then
                 (let retry_after = (case sd_rate_hits st2 of
                        oldest # _ \<Rightarrow> sat_sub (oldest + og_rate_window_ms g) now
                      | [] \<Rightarrow> og_rate_window_ms g)
                  in (Throttle (max retry_after 1) ''4.7.1 per-sender outbound rate limit exceeded; slow down'',
                      states(account \<mapsto> st2)))
               else (Allow, states(account \<mapsto> st2\<lparr>sd_rate_hits := sd_rate_hits st2 @ [now],
                                                   sd_volume_hits := sd_volume_hits st2 @ [now]\<rparr>))))))"

definition report_outcome :: "outbound_guard \<Rightarrow> u64 \<Rightarrow> string \<Rightarrow> bool \<Rightarrow> guard_state \<Rightarrow> guard_state" where
  "report_outcome g now account delivered states =
     (let st = get_or sender_default states account in
      if delivered then states(account \<mapsto> st\<lparr>sd_strikes := sat_sub (sd_strikes st) 1\<rparr>)
      else
        (let strikes = sat_add (sd_strikes st) 1;
             shift = min (strikes - 1) (og_backoff_max_shift g);
             factor = checked_shl1 shift;
             backoff = sat_mul (og_backoff_base_ms g) factor
         in states(account \<mapsto> st\<lparr>sd_strikes := strikes, sd_backoff_until := sat_add now backoff\<rparr>)))"

definition strikes_of :: "guard_state \<Rightarrow> string \<Rightarrow> u32" where
  "strikes_of states account = (case states account of Some s \<Rightarrow> sd_strikes s | None \<Rightarrow> 0)"

section \<open>Sliding windows\<close>

text \<open>A hit list kept against a history of allowed times: it holds the times from some cutoff on, and
  it is never longer than the limit.\<close>

definition window_ok :: "u64 list \<Rightarrow> u64 list \<Rightarrow> u64 \<Rightarrow> nat \<Rightarrow> bool" where
  "window_ok hits hist cutoff limit \<longleftrightarrow>
     (\<exists>c \<le> cutoff. hits = filter (\<lambda>t. t \<ge> c) hist) \<and> length hits \<le> limit"

lemma window_mono: "window_ok hits hist c limit \<Longrightarrow> c \<le> c' \<Longrightarrow> window_ok hits hist c' limit"
  by (auto simp: window_ok_def intro: order_trans)

lemma window_filter:
  assumes "window_ok hits hist c limit" and "c \<le> c'"
  shows "filter (\<lambda>t. t \<ge> c') hits = filter (\<lambda>t. t \<ge> c') hist"
    and "length (filter (\<lambda>t. t \<ge> c') hits) \<le> limit"
proof -
  from assms obtain d where "d \<le> c" "hits = filter (\<lambda>t. t \<ge> d) hist" "length hits \<le> limit"
    by (auto simp: window_ok_def)
  then show "filter (\<lambda>t. t \<ge> c') hits = filter (\<lambda>t. t \<ge> c') hist"
    using assms(2) by (auto intro!: filter_cong)
  show "length (filter (\<lambda>t. t \<ge> c') hits) \<le> limit"
    using \<open>length hits \<le> limit\<close> length_filter_le [of "\<lambda>t. t \<ge> c'" hits] by linarith
qed

lemma sat_sub_mono: "a \<le> b \<Longrightarrow> sat_sub a c \<le> sat_sub b (c :: u64)"
  by (simp add: word_le_nat_alt unat_sat_sub)

lemma len_u32:
  assumes "length xs \<le> unat (limit :: u32)"
  shows "(of_nat (length xs) :: u32) \<ge> limit \<longleftrightarrow> length xs \<ge> unat limit"
proof -
  have "unat (of_nat (length xs) :: u32) = length xs"
    using assms unat_le_max [of limit] by (simp add: unat_of_nat)
  then show ?thesis by (simp add: word_le_nat_alt)
qed

section \<open>Runs\<close>

datatype guard_op = GSend u64 string | GReport u64 string bool

text \<open>Run a sequence of calls; the result is the times at which the account was allowed to send, oldest
  first, and the state.\<close>

fun guard_run :: "outbound_guard \<Rightarrow> string \<Rightarrow> guard_op list \<Rightarrow> guard_state \<Rightarrow> u64 list \<times> guard_state" where
  "guard_run g a [] states = ([], states)"
| "guard_run g a (GSend now b # ops) states =
     (let (v, states') = authorize_send g now b states; (ts, fin) = guard_run g a ops states'
      in (if b = a \<and> is_allow v then now # ts else ts, fin))"
| "guard_run g a (GReport now b d # ops) states = guard_run g a ops (report_outcome g now b d states)"

fun send_times :: "guard_op list \<Rightarrow> u64 list" where
  "send_times [] = []"
| "send_times (GSend now b # ops) = now # send_times ops"
| "send_times (GReport now b d # ops) = send_times ops"

text \<open>The invariant of one account against its history of allowed times.\<close>

definition acct_ok :: "outbound_guard \<Rightarrow> u64 \<Rightarrow> sender_state \<Rightarrow> u64 list \<Rightarrow> bool" where
  "acct_ok g now st hist \<longleftrightarrow>
     window_ok (sd_rate_hits st) hist (sat_sub now (og_rate_window_ms g)) (unat (og_rate_limit g)) \<and>
     window_ok (sd_volume_hits st) hist (sat_sub now (og_volume_window_ms g)) (unat (og_volume_cap g))"

text \<open>What an allowed send has been checked against.\<close>

definition within_limits :: "outbound_guard \<Rightarrow> u64 \<Rightarrow> u64 list \<Rightarrow> bool" where
  "within_limits g now hist \<longleftrightarrow>
     length (filter (\<lambda>t. t \<ge> sat_sub now (og_rate_window_ms g)) hist) < unat (og_rate_limit g) \<and>
     length (filter (\<lambda>t. t \<ge> sat_sub now (og_volume_window_ms g)) hist) < unat (og_volume_cap g)"

lemma window_keep:
  assumes "window_ok hits hist c limit" and "c \<le> c'"
  shows "window_ok (filter (\<lambda>t. t \<ge> c') hits) hist c' limit"
  using window_filter [OF assms] by (auto simp: window_ok_def)

lemma window_push:
  assumes "window_ok hits hist c limit" and "c \<le> c'" and "c' \<le> now"
    and "length (filter (\<lambda>t. t \<ge> c') hits) < limit"
  shows "window_ok (filter (\<lambda>t. t \<ge> c') hits @ [now]) (hist @ [now]) c' limit"
  using window_filter [OF assms(1,2)] assms(3,4) by (auto simp: window_ok_def intro!: exI [of _ c'])

lemma authorize_other:
  "b \<noteq> a \<Longrightarrow> snd (authorize_send g now b states) a = states a"
  by (simp add: authorize_send_def Let_def)

lemma authorize_step:
  assumes ok: "acct_ok g prev (get_or sender_default states a) hist" and "prev \<le> now"
  shows "if is_allow (fst (authorize_send g now a states))
         then within_limits g now hist
              \<and> acct_ok g now (get_or sender_default (snd (authorize_send g now a states)) a) (hist @ [now])
         else acct_ok g now (get_or sender_default (snd (authorize_send g now a states)) a) hist"
proof -
  let ?st = "get_or sender_default states a"
  let ?v = "sat_sub now (og_volume_window_ms g)" and ?r = "sat_sub now (og_rate_window_ms g)"
  have le: "sat_sub prev (og_volume_window_ms g) \<le> ?v" "sat_sub prev (og_rate_window_ms g) \<le> ?r"
    using assms(2) by (simp_all add: sat_sub_mono)
  note vol = ok [unfolded acct_ok_def, THEN conjunct2] and rate = ok [unfolded acct_ok_def, THEN conjunct1]
  have keep: "acct_ok g now ?st hist"
    using vol rate le by (auto simp: acct_ok_def intro: window_mono)
  note vf = window_filter [OF vol le(1)] and rf = window_filter [OF rate le(2)]
  note vk = window_keep [OF vol le(1)] and rk = window_keep [OF rate le(2)]
  note lens = len_u32 [OF vf(2)] len_u32 [OF rf(2)]
  consider (unauth) "\<not> is_authenticated g a" | (barred) "is_authenticated g a" "now < sd_backoff_until ?st"
    | (live) "is_authenticated g a" "\<not> now < sd_backoff_until ?st" by blast
  then show ?thesis
  proof cases
    case unauth
    with keep show ?thesis by (simp add: authorize_send_def is_allow_def)
  next
    case barred
    with keep show ?thesis by (simp add: authorize_send_def is_allow_def Let_def)
  next
    case live
    show ?thesis
    proof (cases "length (filter (\<lambda>t. t \<ge> ?v) (sd_volume_hits ?st)) \<ge> unat (og_volume_cap g)
        \<or> length (filter (\<lambda>t. t \<ge> ?r) (sd_rate_hits ?st)) \<ge> unat (og_rate_limit g)")
      case True
      then show ?thesis
        using live vk rk window_mono [OF rate le(2)]
        by (auto simp: authorize_send_def is_allow_def Let_def lens acct_ok_def)
    next
      case False
      have "window_ok (filter (\<lambda>t. t \<ge> ?v) (sd_volume_hits ?st) @ [now]) (hist @ [now]) ?v (unat (og_volume_cap g))"
        using False by (intro window_push [OF vol le(1) sat_sub_le]) simp
      moreover have "window_ok (filter (\<lambda>t. t \<ge> ?r) (sd_rate_hits ?st) @ [now]) (hist @ [now]) ?r (unat (og_rate_limit g))"
        using False by (intro window_push [OF rate le(2) sat_sub_le]) simp
      moreover have "within_limits g now hist"
        using False vf(1) rf(1) by (simp add: within_limits_def)
      ultimately show ?thesis
        using live False by (simp add: authorize_send_def is_allow_def Let_def lens acct_ok_def)
    qed
  qed
qed

lemma report_hits:
  "acct_ok g now (get_or sender_default (report_outcome g t b d states) a) hist
   \<longleftrightarrow> acct_ok g now (get_or sender_default states a) hist"
  by (cases "b = a") (auto simp: report_outcome_def Let_def acct_ok_def)

lemma guard_run_limits:
  assumes "acct_ok g prev (get_or sender_default states a) hist" and "sorted (prev # send_times ops)"
    and "fst (guard_run g a ops states) = xs @ t # ys"
  shows "within_limits g t (hist @ xs)"
  using assms
proof (induction ops arbitrary: states hist prev xs)
  case (Cons op ops)
  show ?case
  proof (cases op)
    case (GReport now b d)
    with Cons.prems Cons.IH [of prev "report_outcome g now b d states" hist xs] show ?thesis
      by (simp add: report_hits)
  next
    case (GSend now b)
    let ?r = "authorize_send g now b states"
    have le: "prev \<le> now" "sorted (now # send_times ops)" using Cons.prems(2) GSend by auto
    show ?thesis
    proof (cases "b = a \<and> is_allow (fst ?r)")
      case True
      then have step: "within_limits g now hist" "acct_ok g now (get_or sender_default (snd ?r) a) (hist @ [now])"
        using authorize_step [OF Cons.prems(1) le(1)] by auto
      have run: "now # fst (guard_run g a ops (snd ?r)) = xs @ t # ys"
        using Cons.prems(3) GSend True by (auto simp: case_prod_unfold Let_def)
      show ?thesis
      proof (cases xs)
        case Nil
        with run step(1) show ?thesis by simp
      next
        case (Cons x xs')
        with run Cons.IH [OF step(2) le(2), of xs'] show ?thesis by auto
      qed
    next
      case False
      have "acct_ok g now (get_or sender_default (snd ?r) a) hist"
      proof (cases "b = a")
        case True
        with False authorize_step [OF Cons.prems(1) le(1)] show ?thesis by auto
      next
        case False
        then have "get_or sender_default (snd ?r) a = get_or sender_default states a"
          by (simp add: get_or_def authorize_other)
        then show ?thesis
          using Cons.prems(1) le(1) by (auto simp: acct_ok_def intro: window_mono sat_sub_mono)
      qed
      moreover have "fst (guard_run g a ops (snd ?r)) = xs @ t # ys"
        using Cons.prems(3) GSend False by (auto simp: case_prod_unfold Let_def)
      ultimately show ?thesis using Cons.IH [of now "snd ?r" hist xs] le(2) by simp
    qed
  qed
qed simp

section \<open>Properties\<close>

text \<open>C38: the rate and volume limits hold over every sliding window as long as the clock does not go back. In
  any run of the guard from its start whose sends have, in the order they take the lock, non-decreasing
  clock readings, with any outcomes reported in between, whenever a
  send of an account is allowed, fewer than the rate limit of its sends were allowed in the rate window
  before it and fewer than the volume cap in the volume window, however the calls of other accounts
  interleave. The hypothesis is needed: see \<open>late_reading_exceeds\<close>.\<close>

theorem guard_window_limits:
  assumes "sorted (send_times ops)" and "fst (guard_run g a ops Map.empty) = xs @ t # ys"
  shows "length (filter (\<lambda>u. u \<ge> sat_sub t (og_rate_window_ms g)) xs) < unat (og_rate_limit g)
    \<and> length (filter (\<lambda>u. u \<ge> sat_sub t (og_volume_window_ms g)) xs) < unat (og_volume_cap g)"
proof -
  have "acct_ok g 0 (get_or sender_default Map.empty a) []"
    by (auto simp: acct_ok_def window_ok_def sender_default_def get_or_def)
  moreover have "sorted (0 # send_times ops)" using assms(1) by simp
  ultimately show ?thesis
    using guard_run_limits [of g 0 Map.empty a "[]" ops xs t ys] assms(2) by (simp add: within_limits_def)
qed

definition demo_guard :: outbound_guard where
  "demo_guard = require_registered [''a''] (with_rate_limit 1 100 guard_default)"

lemma demo_guard_sel [simp]:
  "og_rate_limit demo_guard = 1" "og_rate_window_ms demo_guard = 100"
  "og_volume_cap demo_guard = 500" "og_volume_window_ms demo_guard = 86400000"
  by (simp_all add: demo_guard_def require_registered_def with_rate_limit_def guard_default_def)

lemma demo_auth: "is_authenticated demo_guard ''a''"
proof -
  have "trim ''a'' = ''a''" by (rule trim_graphic) simp
  then show ?thesis
    by (simp add: is_authenticated_def demo_guard_def require_registered_def)
qed

lemma demo_run: "fst (guard_run demo_guard ''a'' [GSend 5 ''a'', GSend 50 ''a'', GSend 150 ''a''] Map.empty) = [5, 150]"
proof -
  let ?s = "\<lambda>ts vs. \<lparr>sd_rate_hits = ts, sd_volume_hits = vs, sd_strikes = 0, sd_backoff_until = 0\<rparr>"
  have 1: "authorize_send demo_guard 5 ''a'' Map.empty = (Allow, [''a'' \<mapsto> ?s [5] [5]])"
    by (simp add: authorize_send_def demo_auth Let_def get_or_def sender_default_def)
  have one: "\<not> (500 :: u32) \<le> 1" by (simp add: word_le_nat_alt)
  have 2: "authorize_send demo_guard 50 ''a'' [''a'' \<mapsto> ?s [5] [5]] =
      (Throttle 55 ''4.7.1 per-sender outbound rate limit exceeded; slow down'', [''a'' \<mapsto> ?s [5] [5]])"
    by (simp add: authorize_send_def demo_auth Let_def get_or_def sat_sub_def one)
  have 3: "authorize_send demo_guard 150 ''a'' [''a'' \<mapsto> ?s [5] [5]] = (Allow, [''a'' \<mapsto> ?s [150] [5, 150]])"
    by (simp add: authorize_send_def demo_auth Let_def get_or_def sat_sub_def one)
  show ?thesis by (simp add: 1 2 3 is_allow_def)
qed

theorem guard_window_limits_witness:
  "length (filter (\<lambda>u. u \<ge> sat_sub 150 (og_rate_window_ms demo_guard)) [5]) < unat (og_rate_limit demo_guard)"
  using guard_window_limits [of "[GSend 5 ''a'', GSend 50 ''a'', GSend 150 ''a'']" demo_guard "''a''" "[5]" 150 "[]"]
    demo_run by simp

text \<open>Without it the limit fails: a reading that reaches the guard late is counted against a list from which a
  later reading has already dropped hits of its window. With a limit of 3 per 100 ms the five sends at 5, 6, 60, 110 and
  105 are all allowed, although four of them lie between 5 and 105.\<close>

definition late_guard :: outbound_guard where
  "late_guard = require_registered [''a''] (with_rate_limit 3 100 guard_default)"

lemma late_reading_exceeds:
  "fst (guard_run late_guard ''a'' [GSend 5 ''a'', GSend 6 ''a'', GSend 60 ''a'', GSend 110 ''a'', GSend 105 ''a''] Map.empty)
     = [5, 6, 60, 110, 105]"
proof -
  let ?s = "\<lambda>ts vs. \<lparr>sd_rate_hits = ts, sd_volume_hits = vs, sd_strikes = 0, sd_backoff_until = 0\<rparr>"
  have sel: "og_rate_limit late_guard = 3" "og_rate_window_ms late_guard = 100"
      "og_volume_cap late_guard = 500" "og_volume_window_ms late_guard = 86400000"
    by (simp_all add: late_guard_def require_registered_def with_rate_limit_def guard_default_def)
  have "trim ''a'' = ''a''" by (rule trim_graphic) simp
  then have auth: "is_authenticated late_guard ''a''"
    by (simp add: is_authenticated_def late_guard_def require_registered_def)
  have small: "\<not> (500 :: u32) \<le> 1" "\<not> (500 :: u32) \<le> 2" "\<not> (500 :: u32) \<le> 3" "\<not> (500 :: u32) \<le> 4"
      "\<not> (3 :: u32) \<le> 1" "\<not> (3 :: u32) \<le> 2"
    by (simp_all add: word_le_nat_alt)
  note run = authorize_send_def auth sel Let_def get_or_def sat_sub_def small sender_default_def
  have 1: "authorize_send late_guard 5 ''a'' Map.empty = (Allow, [''a'' \<mapsto> ?s [5] [5]])" by (simp add: run)
  have 2: "authorize_send late_guard 6 ''a'' [''a'' \<mapsto> ?s [5] [5]] = (Allow, [''a'' \<mapsto> ?s [5, 6] [5, 6]])" by (simp add: run)
  have 3: "authorize_send late_guard 60 ''a'' [''a'' \<mapsto> ?s [5, 6] [5, 6]]
      = (Allow, [''a'' \<mapsto> ?s [5, 6, 60] [5, 6, 60]])" by (simp add: run)
  have 4: "authorize_send late_guard 110 ''a'' [''a'' \<mapsto> ?s [5, 6, 60] [5, 6, 60]]
      = (Allow, [''a'' \<mapsto> ?s [60, 110] [5, 6, 60, 110]])" by (simp add: run)
  have 5: "authorize_send late_guard 105 ''a'' [''a'' \<mapsto> ?s [60, 110] [5, 6, 60, 110]]
      = (Allow, [''a'' \<mapsto> ?s [60, 110, 105] [5, 6, 60, 110, 105]])" by (simp add: run)
  show ?thesis by (simp add: 1 2 3 4 5 is_allow_def)
qed

text \<open>Backoff after a failed delivery. Reporting a failure raises the account's strikes and bars it
  until the clock plus the base delay doubled per earlier strike, at most \<open>max_shift\<close> times, every step
  saturating; until then every send of an authenticated account is throttled with exactly the time
  left, and no other account is affected.\<close>

theorem failure_backoff:
  "let st = get_or sender_default states a;
       k = min (unat (sat_add (sd_strikes st) 1) - 1) (unat (og_backoff_max_shift g));
       states' = report_outcome g now a False states;
       until = sd_backoff_until (get_or sender_default states' a)
   in unat until = min (unat now + min (unat (og_backoff_base_ms g) * (if k < 64 then 2 ^ k else 2 ^ 64 - 1)) (2 ^ 64 - 1))
                     (2 ^ 64 - 1)
      \<and> unat (strikes_of states' a) = min (unat (sd_strikes st) + 1) (2 ^ 32 - 1)
      \<and> authorize_send g later a states' =
          (if is_authenticated g a \<and> later < until
           then (Throttle (until - later) ''4.7.1 sender in reputation backoff after prior delivery failures'', states')
           else authorize_send g later a states')
      \<and> (b = a \<or> states' b = states b)"
proof -
  let ?st = "get_or sender_default states a"
  let ?s = "sat_add (sd_strikes ?st) 1"
  let ?sh = "min (?s - 1) (og_backoff_max_shift g)"
  have "1 \<le> unat ?s" by (simp add: unat_sat_add)
  then have "unat (?s - 1) = unat ?s - 1" by (subst unat_sub_le) (simp_all add: word_le_nat_alt)
  then have sh: "unat ?sh = min (unat ?s - 1) (unat (og_backoff_max_shift g))"
    by (simp add: min_def word_le_nat_alt)
  have shl: "unat (checked_shl1 ?sh) = (if unat ?sh < 64 then 2 ^ unat ?sh else 2 ^ 64 - 1)"
    by (rule unat_checked_shl1)
  show ?thesis
    unfolding Let_def sh [symmetric] shl [symmetric]
    by (simp add: report_outcome_def Let_def unat_sat_add unat_sat_mul strikes_of_def authorize_send_def)
qed

end
