(* ===== verification/Rust_Net.thy ===== *)
theory Rust_Net
  imports Rust_Strings
begin

text \<open>
  \<open>std::net\<close>: IP addresses as the words of their octets, and the \<open>FromStr\<close> parsers of
  \<open>Ipv4Addr\<close> and \<open>Ipv6Addr\<close>. A reader takes the remaining input and returns the value and what is
  left; on \<open>None\<close> the caller goes on from where it was, as the standard library's
  \<open>read_atomically\<close> does.
\<close>

datatype ip_addr = V4 u32 | V6 u128

fun to_digit :: "nat \<Rightarrow> char \<Rightarrow> nat option" where
  "to_digit radix c =
     (let n = byte_of c;
          d = (if 48 \<le> n \<and> n \<le> 57 then n - 48
               else if 97 \<le> n \<and> n \<le> 122 then n - 87
               else if 65 \<le> n \<and> n \<le> 90 then n - 55 else radix)
      in if d < radix then Some d else None)"

fun read_digits :: "nat \<Rightarrow> string \<Rightarrow> nat list \<times> string" where
  "read_digits radix [] = ([], [])"
| "read_digits radix (c # cs) =
     (case to_digit radix c of
        None \<Rightarrow> ([], c # cs)
      | Some d \<Rightarrow> (let (ds, s) = read_digits radix cs in (d # ds, s)))"

text \<open>At least one and at most \<open>max_digits\<close> digits with a value of at most \<open>limit\<close>.\<close>

definition read_number :: "nat \<Rightarrow> nat \<Rightarrow> bool \<Rightarrow> nat \<Rightarrow> string \<Rightarrow> (nat \<times> string) option" where
  "read_number radix max_digits allow_zero_prefix limit s =
     (let (ds, s') = read_digits radix s; v = foldl (\<lambda>n d. radix * n + d) 0 ds in
      if ds = [] \<or> length ds > max_digits then None
      else if \<not> allow_zero_prefix \<and> hd ds = 0 \<and> length ds > 1 then None
      else if v > limit then None else Some (v, s'))"

definition read_given_char :: "char \<Rightarrow> string \<Rightarrow> string option" where
  "read_given_char c s = (case s of d # s' \<Rightarrow> if d = c then Some s' else None | [] \<Rightarrow> None)"

definition read_separator :: "char \<Rightarrow> nat \<Rightarrow> (string \<Rightarrow> ('a \<times> string) option) \<Rightarrow> string \<Rightarrow> ('a \<times> string) option" where
  "read_separator sep index inner s =
     (if index > 0 then Option.bind (read_given_char sep s) inner else inner s)"

fun read_octets :: "nat \<Rightarrow> nat \<Rightarrow> string \<Rightarrow> (nat list \<times> string) option" where
  "read_octets 0 i s = Some ([], s)"
| "read_octets (Suc n) i s =
     Option.bind (read_separator (CHR ''.'') i (read_number 10 3 False 255) s) (\<lambda>(d, s').
       map_option (\<lambda>(ds, s''). (d # ds, s'')) (read_octets n (Suc i) s'))"

definition read_ipv4_addr :: "string \<Rightarrow> (nat list \<times> string) option" where
  "read_ipv4_addr s = read_octets 4 0 s"

text \<open>The groups read before the first that fails, and whether the last two came from an
  embedded IPv4 address, which needs room for two groups.\<close>

fun read_groups :: "nat \<Rightarrow> nat \<Rightarrow> string \<Rightarrow> nat list \<times> bool \<times> string" where
  "read_groups 0 i s = ([], False, s)"
| "read_groups (Suc n) i s =
     (case (if n > 0 then read_separator (CHR '':'') i read_ipv4_addr s else None) of
        Some (ds, s') \<Rightarrow> ([256 * ds ! 0 + ds ! 1, 256 * ds ! 2 + ds ! 3], True, s')
      | None \<Rightarrow>
          (case read_separator (CHR '':'') i (read_number 16 4 True 65535) s of
             None \<Rightarrow> ([], False, s)
           | Some (g, s') \<Rightarrow>
               (let (gs, v4, s'') = read_groups n (Suc i) s' in (g # gs, v4, s''))))"

definition read_ipv6_addr :: "string \<Rightarrow> (nat list \<times> string) option" where
  "read_ipv6_addr s =
     (let (head, head_ipv4, s1) = read_groups 8 0 s in
      if length head = 8 then Some (head, s1)
      else if head_ipv4 then None
      else Option.bind (read_given_char (CHR '':'') s1) (\<lambda>s2.
           Option.bind (read_given_char (CHR '':'') s2) (\<lambda>s3.
             let (tail, _, s4) = read_groups (7 - length head) 0 s3
             in Some (head @ replicate (8 - length head - length tail) 0 @ tail, s4))))"

definition parse_with :: "('a \<times> string) option \<Rightarrow> 'a option" where
  "parse_with r = (case r of Some (v, []) \<Rightarrow> Some v | _ \<Rightarrow> None)"

definition parse_ipv4 :: "string \<Rightarrow> u32 option" where
  "parse_ipv4 s =
     (if length s > 15 then None
      else map_option (\<lambda>ds. of_nat (foldl (\<lambda>n d. 256 * n + d) 0 ds)) (parse_with (read_ipv4_addr s)))"

definition parse_ipv6 :: "string \<Rightarrow> u128 option" where
  "parse_ipv6 s =
     map_option (\<lambda>gs. of_nat (foldl (\<lambda>n d. 65536 * n + d) 0 gs)) (parse_with (read_ipv6_addr s))"

text \<open>\<open>IpAddr::from_str\<close> tries the dotted form first.\<close>

definition parse_ip :: "string \<Rightarrow> ip_addr option" where
  "parse_ip s =
     (case parse_ipv4 s of
        Some a \<Rightarrow> Some (V4 a)
      | None \<Rightarrow> map_option V6 (parse_ipv6 s))"

end
