(* ===== verification/Gw_Spf.thy ===== *)
theory Gw_Spf
  imports Rust_Net
begin

text \<open>
  SPF (\<open>gateway/src/spf.rs\<close>): parsing of \<open>v=spf1\<close> records and the evaluator with its lookup
  budget. The resolver is a record of four query functions over a state of its own, so that an
  answer may depend on everything asked before; the in-memory resolver of the source is one
  instance. The evaluator's methods thread its counters and the resolver's state.

  The second half gives the records a semantics without any budget, as an inductive relation
  \<open>spf_sem\<close>. It is the meaning the evaluator gives them, over the parser and the address tests of the module: \<open>ptr\<close> never
  matches, a macro ends the evaluation with \<open>PermError\<close>, and a redirect passes on the result of its target, \<open>SpfNone\<close>
  included, where RFC 7208 asks for \<open>PermError\<close>.
\<close>

unbundle bit_operations_syntax

section \<open>Results, mechanisms, records\<close>

datatype spf_result = SpfPass | SpfFail | SpfSoftFail | SpfNeutral | SpfNone | TempError | PermError

record spf_outcome =
  so_result :: spf_result
  so_domain :: string

definition unevaluated :: spf_outcome where
  "unevaluated = \<lparr>so_result = SpfNone, so_domain = []\<rparr>"

datatype qualifier = QPass | QFail | QSoftFail | QNeutral

fun qualifier_to_result :: "qualifier \<Rightarrow> spf_result" where
  "qualifier_to_result QPass = SpfPass"
| "qualifier_to_result QFail = SpfFail"
| "qualifier_to_result QSoftFail = SpfSoftFail"
| "qualifier_to_result QNeutral = SpfNeutral"

datatype mechanism =
    MAll
  | MInclude string
  | MA "string option" u8 u8
  | MMx "string option" u8 u8
  | MIp4 u32 u8
  | MIp6 u128 u8
  | MPtr
  | MExists string

record parsed_record =
  pr_mechanisms :: "(qualifier \<times> mechanism) list"
  pr_redirect :: "string option"

section \<open>Parsing\<close>

definition parse_dual_cidr :: "string \<Rightarrow> unit + (u8 \<times> u8)" where
  "parse_dual_cidr cidr_part =
     (if cidr_part = [] then Inr (32, 128)
      else case strip_prefix ''//'' cidr_part of
        Some v6only \<Rightarrow>
          bindE (ok_or () (parse_u8 v6only)) (\<lambda>v. if v > 128 then Inl () else Inr (32, v))
      | None \<Rightarrow>
          bindE (ok_or () (strip_prefix ''/'' cidr_part)) (\<lambda>rest.
            case split_on (CHR ''/'') rest of
              [p0] \<Rightarrow>
                bindE (ok_or () (parse_u8 p0)) (\<lambda>c4. if c4 > 32 then Inl () else Inr (c4, 128))
            | [p0, p1] \<Rightarrow>
                bindE (ok_or () (parse_u8 p0)) (\<lambda>c4.
                bindE (ok_or () (parse_u8 p1)) (\<lambda>c6.
                  if c4 > 32 \<or> c6 > 128 then Inl () else Inr (c4, c6)))
            | _ \<Rightarrow> Inl ()))"

text \<open>\<open>s.find(c)\<close> as the two parts around the position found: what precedes it, and what starts
  there (empty when there is none).\<close>

definition split_at_first :: "(char \<Rightarrow> bool) \<Rightarrow> string \<Rightarrow> string \<times> string" where
  "split_at_first P s = (takeWhile (\<lambda>c. \<not> P c) s, dropWhile (\<lambda>c. \<not> P c) s)"

definition parse_domain_spec :: "string \<Rightarrow> unit + (string option \<times> u8 \<times> u8)" where
  "parse_domain_spec rest =
     (let (domain_part, cidr_part) = split_at_first (\<lambda>c. c = CHR ''/'') rest in
      bindE (case strip_prefix '':'' domain_part of
               Some d \<Rightarrow> if d = [] then Inl () else Inr (Some d)
             | None \<Rightarrow> if domain_part = [] then Inr None else Inl ()) (\<lambda>domain.
      bindE (parse_dual_cidr cidr_part) (\<lambda>(cidr4, cidr6). Inr (domain, cidr4, cidr6))))"

definition parse_ip4_cidr :: "string \<Rightarrow> unit + (u32 \<times> u8)" where
  "parse_ip4_cidr v =
     bindE (case split_once (CHR ''/'') v of
              Some (a, c) \<Rightarrow> map_sum id (\<lambda>cidr. (a, cidr)) (ok_or () (parse_u8 c))
            | None \<Rightarrow> Inr (v, 32)) (\<lambda>(addr, cidr).
       if cidr > 32 then Inl ()
       else bindE (ok_or () (parse_ipv4 addr)) (\<lambda>ip. Inr (ip, cidr)))"

definition parse_ip6_cidr :: "string \<Rightarrow> unit + (u128 \<times> u8)" where
  "parse_ip6_cidr v =
     bindE (case split_once (CHR ''/'') v of
              Some (a, c) \<Rightarrow> map_sum id (\<lambda>cidr. (a, cidr)) (ok_or () (parse_u8 c))
            | None \<Rightarrow> Inr (v, 128)) (\<lambda>(addr, cidr).
       if cidr > 128 then Inl ()
       else bindE (ok_or () (parse_ipv6 addr)) (\<lambda>ip. Inr (ip, cidr)))"

definition parse_mechanism :: "string \<Rightarrow> unit + mechanism" where
  "parse_mechanism s =
     (if s = [] then Inl ()
      else
        (let (kw, rest) = split_at_first (\<lambda>c. c = CHR '':'' \<or> c = CHR ''/'') s;
             keyword = to_ascii_lowercase kw in
         if keyword = ''all'' then if rest \<noteq> [] then Inl () else Inr MAll
         else if keyword = ''include'' then
           bindE (ok_or () (strip_prefix '':'' rest)) (\<lambda>v. if v = [] then Inl () else Inr (MInclude v))
         else if keyword = ''exists'' then
           bindE (ok_or () (strip_prefix '':'' rest)) (\<lambda>v. if v = [] then Inl () else Inr (MExists v))
         else if keyword = ''a'' then
           bindE (parse_domain_spec rest) (\<lambda>(domain, cidr4, cidr6). Inr (MA domain cidr4 cidr6))
         else if keyword = ''mx'' then
           bindE (parse_domain_spec rest) (\<lambda>(domain, cidr4, cidr6). Inr (MMx domain cidr4 cidr6))
         else if keyword = ''ptr'' then
           if rest \<noteq> [] \<and> (case strip_prefix '':'' rest of Some d \<Rightarrow> d = [] | None \<Rightarrow> True)
           then Inl () else Inr MPtr
         else if keyword = ''ip4'' then
           bindE (ok_or () (strip_prefix '':'' rest)) (\<lambda>v.
           bindE (parse_ip4_cidr v) (\<lambda>(net, cidr). Inr (MIp4 net cidr)))
         else if keyword = ''ip6'' then
           bindE (ok_or () (strip_prefix '':'' rest)) (\<lambda>v.
           bindE (parse_ip6_cidr v) (\<lambda>(net, cidr). Inr (MIp6 net cidr)))
         else Inl ()))"

definition parse_qualifier :: "string \<Rightarrow> qualifier \<times> string" where
  "parse_qualifier term =
     (case term of
        c # rest \<Rightarrow>
          if c = CHR ''+'' then (QPass, rest)
          else if c = CHR ''-'' then (QFail, rest)
          else if c = CHR ''~'' then (QSoftFail, rest)
          else if c = CHR ''?'' then (QNeutral, rest)
          else (QPass, term)
      | [] \<Rightarrow> (QPass, term))"

fun parse_terms :: "string list \<Rightarrow> (qualifier \<times> mechanism) list \<Rightarrow> string option \<Rightarrow> unit + parsed_record" where
  "parse_terms [] mechanisms redirect = Inr \<lparr>pr_mechanisms = mechanisms, pr_redirect = redirect\<rparr>"
| "parse_terms (term # terms) mechanisms redirect =
     (if term = [] then parse_terms terms mechanisms redirect
      else case split_once (CHR ''='') term of
        Some (name, val) \<Rightarrow>
          if eq_ignore_ascii_case name ''redirect''
          then (if redirect \<noteq> None \<or> val = [] then Inl () else parse_terms terms mechanisms (Some val))
          else parse_terms terms mechanisms redirect
      | None \<Rightarrow>
          (let (qualifier, rest) = parse_qualifier term in
           bindE (parse_mechanism rest) (\<lambda>mech.
             parse_terms terms (mechanisms @ [(qualifier, mech)]) redirect)))"

definition parse_spf_record :: "string \<Rightarrow> unit + parsed_record" where
  "parse_spf_record rec =
     (case split_whitespace rec of
        [] \<Rightarrow> Inl ()
      | version # terms \<Rightarrow> if version \<noteq> ''v=spf1'' then Inl () else parse_terms terms [] None)"

section \<open>Addresses\<close>

definition ipv4_in_cidr :: "u32 \<Rightarrow> u32 \<Rightarrow> u8 \<Rightarrow> bool" where
  "ipv4_in_cidr ip net cidr0 =
     (if cidr0 = 0 then True
      else
        (let cidr = min cidr0 32;
             m = (if cidr = 32 then -1 else NOT (drop_bit (unat cidr) (-1)))
         in ip AND m = net AND m))"

definition ipv6_in_cidr :: "u128 \<Rightarrow> u128 \<Rightarrow> u8 \<Rightarrow> bool" where
  "ipv6_in_cidr ip net cidr0 =
     (if cidr0 = 0 then True
      else
        (let cidr = min cidr0 128;
             m = (if cidr = 128 then -1 else NOT (drop_bit (unat cidr) (-1)))
         in ip AND m = net AND m))"

definition normalize :: "string \<Rightarrow> string" where
  "normalize d = to_ascii_lowercase (trim_end_char (CHR ''.'') (trim d))"

definition is_spf1_record :: "string \<Rightarrow> bool" where
  "is_spf1_record t0 = (let t = trim t0 in t = ''v=spf1'' \<or> starts_with ''v=spf1 '' t)"

fun mechanism_has_macro :: "mechanism \<Rightarrow> bool" where
  "mechanism_has_macro (MInclude d) = (CHR ''%'' \<in> set d)"
| "mechanism_has_macro (MExists d) = (CHR ''%'' \<in> set d)"
| "mechanism_has_macro (MA (Some d) _ _) = (CHR ''%'' \<in> set d)"
| "mechanism_has_macro (MMx (Some d) _ _) = (CHR ''%'' \<in> set d)"
| "mechanism_has_macro _ = False"

section \<open>The evaluator\<close>

type_synonym ('w, 'a) lookup_fn = "string \<Rightarrow> 'w \<Rightarrow> (unit + 'a list) \<times> 'w"

record 'w spf_resolver =
  lookup_txt :: "('w, string) lookup_fn"
  lookup_a :: "('w, u32) lookup_fn"
  lookup_aaaa :: "('w, u128) lookup_fn"
  lookup_mx :: "('w, string) lookup_fn"

datatype mech_outcome = MMatch | MNoMatch | MAbort spf_result

record 'w evaluator =
  ev_lookups :: u32
  ev_max_lookups :: u32
  ev_void_lookups :: u32
  ev_max_void_lookups :: u32
  ev_world :: 'w

definition DEFAULT_MAX_LOOKUPS :: u32 where
  "DEFAULT_MAX_LOOKUPS = 10"

definition DEFAULT_MAX_VOID_LOOKUPS :: u32 where
  "DEFAULT_MAX_VOID_LOOKUPS = 2"

definition MAX_CHAIN_DEPTH :: u32 where
  "MAX_CHAIN_DEPTH = 10"

definition charge_lookup :: "'w evaluator \<Rightarrow> (spf_result + unit) \<times> 'w evaluator" where
  "charge_lookup ev =
     (let ev' = ev\<lparr>ev_lookups := ev_lookups ev + 1\<rparr> in
      (if ev_lookups ev' > ev_max_lookups ev' then Inl PermError else Inr (), ev'))"

definition charge_void :: "'w evaluator \<Rightarrow> (spf_result + unit) \<times> 'w evaluator" where
  "charge_void ev =
     (let ev' = ev\<lparr>ev_void_lookups := ev_void_lookups ev + 1\<rparr> in
      (if ev_void_lookups ev' > ev_max_void_lookups ev' then Inl PermError else Inr (), ev'))"

definition ask :: "('w, 'a) lookup_fn \<Rightarrow> string \<Rightarrow> 'w evaluator \<Rightarrow> (unit + 'a list) \<times> 'w evaluator" where
  "ask f name ev = (let (r, w) = f name (ev_world ev) in (r, ev\<lparr>ev_world := w\<rparr>))"

definition void_outcome :: "'w evaluator \<Rightarrow> mech_outcome \<times> 'w evaluator" where
  "void_outcome ev =
     (case charge_void ev of (Inr _, ev') \<Rightarrow> (MNoMatch, ev') | (Inl e, ev') \<Rightarrow> (MAbort e, ev'))"

definition match_answer :: "('a \<Rightarrow> bool) \<Rightarrow> (unit + 'a list) \<times> 'w evaluator \<Rightarrow> mech_outcome \<times> 'w evaluator" where
  "match_answer P r =
     (case r of
        (Inl _, ev) \<Rightarrow> (MAbort TempError, ev)
      | (Inr ips, ev) \<Rightarrow>
          if ips = [] then void_outcome ev
          else (if list_ex P ips then MMatch else MNoMatch, ev))"

definition match_address_lookup :: "'w spf_resolver \<Rightarrow> string \<Rightarrow> ip_addr \<Rightarrow> u8 \<Rightarrow> u8 \<Rightarrow> 'w evaluator
    \<Rightarrow> mech_outcome \<times> 'w evaluator" where
  "match_address_lookup r target ip cidr4 cidr6 ev =
     (case ip of
        V4 v4 \<Rightarrow> match_answer (\<lambda>a. ipv4_in_cidr v4 a cidr4) (ask (lookup_a r) target ev)
      | V6 v6 \<Rightarrow> match_answer (\<lambda>a. ipv6_in_cidr v6 a cidr6) (ask (lookup_aaaa r) target ev))"

fun mx_loop :: "'w spf_resolver \<Rightarrow> ip_addr \<Rightarrow> u8 \<Rightarrow> u8 \<Rightarrow> string list \<Rightarrow> 'w evaluator
    \<Rightarrow> mech_outcome \<times> 'w evaluator" where
  "mx_loop r ip cidr4 cidr6 [] ev = (MNoMatch, ev)"
| "mx_loop r ip cidr4 cidr6 (host # hosts) ev =
     (case charge_lookup ev of
        (Inl e, ev1) \<Rightarrow> (MAbort e, ev1)
      | (Inr _, ev1) \<Rightarrow>
          (case match_address_lookup r (normalize host) ip cidr4 cidr6 ev1 of
             (MNoMatch, ev2) \<Rightarrow> mx_loop r ip cidr4 cidr6 hosts ev2
           | (out, ev2) \<Rightarrow> (out, ev2)))"

text \<open>The recursive call \<open>self.check_host(target, ip, sender, depth + 1)\<close> is the argument \<open>check\<close>.\<close>

definition eval_mechanism :: "(string \<Rightarrow> 'w evaluator \<Rightarrow> spf_result \<times> 'w evaluator) \<Rightarrow> 'w spf_resolver
    \<Rightarrow> mechanism \<Rightarrow> string \<Rightarrow> ip_addr \<Rightarrow> 'w evaluator \<Rightarrow> mech_outcome \<times> 'w evaluator" where
  "eval_mechanism check r m current_domain ip ev =
     (case m of
        MAll \<Rightarrow> (MMatch, ev)
      | MInclude target \<Rightarrow>
          (case charge_lookup ev of
             (Inl e, ev1) \<Rightarrow> (MAbort e, ev1)
           | (Inr _, ev1) \<Rightarrow>
               (case check target ev1 of
                  (SpfPass, ev2) \<Rightarrow> (MMatch, ev2)
                | (SpfFail, ev2) \<Rightarrow> (MNoMatch, ev2)
                | (SpfSoftFail, ev2) \<Rightarrow> (MNoMatch, ev2)
                | (SpfNeutral, ev2) \<Rightarrow> (MNoMatch, ev2)
                | (TempError, ev2) \<Rightarrow> (MAbort TempError, ev2)
                | (SpfNone, ev2) \<Rightarrow> (MAbort PermError, ev2)
                | (PermError, ev2) \<Rightarrow> (MAbort PermError, ev2)))
      | MIp4 net cidr \<Rightarrow>
          (case ip of
             V4 v4 \<Rightarrow> (if ipv4_in_cidr v4 net cidr then MMatch else MNoMatch, ev)
           | V6 _ \<Rightarrow> (MNoMatch, ev))
      | MIp6 net cidr \<Rightarrow>
          (case ip of
             V6 v6 \<Rightarrow> (if ipv6_in_cidr v6 net cidr then MMatch else MNoMatch, ev)
           | V4 _ \<Rightarrow> (MNoMatch, ev))
      | MA domain cidr4 cidr6 \<Rightarrow>
          (let target = (case domain of Some d \<Rightarrow> d | None \<Rightarrow> current_domain) in
           case charge_lookup ev of
             (Inl e, ev1) \<Rightarrow> (MAbort e, ev1)
           | (Inr _, ev1) \<Rightarrow> match_address_lookup r (normalize target) ip cidr4 cidr6 ev1)
      | MMx domain cidr4 cidr6 \<Rightarrow>
          (let target = (case domain of Some d \<Rightarrow> d | None \<Rightarrow> current_domain) in
           case charge_lookup ev of
             (Inl e, ev1) \<Rightarrow> (MAbort e, ev1)
           | (Inr _, ev1) \<Rightarrow>
               (case ask (lookup_mx r) (normalize target) ev1 of
                  (Inl _, ev2) \<Rightarrow> (MAbort TempError, ev2)
                | (Inr hosts, ev2) \<Rightarrow>
                    if hosts = [] then void_outcome ev2
                    else mx_loop r ip cidr4 cidr6 hosts ev2))
      | MPtr \<Rightarrow>
          (case charge_lookup ev of (Inl e, ev1) \<Rightarrow> (MAbort e, ev1) | (Inr _, ev1) \<Rightarrow> (MNoMatch, ev1))
      | MExists target \<Rightarrow>
          (case charge_lookup ev of
             (Inl e, ev1) \<Rightarrow> (MAbort e, ev1)
           | (Inr _, ev1) \<Rightarrow> match_answer (\<lambda>_. True) (ask (lookup_a r) (normalize target) ev1)))"

text \<open>The loop over the mechanisms of a record: a verdict, or \<open>None\<close> when none of them decides.\<close>

fun mech_loop :: "(string \<Rightarrow> 'w evaluator \<Rightarrow> spf_result \<times> 'w evaluator) \<Rightarrow> 'w spf_resolver \<Rightarrow> string \<Rightarrow> ip_addr
    \<Rightarrow> (qualifier \<times> mechanism) list \<Rightarrow> 'w evaluator \<Rightarrow> spf_result option \<times> 'w evaluator" where
  "mech_loop check r domain ip [] ev = (None, ev)"
| "mech_loop check r domain ip ((q, m) # ms) ev =
     (if mechanism_has_macro m then (Some PermError, ev)
      else case eval_mechanism check r m domain ip ev of
        (MMatch, ev1) \<Rightarrow> (Some (qualifier_to_result q), ev1)
      | (MNoMatch, ev1) \<Rightarrow> mech_loop check r domain ip ms ev1
      | (MAbort res, ev1) \<Rightarrow> (Some res, ev1))"

function ev_check_host :: "'w spf_resolver \<Rightarrow> ip_addr \<Rightarrow> u32 \<Rightarrow> string \<Rightarrow> 'w evaluator
    \<Rightarrow> spf_result \<times> 'w evaluator" where
  "ev_check_host r ip depth domain ev =
     (if depth > MAX_CHAIN_DEPTH then (PermError, ev)
      else
        (let domain_n = normalize domain in
         if domain_n = [] then (SpfNone, ev)
         else case ask (lookup_txt r) domain_n ev of
           (Inl _, ev1) \<Rightarrow> (TempError, ev1)
         | (Inr txts, ev1) \<Rightarrow>
             (case filter is_spf1_record txts of
                [] \<Rightarrow> (SpfNone, ev1)
              | [rec] \<Rightarrow>
                  (case parse_spf_record rec of
                     Inl _ \<Rightarrow> (PermError, ev1)
                   | Inr parsed \<Rightarrow>
                       (case mech_loop (ev_check_host r ip (depth + 1)) r domain_n ip (pr_mechanisms parsed) ev1 of
                          (Some res, ev2) \<Rightarrow> (res, ev2)
                        | (None, ev2) \<Rightarrow>
                            (case pr_redirect parsed of
                               None \<Rightarrow> (SpfNeutral, ev2)
                             | Some target \<Rightarrow>
                                 if CHR ''%'' \<in> set target then (PermError, ev2)
                                 else (case charge_lookup ev2 of
                                         (Inl e, ev3) \<Rightarrow> (e, ev3)
                                       | (Inr _, ev3) \<Rightarrow> ev_check_host r ip (depth + 1) target ev3))))
              | _ \<Rightarrow> (PermError, ev1))))"
  by pat_completeness auto
termination
proof (relation "measure (\<lambda>(r, ip, depth, domain, ev). 11 - unat depth)", goal_cases)
qed (auto simp: MAX_CHAIN_DEPTH_def word_le_nat_alt word_less_nat_alt unat_word_ariths)

declare ev_check_host.simps [simp del]

definition spf_check_host :: "'w spf_resolver \<Rightarrow> ip_addr \<Rightarrow> string \<Rightarrow> 'w \<Rightarrow> spf_result \<times> 'w evaluator" where
  "spf_check_host r ip domain w =
     ev_check_host r ip 0 domain
       \<lparr>ev_lookups = 0, ev_max_lookups = DEFAULT_MAX_LOOKUPS, ev_void_lookups = 0,
        ev_max_void_lookups = DEFAULT_MAX_VOID_LOOKUPS, ev_world = w\<rparr>"

definition domain_of :: "string \<Rightarrow> string option" where
  "domain_of addr =
     (case rsplit_once (CHR ''@'') (trim_end_char (CHR ''>'') (trim_start_char (CHR ''<'') (trim addr))) of
        Some (_, d) \<Rightarrow> if d = [] then None else Some d
      | None \<Rightarrow> None)"

definition spf_evaluate :: "'w spf_resolver \<Rightarrow> ip_addr \<Rightarrow> string \<Rightarrow> string option \<Rightarrow> 'w \<Rightarrow> spf_outcome \<times> 'w" where
  "spf_evaluate r ip mail_from helo_domain w =
     (let trimmed = trim mail_from;
          is_null = (trimmed = [] \<or> trimmed = ''<>'');
          helo = (case helo_domain of Some h \<Rightarrow> h | None \<Rightarrow> []);
          domain = (if is_null then helo
                    else case domain_of trimmed of Some d \<Rightarrow> d | None \<Rightarrow> helo) in
      if domain = [] then (\<lparr>so_result = SpfNone, so_domain = domain\<rparr>, w)
      else (let (res, ev) = spf_check_host r ip domain w
            in (\<lparr>so_result = res, so_domain = domain\<rparr>, ev_world ev)))"

section \<open>The in-memory resolver\<close>

record in_memory_spf_resolver =
  im_txt :: "string \<rightharpoonup> string list"
  im_a :: "string \<rightharpoonup> u32 list"
  im_aaaa :: "string \<rightharpoonup> u128 list"
  im_mx :: "string \<rightharpoonup> string list"
  im_failing :: "string set"

definition im_resolver_new :: in_memory_spf_resolver where
  "im_resolver_new = \<lparr>im_txt = Map.empty, im_a = Map.empty, im_aaaa = Map.empty, im_mx = Map.empty,
                      im_failing = {}\<rparr>"

definition with_txt :: "string \<Rightarrow> string list \<Rightarrow> in_memory_spf_resolver \<Rightarrow> in_memory_spf_resolver" where
  "with_txt name values s = s\<lparr>im_txt := (im_txt s)(to_ascii_lowercase name \<mapsto> values)\<rparr>"

definition with_a :: "string \<Rightarrow> u32 list \<Rightarrow> in_memory_spf_resolver \<Rightarrow> in_memory_spf_resolver" where
  "with_a name ips s = s\<lparr>im_a := (im_a s)(to_ascii_lowercase name \<mapsto> ips)\<rparr>"

definition with_aaaa :: "string \<Rightarrow> u128 list \<Rightarrow> in_memory_spf_resolver \<Rightarrow> in_memory_spf_resolver" where
  "with_aaaa name ips s = s\<lparr>im_aaaa := (im_aaaa s)(to_ascii_lowercase name \<mapsto> ips)\<rparr>"

definition with_mx :: "string \<Rightarrow> string list \<Rightarrow> in_memory_spf_resolver \<Rightarrow> in_memory_spf_resolver" where
  "with_mx name hosts s = s\<lparr>im_mx := (im_mx s)(to_ascii_lowercase name \<mapsto> hosts)\<rparr>"

definition with_failure :: "string \<Rightarrow> in_memory_spf_resolver \<Rightarrow> in_memory_spf_resolver" where
  "with_failure name s = s\<lparr>im_failing := insert (to_ascii_lowercase name) (im_failing s)\<rparr>"

definition im_answer :: "in_memory_spf_resolver \<Rightarrow> (string \<rightharpoonup> 'a list) \<Rightarrow> string \<Rightarrow> unit + 'a list" where
  "im_answer s table name =
     (let key = to_ascii_lowercase name in
      if key \<in> im_failing s then Inl () else Inr (get_or [] table key))"

definition im_resolver :: "in_memory_spf_resolver \<Rightarrow> unit spf_resolver" where
  "im_resolver s =
     \<lparr>lookup_txt = (\<lambda>name w. (im_answer s (im_txt s) name, w)),
      lookup_a = (\<lambda>name w. (im_answer s (im_a s) name, w)),
      lookup_aaaa = (\<lambda>name w. (im_answer s (im_aaaa s) name, w)),
      lookup_mx = (\<lambda>name w. (im_answer s (im_mx s) name, w))\<rparr>"

section \<open>What a record means\<close>

text \<open>A zone is the content of the DNS, frozen: the answers to the four kinds of query.\<close>

record spf_zone =
  z_txt :: "string \<Rightarrow> unit + string list"
  z_a :: "string \<Rightarrow> unit + u32 list"
  z_aaaa :: "string \<Rightarrow> unit + u128 list"
  z_mx :: "string \<Rightarrow> unit + string list"

definition serves :: "'w spf_resolver \<Rightarrow> spf_zone \<Rightarrow> bool" where
  "serves r z \<longleftrightarrow> (\<forall>name w. fst (lookup_txt r name w) = z_txt z name \<and> fst (lookup_a r name w) = z_a z name
     \<and> fst (lookup_aaaa r name w) = z_aaaa z name \<and> fst (lookup_mx r name w) = z_mx z name)"

definition answer_outcome :: "('a \<Rightarrow> bool) \<Rightarrow> unit + 'a list \<Rightarrow> mech_outcome" where
  "answer_outcome P a =
     (case a of Inl _ \<Rightarrow> MAbort TempError | Inr ips \<Rightarrow> if list_ex P ips then MMatch else MNoMatch)"

definition zone_address :: "spf_zone \<Rightarrow> ip_addr \<Rightarrow> u8 \<Rightarrow> u8 \<Rightarrow> string \<Rightarrow> mech_outcome" where
  "zone_address z ip cidr4 cidr6 target =
     (case ip of
        V4 v4 \<Rightarrow> answer_outcome (\<lambda>a. ipv4_in_cidr v4 a cidr4) (z_a z target)
      | V6 v6 \<Rightarrow> answer_outcome (\<lambda>a. ipv6_in_cidr v6 a cidr6) (z_aaaa z target))"

text \<open>The first outcome of a list that decides.\<close>

fun first_outcome :: "mech_outcome list \<Rightarrow> mech_outcome" where
  "first_outcome [] = MNoMatch"
| "first_outcome (x # xs) = (if x = MNoMatch then first_outcome xs else x)"

fun include_outcome :: "spf_result \<Rightarrow> mech_outcome" where
  "include_outcome SpfPass = MMatch"
| "include_outcome SpfFail = MNoMatch"
| "include_outcome SpfSoftFail = MNoMatch"
| "include_outcome SpfNeutral = MNoMatch"
| "include_outcome TempError = MAbort TempError"
| "include_outcome SpfNone = MAbort PermError"
| "include_outcome PermError = MAbort PermError"

text \<open>Mechanisms that refer to no other record.\<close>

definition direct_outcome :: "spf_zone \<Rightarrow> ip_addr \<Rightarrow> string \<Rightarrow> mechanism \<Rightarrow> mech_outcome" where
  "direct_outcome z ip current m =
     (case m of
        MAll \<Rightarrow> MMatch
      | MIp4 net cidr \<Rightarrow> (case ip of V4 v \<Rightarrow> if ipv4_in_cidr v net cidr then MMatch else MNoMatch | V6 _ \<Rightarrow> MNoMatch)
      | MIp6 net cidr \<Rightarrow> (case ip of V6 v \<Rightarrow> if ipv6_in_cidr v net cidr then MMatch else MNoMatch | V4 _ \<Rightarrow> MNoMatch)
      | MA domain cidr4 cidr6 \<Rightarrow>
          zone_address z ip cidr4 cidr6 (normalize (case domain of Some d \<Rightarrow> d | None \<Rightarrow> current))
      | MMx domain cidr4 cidr6 \<Rightarrow>
          (case z_mx z (normalize (case domain of Some d \<Rightarrow> d | None \<Rightarrow> current)) of
             Inl _ \<Rightarrow> MAbort TempError
           | Inr hosts \<Rightarrow> first_outcome (map (\<lambda>h. zone_address z ip cidr4 cidr6 (normalize h)) hosts))
      | MExists target \<Rightarrow> answer_outcome (\<lambda>_. True) (z_a z (normalize target))
      | _ \<Rightarrow> MNoMatch)"

inductive spf_sem :: "spf_zone \<Rightarrow> ip_addr \<Rightarrow> string \<Rightarrow> spf_result \<Rightarrow> bool"
  and mech_sem :: "spf_zone \<Rightarrow> ip_addr \<Rightarrow> string \<Rightarrow> mechanism \<Rightarrow> mech_outcome \<Rightarrow> bool"
  and record_sem :: "spf_zone \<Rightarrow> ip_addr \<Rightarrow> string \<Rightarrow> (qualifier \<times> mechanism) list \<Rightarrow> string option
    \<Rightarrow> spf_result \<Rightarrow> bool"
  for z ip where
  sem_no_domain: "normalize d = [] \<Longrightarrow> spf_sem z ip d SpfNone"
| sem_temp: "normalize d \<noteq> [] \<Longrightarrow> z_txt z (normalize d) = Inl e \<Longrightarrow> spf_sem z ip d TempError"
| sem_no_record: "normalize d \<noteq> [] \<Longrightarrow> z_txt z (normalize d) = Inr txts \<Longrightarrow>
     filter is_spf1_record txts = [] \<Longrightarrow> spf_sem z ip d SpfNone"
| sem_many: "normalize d \<noteq> [] \<Longrightarrow> z_txt z (normalize d) = Inr txts \<Longrightarrow>
     filter is_spf1_record txts = rec # rec' # recs \<Longrightarrow> spf_sem z ip d PermError"
| sem_malformed: "normalize d \<noteq> [] \<Longrightarrow> z_txt z (normalize d) = Inr txts \<Longrightarrow>
     filter is_spf1_record txts = [rec] \<Longrightarrow> parse_spf_record rec = Inl e \<Longrightarrow> spf_sem z ip d PermError"
| sem_record: "normalize d \<noteq> [] \<Longrightarrow> z_txt z (normalize d) = Inr txts \<Longrightarrow>
     filter is_spf1_record txts = [rec] \<Longrightarrow> parse_spf_record rec = Inr p \<Longrightarrow>
     record_sem z ip (normalize d) (pr_mechanisms p) (pr_redirect p) res \<Longrightarrow> spf_sem z ip d res"
| sem_include: "spf_sem z ip target res \<Longrightarrow> mech_sem z ip current (MInclude target) (include_outcome res)"
| sem_direct: "(\<And>target. m \<noteq> MInclude target) \<Longrightarrow> mech_sem z ip current m (direct_outcome z ip current m)"
| sem_default: "record_sem z ip current [] None SpfNeutral"
| sem_redirect_macro: "CHR ''%'' \<in> set target \<Longrightarrow> record_sem z ip current [] (Some target) PermError"
| sem_redirect: "CHR ''%'' \<notin> set target \<Longrightarrow> spf_sem z ip target res \<Longrightarrow> record_sem z ip current [] (Some target) res"
| sem_macro: "mechanism_has_macro m \<Longrightarrow> record_sem z ip current ((q, m) # ms) redirect PermError"
| sem_match: "\<not> mechanism_has_macro m \<Longrightarrow> mech_sem z ip current m MMatch \<Longrightarrow>
     record_sem z ip current ((q, m) # ms) redirect (qualifier_to_result q)"
| sem_abort: "\<not> mechanism_has_macro m \<Longrightarrow> mech_sem z ip current m (MAbort res) \<Longrightarrow>
     record_sem z ip current ((q, m) # ms) redirect res"
| sem_next: "\<not> mechanism_has_macro m \<Longrightarrow> mech_sem z ip current m MNoMatch \<Longrightarrow>
     record_sem z ip current ms redirect res \<Longrightarrow> record_sem z ip current ((q, m) # ms) redirect res"

inductive_cases spf_semE: "spf_sem z ip d res"
inductive_cases mech_includeE: "mech_sem z ip current (MInclude target) out"
inductive_cases mech_semE: "mech_sem z ip current m out"
inductive_cases record_nilE: "record_sem z ip current [] redirect res"
inductive_cases record_consE: "record_sem z ip current ((q, m) # ms) redirect res"

lemma sem_deterministic:
  "spf_sem z ip d res \<Longrightarrow> spf_sem z ip d res' \<Longrightarrow> res' = res"
  "mech_sem z ip current m out \<Longrightarrow> mech_sem z ip current m out' \<Longrightarrow> out' = out"
  "record_sem z ip current ms redirect res \<Longrightarrow> record_sem z ip current ms redirect res' \<Longrightarrow> res' = res"
proof (induction arbitrary: res' and out' and res'
    rule: spf_sem_mech_sem_record_sem.inducts)
  case (sem_record d txts rec p res)
  note h = sem_record.hyps sem_record.IH
  from sem_record.prems show ?case
  proof (cases rule: spf_sem.cases)
    case (sem_record txts' rec' p')
    with h(1-4) have "p' = p" by simp
    with sem_record(5) show ?thesis by (intro h(6)) simp
  qed (use h(1-4) in simp_all)
next
  case (sem_include target res current)
  from sem_include.prems show ?case
    by (rule mech_includeE) (auto dest: sem_include.IH(2))
next
  case (sem_match m current q ms redirect)
  from sem_match.prems show ?case
    by (rule record_consE) (use sem_match.hyps in \<open>auto dest: sem_match.IH(2)\<close>)
next
  case (sem_abort m current res q ms redirect)
  from sem_abort.prems show ?case
    by (rule record_consE) (use sem_abort.hyps in \<open>auto dest: sem_abort.IH(2)\<close>)
next
  case (sem_next m current ms redirect res q)
  from sem_next.prems show ?case
    by (rule record_consE) (use sem_next.hyps in \<open>auto dest: sem_next.IH(2) sem_next.IH(4)\<close>)
next
  case (sem_redirect target res current)
  from sem_redirect.prems show ?case
    by (rule record_nilE) (use sem_redirect.hyps in \<open>auto dest: sem_redirect.IH(2)\<close>)
qed (erule spf_semE mech_semE record_nilE record_consE; (blast | simp))+

end
