(* ===== verification/Gw_Spf_Sound.thy ===== *)
theory Gw_Spf_Sound
  imports Gw_Spf
begin

text \<open>
  The SPF evaluator against the meaning of records: the locale of resolvers with a meter on their
  queries, the accounting of the lookup budget, and the theorem that within the budget the
  evaluator's verdict is the one \<open>spf_sem\<close> gives the records, with its distance from the redirect rule of the
  standard.
\<close>

section \<open>The state of an evaluation\<close>

definition within :: "'w evaluator \<Rightarrow> bool" where
  "within ev \<longleftrightarrow> ev_lookups ev \<le> 10 \<and> ev_void_lookups ev \<le> 2"

definition limits :: "'w evaluator \<Rightarrow> bool" where
  "limits ev \<longleftrightarrow> ev_max_lookups ev = 10 \<and> ev_max_void_lookups ev = 2"

text \<open>With the meter \<open>q\<close> on the resolver and \<open>b\<close> its reading at the start: \<open>paid\<close> has a charged
  query to spend, \<open>ready\<close> has spent at most one more than it was charged, and \<open>settled\<close> holds of
  every state an evaluation ends in, over budget or not.\<close>

definition paid :: "('w \<Rightarrow> nat) \<Rightarrow> nat \<Rightarrow> 'w evaluator \<Rightarrow> bool" where
  "paid q b ev \<longleftrightarrow> limits ev \<and> within ev \<and> q (ev_world ev) \<le> b + unat (ev_lookups ev)"

definition ready :: "('w \<Rightarrow> nat) \<Rightarrow> nat \<Rightarrow> 'w evaluator \<Rightarrow> bool" where
  "ready q b ev \<longleftrightarrow> limits ev \<and> within ev \<and> q (ev_world ev) \<le> b + unat (ev_lookups ev) + 1"

definition settled :: "('w \<Rightarrow> nat) \<Rightarrow> nat \<Rightarrow> u32 \<Rightarrow> 'w evaluator \<Rightarrow> bool" where
  "settled q b l ev \<longleftrightarrow> limits ev \<and> q (ev_world ev) \<le> b + 11 \<and>
     (within ev \<longrightarrow> l \<le> ev_lookups ev \<and> q (ev_world ev) \<le> b + unat (ev_lookups ev) + 1)"

text \<open>The verdict: over budget it is the given failure, otherwise it meets the specification.\<close>

definition verdict :: "('w \<Rightarrow> nat) \<Rightarrow> nat \<Rightarrow> u32 \<Rightarrow> 'a \<Rightarrow> ('a \<Rightarrow> bool) \<Rightarrow> 'a \<times> 'w evaluator \<Rightarrow> bool" where
  "verdict q b l failure S r \<longleftrightarrow> settled q b l (snd r) \<and> (if within (snd r) then S (fst r) else fst r = failure)"

lemma lookups_le_10: "within ev \<Longrightarrow> unat (ev_lookups ev) \<le> 10"
  by (simp add: within_def word_le_nat_alt)

lemma ready_settled: "ready q b ev \<Longrightarrow> l \<le> ev_lookups ev \<Longrightarrow> settled q b l ev"
  using lookups_le_10 [of ev] by (simp add: ready_def settled_def)

lemma settled_ready: "settled q b l ev \<Longrightarrow> within ev \<Longrightarrow> ready q b ev"
  by (simp add: ready_def settled_def)

lemma paid_ready: "paid q b ev \<Longrightarrow> ready q b ev"
  by (simp add: ready_def paid_def)

lemma settled_mono: "settled q b l ev \<Longrightarrow> l' \<le> l \<Longrightarrow> settled q b l' ev"
  by (auto simp: settled_def)

lemma verdict_mono: "verdict q b l failure S r \<Longrightarrow> l' \<le> l \<Longrightarrow> (\<And>x. S x \<Longrightarrow> S' x) \<Longrightarrow> verdict q b l' failure S' r"
  by (auto simp: verdict_def intro: settled_mono split: if_splits)

lemma charge_lookup_cases:
  assumes "ready q b ev"
  obtains (ok) ev1 where "charge_lookup ev = (Inr (), ev1)" "paid q b ev1" "ev_lookups ev1 = ev_lookups ev + 1"
      "unat (ev_lookups ev1) = unat (ev_lookups ev) + 1" "ev_lookups ev \<le> ev_lookups ev1"
  | (over) ev1 where "charge_lookup ev = (Inl PermError, ev1)" "\<not> within ev1" "settled q b l ev1"
proof -
  let ?ev1 = "ev\<lparr>ev_lookups := ev_lookups ev + 1\<rparr>"
  have le: "unat (ev_lookups ev) \<le> 10" using assms by (simp add: ready_def lookups_le_10)
  then have u: "unat (ev_lookups ev + 1) = unat (ev_lookups ev) + 1"
    by (simp add: unat_word_ariths)
  show thesis
  proof (cases "ev_lookups ev + 1 \<le> 10")
    case True
    with assms u show thesis
      by (intro ok [of ?ev1]) (auto simp: charge_lookup_def ready_def paid_def limits_def within_def word_le_nat_alt word_less_nat_alt)
  next
    case False
    with assms le show thesis
      by (intro over [of ?ev1]) (auto simp: charge_lookup_def ready_def settled_def limits_def within_def word_le_nat_alt
          word_less_nat_alt)
  qed
qed

lemma void_verdict:
  assumes "ready q b ev" and "S MNoMatch"
  shows "verdict q b (ev_lookups ev) (MAbort PermError) S (void_outcome ev)"
proof -
  have "unat (ev_void_lookups ev) \<le> 2" using assms(1) by (simp add: ready_def within_def word_le_nat_alt)
  then have "unat (ev_void_lookups ev + 1) = unat (ev_void_lookups ev) + 1"
    by (simp add: unat_word_ariths)
  moreover have "unat (ev_lookups ev) \<le> 10" using assms(1) by (simp add: ready_def lookups_le_10)
  ultimately show ?thesis
    using assms
    by (auto simp: void_outcome_def charge_void_def Let_def verdict_def settled_def ready_def limits_def
        within_def word_le_nat_alt word_less_nat_alt)
qed

section \<open>Metered resolvers\<close>

locale metered_resolver =
  fixes r :: "'w spf_resolver"
    and q :: "'w \<Rightarrow> nat"
  assumes txt_cost: "q (snd (lookup_txt r name w)) \<le> q w + 1"
    and a_cost: "q (snd (lookup_a r name w)) \<le> q w + 1"
    and aaaa_cost: "q (snd (lookup_aaaa r name w)) \<le> q w + 1"
    and mx_cost: "q (snd (lookup_mx r name w)) \<le> q w + 1"
begin

lemma ask_cases:
  assumes "paid q b ev" and "\<And>w. q (snd (f name w)) \<le> q w + 1"
  obtains ev1 where "ask f name ev = (fst (f name (ev_world ev)), ev1)" "ready q b ev1"
    "ev_lookups ev1 = ev_lookups ev"
proof
  let ?ev1 = "ev\<lparr>ev_world := snd (f name (ev_world ev))\<rparr>"
  show "ask f name ev = (fst (f name (ev_world ev)), ?ev1)"
    by (simp add: ask_def case_prod_unfold Let_def)
  show "ready q b ?ev1"
    using assms(1) assms(2) [of "ev_world ev"] by (simp add: ready_def paid_def limits_def within_def)
qed simp

lemma match_answer_verdict:
  assumes "paid q b ev" and "\<And>w. q (snd (f name w)) \<le> q w + 1"
    and "S (answer_outcome P (fst (f name (ev_world ev))))"
  shows "verdict q b (ev_lookups ev) (MAbort PermError) S (match_answer P (ask f name ev))"
proof -
  obtain ev1 where ev1: "ask f name ev = (fst (f name (ev_world ev)), ev1)" "ready q b ev1"
      "ev_lookups ev1 = ev_lookups ev"
    by (rule ask_cases [of b ev f name]) (use assms in auto)
  have "settled q b (ev_lookups ev) ev1" "within ev1"
    using ready_settled [OF ev1(2)] ev1(2,3) by (simp_all add: ready_def)
  then show ?thesis
    using assms(3) ev1 void_verdict [OF ev1(2), of S]
    by (auto simp: match_answer_def answer_outcome_def verdict_def split: sum.splits)
qed

lemma address_verdict:
  assumes "paid q b ev"
  shows "verdict q b (ev_lookups ev) (MAbort PermError)
    (\<lambda>out. serves r z \<longrightarrow> out = zone_address z ip c4 c6 target)
    (match_address_lookup r target ip c4 c6 ev)"
  unfolding match_address_lookup_def zone_address_def
  using assms
  by (cases ip) (auto intro!: match_answer_verdict a_cost aaaa_cost simp: serves_def)

lemma mx_loop_verdict:
  assumes "ready q b ev"
  shows "verdict q b (ev_lookups ev) (MAbort PermError)
    (\<lambda>out. serves r z \<longrightarrow> out = first_outcome (map (\<lambda>h. zone_address z ip c4 c6 (normalize h)) hosts))
    (mx_loop r ip c4 c6 hosts ev)"
  using assms
proof (induction hosts arbitrary: ev)
  case Nil
  then show ?case by (auto simp: verdict_def ready_def intro: ready_settled)
next
  case (Cons h hosts)
  from Cons.prems show ?case
  proof (cases rule: charge_lookup_cases [where l = "ev_lookups ev"])
    case (ok ev1)
    obtain out ev2 where m: "match_address_lookup r (normalize h) ip c4 c6 ev1 = (out, ev2)"
      by fastforce
    note v = address_verdict [OF ok(2), of z ip c4 c6 "normalize h", unfolded m]
    show ?thesis
    proof (cases "within ev2 \<and> out = MNoMatch")
      case True
      with v have "ready q b ev2" "ev_lookups ev1 \<le> ev_lookups ev2"
        and out: "serves r z \<Longrightarrow> zone_address z ip c4 c6 (normalize h) = MNoMatch"
        by (auto simp: verdict_def settled_ready settled_def)
      with Cons.IH [of ev2] ok(5) have "verdict q b (ev_lookups ev) (MAbort PermError)
          (\<lambda>out. serves r z \<longrightarrow> out = first_outcome (map (\<lambda>h. zone_address z ip c4 c6 (normalize h)) hosts))
          (mx_loop r ip c4 c6 hosts ev2)"
        by (blast intro: verdict_mono order_trans)
      then have "verdict q b (ev_lookups ev) (MAbort PermError)
          (\<lambda>out. serves r z \<longrightarrow> out = first_outcome (map (\<lambda>h. zone_address z ip c4 c6 (normalize h)) (h # hosts)))
          (mx_loop r ip c4 c6 hosts ev2)"
        by (rule verdict_mono) (use out in auto)
      with True ok(1) m show ?thesis by simp
    next
      case False
      have s: "settled q b (ev_lookups ev) ev2"
        using v ok(5) by (auto simp: verdict_def intro: settled_mono)
      from False v have "out \<noteq> MNoMatch" by (auto simp: verdict_def split: if_splits)
      then have "mx_loop r ip c4 c6 (h # hosts) ev = (out, ev2)"
        by (cases out) (simp_all add: ok(1) m)
      with s v \<open>out \<noteq> MNoMatch\<close> show ?thesis by (auto simp: verdict_def split: if_splits)
    qed
  next
    case (over ev1)
    then show ?thesis by (simp add: verdict_def)
  qed
qed

lemma free_verdict:
  "ready q b ev \<Longrightarrow> S out \<Longrightarrow> verdict q b (ev_lookups ev) failure S (out, ev)"
  by (auto simp: verdict_def ready_def intro: ready_settled)

lemma charged_verdict:
  assumes "ready q b ev"
    and "\<And>ev1. paid q b ev1 \<Longrightarrow> unat (ev_lookups ev1) = unat (ev_lookups ev) + 1 \<Longrightarrow>
      verdict q b (ev_lookups ev1) (MAbort PermError) S (F ev1)"
  shows "verdict q b (ev_lookups ev) (MAbort PermError) S
    (case charge_lookup ev of (Inl e, ev1) \<Rightarrow> (MAbort e, ev1) | (Inr _, ev1) \<Rightarrow> F ev1)"
  using assms(1)
proof (cases rule: charge_lookup_cases [where l = "ev_lookups ev"])
  case (ok ev1)
  from assms(2) [OF ok(2,4)] ok(1,5) show ?thesis by (auto intro: verdict_mono)
next
  case (over ev1)
  then show ?thesis by (simp add: verdict_def)
qed

lemma mx_verdict:
  assumes "paid q b ev"
  shows "verdict q b (ev_lookups ev) (MAbort PermError)
    (\<lambda>out. serves r z \<longrightarrow> out = (case z_mx z target of Inl _ \<Rightarrow> MAbort TempError
       | Inr hosts \<Rightarrow> first_outcome (map (\<lambda>h. zone_address z ip c4 c6 (normalize h)) hosts)))
    (case ask (lookup_mx r) target ev of
       (Inl _, ev2) \<Rightarrow> (MAbort TempError, ev2)
     | (Inr hosts, ev2) \<Rightarrow> if hosts = [] then void_outcome ev2 else mx_loop r ip c4 c6 hosts ev2)"
proof -
  let ?a = "fst (lookup_mx r target (ev_world ev))"
  obtain ev1 where ev1: "ask (lookup_mx r) target ev = (?a, ev1)" "ready q b ev1"
      "ev_lookups ev1 = ev_lookups ev"
    by (rule ask_cases [of b ev "lookup_mx r" target]) (use assms mx_cost in auto)
  have z: "serves r z \<Longrightarrow> z_mx z target = ?a" by (simp add: serves_def)
  show ?thesis
  proof (cases ?a)
    case (Inl e)
    with ev1 z show ?thesis by (auto intro: free_verdict simp flip: ev1(3))
  next
    case (Inr hosts)
    with ev1 z void_verdict [OF ev1(2)] verdict_mono [OF mx_loop_verdict [OF ev1(2)]] show ?thesis
      by auto
  qed
qed

lemma include_verdict:
  assumes "verdict q b l PermError (\<lambda>res. serves r z \<longrightarrow> spf_sem z ip target res) (check target ev)"
  shows "verdict q b l (MAbort PermError) (\<lambda>out. serves r z \<longrightarrow> mech_sem z ip current (MInclude target) out)
    (case check target ev of
       (SpfPass, ev2) \<Rightarrow> (MMatch, ev2) | (SpfFail, ev2) \<Rightarrow> (MNoMatch, ev2)
     | (SpfSoftFail, ev2) \<Rightarrow> (MNoMatch, ev2) | (SpfNeutral, ev2) \<Rightarrow> (MNoMatch, ev2)
     | (TempError, ev2) \<Rightarrow> (MAbort TempError, ev2) | (SpfNone, ev2) \<Rightarrow> (MAbort PermError, ev2)
     | (PermError, ev2) \<Rightarrow> (MAbort PermError, ev2))"
proof (cases "check target ev")
  case (Pair res ev2)
  have "spf_sem z ip target res \<Longrightarrow> mech_sem z ip current (MInclude target) (include_outcome res)"
    by (rule sem_include)
  with assms Pair show ?thesis by (cases res) (auto simp: verdict_def split: if_splits)
qed

lemma mechanism_verdict:
  assumes "ready q b ev"
    and check: "\<And>target ev1. paid q b ev1 \<Longrightarrow> unat (ev_lookups ev1) = unat (ev_lookups ev) + 1 \<Longrightarrow>
      verdict q b (ev_lookups ev1) PermError (\<lambda>res. serves r z \<longrightarrow> spf_sem z ip target res) (check target ev1)"
  shows "verdict q b (ev_lookups ev) (MAbort PermError) (\<lambda>out. serves r z \<longrightarrow> mech_sem z ip current m out)
    (eval_mechanism check r m current ip ev)"
proof (cases "\<exists>target. m = MInclude target")
  case True
  then show ?thesis
    using assms(1) check by (auto simp: eval_mechanism_def intro!: charged_verdict include_verdict)
next
  case False
  then have sem: "out = direct_outcome z ip current m \<Longrightarrow> mech_sem z ip current m out" for out
    by (auto intro: sem_direct)
  have "verdict q b (ev_lookups ev) (MAbort PermError) (\<lambda>out. serves r z \<longrightarrow> out = direct_outcome z ip current m)
      (eval_mechanism check r m current ip ev)"
  proof (cases m)
    case (MA domain c4 c6)
    then show ?thesis
      using assms(1) by (auto simp: eval_mechanism_def direct_outcome_def intro!: charged_verdict address_verdict)
  next
    case (MMx domain c4 c6)
    then show ?thesis
      using assms(1) by (simp add: eval_mechanism_def direct_outcome_def charged_verdict mx_verdict)
  next
    case (MExists target)
    then show ?thesis
      using assms(1) a_cost
      by (auto simp: eval_mechanism_def direct_outcome_def serves_def intro!: charged_verdict match_answer_verdict)
  next
    case MPtr
    have "verdict q b (ev_lookups ev1) (MAbort PermError) (\<lambda>out. serves r z \<longrightarrow> out = MNoMatch) (MNoMatch, ev1)"
      if "paid q b ev1" for ev1
      using paid_ready [OF that] by (intro free_verdict) simp_all
    then show ?thesis
      using MPtr assms(1) by (simp add: eval_mechanism_def direct_outcome_def charged_verdict)
  qed (use False assms(1) in \<open>auto simp: eval_mechanism_def direct_outcome_def free_verdict split: ip_addr.splits\<close>)
  then show ?thesis using sem by (auto intro: verdict_mono)
qed

text \<open>The loop over the mechanisms: a verdict decides the record, \<open>None\<close> leaves it to the redirect.\<close>

definition loop_sem :: "spf_zone \<Rightarrow> ip_addr \<Rightarrow> string \<Rightarrow> (qualifier \<times> mechanism) list \<Rightarrow> spf_result option \<Rightarrow> bool" where
  "loop_sem z ip current ms out \<longleftrightarrow> (\<forall>redirect. case out of
     Some res \<Rightarrow> record_sem z ip current ms redirect res
   | None \<Rightarrow> (\<forall>res. record_sem z ip current [] redirect res \<longrightarrow> record_sem z ip current ms redirect res))"

lemma mech_loop_verdict:
  assumes "ready q b ev" and "d \<le> unat (ev_lookups ev)"
    and check: "\<And>target ev1. paid q b ev1 \<Longrightarrow> d < unat (ev_lookups ev1) \<Longrightarrow>
      verdict q b (ev_lookups ev1) PermError (\<lambda>res. serves r z \<longrightarrow> spf_sem z ip target res) (check target ev1)"
  shows "verdict q b (ev_lookups ev) (Some PermError) (\<lambda>out. serves r z \<longrightarrow> loop_sem z ip current ms out)
    (mech_loop check r current ip ms ev)"
  using assms(1,2)
proof (induction ms arbitrary: ev)
  case Nil
  then show ?case by (auto simp: loop_sem_def intro: free_verdict)
next
  case (Cons qm ms)
  obtain qu m where qm: "qm = (qu, m)" by (cases qm)
  show ?case
  proof (cases "mechanism_has_macro m")
    case True
    then have "loop_sem z ip current (qm # ms) (Some PermError)"
      by (simp add: qm loop_sem_def sem_macro)
    with True Cons.prems(1) show ?thesis by (simp add: qm free_verdict)
  next
    case False
    obtain out ev1 where e: "eval_mechanism check r m current ip ev = (out, ev1)" by fastforce
    have v: "verdict q b (ev_lookups ev) (MAbort PermError) (\<lambda>out. serves r z \<longrightarrow> mech_sem z ip current m out) (out, ev1)"
      unfolding e [symmetric]
      using Cons.prems by (intro mechanism_verdict check) simp_all
    show ?thesis
    proof (cases "out = MNoMatch")
      case True
      with v have w: "within ev1" "serves r z \<Longrightarrow> mech_sem z ip current m MNoMatch" "settled q b (ev_lookups ev) ev1"
        by (auto simp: verdict_def split: if_splits)
      have "ev_lookups ev \<le> ev_lookups ev1" using w(1,3) by (simp add: settled_def)
      then have "verdict q b (ev_lookups ev1) (Some PermError) (\<lambda>out. serves r z \<longrightarrow> loop_sem z ip current ms out)
          (mech_loop check r current ip ms ev1)"
        using Cons.IH [of ev1] settled_ready [OF w(3,1)] Cons.prems(2) by (simp add: word_le_nat_alt)
      from this \<open>ev_lookups ev \<le> ev_lookups ev1\<close> have "verdict q b (ev_lookups ev) (Some PermError)
          (\<lambda>out. serves r z \<longrightarrow> loop_sem z ip current ((qu, m) # ms) out) (mech_loop check r current ip ms ev1)"
        by (rule verdict_mono)
          (auto simp: loop_sem_def intro: sem_next [OF False] w(2) split: option.splits)
      with False e True show ?thesis by (simp add: qm)
    next
      case noMatch: False
      with v False e show ?thesis
        by (cases out)
          (auto simp: qm verdict_def loop_sem_def intro: sem_match sem_abort split: if_splits)
    qed
  qed
qed

lemma record_verdict:
  assumes "ready q b ev" and "d \<le> unat (ev_lookups ev)"
    and check: "\<And>target ev1. paid q b ev1 \<Longrightarrow> d < unat (ev_lookups ev1) \<Longrightarrow>
      verdict q b (ev_lookups ev1) PermError (\<lambda>res. serves r z \<longrightarrow> spf_sem z ip target res) (check target ev1)"
  shows "verdict q b (ev_lookups ev) PermError (\<lambda>res. serves r z \<longrightarrow> record_sem z ip current ms redirect res)
    (case mech_loop check r current ip ms ev of
       (Some res, ev2) \<Rightarrow> (res, ev2)
     | (None, ev2) \<Rightarrow>
         (case redirect of
            None \<Rightarrow> (SpfNeutral, ev2)
          | Some target \<Rightarrow>
              if CHR ''%'' \<in> set target then (PermError, ev2)
              else (case charge_lookup ev2 of (Inl e, ev3) \<Rightarrow> (e, ev3) | (Inr _, ev3) \<Rightarrow> check target ev3)))"
proof -
  obtain out ev2 where m: "mech_loop check r current ip ms ev = (out, ev2)" by fastforce
  have v: "verdict q b (ev_lookups ev) (Some PermError) (\<lambda>out. serves r z \<longrightarrow> loop_sem z ip current ms out) (out, ev2)"
    using mech_loop_verdict [OF assms, where current = current and ms = ms] by (simp add: m)
  show ?thesis
  proof (cases out)
    case (Some res)
    with v m show ?thesis by (auto simp: verdict_def loop_sem_def split: if_splits)
  next
    case None
    with v have w: "within ev2" "settled q b (ev_lookups ev) ev2" "ev_lookups ev \<le> ev_lookups ev2"
      and sem: "serves r z \<Longrightarrow> record_sem z ip current [] redirect res \<Longrightarrow> record_sem z ip current ms redirect res" for res
      by (auto simp: verdict_def loop_sem_def settled_def split: if_splits)
    note ready2 = settled_ready [OF w(2,1)]
    note * = sem_default sem_redirect_macro sem_redirect sem
    show ?thesis
    proof (cases "\<exists>target. redirect = Some target \<and> CHR ''%'' \<notin> set target")
      case False
      with m None w * show ?thesis by (auto simp: verdict_def split: option.splits)
    next
      case True
      then obtain target where t: "redirect = Some target" "CHR ''%'' \<notin> set target" by blast
      from ready2 show ?thesis
      proof (cases rule: charge_lookup_cases [where l = "ev_lookups ev"])
        case (ok ev3)
        with w(3) assms(2) have "d < unat (ev_lookups ev3)" by (simp add: word_le_nat_alt)
        from check [OF ok(2) this, of target] have "verdict q b (ev_lookups ev) PermError
            (\<lambda>res. serves r z \<longrightarrow> record_sem z ip current ms redirect res) (check target ev3)"
          by (rule verdict_mono) (use ok(5) w(3) t * in auto)
        with m None t ok(1) show ?thesis by simp
      next
        case (over ev3)
        with m None t show ?thesis by (simp add: verdict_def)
      qed
    qed
  qed
qed

lemma check_host_verdict:
  assumes "paid q b ev" and "unat depth \<le> unat (ev_lookups ev)"
  shows "verdict q b (ev_lookups ev) PermError (\<lambda>res. serves r z \<longrightarrow> spf_sem z ip domain res)
    (ev_check_host r ip depth domain ev)"
  using assms
proof (induction "11 - unat depth" arbitrary: depth domain ev rule: less_induct)
  case less
  have L: "unat (ev_lookups ev) \<le> 10" using less.prems(1) by (simp add: paid_def lookups_le_10)
  with less.prems(2) have d: "\<not> depth > MAX_CHAIN_DEPTH" "unat (depth + 1) = unat depth + 1"
    by (simp_all add: MAX_CHAIN_DEPTH_def word_less_nat_alt unat_word_ariths)
  have rec: "verdict q b (ev_lookups ev1) PermError (\<lambda>res. serves r z \<longrightarrow> spf_sem z ip target res)
      (ev_check_host r ip (depth + 1) target ev1)"
    if "paid q b ev1" "unat depth < unat (ev_lookups ev1)" for target ev1
    using that less.prems(2) L d(2) by (intro less.hyps) simp_all
  let ?a = "fst (lookup_txt r (normalize domain) (ev_world ev))"
  have z: "serves r z \<Longrightarrow> z_txt z (normalize domain) = ?a" by (simp add: serves_def)
  obtain ev1 where ev1: "ask (lookup_txt r) (normalize domain) ev = (?a, ev1)"
      "ready q b ev1" "ev_lookups ev1 = ev_lookups ev"
    by (rule ask_cases [of b ev "lookup_txt r" "normalize domain"])
      (use less.prems(1) txt_cost in auto)
  show ?case
  proof (cases "\<exists>txts rec p. normalize domain \<noteq> [] \<and> ?a = Inr txts
      \<and> filter is_spf1_record txts = [rec] \<and> parse_spf_record rec = Inr p")
    case True
    then obtain txts rec p where f: "normalize domain \<noteq> []" "?a = Inr txts"
        "filter is_spf1_record txts = [rec]" "parse_spf_record rec = Inr p"
      by blast
    have dl: "unat depth \<le> unat (ev_lookups ev1)" using less.prems(2) ev1(3) by simp
    note rv = record_verdict [OF ev1(2) dl rec, where current = "normalize domain" and ms = "pr_mechanisms p"
        and redirect = "pr_redirect p"]
    have "serves r z \<longrightarrow> record_sem z ip (normalize domain) (pr_mechanisms p) (pr_redirect p) res \<Longrightarrow>
        serves r z \<longrightarrow> spf_sem z ip domain res" for res
      using sem_record [OF f(1) _ f(3,4)] z f(2) by simp
    from verdict_mono [OF rv order_refl this]
    have "verdict q b (ev_lookups ev1) PermError (\<lambda>res. serves r z \<longrightarrow> spf_sem z ip domain res)
        (ev_check_host r ip depth domain ev)"
      unfolding ev_check_host.simps [of r ip depth domain ev] using d(1) f ev1(1) by simp
    then show ?thesis by (simp add: ev1(3))
  next
    case undecided: False
    show ?thesis
    proof (cases "normalize domain = []")
      case True
      with d(1) less.prems(1) show ?thesis
        by (simp add: ev_check_host.simps [of r ip depth] free_verdict paid_ready sem_no_domain)
    next
      case False
      then have "\<exists>res. (serves r z \<longrightarrow> spf_sem z ip domain res) \<and> ev_check_host r ip depth domain ev = (res, ev1)"
        using undecided d(1) ev1(1) z unfolding ev_check_host.simps [of r ip depth domain ev]
        by (auto simp: Let_def split: sum.splits list.splits
            intro: sem_temp sem_no_record sem_many sem_malformed)
      with ev1(2) show ?thesis by (auto simp flip: ev1(3) intro: free_verdict)
    qed
  qed
qed

end

section \<open>Counting the queries\<close>

definition counted_fn :: "('w, 'a) lookup_fn \<Rightarrow> ('w \<times> nat, 'a) lookup_fn" where
  "counted_fn f name w = (fst (f name (fst w)), (snd (f name (fst w)), snd w + 1))"

definition counted :: "'w spf_resolver \<Rightarrow> ('w \<times> nat) spf_resolver" where
  "counted r = \<lparr>lookup_txt = counted_fn (lookup_txt r), lookup_a = counted_fn (lookup_a r),
                lookup_aaaa = counted_fn (lookup_aaaa r), lookup_mx = counted_fn (lookup_mx r)\<rparr>"

interpretation counting: metered_resolver "counted r" snd for r
  by unfold_locales (simp_all add: counted_def counted_fn_def)


definition forget :: "('w \<times> nat) evaluator \<Rightarrow> 'w evaluator" where
  "forget ev = \<lparr>ev_lookups = ev_lookups ev, ev_max_lookups = ev_max_lookups ev,
     ev_void_lookups = ev_void_lookups ev, ev_max_void_lookups = ev_max_void_lookups ev,
     ev_world = fst (ev_world ev)\<rparr>"

lemma counted_txt: "lookup_txt (counted r) = counted_fn (lookup_txt r)"
  by (simp add: counted_def)

lemma forget_charge:
  "charge_lookup (forget ev) = map_prod id forget (charge_lookup ev)"
  "charge_void (forget ev) = map_prod id forget (charge_void ev)"
  by (simp_all add: charge_lookup_def charge_void_def forget_def Let_def)

lemma forget_void: "void_outcome (forget ev) = map_prod id forget (void_outcome ev)"
  by (simp add: void_outcome_def forget_charge split: prod.splits sum.splits)

lemma forget_ask: "ask f name (forget ev) = map_prod id forget (ask (counted_fn f) name ev)"
  by (simp add: ask_def counted_fn_def forget_def Let_def split: prod.splits)

lemma forget_address:
  "match_address_lookup r target ip c4 c6 (forget ev) =
     map_prod id forget (match_address_lookup (counted r) target ip c4 c6 ev)"
  by (cases ip) (auto simp: match_address_lookup_def match_answer_def counted_def forget_ask forget_void
      split: prod.splits sum.splits)

lemma forget_mx_loop:
  "mx_loop r ip c4 c6 hosts (forget ev) = map_prod id forget (mx_loop (counted r) ip c4 c6 hosts ev)"
  by (induction hosts arbitrary: ev)
    (auto simp: forget_charge forget_address split: prod.splits sum.splits mech_outcome.splits)

lemma forget_mechanism:
  assumes "\<And>target ev. check target (forget ev) = map_prod id forget (check' target ev)"
  shows "eval_mechanism check r m current ip (forget ev) =
    map_prod id forget (eval_mechanism check' (counted r) m current ip ev)"
  by (cases m)
    (auto simp: eval_mechanism_def assms forget_charge forget_address forget_mx_loop forget_void Let_def
      match_answer_def counted_def forget_ask split: prod.splits sum.splits ip_addr.splits spf_result.splits)

lemma forget_mech_loop:
  assumes "\<And>target ev. check target (forget ev) = map_prod id forget (check' target ev)"
  shows "mech_loop check r current ip ms (forget ev) =
    map_prod id forget (mech_loop check' (counted r) current ip ms ev)"
proof (induction ms arbitrary: ev)
  case (Cons qm ms)
  then show ?case
    using forget_mechanism [of check check', OF assms]
    by (cases qm) (auto split: prod.splits mech_outcome.splits)
qed simp

lemma counted_same:
  "ev_check_host r ip depth domain (forget ev) =
     map_prod id forget (ev_check_host (counted r) ip depth domain ev)"
proof (induction "11 - unat depth" arbitrary: depth domain ev rule: less_induct)
  case less
  show ?case
  proof (cases "depth > MAX_CHAIN_DEPTH")
    case True
    then show ?thesis by (simp add: ev_check_host.simps)
  next
    case False
    then have "11 - unat (depth + 1) < 11 - unat depth"
      by (simp add: MAX_CHAIN_DEPTH_def word_less_nat_alt unat_word_ariths)
    note IH = less.hyps [OF this]
    note ml = forget_mech_loop [where check = "ev_check_host r ip (depth + 1)" and
        check' = "ev_check_host (counted r) ip (depth + 1)", OF IH]
    show ?thesis
      unfolding ev_check_host.simps [of _ ip depth]
      using False
      by (auto simp: Let_def forget_ask forget_charge ml IH counted_txt
          split: prod.splits sum.splits list.splits option.splits)
  qed
qed

section \<open>An example evaluation\<close>

definition demo_dns :: in_memory_spf_resolver where
  "demo_dns = with_txt ''a.org'' [''v=spf1 include:b.org -all'']
     (with_txt ''b.org'' [''v=spf1 ip4:192.0.2.0/24''] (with_txt ''c.org'' [''v=spf1 redirect=d.org''] im_resolver_new))"

lemma demo_words:
  "split_whitespace ''v=spf1 ip4:192.0.2.0/24'' = [''v=spf1'', ''ip4:192.0.2.0/24'']"
  "split_whitespace ''v=spf1 include:b.org -all'' = [''v=spf1'', ''include:b.org'', ''-all'']"
  "split_whitespace ''v=spf1 redirect=d.org'' = [''v=spf1'', ''redirect=d.org'']"
  using split_whitespace_words [of "''v=spf1''" "''ip4:192.0.2.0/24''"]
    split_whitespace_words [of "''v=spf1''" "''redirect=d.org''"]
    split_whitespace_words [of "''v=spf1''" "''include:b.org -all''"]
    split_whitespace_words [of "''include:b.org''" "''-all''"]
  by (simp_all add: split_whitespace_word)

lemma demo_ip: "parse_ipv4 ''192.0.2.0'' = Some 0xC0000200" "parse_u8 ''24'' = Some 24"
proof -
  have "read_ipv4_addr s = read_octets (Suc (Suc (Suc (Suc 0)))) 0 s" for s
    by (simp add: read_ipv4_addr_def numeral_eq_Suc)
  then show "parse_ipv4 ''192.0.2.0'' = Some 0xC0000200"
    by (simp add: parse_ipv4_def parse_with_def read_separator_def read_number_def read_given_char_def Let_def)
  show "parse_u8 ''24'' = Some 24"
    by (simp add: parse_u8_def parse_uint_def digits_value_def is_ascii_digit_def starts_with_def Let_def)
qed

lemma demo_records:
  "parse_spf_record ''v=spf1 ip4:192.0.2.0/24'' = Inr \<lparr>pr_mechanisms = [(QPass, MIp4 0xC0000200 24)], pr_redirect = None\<rparr>"
  "parse_spf_record ''v=spf1 include:b.org -all'' =
     Inr \<lparr>pr_mechanisms = [(QPass, MInclude ''b.org''), (QFail, MAll)], pr_redirect = None\<rparr>"
  "parse_spf_record ''v=spf1 redirect=d.org'' = Inr \<lparr>pr_mechanisms = [], pr_redirect = Some ''d.org''\<rparr>"
  by (simp_all add: parse_spf_record_def demo_words parse_qualifier_def parse_mechanism_def split_at_first_def
      to_ascii_lowercase_def ascii_lower_def strip_prefix_def starts_with_def parse_ip4_cidr_def demo_ip
      eq_ignore_ascii_case_def Let_def)

lemma demo_normalize:
  "normalize ''a.org'' = ''a.org''" "normalize ''b.org'' = ''b.org''" "normalize ''c.org'' = ''c.org''"
  "normalize ''d.org'' = ''d.org''"
  by (simp_all add: normalize_def trim_graphic trim_end_char_def to_ascii_lowercase_def ascii_lower_def)

lemma demo_is_spf:
  "is_spf1_record ''v=spf1 ip4:192.0.2.0/24''" "is_spf1_record ''v=spf1 include:b.org -all''" "is_spf1_record ''v=spf1 redirect=d.org''"
  by (simp_all add: is_spf1_record_def trim_inner starts_with_def Let_def)

lemma demo_txt: "ask (lookup_txt (im_resolver demo_dns)) d ev =
   (Inr (if d = ''a.org'' then [''v=spf1 include:b.org -all''] else if d = ''b.org'' then [''v=spf1 ip4:192.0.2.0/24'']
     else if d = ''c.org'' then [''v=spf1 redirect=d.org''] else []), ev)" if "to_ascii_lowercase d = d"
  using that by (simp add: ask_def im_resolver_def im_answer_def demo_dns_def with_txt_def im_resolver_new_def 
     to_ascii_lowercase_def ascii_lower_def Let_def)

lemma demo_runs:
  "spf_check_host (im_resolver demo_dns) (V4 0xC0000207) ''a.org'' () =
     (SpfPass, \<lparr>ev_lookups = 1, ev_max_lookups = 10, ev_void_lookups = 0, ev_max_void_lookups = 2, ev_world = ()\<rparr>)"
  "fst (spf_check_host (im_resolver demo_dns) (V4 0xC0000207) ''c.org'' ()) = SpfNone"
proof -
  have lc: "to_ascii_lowercase ''a.org'' = ''a.org''" "to_ascii_lowercase ''b.org'' = ''b.org''"
      "to_ascii_lowercase ''c.org'' = ''c.org''" "to_ascii_lowercase ''d.org'' = ''d.org''"
    by (simp_all add: to_ascii_lowercase_def ascii_lower_def)
  have net: "ipv4_in_cidr 0xC0000207 0xC0000200 24" by code_simp
  note step = ev_check_host.simps [of _ _ 0] ev_check_host.simps [of _ _ 1]
  note run = spf_check_host_def MAX_CHAIN_DEPTH_def DEFAULT_MAX_LOOKUPS_def DEFAULT_MAX_VOID_LOOKUPS_def
    demo_normalize demo_txt [OF lc(1)] demo_txt [OF lc(2)] demo_txt [OF lc(3)] demo_txt [OF lc(4)]
    demo_is_spf demo_records eval_mechanism_def charge_lookup_def Let_def net
  show "spf_check_host (im_resolver demo_dns) (V4 0xC0000207) ''a.org'' () =
     (SpfPass, \<lparr>ev_lookups = 1, ev_max_lookups = 10, ev_void_lookups = 0, ev_max_void_lookups = 2, ev_world = ()\<rparr>)"
    by (simp add: step run)
  show "fst (spf_check_host (im_resolver demo_dns) (V4 0xC0000207) ''c.org'' ()) = SpfNone"
    by (simp add: step run)
qed

section \<open>Properties\<close>















text \<open>An evaluation asks at most eleven questions. Whatever the resolver answers and however its
  answers change, the first record fetch and the ten charged lookups are all the queries it gets.\<close>

theorem spf_lookup_budget:
  "snd (ev_world (snd (spf_check_host (counted r) ip domain (w, 0)))) \<le> 11
   \<and> fst (spf_check_host (counted r) ip domain (w, 0)) = fst (spf_check_host r ip domain w)"
proof -
  let ?ev = "\<lparr>ev_lookups = 0, ev_max_lookups = DEFAULT_MAX_LOOKUPS, ev_void_lookups = 0,
     ev_max_void_lookups = DEFAULT_MAX_VOID_LOOKUPS, ev_world = (w, 0 :: nat)\<rparr>"
  have "paid snd 0 ?ev"
    by (simp add: paid_def limits_def within_def DEFAULT_MAX_LOOKUPS_def DEFAULT_MAX_VOID_LOOKUPS_def)
  from counting.check_host_verdict [OF this, of 0 r undefined ip domain]
  have "snd (ev_world (snd (spf_check_host (counted r) ip domain (w, 0)))) \<le> 11"
    by (simp add: spf_check_host_def verdict_def settled_def)
  moreover have "fst (spf_check_host r ip domain w) = fst (spf_check_host (counted r) ip domain (w, 0))"
    using counted_same [of r ip 0 domain ?ev] by (simp add: spf_check_host_def forget_def)
  ultimately show ?thesis by simp
qed

text \<open>Masking with the complement of a shifted-out mask compares the leading bits.\<close>

lemma prefix_mask:
  fixes a b :: "'a::len word"
  shows "a AND NOT (mask k) = b AND NOT (mask k) \<longleftrightarrow> drop_bit k a = drop_bit k b"
proof
  assume l: "a AND NOT (mask k) = b AND NOT (mask k)"
  show "drop_bit k a = drop_bit k b"
  proof (rule bit_word_eqI)
    fix i
    show "bit (drop_bit k a) i = bit (drop_bit k b) i"
      using arg_cong [OF l, of "\<lambda>x. bit x (k + i)"] by (auto simp: bit_simps dest: bit_imp_le_length)
  qed
next
  assume r: "drop_bit k a = drop_bit k b"
  show "a AND NOT (mask k) = b AND NOT (mask k)"
  proof (rule bit_word_eqI)
    fix i
    show "bit (a AND NOT (mask k)) i = bit (b AND NOT (mask k)) i"
      using arg_cong [OF r, of "\<lambda>x. bit x (i - k)"] by (cases "i < k") (auto simp: bit_simps)
  qed
qed

lemma cidr_prefixes:
  "(ipv4_in_cidr ip4 net4 c \<longleftrightarrow> drop_bit (32 - min (unat c) 32) ip4 = drop_bit (32 - min (unat c) 32) net4)
   \<and> (ipv6_in_cidr ip6 net6 c \<longleftrightarrow> drop_bit (128 - min (unat c) 128) ip6 = drop_bit (128 - min (unat c) 128) net6)"
proof -
  have u: "unat (min c 32) = min (unat c) 32" "unat (min c 128) = min (unat c) 128"
    by (simp_all add: min_def word_le_nat_alt)
  have eq: "c = 0 \<longleftrightarrow> unat c = 0" "min c 32 = 32 \<longleftrightarrow> min (unat c) 32 = 32" "min c 128 = 128 \<longleftrightarrow> min (unat c) 128 = 128"
    using word_unat_eq_iff [of "min c 32" 32] word_unat_eq_iff [of "min c 128" 128] by (simp_all add: u unat_eq_0)
  have z: "drop_bit 32 x = (0 :: u32)" "drop_bit 128 y = (0 :: u128)" for x y
    by (auto intro!: bit_word_eqI simp: bit_simps dest: bit_imp_le_length)
  have "ipv4_in_cidr ip4 net4 c \<longleftrightarrow> drop_bit (32 - min (unat c) 32) ip4 = drop_bit (32 - min (unat c) 32) net4"
    using prefix_mask [of ip4 "32 - min (unat c) 32" net4] z(1)
    by (auto simp: ipv4_in_cidr_def Let_def u eq)
  moreover have "ipv6_in_cidr ip6 net6 c \<longleftrightarrow> drop_bit (128 - min (unat c) 128) ip6 = drop_bit (128 - min (unat c) 128) net6"
    using prefix_mask [of ip6 "128 - min (unat c) 128" net6] z(2)
    by (auto simp: ipv6_in_cidr_def Let_def u eq)
  ultimately show ?thesis by blast
qed

lemmas ipv4_cidr_prefix = cidr_prefixes [THEN conjunct1]

lemmas ipv6_cidr_prefix = cidr_prefixes [THEN conjunct2]

text \<open>CIDR matching compares prefixes. An address is in a network exactly if the leading bits that
  the prefix length names agree; a length beyond the width of the address means all of it.\<close>

theorem cidr_compares_prefixes:
  "(ipv4_in_cidr ip4 net4 c \<longleftrightarrow> drop_bit (32 - min (unat c) 32) ip4 = drop_bit (32 - min (unat c) 32) net4)
   \<and> (ipv6_in_cidr ip6 net6 c \<longleftrightarrow> drop_bit (128 - min (unat c) 128) ip6 = drop_bit (128 - min (unat c) 128) net6)"
  by (rule cidr_prefixes)

text \<open>A record that redirects to a domain without an SPF record evaluates to \<open>None\<close>: section 6.1 of
  RFC 7208 makes that a \<open>permerror\<close>.\<close>

lemma redirect_to_no_record:
  "fst (spf_check_host (im_resolver demo_dns) (V4 0xC0000207) ''c.org'' ()) = SpfNone"
  by (rule demo_runs)

end
