(* ===== verification/Gw_Dns.thy ===== *)
theory Gw_Dns
  imports Byte_Io Gw_Spf
begin

text \<open>
  The DNS client of the gateway (\<open>dns.rs\<close>), the conversion of names at its boundary (\<open>idn.rs\<close>) and
  the resolvers built on it for SPF, DMARC, MTA-STS and MX lookups (\<open>spf.rs\<close>, \<open>mx.rs\<close>). The wire codec
  is modelled byte by byte; the IDNA library, the random source and the UDP exchange are arguments.
  Positions in a packet are natural numbers.
\<close>

section \<open>Packets\<close>

definition CLASS_IN :: u16 where "CLASS_IN = 1"
definition TYPE_A :: u16 where "TYPE_A = 1"
definition TYPE_MX :: u16 where "TYPE_MX = 15"
definition TYPE_TXT :: u16 where "TYPE_TXT = 16"
definition TYPE_AAAA :: u16 where "TYPE_AAAA = 28"

datatype dns_error = DnsTruncated | BadPointer | DnsRcode u8

record resource_record =
  rr_name :: string
  rr_rtype :: u16
  rr_rdata :: bytes
  rr_rdata_offset :: nat

record dns_message =
  dm_id :: u16
  dm_rcode :: u8
  dm_answers :: "resource_record list"

text \<open>\<open>packet.get(i)\<close> and \<open>packet.get(a..b)\<close>.\<close>

definition get_at :: "'a list \<Rightarrow> nat \<Rightarrow> 'a option" where
  "get_at xs i = (if i < length xs then Some (xs ! i) else None)"

definition get_range :: "'a list \<Rightarrow> nat \<Rightarrow> nat \<Rightarrow> 'a list option" where
  "get_range xs a b = (if a \<le> b \<and> b \<le> length xs then Some (take (b - a) (drop a xs)) else None)"

section \<open>Encoding\<close>

fun encode_labels :: "string list \<Rightarrow> bytes" where
  "encode_labels [] = []"
| "encode_labels (label # labels) =
     (if label = [] then encode_labels labels
      else (let len = min (length label) 63 in of_nat len # take len (as_bytes label) @ encode_labels labels))"

definition encode_name :: "string \<Rightarrow> bytes" where
  "encode_name name = encode_labels (split_on (CHR ''.'') (trim_end_char (CHR ''.'') name)) @ [0]"

definition encode_query :: "u16 \<Rightarrow> string \<Rightarrow> u16 \<Rightarrow> bytes" where
  "encode_query ident qname qtype =
     be16 ident @ be16 0x0100 @ be16 1 @ be16 0 @ be16 0 @ be16 0 @ encode_name qname @ be16 qtype @ be16 CLASS_IN"

section \<open>Decoding\<close>

text \<open>\<open>labels.join(".")\<close>.\<close>

fun join_dot :: "string list \<Rightarrow> string" where
  "join_dot [] = []"
| "join_dot [l] = l"
| "join_dot (l # ls) = l @ CHR ''.'' # join_dot ls"

function read_name_loop :: "bytes \<Rightarrow> string list \<Rightarrow> nat \<Rightarrow> nat option \<Rightarrow> nat \<Rightarrow> dns_error + (string \<times> nat)" where
  "read_name_loop packet labels pos resume_at jumps =
     (if jumps > 32 then Inl BadPointer
      else case get_at packet pos of
        None \<Rightarrow> Inl DnsTruncated
      | Some len \<Rightarrow>
          if len = 0 then
            Inr (join_dot labels, case resume_at of None \<Rightarrow> pos + 1 | Some r \<Rightarrow> r)
          else if and len 0xC0 = 0xC0 then
            (case get_at packet (pos + 1) of
               None \<Rightarrow> Inl DnsTruncated
             | Some b2 \<Rightarrow>
                 (let ptr = unat (and len 0x3F) * 256 + unat b2 in
                  if ptr \<ge> length packet \<or> ptr \<ge> pos then Inl BadPointer
                  else read_name_loop packet labels ptr
                         (case resume_at of None \<Rightarrow> Some (pos + 2) | Some r \<Rightarrow> Some r) (jumps + 1)))
          else if and len 0xC0 \<noteq> 0 then Inl BadPointer
          else
            (case get_range packet (pos + 1) (pos + 1 + unat len) of
               None \<Rightarrow> Inl DnsTruncated
             | Some bs \<Rightarrow>
                 read_name_loop packet (labels @ [from_utf8_lossy bs]) (pos + 1 + unat len) resume_at jumps))"
  by pat_completeness auto
termination
  by (relation "measures [\<lambda>(packet, labels, pos, resume_at, jumps). 33 - jumps,
        \<lambda>(packet, labels, pos, resume_at, jumps). length packet - pos]")
    (auto simp: get_at_def split: if_splits)

declare read_name_loop.simps [simp del]

definition read_name :: "bytes \<Rightarrow> nat \<Rightarrow> dns_error + (string \<times> nat)" where
  "read_name packet start = read_name_loop packet [] start None 0"

definition read_u16_at :: "bytes \<Rightarrow> nat \<Rightarrow> dns_error + u16" where
  "read_u16_at packet pos =
     bindE (ok_or DnsTruncated (get_range packet pos (pos + 2))) (\<lambda>b. Inr (u16_of_be (b ! 0) (b ! 1)))"

fun skip_questions :: "bytes \<Rightarrow> nat \<Rightarrow> nat \<Rightarrow> dns_error + nat" where
  "skip_questions packet 0 pos = Inr pos"
| "skip_questions packet (Suc n) pos =
     bindE (read_name packet pos) (\<lambda>(_, next).
       let pos' = next + 4 in
       if pos' > length packet then Inl DnsTruncated else skip_questions packet n pos')"

definition read_answer :: "bytes \<Rightarrow> nat \<Rightarrow> dns_error + (resource_record \<times> nat)" where
  "read_answer packet pos0 =
     bindE (read_name packet pos0) (\<lambda>(name, pos1).
     bindE (read_u16_at packet pos1) (\<lambda>rtype.
     bindE (read_u16_at packet (pos1 + 2)) (\<lambda>_.
     bindE (ok_or DnsTruncated (get_range packet (pos1 + 4) (pos1 + 8))) (\<lambda>_.
     bindE (read_u16_at packet (pos1 + 8)) (\<lambda>rdlength.
       let off = pos1 + 10 in
       bindE (ok_or DnsTruncated (get_range packet off (off + unat rdlength))) (\<lambda>rdata.
         Inr (\<lparr>rr_name = name, rr_rtype = rtype, rr_rdata = rdata, rr_rdata_offset = off\<rparr>,
              off + unat rdlength)))))))"

fun read_answers :: "bytes \<Rightarrow> nat \<Rightarrow> nat \<Rightarrow> dns_error + resource_record list" where
  "read_answers packet 0 pos = Inr []"
| "read_answers packet (Suc n) pos =
     bindE (read_answer packet pos) (\<lambda>(rr, pos').
     bindE (read_answers packet n pos') (\<lambda>rrs. Inr (rr # rrs)))"

definition parse_response :: "bytes \<Rightarrow> dns_error + dns_message" where
  "parse_response packet =
     (if length packet < 12 then Inl DnsTruncated
      else
        bindE (read_u16_at packet 0) (\<lambda>ident.
        bindE (read_u16_at packet 2) (\<lambda>flags.
        bindE (read_u16_at packet 4) (\<lambda>qdcount.
        bindE (read_u16_at packet 6) (\<lambda>ancount.
        bindE (skip_questions packet (unat qdcount) 12) (\<lambda>pos.
          let rcode = ucast (and flags 0x000F) in
          if rcode \<noteq> 0 then Inr \<lparr>dm_id = ident, dm_rcode = rcode, dm_answers = []\<rparr>
          else bindE (read_answers packet (unat ancount) pos) (\<lambda>answers.
            Inr \<lparr>dm_id = ident, dm_rcode = rcode, dm_answers = answers\<rparr>)))))))"

definition parse_mx_rdata :: "bytes \<Rightarrow> resource_record \<Rightarrow> dns_error + (u16 \<times> string)" where
  "parse_mx_rdata packet rr =
     (if length (rr_rdata rr) < 3 then Inl DnsTruncated
      else bindE (read_name packet (rr_rdata_offset rr + 2)) (\<lambda>(exchange, _).
        Inr (u16_of_be (rr_rdata rr ! 0) (rr_rdata rr ! 1), exchange)))"

definition be_value :: "bytes \<Rightarrow> nat" where
  "be_value bs = foldl (\<lambda>n b. 256 * n + unat b) 0 bs"

definition parse_a_rdata :: "resource_record \<Rightarrow> u32 option" where
  "parse_a_rdata rr = (if length (rr_rdata rr) = 4 then Some (of_nat (be_value (rr_rdata rr))) else None)"

definition parse_aaaa_rdata :: "resource_record \<Rightarrow> u128 option" where
  "parse_aaaa_rdata rr = (if length (rr_rdata rr) = 16 then Some (of_nat (be_value (rr_rdata rr))) else None)"

function txt_loop :: "bytes \<Rightarrow> string" where
  "txt_loop [] = []"
| "txt_loop (len # rest) =
     (if unat len > length rest then []
      else from_utf8_lossy (take (unat len) rest) @ txt_loop (drop (unat len) rest))"
  by pat_completeness auto
termination
  by (relation "measure length") auto

definition parse_txt_rdata :: "resource_record \<Rightarrow> string" where
  "parse_txt_rdata rr = txt_loop (rr_rdata rr)"

section \<open>Names at the boundary\<close>

datatype idn_error = NotConvertible string string | LabelTooLong string string | NameTooLong string

text \<open>\<open>idna\<close> is \<open>idna::domain_to_ascii_cow\<close> with the URL deny list, its error as text.\<close>

definition domain_to_ascii :: "(string \<Rightarrow> string + string) \<Rightarrow> string \<Rightarrow> idn_error + string" where
  "domain_to_ascii idna domain =
     bindE (map_err (NotConvertible domain) (idna domain)) (\<lambda>ascii.
       let bare = (case strip_suffix ''.'' ascii of Some b \<Rightarrow> b | None \<Rightarrow> ascii) in
       if length bare > 253 then Inl (NameTooLong domain)
       else case find (\<lambda>label. length label > 63) (split_on (CHR ''.'') bare) of
         Some label \<Rightarrow> Inl (LabelTooLong domain label)
       | None \<Rightarrow> Inr ascii)"

section \<open>The client\<close>

datatype query_error = InvalidInput idn_error | CsprngUnavailable | NetError string | InvalidData dns_error

text \<open>\<open>txn_id\<close> is the draw of \<open>random_txn_id\<close>; \<open>exchange\<close> sends a query over a fresh connected UDP
  socket and returns the first datagram received, at most 4096 bytes of it, or the I/O error.\<close>

definition query_raw :: "(string \<Rightarrow> string + string) \<Rightarrow> u16 option \<Rightarrow> (bytes \<Rightarrow> string + bytes) \<Rightarrow> string \<Rightarrow> u16
    \<Rightarrow> query_error + (bytes \<times> dns_message)" where
  "query_raw idna txn_id exchange qname qtype =
     bindE (map_err InvalidInput (domain_to_ascii idna qname)) (\<lambda>ascii.
     bindE (ok_or CsprngUnavailable txn_id) (\<lambda>ident.
     let query = encode_query ident ascii qtype in
     bindE (map_err NetError (exchange query)) (\<lambda>packet.
     bindE (map_err InvalidData (parse_response packet)) (\<lambda>msg.
       Inr (packet, msg)))))"

definition query :: "(string \<Rightarrow> string + string) \<Rightarrow> u16 option \<Rightarrow> (bytes \<Rightarrow> string + bytes) \<Rightarrow> string \<Rightarrow> u16
    \<Rightarrow> query_error + dns_message" where
  "query idna txn_id exchange qname qtype =
     bindE (query_raw idna txn_id exchange qname qtype) (\<lambda>(_, msg). Inr msg)"

section \<open>Resolvers on the client\<close>

text \<open>A client is its \<open>query_raw\<close>, threading the state of the network.\<close>

type_synonym 'w dns_client = "string \<Rightarrow> u16 \<Rightarrow> 'w \<Rightarrow> (query_error + (bytes \<times> dns_message)) \<times> 'w"

definition rrs_of :: "u16 \<Rightarrow> dns_message \<Rightarrow> resource_record list" where
  "rrs_of t msg = filter (\<lambda>rr. rr_rtype rr = t) (dm_answers msg)"

definition txt_values :: "dns_message \<Rightarrow> string list" where
  "txt_values msg = map parse_txt_rdata (rrs_of TYPE_TXT msg)"

definition mx_values :: "bytes \<Rightarrow> dns_message \<Rightarrow> (u16 \<times> string) list" where
  "mx_values packet msg =
     List.map_filter (\<lambda>rr. case parse_mx_rdata packet rr of Inl _ \<Rightarrow> None | Inr v \<Rightarrow> Some v) (rrs_of TYPE_MX msg)"

definition dns_spf_resolver :: "'w dns_client \<Rightarrow> 'w spf_resolver" where
  "dns_spf_resolver client =
     \<lparr>lookup_txt = (\<lambda>name w. map_prod (map_sum (\<lambda>_. ()) (\<lambda>(_, msg). txt_values msg)) id (client name TYPE_TXT w)),
      lookup_a = (\<lambda>name w. map_prod (map_sum (\<lambda>_. ())
        (\<lambda>(_, msg). List.map_filter parse_a_rdata (rrs_of TYPE_A msg))) id (client name TYPE_A w)),
      lookup_aaaa = (\<lambda>name w. map_prod (map_sum (\<lambda>_. ())
        (\<lambda>(_, msg). List.map_filter parse_aaaa_rdata (rrs_of TYPE_AAAA msg))) id (client name TYPE_AAAA w)),
      lookup_mx = (\<lambda>name w. map_prod (map_sum (\<lambda>_. ())
        (\<lambda>(packet, msg). map snd (mx_values packet msg))) id (client name TYPE_MX w))\<rparr>"

text \<open>The \<open>lookup_txt\<close> of \<open>DnsDmarcResolver\<close> and \<open>DnsTxtResolver\<close>: a failed query is an empty answer.\<close>

definition dns_lookup_txt :: "'w dns_client \<Rightarrow> string \<Rightarrow> 'w \<Rightarrow> string list \<times> 'w" where
  "dns_lookup_txt client name w =
     (case client name TYPE_TXT w of
        (Inr (_, msg), w') \<Rightarrow> (txt_values msg, w')
      | (Inl _, w') \<Rightarrow> ([], w'))"

section \<open>MX hosts\<close>

record mx_host =
  mh_host :: string
  mh_preference :: u16

type_synonym in_memory_mx = "string \<rightharpoonup> mx_host list"

definition mx_resolver_new :: in_memory_mx where
  "mx_resolver_new = Map.empty"

definition with_mx_hosts :: "string \<Rightarrow> (string \<times> u16) list \<Rightarrow> in_memory_mx \<Rightarrow> in_memory_mx" where
  "with_mx_hosts domain hosts m =
     m(to_ascii_lowercase domain \<mapsto> map (\<lambda>(h, p). \<lparr>mh_host = h, mh_preference = p\<rparr>) hosts)"

text \<open>\<open>sort_by_key\<close> is stable, as \<open>sort_key\<close> is.\<close>

definition im_resolve_mx :: "in_memory_mx \<Rightarrow> string \<Rightarrow> mx_host list" where
  "im_resolve_mx m domain =
     (case m (to_ascii_lowercase domain) of
        Some hosts \<Rightarrow>
          if hosts \<noteq> [] then sort_key mh_preference hosts else [\<lparr>mh_host = domain, mh_preference = 0\<rparr>]
      | None \<Rightarrow> [\<lparr>mh_host = domain, mh_preference = 0\<rparr>])"

definition dns_resolve_mx :: "(string \<Rightarrow> string + string) \<Rightarrow> 'w dns_client \<Rightarrow> string \<Rightarrow> 'w \<Rightarrow> mx_host list \<times> 'w" where
  "dns_resolve_mx idna client domain0 w =
     (let domain = (case domain_to_ascii idna domain0 of Inr d \<Rightarrow> d | Inl _ \<Rightarrow> domain0);
          fallback = [\<lparr>mh_host = domain, mh_preference = 0\<rparr>] in
      case client domain TYPE_MX w of
        (Inl _, w') \<Rightarrow> (fallback, w')
      | (Inr (packet, msg), w') \<Rightarrow>
          (let hosts = map (\<lambda>(pref, host). \<lparr>mh_host = host, mh_preference = pref\<rparr>) (mx_values packet msg)
           in (sort_key mh_preference (if hosts = [] then fallback else hosts), w')))"

section \<open>Bounds\<close>

lemma get_range_Some:
  "get_range xs a b = Some ys \<longleftrightarrow> a \<le> b \<and> b \<le> length xs \<and> ys = take (b - a) (drop a xs)"
  by (auto simp: get_range_def)

lemma get_at_Some: "get_at xs i = Some x \<longleftrightarrow> i < length xs \<and> x = xs ! i"
  by (auto simp: get_at_def)

lemma read_u16_at_Inr: "read_u16_at packet pos = Inr w \<Longrightarrow> pos + 2 \<le> length packet"
  by (auto simp: read_u16_at_def res get_range_Some)

text \<open>One step of reading a name: the end, a pointer, or a label.\<close>

lemma read_name_step:
  assumes "read_name_loop packet labels pos resume_at jumps = Inr r"
  obtains (stop) "pos < length packet" "r = (join_dot labels, case resume_at of None \<Rightarrow> pos + 1 | Some n \<Rightarrow> n)"
  | (jump) ptr where "jumps \<le> 32" "pos + 1 < length packet" "ptr < pos"
      "read_name_loop packet labels ptr (Some (case resume_at of None \<Rightarrow> pos + 2 | Some n \<Rightarrow> n)) (jumps + 1) = Inr r"
  | (label) n where "jumps \<le> 32" "0 < n" "pos + 1 + n \<le> length packet"
      "read_name_loop packet (labels @ [from_utf8_lossy (take n (drop (pos + 1) packet))]) (pos + 1 + n) resume_at jumps = Inr r"
proof -
  note eq = assms [unfolded read_name_loop.simps [of packet labels pos resume_at jumps]]
  from eq have j: "jumps \<le> 32" by (auto split: if_splits)
  from eq j obtain len where len: "get_at packet pos = Some len" by (auto split: option.splits)
  note eq = eq [unfolded len, simplified j linorder_not_less [symmetric] if_False option.case]
  show thesis
  proof (cases "len = 0")
    case True
    with eq j len show thesis by (intro stop) (simp_all add: get_at_Some)
  next
    case nz: False
    show thesis
    proof (cases "and len 0xC0 = 0xC0")
      case True
      with eq j nz obtain b2 where "get_at packet (pos + 1) = Some b2" by (auto split: option.splits)
      with eq j nz True show thesis
        by (intro jump [of "unat (and len 0x3F) * 256 + unat b2"])
          (auto simp: get_at_Some Let_def split: if_splits option.splits)
    next
      case False
      with eq j nz obtain bs where "get_range packet (pos + 1) (pos + 1 + unat len) = Some bs"
        by (auto split: option.splits if_splits)
      with eq j nz False show thesis
        by (intro label [of "unat len"]) (auto simp: get_range_def unat_gt_0 split: if_splits)
    qed
  qed
qed

lemma read_name_loop_next:
  "read_name_loop packet labels pos resume_at jumps = Inr (name, next) \<Longrightarrow>
     (case resume_at of None \<Rightarrow> pos < next \<and> next \<le> length packet | Some r \<Rightarrow> next = r)"
proof (induction "(33 - jumps, length packet - pos)" arbitrary: labels pos resume_at jumps
    rule: wf_induct_rule [OF wf_lex_prod [OF wf_less_than wf_less_than]])
  case 1
  from 1(2) show ?case
  proof (cases rule: read_name_step)
    case stop
    then show ?thesis by (auto split: option.splits)
  next
    case (jump ptr)
    then have "((33 - (jumps + 1), length packet - ptr), 33 - jumps, length packet - pos) \<in> less_than <*lex*> less_than"
      by auto
    from 1(1) [OF this jump(4)] jump show ?thesis by (auto split: option.splits)
  next
    case (label n)
    then have "((33 - jumps, length packet - (pos + 1 + n)), 33 - jumps, length packet - pos) \<in> less_than <*lex*> less_than"
      by auto
    from 1(1) [OF this label(4)] label show ?thesis by (auto split: option.splits)
  qed
qed

lemma read_name_next:
  "read_name packet pos = Inr (name, next) \<Longrightarrow> pos < next \<and> next \<le> length packet"
  unfolding read_name_def by (drule read_name_loop_next) simp

text \<open>A record's data is the slice of the packet at its offset; a record takes at least 11 bytes.\<close>

definition rr_slice :: "bytes \<Rightarrow> resource_record \<Rightarrow> bool" where
  "rr_slice packet rr \<longleftrightarrow> rr_rdata_offset rr + length (rr_rdata rr) \<le> length packet
     \<and> rr_rdata rr = take (length (rr_rdata rr)) (drop (rr_rdata_offset rr) packet)"

lemma read_answer_slice:
  assumes "read_answer packet pos = Inr (rr, next)"
  shows "pos + 11 \<le> next \<and> next \<le> length packet \<and> rr_slice packet rr"
proof -
  from assms obtain name pos1 w where "read_name packet pos = Inr (name, pos1)"
      "get_range packet (pos1 + 10) (pos1 + 10 + unat (w :: u16)) = Some (rr_rdata rr)"
      "next = pos1 + 10 + unat w" "rr_rdata_offset rr = pos1 + 10"
    by (auto simp: read_answer_def res Let_def)
  then show ?thesis
    using read_name_next [of packet pos name pos1] by (auto simp: get_range_Some rr_slice_def)
qed

lemma read_answers_bounded:
  "read_answers packet n pos = Inr rrs \<Longrightarrow> pos \<le> length packet \<Longrightarrow>
     pos + 11 * length rrs \<le> length packet \<and> length rrs = n \<and> list_all (rr_slice packet) rrs"
proof (induction n arbitrary: pos rrs)
  case (Suc n)
  then obtain rr pos' rrs' where "read_answer packet pos = Inr (rr, pos')"
      "read_answers packet n pos' = Inr rrs'" "rrs = rr # rrs'"
    by (auto simp: res)
  with Suc.IH [of pos' rrs'] read_answer_slice [of packet pos rr pos'] show ?case by auto
qed simp

lemma skip_questions_bounded:
  "skip_questions packet n pos = Inr pos' \<Longrightarrow> pos \<le> length packet \<Longrightarrow> pos \<le> pos' \<and> pos' \<le> length packet"
proof (induction n arbitrary: pos)
  case (Suc n)
  then obtain name nxt where "read_name packet pos = Inr (name, nxt)" "nxt + 4 \<le> length packet"
      "skip_questions packet n (nxt + 4) = Inr pos'"
    by (auto simp: res Let_def split: if_splits)
  with Suc.IH [of "nxt + 4"] read_name_next [of packet pos name nxt] show ?case by auto
qed simp

text \<open>Parsing a response is total and stays within the packet. Whatever the bytes (the section counts
  and compression pointers are the sender's), the parser returns; the records it returns take at
  least eleven bytes each of the packet after the header, and the data of each is the slice of the
  packet at its offset.\<close>

theorem parse_response_bounded:
  "case parse_response packet of
     Inl _ \<Rightarrow> True
   | Inr msg \<Rightarrow> 12 + 11 * length (dm_answers msg) \<le> length packet \<and> list_all (rr_slice packet) (dm_answers msg)"
proof (cases "parse_response packet")
  case (Inr msg)
  then have len: "12 \<le> length packet" by (auto simp: parse_response_def split: if_splits)
  from Inr have "\<exists>n m pos. skip_questions packet n 12 = Inr pos \<and>
      (dm_answers msg = [] \<or> read_answers packet m pos = Inr (dm_answers msg))"
    by (fastforce simp: parse_response_def res Let_def split: if_splits)
  then obtain n m pos where skip: "skip_questions packet n 12 = Inr pos"
      and ans: "dm_answers msg = [] \<or> read_answers packet m pos = Inr (dm_answers msg)"
    by blast
  have "12 \<le> pos" "pos \<le> length packet" using skip_questions_bounded [OF skip len] by auto
  with ans len read_answers_bounded [of packet m pos "dm_answers msg"] have
    "12 + 11 * length (dm_answers msg) \<le> length packet \<and> list_all (rr_slice packet) (dm_answers msg)"
    by auto
  with Inr show ?thesis by simp
qed simp

section \<open>Round trips\<close>

definition name_ok :: "string list \<Rightarrow> bool" where
  "name_ok labels \<longleftrightarrow> labels \<noteq> [] \<and>
     list_all (\<lambda>l. l \<noteq> [] \<and> length l \<le> 63 \<and> CHR ''.'' \<notin> set l \<and> is_str l) labels"

fun label_bytes :: "string list \<Rightarrow> bytes" where
  "label_bytes [] = []"
| "label_bytes (l # ls) = of_nat (length l) # as_bytes l @ label_bytes ls"

lemma split_join_dot:
  "ls \<noteq> [] \<Longrightarrow> list_all (\<lambda>l. CHR ''.'' \<notin> set l) ls \<Longrightarrow> split_on (CHR ''.'') (join_dot ls) = ls"
  by (induction ls rule: join_dot.induct) (simp_all add: split_on_no_sep split_on_append_sep)

lemma trim_end_char_id: "s \<noteq> [] \<Longrightarrow> last s \<noteq> c \<Longrightarrow> trim_end_char c s = s"
  by (cases s rule: rev_cases) (simp_all add: trim_end_char_def)

lemma last_join_dot:
  "ls \<noteq> [] \<Longrightarrow> list_all (\<lambda>l. l \<noteq> []) ls \<Longrightarrow> join_dot ls \<noteq> [] \<and> last (join_dot ls) = last (last ls)"
  by (induction ls rule: join_dot.induct) auto

lemma encode_labels_ok: "list_all (\<lambda>l. l \<noteq> [] \<and> length l \<le> 63) ls \<Longrightarrow> encode_labels ls = label_bytes ls"
  by (induction ls) (auto simp: Let_def min_def)

lemma encode_name_ok: "name_ok ls \<Longrightarrow> encode_name (join_dot ls) = label_bytes ls @ [0]"
proof -
  assume ok: "name_ok ls"
  have ne: "ls \<noteq> []" "list_all (\<lambda>l. l \<noteq> []) ls" "list_all (\<lambda>l. CHR ''.'' \<notin> set l) ls"
      "list_all (\<lambda>l. l \<noteq> [] \<and> length l \<le> 63) ls"
    using ok by (simp_all add: name_ok_def list_all_iff)
  have "last ls \<in> set ls" using ne(1) by simp
  then have "last ls \<noteq> []" "CHR ''.'' \<notin> set (last ls)" using ne(2,3) by (auto simp: list_all_iff)
  then have "last (last ls) \<noteq> CHR ''.''" using last_in_set [of "last ls"] by metis
  then have "trim_end_char (CHR ''.'') (join_dot ls) = join_dot ls"
    using last_join_dot [OF ne(1,2)] by (simp add: trim_end_char_id)
  then show ?thesis
    using split_join_dot [OF ne(1,3)] encode_labels_ok [OF ne(4)] by (simp add: encode_name_def)
qed

lemma label_len_bits: "n \<le> 63 \<Longrightarrow> and (of_nat n :: u8) 0xC0 = 0"
proof -
  assume n: "n \<le> 63"
  have "take_bit 6 (of_nat n :: u8) = of_nat n"
    using n by (simp add: take_bit_of_nat take_bit_nat_eq_self)
  then have "and (of_nat n :: u8) 0xC0 = and (and (of_nat n) (mask 6)) 0xC0"
    by (simp add: take_bit_eq_mask)
  also have "\<dots> = 0" by (simp add: and.assoc mask_eq_exp_minus_1)
  finally show ?thesis .
qed

lemma read_labels:
  assumes "list_all (\<lambda>l. l \<noteq> [] \<and> length l \<le> 63 \<and> is_str l) ls"
  shows "read_name_loop (pre @ label_bytes ls @ 0 # post) acc (length pre) None 0 =
    Inr (join_dot (acc @ ls), length pre + length (label_bytes ls) + 1)"
  using assms
proof (induction ls arbitrary: pre acc)
  case Nil
  then show ?case by (subst read_name_loop.simps) (simp add: get_at_def)
next
  case (Cons l ls)
  let ?n = "of_nat (length l) :: u8" and ?p = "pre @ label_bytes (l # ls) @ 0 # post"
  have l: "l \<noteq> []" "length l \<le> 63" "is_str l" using Cons.prems by auto
  then have u: "unat ?n = length l" by (intro unat_of_nat_less) simp
  with l(1) have n: "?n \<noteq> 0" by (metis length_0_conv unsigned_0)
  have "get_range ?p (length pre + 1) (length pre + 1 + length l) = Some (as_bytes l)"
    by (simp add: get_range_def as_bytes_def)
  then have "read_name_loop ?p acc (length pre) None 0 =
      read_name_loop ?p (acc @ [l]) (length pre + 1 + length l) None 0"
    by (subst read_name_loop.simps)
      (simp add: get_at_def u n label_len_bits [OF l(2)] from_utf8_lossy_str [OF l(3)])
  also have "\<dots> = Inr (join_dot (acc @ l # ls), length pre + length (label_bytes (l # ls)) + 1)"
    using Cons.IH [of "pre @ ?n # as_bytes l" "acc @ [l]"] Cons.prems by simp
  finally show ?case .
qed

lemma read_u16_at_be16: "length pre = pos \<Longrightarrow> read_u16_at (pre @ be16 w @ post) pos = Inr w"
  by (simp add: read_u16_at_def get_range_def) (simp add: be16_def u16_of_be16 del: of_nat_unat)

lemma read_query_name:
  assumes "name_ok ls"
  shows "read_name (encode_query ident (join_dot ls) qtype) 12 =
    Inr (join_dot ls, 12 + length (encode_name (join_dot ls)))"
proof -
  let ?pre = "be16 ident @ be16 0x0100 @ be16 1 @ be16 0 @ be16 0 @ be16 0"
  have "list_all (\<lambda>l. l \<noteq> [] \<and> length l \<le> 63 \<and> is_str l) ls"
    using assms by (simp add: name_ok_def list_all_iff)
  moreover have "length ?pre = 12" by simp
  ultimately show ?thesis
    using read_labels [of ls ?pre "be16 qtype @ be16 CLASS_IN" "[]"] assms
    by (simp add: encode_query_def encode_name_ok read_name_def)
qed

lemma query_reads_back:
  assumes "name_ok ls"
  shows "read_name (encode_query ident (join_dot ls) qtype) 12 =
      Inr (join_dot ls, length (encode_query ident (join_dot ls) qtype) - 4)"
    and "parse_response (encode_query ident (join_dot ls) qtype) =
      Inr \<lparr>dm_id = ident, dm_rcode = 0, dm_answers = []\<rparr>"
proof -
  let ?q = "encode_query ident (join_dot ls) qtype"
  have len: "length ?q = 12 + length (encode_name (join_dot ls)) + 4"
    by (simp add: encode_query_def)
  show name: "read_name ?q 12 = Inr (join_dot ls, length ?q - 4)"
    using read_query_name [OF assms] len by simp
  have h: "read_u16_at ?q 0 = Inr ident" "read_u16_at ?q 2 = Inr 0x0100" "read_u16_at ?q 4 = Inr 1"
      "read_u16_at ?q 6 = Inr 0"
    using read_u16_at_be16 [of "[]" 0 ident] read_u16_at_be16 [of "be16 ident" 2 "0x0100"]
      read_u16_at_be16 [of "be16 ident @ be16 0x0100" 4 1] read_u16_at_be16 [of "be16 ident @ be16 0x0100 @ be16 1" 6 0]
    by (simp_all add: encode_query_def)
  have "skip_questions ?q (Suc 0) 12 = Inr (length ?q)"
    using len by (simp add: name)
  moreover have "(0x0100 :: u16) AND 0x000F = 0" by simp
  ultimately show "parse_response ?q = Inr \<lparr>dm_id = ident, dm_rcode = 0, dm_answers = []\<rparr>"
    using len h by (simp add: parse_response_def Let_def)
qed

text \<open>A query encodes the name it asks for. For a name of valid labels (each between 1 and 63 bytes,
  without a dot) the question section of the encoded query reads back as that name, ending four
  bytes before the end of the packet, and the client's own parser reads the packet as a message with
  the query's id and no answers.\<close>

theorem query_roundtrip:
  assumes "name_ok ls"
  shows "read_name (encode_query ident (join_dot ls) qtype) 12 =
      Inr (join_dot ls, length (encode_query ident (join_dot ls) qtype) - 4)
    \<and> parse_response (encode_query ident (join_dot ls) qtype) =
      Inr \<lparr>dm_id = ident, dm_rcode = 0, dm_answers = []\<rparr>"
  using query_reads_back [OF assms] by blast

lemma demo_name: "name_ok [''a'', ''org'']"
  by (simp add: name_ok_def ascii_is_str)

theorem query_roundtrip_witness:
  "read_name (encode_query 7 ''a.org'' TYPE_TXT) 12 = Inr (''a.org'', length (encode_query 7 ''a.org'' TYPE_TXT) - 4)"
  using query_roundtrip [OF demo_name, of 7 TYPE_TXT] by simp

section \<open>What an answer is checked for\<close>

lemma domain_to_ascii_demo: "domain_to_ascii Inr ''a.org'' = Inr ''a.org''"
  by (simp add: domain_to_ascii_def strip_suffix_def ends_with_def Let_def)

text \<open>An answer is taken whatever its transaction id. Any packet that parses is returned as the
  answer to the query, although the random id sent with the query is documented as the defence
  against forged answers: the id of the packet is never compared with it.\<close>

theorem answer_id_unchecked:
  assumes "domain_to_ascii idna qname = Inr ascii" and "parse_response packet = Inr msg"
  shows "query_raw idna (Some ident) (\<lambda>_. Inr packet) qname qtype = Inr (packet, msg)"
  using assms by (simp add: query_raw_def Let_def)

theorem answer_id_unchecked_witness:
  "query_raw Inr (Some 7) (\<lambda>_. Inr (encode_query 8 ''a.org'' TYPE_TXT)) ''a.org'' TYPE_TXT
     = Inr (encode_query 8 ''a.org'' TYPE_TXT, \<lparr>dm_id = 8, dm_rcode = 0, dm_answers = []\<rparr>)"
  using answer_id_unchecked [OF domain_to_ascii_demo, of "encode_query 8 ''a.org'' TYPE_TXT"
      "\<lparr>dm_id = 8, dm_rcode = 0, dm_answers = []\<rparr>" 7 TYPE_TXT]
    query_reads_back(2) [OF demo_name, of 8 TYPE_TXT]
  by simp

text \<open>The reply code of a failing server empties the answer section.\<close>

lemma failed_response_empty:
  "parse_response packet = Inr msg \<Longrightarrow> dm_rcode msg \<noteq> 0 \<Longrightarrow> dm_answers msg = []"
  by (auto simp: parse_response_def res Let_def split: if_splits)

text \<open>A server failure reads as an absent record. Against a server that answers every query with a
  failure code such as \<open>SERVFAIL\<close>, the SPF check of any domain is \<open>None\<close>, as for a domain that publishes no
  policy, although the resolver's contract reserves \<open>Err\<close>, and with it \<open>TempError\<close>, for that case.\<close>

theorem servfail_is_no_policy:
  assumes "parse_response packet = Inr msg" and "dm_rcode msg \<noteq> 0"
    and "\<forall>name t w. client name t w = (Inr (packet, msg), w)"
  shows "fst (spf_check_host (dns_spf_resolver client) ip domain w) = SpfNone"
proof -
  have "txt_values msg = []"
    using failed_response_empty [OF assms(1,2)] by (simp add: txt_values_def rrs_of_def)
  then have "ask (lookup_txt (dns_spf_resolver client)) name ev = (Inr [], ev)" for name ev
    using assms(3) by (simp add: ask_def dns_spf_resolver_def)
  then show ?thesis
    by (simp add: spf_check_host_def ev_check_host.simps MAX_CHAIN_DEPTH_def Let_def)
qed

text \<open>A \<open>SERVFAIL\<close> reply: a header with the response and failure bits and no questions.\<close>

definition servfail_packet :: bytes where
  "servfail_packet = be16 7 @ be16 0x8182 @ be16 0 @ be16 0 @ be16 0 @ be16 0"

lemma servfail_parses: "parse_response servfail_packet = Inr \<lparr>dm_id = 7, dm_rcode = 2, dm_answers = []\<rparr>"
proof -
  have "read_u16_at servfail_packet 0 = Inr 7" "read_u16_at servfail_packet 2 = Inr 0x8182"
      "read_u16_at servfail_packet 4 = Inr 0" "read_u16_at servfail_packet 6 = Inr 0"
    using read_u16_at_be16 [of "[]" 0 7] read_u16_at_be16 [of "be16 7" 2 "0x8182"]
      read_u16_at_be16 [of "be16 7 @ be16 0x8182" 4 0] read_u16_at_be16 [of "be16 7 @ be16 0x8182 @ be16 0" 6 0]
    by (simp_all add: servfail_packet_def)
  moreover have "length servfail_packet = 12" by (simp add: servfail_packet_def)
  ultimately show ?thesis by (simp add: parse_response_def Let_def)
qed

theorem servfail_is_no_policy_witness:
  "fst (spf_check_host (dns_spf_resolver (\<lambda>_ _ w. (Inr (servfail_packet, \<lparr>dm_id = 7, dm_rcode = 2, dm_answers = []\<rparr>), w)))
     (V4 1) ''a.org'' ()) = SpfNone"
  using servfail_is_no_policy [OF servfail_parses, of
      "\<lambda>_ _ w. (Inr (servfail_packet, \<lparr>dm_id = 7, dm_rcode = 2, dm_answers = []\<rparr>), w)" "V4 1" "''a.org''" "()"]
  by simp

section \<open>MX order\<close>

text \<open>Mail exchangers come in preference order. A domain always has at least one exchanger; they are
  sorted by preference, hosts of one preference in the order published, and with no usable record the
  domain itself is the only exchanger.\<close>

theorem mx_order:
  "let hs = im_resolve_mx m domain; rs = get_or [] m (to_ascii_lowercase domain) in
   hs \<noteq> [] \<and> sorted (map mh_preference hs)
   \<and> (if rs = [] then hs = [\<lparr>mh_host = domain, mh_preference = 0\<rparr>]
      else \<forall>p. filter (\<lambda>h. mh_preference h = p) hs = filter (\<lambda>h. mh_preference h = p) rs)"
proof (cases "m (to_ascii_lowercase domain)")
  case (Some rs)
  have "sort_key mh_preference rs \<noteq> []" if "rs \<noteq> []"
    using that by (metis length_0_conv length_sort)
  with Some show ?thesis
    by (simp add: im_resolve_mx_def get_or_def Let_def sort_key_stable)
qed (simp add: im_resolve_mx_def get_or_def)

end
