(* ===== verification/Gw_Dns_Wire.thy ===== *)
theory Gw_Dns_Wire
  imports Gw_Dns
begin

unbundle bit_operations_syntax

text \<open>
  The wire format the DNS response parser of \<open>crates/gateway/src/dns.rs\<close> accepts, as relations on the packet
  that do not mention the parser: names with compression pointers, the question section and the answer
  section. The parser is proved to accept exactly these packets.
\<close>

section \<open>The wire format\<close>

text \<open>A big-endian 16-bit field at an offset.\<close>

definition u16_at :: "bytes \<Rightarrow> nat \<Rightarrow> u16 \<Rightarrow> bool" where
  "u16_at packet pos w \<longleftrightarrow> pos + 2 \<le> length packet \<and> take 2 (drop pos packet) = be16 w"

text \<open>\<open>wire_name packet pos ls k nxt\<close>: at \<open>pos\<close> stands a name with the labels \<open>ls\<close>, reached over \<open>k\<close>
  compression pointers, each of them strictly backwards; what follows the name starts at \<open>nxt\<close>.\<close>

inductive wire_name :: "bytes \<Rightarrow> nat \<Rightarrow> string list \<Rightarrow> nat \<Rightarrow> nat \<Rightarrow> bool" for packet where
  Root: "pos < length packet \<Longrightarrow> packet ! pos = 0 \<Longrightarrow> wire_name packet pos [] 0 (pos + 1)"
| Label: "pos < length packet \<Longrightarrow> n = unat (packet ! pos) \<Longrightarrow> 0 < n \<Longrightarrow> n < 64 \<Longrightarrow> pos + 1 + n \<le> length packet \<Longrightarrow>
    wire_name packet (pos + 1 + n) ls k nxt \<Longrightarrow>
    wire_name packet pos (from_utf8_lossy (take n (drop (pos + 1) packet)) # ls) k nxt"
| Pointer: "pos + 1 < length packet \<Longrightarrow> 192 \<le> unat (packet ! pos) \<Longrightarrow>
    ptr = (unat (packet ! pos) - 192) * 256 + unat (packet ! (pos + 1)) \<Longrightarrow> ptr < pos \<Longrightarrow>
    wire_name packet ptr ls k nxt \<Longrightarrow> wire_name packet pos ls (Suc k) (pos + 2)"

text \<open>A name the parser takes: at most 32 pointers.\<close>

definition short_name :: "bytes \<Rightarrow> nat \<Rightarrow> string \<Rightarrow> nat \<Rightarrow> bool" where
  "short_name packet pos name nxt \<longleftrightarrow> (\<exists>ls k. k \<le> 32 \<and> name = join_dot ls \<and> wire_name packet pos ls k nxt)"

inductive wire_questions :: "bytes \<Rightarrow> nat \<Rightarrow> nat \<Rightarrow> nat \<Rightarrow> bool" for packet where
  Q0: "wire_questions packet 0 pos pos"
| QSuc: "short_name packet pos name nxt \<Longrightarrow> nxt + 4 \<le> length packet \<Longrightarrow> wire_questions packet n (nxt + 4) pos' \<Longrightarrow>
    wire_questions packet (Suc n) pos pos'"

text \<open>A record: its name, type, class, time to live, data length and data.\<close>

definition wire_record :: "bytes \<Rightarrow> nat \<Rightarrow> resource_record \<Rightarrow> nat \<Rightarrow> bool" where
  "wire_record packet pos rr nxt \<longleftrightarrow>
     (\<exists>p rdlength. short_name packet pos (rr_name rr) p \<and> u16_at packet p (rr_rtype rr) \<and> u16_at packet (p + 8) rdlength
        \<and> rr_rdata_offset rr = p + 10 \<and> nxt = p + 10 + unat rdlength \<and> nxt \<le> length packet
        \<and> rr_rdata rr = take (unat rdlength) (drop (p + 10) packet))"

inductive wire_answers :: "bytes \<Rightarrow> nat \<Rightarrow> resource_record list \<Rightarrow> bool" for packet where
  A0: "wire_answers packet pos []"
| ASuc: "wire_record packet pos rr nxt \<Longrightarrow> wire_answers packet nxt rrs \<Longrightarrow> wire_answers packet pos (rr # rrs)"

inductive_simps wire_questions_0 [simp]: "wire_questions packet 0 pos pos'"
inductive_simps wire_questions_Suc: "wire_questions packet (Suc n) pos pos'"
inductive_simps wire_answers_Nil [simp]: "wire_answers packet pos []"
inductive_simps wire_answers_Cons: "wire_answers packet pos (rr # rrs)"

section \<open>Length bytes\<close>

lemma and_0xC0: "unat ((len :: u8) AND 0xC0) = 64 * (unat len div 64)"
proof -
  have c: "(0xC0 :: u8) = NOT (mask 6)" by (simp add: mask_eq_exp_minus_1)
  have "len AND NOT (mask 6) = push_bit 6 (drop_bit 6 len)"
    by (rule bit_word_eqI) (auto simp: bit_simps)
  moreover have "unat len \<le> 255" by (rule unat_u8_le)
  ultimately show ?thesis
    unfolding c by (simp only: unsigned_push_bit_eq unsigned_drop_bit_eq)
      (simp add: drop_bit_eq_div push_bit_eq_mult take_bit_nat_def)
qed

lemma and_0x3F_byte: "unat ((len :: u8) AND 0x3F) = unat len mod 64"
proof -
  have "len AND 0x3F = take_bit 6 len" by (simp add: take_bit_eq_mask mask_eq_exp_minus_1)
  then have "len AND 0x3F = len mod 64" by (simp add: take_bit_eq_mod)
  then show ?thesis by (simp add: unat_mod)
qed

lemma pointer_byte: "(len :: u8) AND 0xC0 = 0xC0 \<longleftrightarrow> 192 \<le> unat len"
  and plain_byte: "len AND 0xC0 = 0 \<longleftrightarrow> unat len < 64"
  and pointer_high: "192 \<le> unat len \<Longrightarrow> unat (len AND 0x3F) = unat len - 192"
proof -
  have l: "unat len \<le> 255" by (rule unat_u8_le)
  have "len AND 0xC0 = 0xC0 \<longleftrightarrow> unat (len AND 0xC0) = unat (0xC0 :: u8)" by (rule word_unat_eq_iff)
  also have "\<dots> \<longleftrightarrow> 192 \<le> unat len" using l unfolding and_0xC0 by auto
  finally show "len AND 0xC0 = 0xC0 \<longleftrightarrow> 192 \<le> unat len" .
  have "len AND 0xC0 = 0 \<longleftrightarrow> unat (len AND 0xC0) = 0" by (metis unat_eq_zero)
  also have "\<dots> \<longleftrightarrow> unat len < 64" unfolding and_0xC0 by auto
  finally show "len AND 0xC0 = 0 \<longleftrightarrow> unat len < 64" .
  show "192 \<le> unat len \<Longrightarrow> unat (len AND 0x3F) = unat len - 192"
    using l le_mod_geq [of 64 "unat len"] le_mod_geq [of 64 "unat len - 64"] le_mod_geq [of 64 "unat len - 128"]
    unfolding and_0x3F_byte by simp
qed

section \<open>Names\<close>

text \<open>One turn of the loop, read off the length byte.\<close>

lemma read_name_root:
  "j \<le> 32 \<Longrightarrow> pos < length packet \<Longrightarrow> packet ! pos = 0 \<Longrightarrow>
     read_name_loop packet acc pos res j = Inr (join_dot acc, case res of None \<Rightarrow> pos + 1 | Some r \<Rightarrow> r)"
  by (subst read_name_loop.simps) (simp add: get_at_def)

lemma read_name_label:
  "j \<le> 32 \<Longrightarrow> pos < length packet \<Longrightarrow> n = unat (packet ! pos) \<Longrightarrow> 0 < n \<Longrightarrow> n < 64 \<Longrightarrow> pos + 1 + n \<le> length packet \<Longrightarrow>
     read_name_loop packet acc pos res j
     = read_name_loop packet (acc @ [from_utf8_lossy (take n (drop (pos + 1) packet))]) (pos + 1 + n) res j"
  by (subst read_name_loop.simps)
    (auto simp: get_at_def get_range_def pointer_byte plain_byte unat_gt_0)

lemma read_name_pointer:
  "j \<le> 32 \<Longrightarrow> pos + 1 < length packet \<Longrightarrow> 192 \<le> unat (packet ! pos) \<Longrightarrow>
     ptr = (unat (packet ! pos) - 192) * 256 + unat (packet ! (pos + 1)) \<Longrightarrow> ptr < pos \<Longrightarrow>
     read_name_loop packet acc pos res j
     = read_name_loop packet acc ptr (Some (case res of None \<Rightarrow> pos + 2 | Some r \<Rightarrow> r)) (j + 1)"
  by (subst read_name_loop.simps)
    (auto simp: get_at_def pointer_byte pointer_high Let_def split: option.splits)

lemma wire_name_read:
  "wire_name packet pos ls k nxt \<Longrightarrow> j + k \<le> 32 \<Longrightarrow>
     read_name_loop packet acc pos res j = Inr (join_dot (acc @ ls), case res of None \<Rightarrow> nxt | Some r \<Rightarrow> r)"
proof (induction arbitrary: acc res j rule: wire_name.induct)
  case (Root pos)
  then show ?case by (simp add: read_name_root)
next
  case (Label pos n ls k nxt)
  then show ?case by (simp add: read_name_label)
next
  case (Pointer pos ptr ls k nxt)
  then show ?case by (simp add: read_name_pointer split: option.splits)
qed

lemma read_name_wire:
  "read_name_loop packet acc pos res j = Inr (name, nxt) \<Longrightarrow>
     \<exists>ls k n. j + k \<le> 32 \<and> name = join_dot (acc @ ls) \<and> wire_name packet pos ls k n
       \<and> nxt = (case res of None \<Rightarrow> n | Some r \<Rightarrow> r)"
proof (induction packet acc pos res j rule: read_name_loop.induct)
  case (1 packet acc pos res j)
  note eq = "1.prems" [unfolded read_name_loop.simps [of packet acc pos res j]]
  from eq have j: "\<not> 32 < j" by (auto split: if_splits)
  from eq j have pos: "get_at packet pos = Some (packet ! pos)" "pos < length packet"
    by (auto simp: get_at_def split: if_splits)
  let ?len = "packet ! pos"
  consider (root) "?len = 0" | (ptr) "?len \<noteq> 0" "?len AND 0xC0 = 0xC0" | (label) "?len \<noteq> 0" "?len AND 0xC0 = 0"
    using eq j pos by (auto split: if_splits)
  then show ?case
  proof cases
    case root
    then have "wire_name packet pos [] 0 (pos + 1)" using pos(2) by (intro wire_name.Root)
    moreover have "j + 0 \<le> 32 \<and> name = join_dot (acc @ []) \<and> nxt = (case res of None \<Rightarrow> pos + 1 | Some r \<Rightarrow> r)"
      using eq j pos root by simp
    ultimately show ?thesis by blast
  next
    case ptr
    let ?ptr = "unat (?len AND 0x3F) * 256 + unat (packet ! (pos + 1))"
    from eq j pos ptr have p: "pos + 1 < length packet" "?ptr < pos" "?ptr < length packet"
      by (auto simp: get_at_def Let_def split: if_splits)
    let ?res = "case res of None \<Rightarrow> Some (pos + 2) | Some r \<Rightarrow> Some r"
    from eq j pos ptr p have rec: "read_name_loop packet acc ?ptr ?res (j + 1) = Inr (name, nxt)"
      by (simp add: get_at_def Let_def)
    have "\<exists>ls k n. j + 1 + k \<le> 32 \<and> name = join_dot (acc @ ls) \<and> wire_name packet ?ptr ls k n
        \<and> nxt = (case ?res of None \<Rightarrow> n | Some r \<Rightarrow> r)"
      using "1.IH"(1) [OF j pos(1) ptr _ refl _ rec] p by (simp add: get_at_def)
    then obtain ls k n where w: "j + 1 + k \<le> 32" "name = join_dot (acc @ ls)" "wire_name packet ?ptr ls k n"
        "nxt = (case ?res of None \<Rightarrow> n | Some r \<Rightarrow> r)" by blast
    have "192 \<le> unat ?len" using ptr(2) by (simp add: pointer_byte)
    then have "wire_name packet pos ls (Suc k) (pos + 2)"
      using w(3) p(1,2) by (intro wire_name.Pointer [OF _ _ refl, of pos _ ls k n]) (simp_all add: pointer_high)
    with w show ?thesis by (intro exI [of _ ls] exI [of _ "Suc k"] exI [of _ "pos + 2"]) (auto split: option.splits)
  next
    case label
    let ?n = "unat ?len" and ?l = "from_utf8_lossy (take (unat ?len) (drop (pos + 1) packet))"
    from eq j pos label have p: "pos + 1 + ?n \<le> length packet"
      by (auto simp: get_range_def split: if_splits)
    then have r: "get_range packet (pos + 1) (pos + 1 + ?n) = Some (take ?n (drop (pos + 1) packet))"
      by (simp add: get_range_def)
    from eq j pos label r have rec: "read_name_loop packet (acc @ [?l]) (pos + 1 + ?n) res j = Inr (name, nxt)"
      by simp
    have "\<exists>ls k n. j + k \<le> 32 \<and> name = join_dot ((acc @ [?l]) @ ls) \<and> wire_name packet (pos + 1 + ?n) ls k n
        \<and> nxt = (case res of None \<Rightarrow> n | Some r \<Rightarrow> r)"
      using "1.IH"(2) [OF j pos(1) label(1) _ _ r rec] label(2) by simp
    then obtain ls k n where w: "j + k \<le> 32" "name = join_dot (acc @ ?l # ls)" "wire_name packet (pos + 1 + ?n) ls k n"
        "nxt = (case res of None \<Rightarrow> n | Some r \<Rightarrow> r)" by auto
    have "0 < ?n" "?n < 64" using label by (simp_all add: plain_byte unat_gt_0)
    then have "wire_name packet pos (?l # ls) k n" using w(3) p pos(2) by (intro wire_name.Label) auto
    with w show ?thesis by blast
  qed
qed

lemma read_name_iff: "read_name packet pos = Inr (name, nxt) \<longleftrightarrow> short_name packet pos name nxt"
  unfolding read_name_def short_name_def
  using read_name_wire [of packet "[]" pos None 0 name nxt] wire_name_read [of packet pos _ _ nxt 0 "[]" None] by auto

section \<open>Messages\<close>

lemma read_u16_iff: "read_u16_at packet pos = Inr w \<longleftrightarrow> u16_at packet pos w"
proof (cases "pos + 2 \<le> length packet")
  case True
  then have t: "take 2 (drop pos packet) = [packet ! pos, packet ! (pos + 1)]"
    by (simp add: take_Suc_conv_app_nth numeral_2_eq_2)
  have "read_u16_at packet pos = Inr (u16_of_be (packet ! pos) (packet ! (pos + 1)))"
    using True by (simp add: read_u16_at_def get_range_def res t)
  moreover have "u16_of_be (packet ! pos) (packet ! (pos + 1)) = w \<longleftrightarrow> [packet ! pos, packet ! (pos + 1)] = be16 w"
    by (metis be16_u16_of_be read_u16_be16 Inr_inject prod.inject)
  ultimately show ?thesis using True by (simp add: u16_at_def t)
next
  case False
  then show ?thesis using read_u16_at_Inr by (auto simp: u16_at_def)
qed

lemma u16_at_total: "pos + 2 \<le> length packet \<Longrightarrow> \<exists>w. u16_at packet pos w"
  by (auto simp: read_u16_iff [symmetric] read_u16_at_def get_range_def res)

lemma skip_questions_iff: "skip_questions packet n pos = Inr pos' \<longleftrightarrow> wire_questions packet n pos pos'"
proof (induction n arbitrary: pos)
  case (Suc n)
  then show ?case
    by (force simp: wire_questions_Suc res read_name_iff [symmetric] Let_def)
qed auto

lemma read_answer_iff: "read_answer packet pos = Inr (rr, nxt) \<longleftrightarrow> wire_record packet pos rr nxt"
proof
  assume "read_answer packet pos = Inr (rr, nxt)"
  then obtain name p rtype rdlength rdata where r: "read_name packet pos = Inr (name, p)"
      "read_u16_at packet p = Inr rtype" "read_u16_at packet (p + 8) = Inr rdlength"
      "get_range packet (p + 10) (p + 10 + unat rdlength) = Some rdata"
      "rr = \<lparr>rr_name = name, rr_rtype = rtype, rr_rdata = rdata, rr_rdata_offset = p + 10\<rparr>"
      "nxt = p + 10 + unat rdlength"
    by (auto simp: read_answer_def res Let_def)
  then show "wire_record packet pos rr nxt"
    unfolding wire_record_def read_name_iff read_u16_iff get_range_Some
    by (intro exI [of _ p] exI [of _ rdlength]) auto
next
  assume "wire_record packet pos rr nxt"
  then obtain p rdlength where r: "read_name packet pos = Inr (rr_name rr, p)"
      "read_u16_at packet p = Inr (rr_rtype rr)" "read_u16_at packet (p + 8) = Inr rdlength"
      "rr_rdata_offset rr = p + 10" "nxt = p + 10 + unat rdlength" "nxt \<le> length packet"
      "rr_rdata rr = take (unat rdlength) (drop (p + 10) packet)"
    unfolding wire_record_def read_name_iff [symmetric] read_u16_iff [symmetric] by blast
  then obtain w where "read_u16_at packet (p + 2) = Inr w"
    using u16_at_total [of "p + 2" packet] by (auto simp: read_u16_iff)
  with r show "read_answer packet pos = Inr (rr, nxt)"
    by (auto simp: read_answer_def res get_range_def Let_def intro!: resource_record.equality)
qed

lemma read_answers_iff:
  "read_answers packet n pos = Inr rrs \<longleftrightarrow> length rrs = n \<and> wire_answers packet pos rrs"
proof (induction n arbitrary: pos rrs)
  case (Suc n)
  show ?case
    by (cases rrs) (auto simp: res Suc.IH wire_answers_Cons read_answer_iff [symmetric])
qed auto

text \<open>C11: the DNS response parser accepts exactly the packets in wire format. It returns a message if and only
  if the packet has a header with that identifier and response code, a question section with as many
  questions as the header counts and, where the response code is zero, an answer section with as many
  records as the header counts, which are the message's records, each with the data at its offset in
  the packet; with another response code the message has no records. Names are chains of labels of at most 63 bytes
  in which at most 32 compression pointers are followed, each to an earlier place in the packet; every
  other packet, one with a pointer cycle included, is an error.\<close>

theorem parse_response_wire_format:
  "parse_response packet = Inr msg \<longleftrightarrow>
     12 \<le> length packet \<and>
     (\<exists>flags qdcount ancount pos.
        u16_at packet 0 (dm_id msg) \<and> u16_at packet 2 flags \<and> u16_at packet 4 qdcount \<and> u16_at packet 6 ancount
        \<and> dm_rcode msg = ucast (flags AND 15) \<and> wire_questions packet (unat qdcount) 12 pos
        \<and> (if dm_rcode msg = 0
           then length (dm_answers msg) = unat ancount \<and> wire_answers packet pos (dm_answers msg)
           else dm_answers msg = []))"
proof (cases "12 \<le> length packet")
  case True
  show ?thesis
    unfolding read_u16_iff [symmetric] skip_questions_iff [symmetric] read_answers_iff [symmetric]
  proof
    assume "parse_response packet = Inr msg"
    with True show "12 \<le> length packet \<and> (\<exists>flags qdcount ancount pos. read_u16_at packet 0 = Inr (dm_id msg)
        \<and> read_u16_at packet 2 = Inr flags \<and> read_u16_at packet 4 = Inr qdcount \<and> read_u16_at packet 6 = Inr ancount
        \<and> dm_rcode msg = ucast (flags AND 15) \<and> skip_questions packet (unat qdcount) 12 = Inr pos
        \<and> (if dm_rcode msg = 0 then read_answers packet (unat ancount) pos = Inr (dm_answers msg) else dm_answers msg = []))"
      by (fastforce simp: parse_response_def res Let_def split: if_splits)
  next
    assume "12 \<le> length packet \<and> (\<exists>flags qdcount ancount pos. read_u16_at packet 0 = Inr (dm_id msg)
        \<and> read_u16_at packet 2 = Inr flags \<and> read_u16_at packet 4 = Inr qdcount \<and> read_u16_at packet 6 = Inr ancount
        \<and> dm_rcode msg = ucast (flags AND 15) \<and> skip_questions packet (unat qdcount) 12 = Inr pos
        \<and> (if dm_rcode msg = 0 then read_answers packet (unat ancount) pos = Inr (dm_answers msg) else dm_answers msg = []))"
    then show "parse_response packet = Inr msg"
      by (auto simp: parse_response_def res Let_def intro!: dns_message.equality split: if_splits)
  qed
qed (simp add: parse_response_def)

end
