(* ===== verification/Gw_B64.thy ===== *)
theory Gw_B64
  imports Byte_Io
begin

text \<open>
  Base64 (\<open>gateway/src/b64.rs\<close>): the encoder over chunks of three bytes and the decoder with its bit
  buffer, which stops at the first padding character and skips white space.
\<close>

definition ALPHABET :: string where
  "ALPHABET = ''ABCDEFGHIJKLMNOPQRSTUVWXYZabcdefghijklmnopqrstuvwxyz0123456789+/''"

definition b64_char :: "u32 \<Rightarrow> char" where
  "b64_char n = ALPHABET ! unat (and n 0x3F)"

text \<open>One chunk; a missing second or third byte counts as zero and is written as padding.\<close>

definition encode_chunk :: "bytes \<Rightarrow> string" where
  "encode_chunk chunk =
     (let b0 = ucast (chunk ! 0) :: u32;
          b1 = (if length chunk > 1 then ucast (chunk ! 1) else 0);
          b2 = (if length chunk > 2 then ucast (chunk ! 2) else 0);
          n = or (or (push_bit 16 b0) (push_bit 8 b1)) b2 in
      [b64_char (drop_bit 18 n), b64_char (drop_bit 12 n),
       if length chunk > 1 then b64_char (drop_bit 6 n) else CHR ''='',
       if length chunk > 2 then b64_char n else CHR ''=''])"

fun chunks3 :: "'a list \<Rightarrow> 'a list list" where
  "chunks3 (x # y # z # xs) = [x, y, z] # chunks3 xs"
| "chunks3 [] = []"
| "chunks3 [x] = [[x]]"
| "chunks3 [x, y] = [[x, y]]"

definition b64_encode :: "bytes \<Rightarrow> string" where
  "b64_encode input = concat (map encode_chunk (chunks3 input))"

definition b64_value :: "char \<Rightarrow> nat option" where
  "b64_value c =
     (let n = byte_of c in
      if 65 \<le> n \<and> n \<le> 90 then Some (n - 65)
      else if 97 \<le> n \<and> n \<le> 122 then Some (n - 97 + 26)
      else if 48 \<le> n \<and> n \<le> 57 then Some (n - 48 + 52)
      else if c = CHR ''+'' then Some 62
      else if c = CHR ''/'' then Some 63
      else None)"

fun decode_loop :: "u32 \<Rightarrow> nat \<Rightarrow> string \<Rightarrow> string + bytes" where
  "decode_loop bits nbits [] = Inr []"
| "decode_loop bits nbits (c # cs) =
     (case b64_value c of
        Some v \<Rightarrow>
          (let bits' = or (push_bit 6 bits) (of_nat v); nbits' = nbits + 6 in
           if nbits' \<ge> 8
           then map_sum id (\<lambda>out. ucast (drop_bit (nbits' - 8) bits') # out) (decode_loop bits' (nbits' - 8) cs)
           else decode_loop bits' nbits' cs)
      | None \<Rightarrow>
          if c = CHR ''='' then Inr []
          else if byte_of c = 32 \<or> byte_of c = 9 \<or> byte_of c = 13 \<or> byte_of c = 10
          then decode_loop bits nbits cs
          else Inl ''invalid base64 character'')"

definition b64_decode :: "string \<Rightarrow> string + bytes" where
  "b64_decode input = decode_loop 0 0 input"

section \<open>Round trip\<close>

lemma b64_value_ALPHABET: "i < 64 \<Longrightarrow> b64_value (ALPHABET ! i) = Some i"
proof -
  assume i: "i < 64"
  have "map b64_value ALPHABET = map Some [0..<64]"
    by (simp add: ALPHABET_def b64_value_def upt_conv_Cons)
  moreover have "length ALPHABET = 64" by (simp add: ALPHABET_def)
  ultimately have "map b64_value ALPHABET ! i = map Some [0..<64] ! i" "i < length ALPHABET"
    using i by simp_all
  with i show ?thesis by simp
qed

lemma and_0x3F: "unat (and (n :: u32) 0x3F) = unat n mod 64"
proof -
  have "and n 0x3F = take_bit 6 n" by (simp add: take_bit_eq_mask mask_eq_exp_minus_1)
  then have "and n 0x3F = n mod 64" by (simp add: take_bit_eq_mod)
  then show ?thesis by (simp add: unat_mod)
qed

lemma b64_value_char: "b64_value (b64_char n) = Some (unat n mod 64)"
  by (simp add: b64_char_def and_0x3F b64_value_ALPHABET)

text \<open>Appending low bits to a shifted word is addition.\<close>

lemma or_low_bits:
  fixes a :: u32
  assumes "v < 2 ^ k" "k \<le> 32"
  shows "unat (or (push_bit k a) (of_nat v)) = (2 ^ k * unat a + v) mod 2 ^ 32"
proof -
  have "take_bit k (of_nat v :: u32) = of_nat v"
    using assms(1) by (simp add: take_bit_of_nat take_bit_nat_eq_self)
  then have "\<not> bit (of_nat v :: u32) i" if "k \<le> i" for i
    using that by (metis bit_take_bit_iff leD)
  then have "and (push_bit k a) (of_nat v) = 0"
    by (intro bit_word_eqI) (auto simp: bit_simps)
  then have "or (push_bit k a) (of_nat v) = push_bit k a + of_nat v"
    by (simp add: disjunctive_add_eq_or)
  also have "\<dots> = of_nat (2 ^ k * unat a + v)"
    by (simp add: push_bit_eq_mult)
  finally have "unat (or (push_bit k a) (of_nat v)) = unat (of_nat (2 ^ k * unat a + v) :: u32)"
    by (rule arg_cong)
  then show ?thesis by (simp only: unat_of_nat) simp
qed

lemma chunk_value:
  fixes b0 b1 b2 :: u8
  shows "unat (or (or (push_bit 16 (ucast b0)) (push_bit 8 (ucast b1))) (ucast b2) :: u32)
    = unat b0 * 65536 + unat b1 * 256 + unat b2"
proof -
  have b: "unat b0 < 256" "unat b1 < 256" "unat b2 < 256"
    using unat_u8_le [of b0] unat_u8_le [of b1] unat_u8_le [of b2] by simp_all
  have u: "(ucast b :: u32) = of_nat (unat b)" for b :: u8 by simp
  have uu: "unat (ucast b :: u32) = unat b" if "unat b < 256" for b :: u8
    unfolding u using that by (intro unat_of_nat_less) simp
  let ?h = "or (push_bit 8 (ucast b0)) (ucast b1) :: u32"
  have "or (or (push_bit 16 (ucast b0)) (push_bit 8 (ucast b1))) (ucast b2) = (or (push_bit 8 ?h) (ucast b2) :: u32)"
    by (simp add: push_bit_or push_bit_push_bit)
  moreover have "unat ?h = unat b0 * 256 + unat b1"
    using or_low_bits [of "unat b1" 8 "ucast b0"] b by (simp add: uu u [symmetric] del: of_nat_unat)
  ultimately show ?thesis
    using or_low_bits [of "unat b2" 8 ?h] b by (simp add: u [symmetric] del: of_nat_unat)
qed

text \<open>The four six-bit groups of three bytes.\<close>

lemma groups:
  fixes b0 b1 b2 :: nat
  assumes "b0 < 256" "b1 < 256" "b2 < 256"
  defines "n \<equiv> b0 * 65536 + b1 * 256 + b2"
  shows "n div 262144 mod 64 = b0 div 4" "n div 4096 mod 64 = b0 mod 4 * 16 + b1 div 16"
    "n div 64 mod 64 = b1 mod 16 * 4 + b2 div 64" "n mod 64 = b2 mod 64"
proof -
  have dm: "(q * 64 + r) div 64 = q" "(q * 64 + r) mod 64 = r" if "r < 64" for q r :: nat
    using that by simp_all
  have b: "b2 div 64 < 4" "b1 div 16 < 16" "b0 div 4 < 64" using assms by linarith+
  have n: "n = (b0 * 1024 + b1 * 4 + b2 div 64) * 64 + b2 mod 64"
    unfolding n_def using div_mult_mod_eq [of b2 64] by (simp add: algebra_simps)
  have d6: "n div 64 = (b0 * 16 + b1 div 16) * 64 + (b1 mod 16 * 4 + b2 div 64)"
  proof -
    have "n div 64 = b0 * 1024 + b1 * 4 + b2 div 64" unfolding n by (rule dm(1)) simp
    moreover have "b1 * 4 = b1 div 16 * 64 + b1 mod 16 * 4" using div_mult_mod_eq [of b1 16] by linarith
    ultimately show ?thesis by simp
  qed
  have r6: "b1 mod 16 * 4 + b2 div 64 < 64" using b(1) mod_less_divisor [of 16 b1] by linarith
  have d12: "n div 4096 = b0 div 4 * 64 + (b0 mod 4 * 16 + b1 div 16)"
  proof -
    have "n div 4096 = n div 64 div 64" by (simp add: div_mult2_eq [symmetric])
    also have "\<dots> = b0 * 16 + b1 div 16" unfolding d6 by (rule dm(1) [OF r6])
    finally show ?thesis using div_mult_mod_eq [of b0 4] by linarith
  qed
  have r12: "b0 mod 4 * 16 + b1 div 16 < 64" using b(2) mod_less_divisor [of 4 b0] by linarith
  have "n div 262144 = n div 4096 div 64" by (simp add: div_mult2_eq [symmetric])
  also have "\<dots> = b0 div 4" unfolding d12 by (rule dm(1) [OF r12])
  finally show "n div 262144 mod 64 = b0 div 4" using b(3) by simp
  show "n div 4096 mod 64 = b0 mod 4 * 16 + b1 div 16" unfolding d12 by (rule dm(2) [OF r12])
  show "n div 64 mod 64 = b1 mod 16 * 4 + b2 div 64" unfolding d6 by (rule dm(2) [OF r6])
  show "n mod 64 = b2 mod 64" unfolding n by (rule dm(2)) simp
qed

lemma out_byte: "unat (ucast (drop_bit k (w :: u32)) :: u8) = unat w div 2 ^ k mod 256"
proof -
  have "unat (ucast (drop_bit k w) :: u8) = unat (drop_bit k w) mod 2 ^ LENGTH(8)"
    by (simp add: unsigned_ucast_eq take_bit_eq_mod)
  also have "unat (drop_bit k w) = unat w div 2 ^ k"
    by (metis unat_drop_bit_eq drop_bit_eq_div)
  finally show ?thesis by simp
qed

text \<open>Decoding one character that carries six bits.\<close>

lemma decode_char:
  assumes "b64_value c = Some v" "v < 64"
  obtains bits' where "unat bits' = (64 * unat bits + v) mod 2 ^ 32"
    "decode_loop bits nbits (c # cs) =
       (if nbits + 6 \<ge> 8
        then map_sum id (\<lambda>out. of_nat (unat bits' div 2 ^ (nbits + 6 - 8)) # out) (decode_loop bits' (nbits + 6 - 8) cs)
        else decode_loop bits' (nbits + 6) cs)"
proof
  let ?b = "or (push_bit 6 bits) (of_nat v) :: u32"
  show "unat ?b = (64 * unat bits + v) mod 2 ^ 32"
    using or_low_bits [of v 6 bits] assms(2) by simp
  have "ucast (drop_bit k ?b) = (of_nat (unat ?b div 2 ^ k) :: u8)" for k
    by (rule unsigned_word_eqI [where 'a = nat]) (simp only: out_byte unat_of_nat_u8)
  then show "decode_loop bits nbits (c # cs) =
       (if nbits + 6 \<ge> 8
        then map_sum id (\<lambda>out. of_nat (unat ?b div 2 ^ (nbits + 6 - 8)) # out) (decode_loop ?b (nbits + 6 - 8) cs)
        else decode_loop ?b (nbits + 6) cs)"
    using assms(1) by (simp add: Let_def)
qed

text \<open>
  The byte that leaves the buffer depends on its last sextet and the one that comes in; what was in the
  buffer before, and what the 32 bits push out at the top, plays no role.
\<close>

lemma div_mod_cong:
  assumes "y mod (a * b) = z mod (a * b :: nat)"
  shows "y div a mod b = z div a mod b"
proof (cases "a = 0")
  case False
  have "x div a mod b = (x mod (a * b)) div a" for x
    using False by (simp add: mod_mult2_eq)
  with assms show ?thesis by metis
qed simp

lemma buffer_byte:
  assumes "k \<le> 4"
  shows "(64 * x + v) mod 2 ^ 32 div 2 ^ k mod 256 = (64 * (x mod 64) + v) div 2 ^ k mod (256 :: nat)"
proof (rule div_mod_cong)
  have d: "(2 :: nat) ^ k * 256 dvd 4096"
  proof -
    have "(2 :: nat) ^ k * 2 ^ (4 - k) = 16" using assms by (simp add: power_add [symmetric])
    then have "4096 = (2 :: nat) ^ k * 256 * 2 ^ (4 - k)" by simp
    then show ?thesis by (rule dvdI)
  qed
  then have "(2 :: nat) ^ k * 256 dvd 2 ^ 32" by (rule dvd_trans) simp
  then have m: "(64 * x + v) mod 2 ^ 32 mod (2 ^ k * 256) = (64 * x + v) mod (2 ^ k * 256)"
    by (rule mod_mod_cancel)
  have e: "64 * x + v = 4096 * (x div 64) + (64 * (x mod 64) + v)"
    using div_mult_mod_eq [of x 64] by linarith
  have "(4096 * q + r) mod (2 ^ k * 256) = r mod (2 ^ k * 256)" for q r :: nat
    using d by (metis dvd_mult2 mod_add_left_eq dvd_imp_mod_0 add_0)
  then show "(64 * x + v) mod 2 ^ 32 mod (2 ^ k * 256) = (64 * (x mod 64) + v) mod (2 ^ k * 256)"
    unfolding m by (subst e)
qed

lemma buffer_sextet: "v < 64 \<Longrightarrow> (64 * x + v) mod 2 ^ 32 mod 64 = (v :: nat)"
  by (subst mod_mod_cancel) simp_all

text \<open>The four positions of a character in a quantum.\<close>

lemma decode_first:
  assumes "b64_value c = Some v" "v < 64"
  obtains bits' where "unat bits' mod 64 = v" "decode_loop bits 0 (c # cs) = decode_loop bits' 6 cs"
proof (rule decode_char [OF assms, where bits = bits and nbits = 0 and cs = cs])
  fix bits' :: u32
  assume "unat bits' = (64 * unat bits + v) mod 2 ^ 32"
    "decode_loop bits 0 (c # cs) =
       (if 0 + 6 \<ge> (8 :: nat)
        then map_sum id (\<lambda>out. of_nat (unat bits' div 2 ^ (0 + 6 - 8)) # out) (decode_loop bits' (0 + 6 - 8) cs)
        else decode_loop bits' (0 + 6) cs)"
  then show thesis
    by (intro that [of bits']) (simp_all only: buffer_sextet [OF assms(2)], simp)
qed

lemma decode_later:
  assumes "b64_value c = Some v" "v < 64" and k: "nbits = k + 2" "k \<le> 4"
  obtains bits' where "unat bits' mod 64 = v"
    "decode_loop bits nbits (c # cs) =
       map_sum id (\<lambda>out. of_nat ((64 * (unat bits mod 64) + v) div 2 ^ k) # out) (decode_loop bits' k cs)"
proof (rule decode_char [OF assms(1,2), where bits = bits and nbits = nbits and cs = cs])
  fix bits' :: u32
  assume u: "unat bits' = (64 * unat bits + v) mod 2 ^ 32"
    and d: "decode_loop bits nbits (c # cs) =
       (if nbits + 6 \<ge> 8
        then map_sum id (\<lambda>out. of_nat (unat bits' div 2 ^ (nbits + 6 - 8)) # out) (decode_loop bits' (nbits + 6 - 8) cs)
        else decode_loop bits' (nbits + 6) cs)"
  have "(of_nat (unat bits' div 2 ^ k) :: u8) = of_nat ((64 * (unat bits mod 64) + v) div 2 ^ k)"
    by (rule unsigned_word_eqI [where 'a = nat]) (simp only: unat_of_nat_u8 u buffer_byte [OF k(2)])
  moreover have "decode_loop bits nbits (c # cs) =
      map_sum id (\<lambda>out. of_nat (unat bits' div 2 ^ k) # out) (decode_loop bits' k cs)"
    unfolding d using k(1) by simp
  moreover have "unat bits' mod 64 = v" unfolding u by (rule buffer_sextet [OF assms(2)])
  ultimately show thesis by (intro that [of bits']) simp_all
qed

text \<open>The characters of a chunk carry the sextets of its bytes; missing bytes count as zero.\<close>

lemma sextet_chars:
  fixes b0 b1 b2 :: u8
  defines "w \<equiv> or (or (push_bit 16 (ucast b0)) (push_bit 8 (ucast b1))) (ucast b2) :: u32"
  shows "b64_value (b64_char (drop_bit 18 w)) = Some (unat b0 div 4)"
    "b64_value (b64_char (drop_bit 12 w)) = Some (unat b0 mod 4 * 16 + unat b1 div 16)"
    "b64_value (b64_char (drop_bit 6 w)) = Some (unat b1 mod 16 * 4 + unat b2 div 64)"
    "b64_value (b64_char w) = Some (unat b2 mod 64)"
proof -
  have lt: "unat b < 256" for b :: u8 using unat_u8_le [of b] by simp
  have w: "unat w = unat b0 * 65536 + unat b1 * 256 + unat b2" unfolding w_def by (rule chunk_value)
  have dr: "unat (drop_bit k w) = unat w div 2 ^ k" for k by (metis unat_drop_bit_eq drop_bit_eq_div)
  have p: "(2 :: nat) ^ 18 = 262144" "(2 :: nat) ^ 12 = 4096" "(2 :: nat) ^ 6 = 64" by simp_all
  note g = groups [OF lt lt lt, of b0 b1 b2]
  show "b64_value (b64_char (drop_bit 18 w)) = Some (unat b0 div 4)"
    "b64_value (b64_char (drop_bit 12 w)) = Some (unat b0 mod 4 * 16 + unat b1 div 16)"
    "b64_value (b64_char (drop_bit 6 w)) = Some (unat b1 mod 16 * 4 + unat b2 div 64)"
    "b64_value (b64_char w) = Some (unat b2 mod 64)"
    unfolding b64_value_char dr p unfolding w g by (rule refl)+
qed

lemma encode_chunk_value:
  fixes b0 b1 b2 :: u8
  shows "\<exists>c0 c1 c2 c3. encode_chunk [b0, b1, b2] = [c0, c1, c2, c3] \<and>
      b64_value c0 = Some (unat b0 div 4) \<and> b64_value c1 = Some (unat b0 mod 4 * 16 + unat b1 div 16) \<and>
      b64_value c2 = Some (unat b1 mod 16 * 4 + unat b2 div 64) \<and> b64_value c3 = Some (unat b2 mod 64)"
    and "\<exists>c0 c1 c2. encode_chunk [b0, b1] = [c0, c1, c2, CHR ''=''] \<and>
      b64_value c0 = Some (unat b0 div 4) \<and> b64_value c1 = Some (unat b0 mod 4 * 16 + unat b1 div 16) \<and>
      b64_value c2 = Some (unat b1 mod 16 * 4 + unat (0 :: u8) div 64)"
    and "\<exists>c0 c1. encode_chunk [b0] = [c0, c1, CHR ''='', CHR ''=''] \<and>
      b64_value c0 = Some (unat b0 div 4) \<and> b64_value c1 = Some (unat b0 mod 4 * 16 + unat (0 :: u8) div 16)"
proof -
  have z: "(ucast (0 :: u8) :: u32) = 0" by simp
  show "\<exists>c0 c1 c2 c3. encode_chunk [b0, b1, b2] = [c0, c1, c2, c3] \<and>
      b64_value c0 = Some (unat b0 div 4) \<and> b64_value c1 = Some (unat b0 mod 4 * 16 + unat b1 div 16) \<and>
      b64_value c2 = Some (unat b1 mod 16 * 4 + unat b2 div 64) \<and> b64_value c3 = Some (unat b2 mod 64)"
    by (intro exI conjI, rule_tac [2-] sextet_chars) (simp add: encode_chunk_def Let_def del: drop_bit_or)
  show "\<exists>c0 c1 c2. encode_chunk [b0, b1] = [c0, c1, c2, CHR ''=''] \<and>
      b64_value c0 = Some (unat b0 div 4) \<and> b64_value c1 = Some (unat b0 mod 4 * 16 + unat b1 div 16) \<and>
      b64_value c2 = Some (unat b1 mod 16 * 4 + unat (0 :: u8) div 64)"
    by (intro exI conjI, rule_tac [2-] sextet_chars [where ?b2.0 = 0, unfolded z])
      (simp add: encode_chunk_def Let_def del: drop_bit_or)
  show "\<exists>c0 c1. encode_chunk [b0] = [c0, c1, CHR ''='', CHR ''=''] \<and>
      b64_value c0 = Some (unat b0 div 4) \<and> b64_value c1 = Some (unat b0 mod 4 * 16 + unat (0 :: u8) div 16)"
    by (intro exI conjI, rule_tac [2-] sextet_chars [where ?b1.0 = 0 and ?b2.0 = 0, unfolded z])
      (simp add: encode_chunk_def Let_def del: drop_bit_or)
qed

lemma sextets:
  fixes b0 b1 b2 :: nat
  assumes "b1 < 256" "b2 < 256"
  shows "(64 * (b0 div 4) + (b0 mod 4 * 16 + b1 div 16)) div 2 ^ 4 = b0"
    and "(64 * (b0 mod 4 * 16 + b1 div 16) + (b1 mod 16 * 4 + b2 div 64)) div 2 ^ 2 = b0 mod 4 * 256 + b1"
    and "(64 * (b1 mod 16 * 4 + b2 div 64) + b2 mod 64) div 2 ^ 0 = b1 mod 16 * 256 + b2"
proof -
  have dm: "(q * m + r) div m = q" if "r < m" for q m r :: nat using that by simp
  have lt: "b1 div 16 < 16" "b2 div 64 < 4" using assms by linarith+
  have "64 * (b0 div 4) + (b0 mod 4 * 16 + b1 div 16) = b0 * 16 + b1 div 16"
    using div_mult_mod_eq [of b0 4] by linarith
  with dm [OF lt(1), of b0] show "(64 * (b0 div 4) + (b0 mod 4 * 16 + b1 div 16)) div 2 ^ 4 = b0" by simp
  have "64 * (b0 mod 4 * 16 + b1 div 16) + (b1 mod 16 * 4 + b2 div 64) = (b0 mod 4 * 256 + b1) * 4 + b2 div 64"
  proof -
    have "b1 * 4 = b1 div 16 * 64 + b1 mod 16 * 4" using div_mult_mod_eq [of b1 16] by linarith
    then show ?thesis by simp
  qed
  then show "(64 * (b0 mod 4 * 16 + b1 div 16) + (b1 mod 16 * 4 + b2 div 64)) div 2 ^ 2 = b0 mod 4 * 256 + b1"
    using dm [OF lt(2), of "b0 mod 4 * 256 + b1"] by (simp only: power2_eq_square) simp
  show "(64 * (b1 mod 16 * 4 + b2 div 64) + b2 mod 64) div 2 ^ 0 = b1 mod 16 * 256 + b2"
    using div_mult_mod_eq [of b2 64] by simp
qed

lemma sextet_bounds:
  fixes b0 b1 :: nat
  assumes "b0 < 256" "b1 < 256"
  shows "b0 div 4 < 64" "b0 mod 4 * 16 + b1 div 16 < 64" "b0 mod 16 * 4 + b1 div 64 < 64" "b1 mod 64 < 64"
proof -
  have "b0 mod 4 < 4" "b0 mod 16 < 16" "b1 div 16 < 16" "b1 div 64 < 4" "b0 div 4 < 64" "b1 mod 64 < 64"
    using assms by (simp_all add: div_less_iff_less_mult)
  then show "b0 div 4 < 64" "b0 mod 4 * 16 + b1 div 16 < 64" "b0 mod 16 * 4 + b1 div 64 < 64" "b1 mod 64 < 64"
    by linarith+
qed

lemma word_low_byte: "(of_nat (256 * q + unat b) :: u8) = b" "(of_nat (q * 256 + unat b) :: u8) = b"
proof -
  have "unat b mod 256 = unat b" using unat_u8_le [of b] by simp
  then show "(of_nat (256 * q + unat b) :: u8) = b" "(of_nat (q * 256 + unat b) :: u8) = b"
    by (auto intro!: unsigned_word_eqI [where 'a = nat] simp: unat_of_nat_u8 simp del: of_nat_add of_nat_mult)
qed

text \<open>Two, three and four characters of a quantum.\<close>

lemma decode2:
  fixes b0 b1 :: u8
  assumes "b64_value c0 = Some (unat b0 div 4)" "b64_value c1 = Some (unat b0 mod 4 * 16 + unat b1 div 16)"
  obtains bits' where "unat bits' mod 64 = unat b0 mod 4 * 16 + unat b1 div 16"
    "decode_loop bits 0 (c0 # c1 # cs) = map_sum id (\<lambda>out. b0 # out) (decode_loop bits' 4 cs)"
proof -
  have b: "unat b < 256" for b :: u8 using unat_u8_le [of b] by simp
  note lt = sextet_bounds [OF b b]
  obtain x1 where x1: "unat x1 mod 64 = unat b0 div 4"
    "decode_loop bits 0 (c0 # c1 # cs) = decode_loop x1 6 (c1 # cs)"
    by (rule decode_first [OF assms(1) lt(1)])
  obtain x2 where x2: "unat x2 mod 64 = unat b0 mod 4 * 16 + unat b1 div 16"
    "decode_loop x1 6 (c1 # cs) = map_sum id (\<lambda>out. of_nat ((64 * (unat x1 mod 64) +
       (unat b0 mod 4 * 16 + unat b1 div 16)) div 2 ^ 4) # out) (decode_loop x2 4 cs)"
    by (rule decode_later [OF assms(2) lt(2), of 6 4]) simp_all
  from x2 that show thesis unfolding x1 sextets(1) [OF b b] by simp
qed

lemma decode3:
  fixes b0 b1 b2 :: u8
  assumes "b64_value c0 = Some (unat b0 div 4)" "b64_value c1 = Some (unat b0 mod 4 * 16 + unat b1 div 16)"
    "b64_value c2 = Some (unat b1 mod 16 * 4 + unat b2 div 64)"
  obtains bits' where "unat bits' mod 64 = unat b1 mod 16 * 4 + unat b2 div 64"
    "decode_loop bits 0 (c0 # c1 # c2 # cs) = map_sum id (\<lambda>out. b0 # b1 # out) (decode_loop bits' 2 cs)"
proof -
  have b: "unat b < 256" for b :: u8 using unat_u8_le [of b] by simp
  note lt = sextet_bounds [OF b b]
  obtain x2 where x2: "unat x2 mod 64 = unat b0 mod 4 * 16 + unat b1 div 16"
    "decode_loop bits 0 (c0 # c1 # c2 # cs) = map_sum id (\<lambda>out. b0 # out) (decode_loop x2 4 (c2 # cs))"
    by (rule decode2 [OF assms(1,2)])
  obtain x3 where x3: "unat x3 mod 64 = unat b1 mod 16 * 4 + unat b2 div 64"
    "decode_loop x2 4 (c2 # cs) = map_sum id (\<lambda>out. of_nat ((64 * (unat x2 mod 64) +
       (unat b1 mod 16 * 4 + unat b2 div 64)) div 2 ^ 2) # out) (decode_loop x3 2 cs)"
    by (rule decode_later [OF assms(3) lt(3), of 4 2]) simp_all
  have "(of_nat ((64 * (unat x2 mod 64) + (unat b1 mod 16 * 4 + unat b2 div 64)) div 2 ^ 2) :: u8) = b1"
    unfolding x2(1) sextets(2) [OF b b] by (rule word_low_byte)
  then show thesis using that [OF x3(1)] unfolding x2(2) x3(2) by (simp only: sum.map_comp comp_def id_def)
qed

lemma decode4:
  fixes b0 b1 b2 :: u8
  assumes "b64_value c0 = Some (unat b0 div 4)" "b64_value c1 = Some (unat b0 mod 4 * 16 + unat b1 div 16)"
    "b64_value c2 = Some (unat b1 mod 16 * 4 + unat b2 div 64)" "b64_value c3 = Some (unat b2 mod 64)"
  obtains bits' where
    "decode_loop bits 0 (c0 # c1 # c2 # c3 # cs) = map_sum id (\<lambda>out. b0 # b1 # b2 # out) (decode_loop bits' 0 cs)"
proof -
  have b: "unat b < 256" for b :: u8 using unat_u8_le [of b] by simp
  obtain x3 where x3: "unat x3 mod 64 = unat b1 mod 16 * 4 + unat b2 div 64"
    "decode_loop bits 0 (c0 # c1 # c2 # c3 # cs) = map_sum id (\<lambda>out. b0 # b1 # out) (decode_loop x3 2 (c3 # cs))"
    by (rule decode3 [OF assms(1,2,3)])
  obtain x4 where x4: "decode_loop x3 2 (c3 # cs) = map_sum id (\<lambda>out. of_nat ((64 * (unat x3 mod 64) +
       (unat b2 mod 64)) div 2 ^ 0) # out) (decode_loop x4 0 cs)"
    by (rule decode_later [OF assms(4), of 2 0]) simp_all
  have "(of_nat ((64 * (unat x3 mod 64) + (unat b2 mod 64)) div 2 ^ 0) :: u8) = b2"
    unfolding x3(1) sextets(3) [OF b b] by (rule word_low_byte)
  then show thesis using that [of x4] unfolding x3(2) x4 by (simp only: sum.map_comp comp_def id_def)
qed

lemma decode_encode: "decode_loop bits 0 (concat (map encode_chunk (chunks3 bs))) = Inr bs"
proof (induction bs arbitrary: bits rule: chunks3.induct)
  case (1 b0 b1 b2 bs)
  obtain c0 c1 c2 c3 where c: "encode_chunk [b0, b1, b2] = [c0, c1, c2, c3]"
    "b64_value c0 = Some (unat b0 div 4)" "b64_value c1 = Some (unat b0 mod 4 * 16 + unat b1 div 16)"
    "b64_value c2 = Some (unat b1 mod 16 * 4 + unat b2 div 64)" "b64_value c3 = Some (unat b2 mod 64)"
    using encode_chunk_value(1) [of b0 b1 b2] by blast
  obtain x where "decode_loop bits 0 (c0 # c1 # c2 # c3 # concat (map encode_chunk (chunks3 bs)))
      = map_sum id (\<lambda>out. b0 # b1 # b2 # out) (decode_loop x 0 (concat (map encode_chunk (chunks3 bs))))"
    by (rule decode4 [OF c(2-5)])
  with c(1) "1.IH" [of x] show ?case by (simp del: decode_loop.simps)
next
  case 2
  show ?case by simp
next
  case (3 b0)
  obtain c0 c1 where c: "encode_chunk [b0] = [c0, c1, CHR ''='', CHR ''='']"
    "b64_value c0 = Some (unat b0 div 4)" "b64_value c1 = Some (unat b0 mod 4 * 16 + unat (0 :: u8) div 16)"
    using encode_chunk_value(3) [of b0] by blast
  obtain x where "decode_loop bits 0 [c0, c1, CHR ''='', CHR ''='']
      = map_sum id (\<lambda>out. b0 # out) (decode_loop x 4 [CHR ''='', CHR ''=''])"
    by (rule decode2 [OF c(2,3)])
  then show ?case by (simp add: c(1) b64_value_def del: decode_loop.simps(2)) (simp add: b64_value_def)
next
  case (4 b0 b1)
  obtain c0 c1 c2 where c: "encode_chunk [b0, b1] = [c0, c1, c2, CHR ''='']"
    "b64_value c0 = Some (unat b0 div 4)" "b64_value c1 = Some (unat b0 mod 4 * 16 + unat b1 div 16)"
    "b64_value c2 = Some (unat b1 mod 16 * 4 + unat (0 :: u8) div 64)"
    using encode_chunk_value(2) [of b0 b1] by blast
  obtain x where "decode_loop bits 0 [c0, c1, c2, CHR ''='']
      = map_sum id (\<lambda>out. b0 # b1 # out) (decode_loop x 2 [CHR ''=''])"
    by (rule decode3 [OF c(2,3,4)])
  then show ?case by (simp add: c(1) b64_value_def del: decode_loop.simps(2)) (simp add: b64_value_def)
qed

text \<open>Base64 round trip: decoding the encoding of any byte string gives it back, whatever its length
  modulo three.
\<close>

theorem b64_roundtrip: "b64_decode (b64_encode bs) = Inr bs"
  unfolding b64_decode_def b64_encode_def by (rule decode_encode)

end
