(* ===== verification/Gw_Dkim.thy ===== *)
theory Gw_Dkim
  imports Gw_B64 Gw_Dns
begin

text \<open>
  DKIM (\<open>gateway/src/dkim.rs\<close>): signing and verifying with relaxed/relaxed canonicalization, the splitting of
  a message into header fields and body, and the key resolvers. A byte string is a \<open>string\<close> here, one
  character per byte; the digest and the Ed25519 operations are parameters.
\<close>

section \<open>Messages\<close>

definition is_wsp :: "char \<Rightarrow> bool" where
  "is_wsp c = (c = CHR '' '' \<or> c = CHR 0x09)"

type_synonym fields = "(string \<times> string) list"

fun find_blank_line :: "string \<Rightarrow> nat option" where
  "find_blank_line [] = None"
| "find_blank_line (c # cs) =
     (if starts_with (CRLF @ CRLF) (c # cs) then Some 0 else map_option Suc (find_blank_line cs))"

fun split_crlf :: "string \<Rightarrow> string list" where
  "split_crlf [] = [[]]"
| "split_crlf [c] = [[c]]"
| "split_crlf (c # d # cs) =
     (if c = CR \<and> d = LF then [] # split_crlf cs
      else (case split_crlf (d # cs) of [] \<Rightarrow> [[c]] | l # ls \<Rightarrow> (c # l) # ls))"

definition strip_final_crlf :: "string \<Rightarrow> string" where
  "strip_final_crlf b = (case strip_suffix CRLF b of Some r \<Rightarrow> r | None \<Rightarrow> b)"

text \<open>One line of the header block; a continuation line goes to the last field.\<close>

definition parse_header_line :: "fields \<Rightarrow> string \<Rightarrow> fields" where
  "parse_header_line out raw =
     (if raw = [] then out
      else if is_wsp (hd raw) then
        (if out = [] then out
         else butlast out @ [(fst (last out), snd (last out) @ CRLF @ raw)])
      else (case split_once (CHR '':'') raw of
              Some (n, v) \<Rightarrow> out @ [(from_utf8_lossy (as_bytes n), v)]
            | None \<Rightarrow> out))"

definition parse_headers :: "string \<Rightarrow> fields" where
  "parse_headers head = foldl parse_header_line [] (split_crlf head)"

definition split_headers_body :: "string \<Rightarrow> fields \<times> string" where
  "split_headers_body message =
     (case find_blank_line message of
        Some idx \<Rightarrow> (parse_headers (take idx message), drop (idx + 4) message)
      | None \<Rightarrow> (parse_headers message, []))"

definition named :: "string \<Rightarrow> string \<times> string \<Rightarrow> bool" where
  "named name f = eq_ignore_ascii_case (trim (fst f)) name"

definition find_header :: "fields \<Rightarrow> string \<Rightarrow> (string \<times> string) option" where
  "find_header headers name = find (named name) (rev headers)"

section \<open>Canonicalization\<close>

text \<open>
  The scan of a header value: \<open>in_wsp\<close> is the source's flag, \<open>started\<close> whether \<open>val\<close> is non-empty.
\<close>

fun canon_value :: "bool \<Rightarrow> bool \<Rightarrow> string \<Rightarrow> string" where
  "canon_value in_wsp started [] = []"
| "canon_value in_wsp started (b # cs) =
     (if b = CR \<and> cs \<noteq> [] \<and> hd cs = LF then canon_value in_wsp started (tl cs)
      else if is_wsp b then canon_value True started cs
      else (if in_wsp \<and> started then [CHR '' '', b] else [b]) @ canon_value False True cs)"

definition canonicalize_header :: "string \<Rightarrow> string \<Rightarrow> string" where
  "canonicalize_header name value =
     to_ascii_lowercase (trim name) @ '':'' @ canon_value False False value @ CRLF"

fun collapse :: "bool \<Rightarrow> string \<Rightarrow> string" where
  "collapse in_wsp [] = []"
| "collapse in_wsp (b # bs) =
     (if is_wsp b then collapse True bs
      else (if in_wsp then [CHR '' '', b] else [b]) @ collapse False bs)"

definition pop_empty :: "string list \<Rightarrow> string list" where
  "pop_empty lines = rev (dropWhile (\<lambda>l. l = []) (rev lines))"

fun join_crlf :: "string list \<Rightarrow> string" where
  "join_crlf [] = []"
| "join_crlf [l] = l"
| "join_crlf (l # ls) = l @ CRLF @ join_crlf ls"

definition canonicalize_body :: "string \<Rightarrow> string" where
  "canonicalize_body body =
     (let lines = pop_empty (map (collapse False) (split_crlf body)) in
      if lines = [] then [] else join_crlf lines @ CRLF)"

text \<open>The occurrences of a name are taken from the bottom; a name with no field left contributes nothing.\<close>

definition header_instance :: "fields \<Rightarrow> string list \<Rightarrow> string \<Rightarrow> string" where
  "header_instance headers before name =
     (let key = trim name;
          occurrence = length (filter (\<lambda>m. eq_ignore_ascii_case (trim m) key) before);
          fs = filter (named key) (rev headers) in
      if occurrence < length fs then canonicalize_header (fst (fs ! occurrence)) (snd (fs ! occurrence)) else [])"

fun assemble_from :: "fields \<Rightarrow> string list \<Rightarrow> string list \<Rightarrow> string" where
  "assemble_from headers before [] = []"
| "assemble_from headers before (n # ns) =
     header_instance headers before n @ assemble_from headers (before @ [n]) ns"

definition assemble_signed_headers :: "fields \<Rightarrow> string list \<Rightarrow> string" where
  "assemble_signed_headers headers h_names = assemble_from headers [] h_names"

section \<open>Tags\<close>

definition drop_whitespace :: "string \<Rightarrow> string" where
  "drop_whitespace v = concat (filter (\<lambda>g. \<not> is_ws g) (utf8_chars v))"

definition parse_tag :: "string \<Rightarrow> (string \<times> string) option" where
  "parse_tag part =
     (let p = trim part in
      if p = [] then None
      else map_option (\<lambda>(k, v). (trim k, drop_whitespace v)) (split_once (CHR ''='') p))"

definition parse_tags :: "string \<Rightarrow> (string \<times> string) list" where
  "parse_tags value = List.map_filter parse_tag (split_on (CHR '';'') value)"

definition get_tag :: "(string \<times> string) list \<Rightarrow> string \<Rightarrow> string option" where
  "get_tag tags k = map_option snd (find (\<lambda>t. fst t = k) tags)"

text \<open>
  Emptying the \<open>b=\<close> tag for the signing input. \<open>before\<close> holds the bytes already passed, in reverse.
\<close>

definition at_boundary :: "string \<Rightarrow> bool" where
  "at_boundary before =
     (before = [] \<or> (case dropWhile is_wsp before of [] \<Rightarrow> False | c # _ \<Rightarrow> c = CHR '';''))"

function empty_b_loop :: "string \<Rightarrow> string \<Rightarrow> string" where
  "empty_b_loop before [] = []"
| "empty_b_loop before (c # cs) =
     (let after = dropWhile is_wsp cs in
      if at_boundary before \<and> c = CHR ''b'' \<and> after \<noteq> [] \<and> hd after = CHR ''=''
      then (let n = length (takeWhile is_wsp cs) + length (takeWhile (\<lambda>x. x \<noteq> CHR '';'') after) in
            ''b='' @ empty_b_loop (rev (take n cs) @ c # before) (drop n cs))
      else c # empty_b_loop (c # before) cs)"
  by pat_completeness auto
termination
  by (relation "measure (\<lambda>(b, cs). length cs)") auto

definition empty_b_value :: "string \<Rightarrow> string" where
  "empty_b_value value = empty_b_loop [] value"

section \<open>Signing and verifying\<close>

datatype dkim_error =
  NoSignature | UnsupportedAlgorithm | UnsupportedCanonicalization | FromFieldNotSigned
| MalformedSignature | BodyHashMismatch | BadPublicKey | SignatureInvalid

text \<open>
  SHA-256 and Ed25519 as the code uses them: a signing key is made from a seed, \<open>vk_valid\<close> says whether
  \<open>VerifyingKey::from_bytes\<close> accepts 32 bytes.
\<close>

record dkim_crypto =
  sha256 :: "bytes \<Rightarrow> bytes"
  verifying_key :: "bytes \<Rightarrow> bytes"
  ed_sign :: "bytes \<Rightarrow> bytes \<Rightarrow> bytes"
  vk_valid :: "bytes \<Rightarrow> bool"
  ed_verify :: "bytes \<Rightarrow> bytes \<Rightarrow> bytes \<Rightarrow> bool"

record dkim_key =
  dk_domain :: string
  dk_selector :: string
  dk_signing :: bytes

definition from_seed :: "string \<Rightarrow> string \<Rightarrow> bytes \<Rightarrow> dkim_key" where
  "from_seed domain selector seed = \<lparr>dk_domain = domain, dk_selector = selector, dk_signing = seed\<rparr>"

definition public_bytes :: "dkim_crypto \<Rightarrow> dkim_key \<Rightarrow> bytes" where
  "public_bytes C key = verifying_key C (dk_signing key)"

definition public_p_tag :: "dkim_crypto \<Rightarrow> dkim_key \<Rightarrow> string" where
  "public_p_tag C key = b64_encode (verifying_key C (dk_signing key))"

definition SIGNED_HEADERS :: "string list" where
  "SIGNED_HEADERS = [''from'', ''to'', ''subject'', ''date'', ''message-id'']"

fun join_with :: "string \<Rightarrow> string list \<Rightarrow> string" where
  "join_with sep [] = []"
| "join_with sep [s] = s"
| "join_with sep (s # ss) = s @ sep @ join_with sep ss"

definition body_hash :: "dkim_crypto \<Rightarrow> string \<Rightarrow> string" where
  "body_hash C body = b64_encode (sha256 C (as_bytes (canonicalize_body body)))"

definition signed_names :: "fields \<Rightarrow> string list" where
  "signed_names headers = filter (\<lambda>h. find_header headers h \<noteq> None) SIGNED_HEADERS @ [''from'']"

definition dkim_header_base :: "dkim_crypto \<Rightarrow> dkim_key \<Rightarrow> fields \<Rightarrow> string \<Rightarrow> u64 \<Rightarrow> string" where
  "dkim_header_base C key headers body t =
     ''v=1; a=ed25519-sha256; c=relaxed/relaxed; d='' @ dk_domain key @ ''; s='' @ dk_selector key @
     ''; t='' @ dec (unat t) @ ''; h='' @ join_with '':'' (signed_names headers) @
     ''; bh='' @ body_hash C body @ ''; b=''"

definition signing_input :: "fields \<Rightarrow> string list \<Rightarrow> string \<Rightarrow> string" where
  "signing_input headers h_names dkim_value =
     assemble_signed_headers headers h_names @
     strip_final_crlf (canonicalize_header ''DKIM-Signature'' dkim_value)"

definition sign :: "dkim_crypto \<Rightarrow> dkim_key \<Rightarrow> string \<Rightarrow> u64 \<Rightarrow> string" where
  "sign C key message t =
     (let (headers, body) = split_headers_body message;
          base = dkim_header_base C key headers body t;
          digest = sha256 C (as_bytes (signing_input headers (signed_names headers) base));
          b = b64_encode (ed_sign C (dk_signing key) digest) in
      ''DKIM-Signature: '' @ base @ b @ CRLF)"

definition h_tag_names :: "string \<Rightarrow> string list" where
  "h_tag_names h = filter (\<lambda>s. s \<noteq> []) (map trim (split_on (CHR '':'') h))"

definition verify_signature :: "dkim_crypto \<Rightarrow> bytes \<Rightarrow> string \<Rightarrow> string \<Rightarrow> dkim_error + unit" where
  "verify_signature C public_key b_tag input =
     (if length public_key \<noteq> 32 then Inl BadPublicKey
      else if \<not> vk_valid C public_key then Inl BadPublicKey
      else case b64_decode b_tag of
        Inl _ \<Rightarrow> Inl MalformedSignature
      | Inr sig \<Rightarrow>
          if length sig \<noteq> 64 then Inl MalformedSignature
          else if ed_verify C public_key (sha256 C (as_bytes input)) sig then Inr ()
          else Inl SignatureInvalid)"

definition verify :: "dkim_crypto \<Rightarrow> string \<Rightarrow> bytes \<Rightarrow> dkim_error + unit" where
  "verify C message public_key =
     (let (headers, body) = split_headers_body message in
      case find_header headers ''dkim-signature'' of
        None \<Rightarrow> Inl NoSignature
      | Some (dkim_name, dkim_value) \<Rightarrow>
          let tags = parse_tags (from_utf8_lossy (as_bytes dkim_value)) in
          if get_tag tags ''a'' \<noteq> Some ''ed25519-sha256'' then Inl UnsupportedAlgorithm
          else if get_tag tags ''c'' \<noteq> Some ''relaxed/relaxed'' \<and> get_tag tags ''c'' \<noteq> None
          then Inl UnsupportedCanonicalization
          else bindE (ok_or MalformedSignature (get_tag tags ''bh'')) (\<lambda>bh_expected.
            if bh_expected \<noteq> body_hash C body then Inl BodyHashMismatch
            else bindE (ok_or MalformedSignature (get_tag tags ''h'')) (\<lambda>h_tag.
              bindE (ok_or MalformedSignature (get_tag tags ''b'')) (\<lambda>b_tag.
                let h_names = h_tag_names h_tag in
                if \<not> list_ex (\<lambda>n. eq_ignore_ascii_case n ''from'') h_names then Inl FromFieldNotSigned
                else verify_signature C public_key b_tag
                       (signing_input headers h_names (empty_b_value dkim_value))))))"

section \<open>Key resolution\<close>

type_synonym static_dkim_keys = "(string \<times> string \<times> bytes) list"

definition static_new :: static_dkim_keys where
  "static_new = []"

definition publish :: "static_dkim_keys \<Rightarrow> string \<Rightarrow> string \<Rightarrow> bytes \<Rightarrow> static_dkim_keys" where
  "publish entries domain selector key = entries @ [(domain, selector, key)]"

definition static_resolve_dkim_key :: "static_dkim_keys \<Rightarrow> string \<Rightarrow> string \<Rightarrow> bytes option" where
  "static_resolve_dkim_key entries domain selector =
     map_option (\<lambda>(d, s, k). k)
       (find (\<lambda>(d, s, k). eq_ignore_ascii_case d domain \<and> s = selector) entries)"

fun p_tag_of :: "string list \<Rightarrow> bytes option" where
  "p_tag_of [] = None"
| "p_tag_of (part # parts) =
     (case strip_prefix ''p='' (trim part) of
        Some v \<Rightarrow>
          let v' = drop_whitespace v in
          if v' = [] then None
          else (case b64_decode v' of Inl _ \<Rightarrow> None | Inr k \<Rightarrow> Some k)
      | None \<Rightarrow> p_tag_of parts)"

definition parse_public_key_txt :: "string \<Rightarrow> bytes option" where
  "parse_public_key_txt txt = p_tag_of (split_on (CHR '';'') txt)"

fun find_map :: "('a \<Rightarrow> 'b option) \<Rightarrow> 'a list \<Rightarrow> 'b option" where
  "find_map f [] = None"
| "find_map f (x # xs) = (case f x of Some y \<Rightarrow> Some y | None \<Rightarrow> find_map f xs)"

datatype dkim_verdict =
  DkPass string string | DkFail dkim_error | DkNoSignature | DkKeyUnavailable string string

definition signing_domain_selector :: "string \<Rightarrow> (string \<times> string) option" where
  "signing_domain_selector message =
     (let (headers, body) = split_headers_body message in
      Option.bind (find_header headers ''dkim-signature'') (\<lambda>(name, value).
        let tags = parse_tags (from_utf8_lossy (as_bytes value)) in
        Option.bind (get_tag tags ''d'') (\<lambda>d. Option.bind (get_tag tags ''s'') (\<lambda>s. Some (d, s)))))"

type_synonym 'w dkim_resolver = "string \<Rightarrow> string \<Rightarrow> 'w \<Rightarrow> bytes option \<times> 'w"

definition dns_resolve_dkim_key :: "'w dns_client \<Rightarrow> 'w dkim_resolver" where
  "dns_resolve_dkim_key client domain selector w =
     (case client (selector @ ''._domainkey.'' @ domain) TYPE_TXT w of
        (Inl _, w') \<Rightarrow> (None, w')
      | (Inr (packet, msg), w') \<Rightarrow>
          (find_map parse_public_key_txt (txt_values msg), w'))"

definition verify_with_resolver :: "dkim_crypto \<Rightarrow> string \<Rightarrow> 'w dkim_resolver \<Rightarrow> 'w \<Rightarrow> dkim_verdict \<times> 'w" where
  "verify_with_resolver C message resolver w =
     (case signing_domain_selector message of
        None \<Rightarrow> (DkNoSignature, w)
      | Some (domain, selector) \<Rightarrow>
          (case resolver domain selector w of
             (Some key, w') \<Rightarrow>
               (case verify C message key of
                  Inr _ \<Rightarrow> (DkPass domain selector, w')
                | Inl e \<Rightarrow> (DkFail e, w'))
           | (None, w') \<Rightarrow> (DkKeyUnavailable domain selector, w')))"

end
