(* ===== verification/Gw_Dkim_Sound.thy ===== *)
theory Gw_Dkim_Sound
  imports Gw_Dkim
begin

text \<open>
  What DKIM verification establishes: the canonical body is a fixed point, a passed message carries a
  signature over its From field and its canonical body by the published key, and a message signed here
  verifies.
\<close>

section \<open>Lines\<close>

lemma split_crlf_nonempty [simp]: "split_crlf s \<noteq> []"
  by (induction s rule: split_crlf.induct) (auto split: list.splits)

lemma split_crlf_append: "split_crlf (a @ CR # LF # b) = split_crlf a @ split_crlf b"
proof (induction a rule: split_crlf.induct)
  case (2 c)
  show ?case by simp
next
  case (3 c d cs)
  then show ?case by (auto split: list.splits)
qed simp

lemma split_crlf_line: "l \<in> set (split_crlf s) \<Longrightarrow> split_crlf l = [l]"
proof (induction s arbitrary: l rule: split_crlf.induct)
  case (3 c d cs)
  show ?case
  proof (cases "c = CR \<and> d = LF")
    case True
    with 3 show ?thesis by auto
  next
    case False
    obtain h hs where h: "split_crlf (d # cs) = h # hs" by (cases "split_crlf (d # cs)") auto
    have hd: "h = [] \<or> hd h = d" using h by (cases cs) (auto split: if_splits list.splits)
    have "split_crlf h = [h]" using "3.IH"(2) [OF False, of h] h by simp
    then have "split_crlf (c # h) = [c # h]" using False hd by (cases h) auto
    with 3 False h show ?thesis by auto
  qed
qed auto

lemma join_crlf_Cons: "ls \<noteq> [] \<Longrightarrow> join_crlf (l # ls) = l @ CRLF @ join_crlf ls"
  by (cases ls) simp_all

lemma split_join_crlf:
  "ls \<noteq> [] \<Longrightarrow> list_all (\<lambda>l. split_crlf l = [l]) ls \<Longrightarrow> split_crlf (join_crlf ls) = ls"
proof (induction ls rule: join_crlf.induct)
  case (3 l m ls)
  then show ?case using split_crlf_append [of l] by simp
qed simp_all

lemma join_crlf_snoc: "ls \<noteq> [] \<Longrightarrow> join_crlf (ls @ [[]]) = join_crlf ls @ CRLF"
  by (induction ls rule: join_crlf.induct) (simp_all add: join_crlf_Cons)

section \<open>The canonical body\<close>

lemma is_wsp_space [simp]: "is_wsp (CHR '' '')" "\<not> is_wsp CR" "\<not> is_wsp LF"
  by (simp_all add: is_wsp_def)

lemma collapse_idem: "collapse False (collapse w l) = collapse w l"
  by (induction w l rule: collapse.induct) auto

lemma hd_collapse_True: "collapse True l \<noteq> [] \<Longrightarrow> hd (collapse True l) = CHR '' ''"
  by (induction l) auto

lemma hd_collapse_LF: "collapse False l \<noteq> [] \<Longrightarrow> hd (collapse False l) = LF \<Longrightarrow> l \<noteq> [] \<and> hd l = LF"
  by (cases l) (auto split: if_splits dest: hd_collapse_True)

lemma split_crlf_single_Cons:
  "split_crlf (c # l) = [c # l] \<longleftrightarrow> \<not> (c = CR \<and> l \<noteq> [] \<and> hd l = LF) \<and> split_crlf l = [l]"
  by (cases l) (auto split: list.splits)

text \<open>Collapsing white space brings no carriage return next to a line feed.\<close>

lemma collapse_line: "split_crlf l = [l] \<Longrightarrow> split_crlf (collapse w l) = [collapse w l]"
proof (induction l arbitrary: w)
  case (Cons b l)
  then have nb: "\<not> (b = CR \<and> l \<noteq> [] \<and> hd l = LF)" and l: "split_crlf l = [l]"
    using Cons.prems unfolding split_crlf_single_Cons by blast+
  note IH = Cons.IH [OF l]
  have "split_crlf (b # collapse False l) = [b # collapse False l]"
    using IH nb hd_collapse_LF [of l] by (auto simp only: split_crlf_single_Cons)
  then show ?case using IH by (auto simp add: split_crlf_single_Cons simp del: split_crlf.simps)
qed simp

lemma pop_empty_snoc [simp]: "pop_empty (ls @ [[]]) = pop_empty ls"
  by (simp add: pop_empty_def)

lemma pop_empty_idem [simp]: "pop_empty (pop_empty ls) = pop_empty ls"
  by (simp add: pop_empty_def)

lemma set_pop_empty: "set (pop_empty ls) \<subseteq> set ls"
  by (auto simp: pop_empty_def dest: set_dropWhileD)

lemma map_collapse_pop_empty: "map (collapse False) (pop_empty (map (collapse False) ls)) = pop_empty (map (collapse False) ls)"
proof (rule map_idI)
  fix l
  assume "l \<in> set (pop_empty (map (collapse False) ls))"
  then obtain l' where "l = collapse False l'" using set_pop_empty by fastforce
  then show "collapse False l = l" by (simp add: collapse_idem)
qed

text \<open>The relaxed canonicalization of a body is a normal form: canonicalizing a canonical body changes
  nothing, and a canonical body is empty or ends with a line break.
\<close>

theorem canonicalize_body_idempotent:
  "canonicalize_body (canonicalize_body b) = canonicalize_body b \<and>
   (canonicalize_body b = [] \<or> (\<exists>s. canonicalize_body b = s @ CRLF))"
proof (cases "pop_empty (map (collapse False) (split_crlf b)) = []")
  case True
  have "canonicalize_body [] = []" by code_simp
  with True show ?thesis by (simp add: canonicalize_body_def Let_def)
next
  case False
  let ?L = "pop_empty (map (collapse False) (split_crlf b))"
  have c: "canonicalize_body b = join_crlf ?L @ CRLF"
    using False by (simp add: canonicalize_body_def Let_def)
  have "list_all (\<lambda>l. split_crlf l = [l]) (?L @ [[]])"
    using set_pop_empty [of "map (collapse False) (split_crlf b)"]
    by (auto simp: list_all_iff intro!: collapse_line dest!: split_crlf_line subsetD)
  then have s: "split_crlf (join_crlf ?L @ CRLF) = ?L @ [[]]"
    using split_join_crlf [of "?L @ [[]]"] False by (simp add: join_crlf_snoc)
  have "pop_empty (map (collapse False) (?L @ [[]])) = ?L"
    by (simp add: map_collapse_pop_empty)
  with s c False show ?thesis by (simp add: canonicalize_body_def Let_def)
qed

section \<open>Verification\<close>

lemma verify_InrE:
  assumes "verify C message pk = Inr u"
  obtains headers body dkim_name dkim_value tags h b where
    "split_headers_body message = (headers, body)"
    "find_header headers ''dkim-signature'' = Some (dkim_name, dkim_value)"
    "tags = parse_tags (from_utf8_lossy (as_bytes dkim_value))"
    "get_tag tags ''a'' = Some ''ed25519-sha256''"
    "get_tag tags ''c'' = Some ''relaxed/relaxed'' \<or> get_tag tags ''c'' = None"
    "get_tag tags ''bh'' = Some (body_hash C body)" "get_tag tags ''h'' = Some h" "get_tag tags ''b'' = Some b"
    "list_ex (\<lambda>n. eq_ignore_ascii_case n ''from'') (h_tag_names h)"
    "verify_signature C pk b (signing_input headers (h_tag_names h) (empty_b_value dkim_value)) = Inr u"
proof -
  obtain headers body where hb: "split_headers_body message = (headers, body)" by fastforce
  with assms obtain f where f: "find_header headers ''dkim-signature'' = Some f"
    by (auto simp: verify_def split: option.splits)
  obtain n v where [simp]: "f = (n, v)" by fastforce
  from assms show thesis
    unfolding verify_def hb using f
    by (auto simp: Let_def bindE_Inr ok_or_Inr split: if_splits intro!: that [OF hb f [simplified] refl])
qed

lemma verify_signature_Inr:
  "verify_signature C pk b input = Inr u \<longleftrightarrow>
     length pk = 32 \<and> vk_valid C pk \<and>
     (\<exists>sig. b64_decode b = Inr sig \<and> length sig = 64 \<and> ed_verify C pk (sha256 C (as_bytes input)) sig)"
  by (auto simp: verify_signature_def split: sum.splits)

section \<open>Own signatures verify\<close>

text \<open>The characters of a tag value the signer writes: visible ASCII other than the separator.\<close>

definition tag_char :: "char \<Rightarrow> bool" where
  "tag_char c = (33 \<le> byte_of c \<and> byte_of c < 127 \<and> c \<noteq> CHR '';'')"

lemma tag_char_not:
  "tag_char c \<Longrightarrow> c \<noteq> CR" "tag_char c \<Longrightarrow> c \<noteq> LF" "tag_char c \<Longrightarrow> \<not> is_wsp c" "tag_char c \<Longrightarrow> c \<noteq> CHR '';''"
  "tag_char c \<Longrightarrow> byte_of c < 128" "tag_char c \<Longrightarrow> \<not> is_ws [c]" "tag_char c \<Longrightarrow> 33 \<le> byte_of c"
  by (auto simp: tag_char_def is_wsp_def not_ws_graphic)

lemma b64_char_tag: "tag_char (b64_char n)"
proof -
  have "list_all tag_char ALPHABET" by (simp add: ALPHABET_def tag_char_def)
  moreover have "unat (and n 0x3F) < length ALPHABET" by (simp add: and_0x3F) (simp add: ALPHABET_def)
  ultimately show ?thesis by (simp add: b64_char_def list_all_length)
qed

lemma b64_encode_tag: "list_all tag_char (b64_encode bs)"
proof -
  have "list_all tag_char (encode_chunk c)" for c
    by (simp add: encode_chunk_def Let_def b64_char_tag) (simp add: tag_char_def)
  then show ?thesis by (auto simp: b64_encode_def list_all_iff)
qed

lemma dec_tag: "list_all tag_char (dec n)"
  using dec_digits [of n] by (auto simp: list_all_iff is_ascii_digit_def tag_char_def)

text \<open>One tag of a rendered list.\<close>

definition tag_text :: "string \<Rightarrow> string \<Rightarrow> string" where
  "tag_text k v = '' '' @ k @ ''='' @ v"

lemma utf8_chars_tag: "list_all tag_char s \<Longrightarrow> utf8_chars s = map (\<lambda>c. [c]) s"
  by (rule utf8_chars_ascii) (auto simp: list_all_iff dest: tag_char_not)

lemma trim_tag: "list_all tag_char s \<Longrightarrow> trim s = s"
  by (rule trim_graphic) (auto simp: list_all_iff dest: tag_char_not)

lemma trim_start_tag: "list_all tag_char s \<Longrightarrow> trim_start s = s"
proof -
  assume s: "list_all tag_char s"
  then have "dropWhile is_ws (map (\<lambda>c. [c]) s) = map (\<lambda>c. [c]) s"
    by (cases s) (simp_all add: tag_char_not)
  then show ?thesis by (simp add: trim_start_def utf8_chars_tag [OF s] concat_map_singleton)
qed

lemma trim_space: "list_all tag_char s \<Longrightarrow> trim (CHR '' '' # s) = s"
proof -
  assume s: "list_all tag_char s"
  have "list_all (\<lambda>c. byte_of c < 128) (CHR '' '' # s)"
    using s by (auto simp: list_all_iff dest: tag_char_not)
  then have "utf8_chars (CHR '' '' # s) = [CHR '' ''] # utf8_chars s"
    unfolding utf8_chars_tag [OF s] by (simp only: utf8_chars_ascii list.map)
  moreover have "is_ws [CHR '' '']" by code_simp
  ultimately have "trim_start (CHR '' '' # s) = trim_start s" by (simp add: trim_start_def del: utf8_chars.simps)
  then show ?thesis using trim_tag [OF s] by (simp only: trim_def)
qed

lemma drop_whitespace_tag: "list_all tag_char v \<Longrightarrow> drop_whitespace v = v"
proof -
  assume v: "list_all tag_char v"
  have "filter (\<lambda>g. \<not> is_ws g) (map (\<lambda>c. [c]) v) = map (\<lambda>c. [c]) v"
    using v by (intro filter_True) (auto simp: list_all_iff dest: tag_char_not)
  then show ?thesis by (simp add: drop_whitespace_def utf8_chars_tag [OF v] concat_map_singleton)
qed

lemma split_once_first: "c \<notin> set a \<Longrightarrow> split_once c (a @ c # b) = Some (a, b)"
  by (induction a) auto

lemma parse_tag_text:
  assumes "list_all tag_char k" "CHR ''='' \<notin> set k" "k \<noteq> []" "list_all tag_char v"
  shows "parse_tag (tag_text k v) = Some (k, v)"
proof -
  have "list_all tag_char (k @ CHR ''='' # v)" using assms by (simp add: tag_char_def)
  then have t: "trim (tag_text k v) = k @ CHR ''='' # v"
    unfolding tag_text_def by (simp only: append_Cons append_Nil trim_space)
  show ?thesis
    by (simp add: parse_tag_def t Let_def split_once_first [OF assms(2)] trim_tag [OF assms(1)]
        drop_whitespace_tag [OF assms(4)])
qed

lemma tag_text_no_sep: "list_all tag_char k \<Longrightarrow> list_all tag_char v \<Longrightarrow> CHR '';'' \<notin> set (tag_text k v)"
  by (auto simp: tag_text_def list_all_iff tag_char_def)

lemma parse_tags_text:
  assumes "list_all tag_char k" "CHR ''='' \<notin> set k" "k \<noteq> []" "list_all tag_char v"
  shows "parse_tags (tag_text k v) = [(k, v)]"
    "parse_tags (tag_text k v @ CHR '';'' # s) = (k, v) # parse_tags s"
  using parse_tag_text [OF assms] tag_text_no_sep [OF assms(1,4)]
  by (simp_all add: parse_tags_def split_on_append_sep split_on_no_sep map_filter_simps)

text \<open>Emptying the \<open>b=\<close> tag of a rendered list leaves the other tags alone.\<close>

lemma at_boundary_tag: "tag_char c \<Longrightarrow> \<not> at_boundary (c # before)"
  by (simp add: at_boundary_def tag_char_not)

lemma empty_b_pass:
  "list_all tag_char s \<Longrightarrow> tag_char c \<Longrightarrow>
     empty_b_loop (c # before) (s @ r) = s @ empty_b_loop (rev s @ c # before) r"
  by (induction s arbitrary: c before) (simp_all add: at_boundary_tag Let_def)

lemma empty_b_space: "empty_b_loop before (CHR '' '' # s) = CHR '' '' # empty_b_loop (CHR '' '' # before) s"
  "empty_b_loop before (CHR '';'' # s) = CHR '';'' # empty_b_loop (CHR '';'' # before) s"
  by (simp_all add: Let_def)

lemma empty_b_tag:
  assumes "list_all tag_char k" "CHR ''='' \<notin> set k" "k \<noteq> []" "k \<noteq> ''b''" "list_all tag_char v"
  shows "empty_b_loop before (tag_text k v @ CHR '';'' # s) =
    tag_text k v @ CHR '';'' # empty_b_loop (CHR '';'' # rev (tag_text k v) @ before) s"
proof -
  obtain c k' where k: "k = c # k'" using assms(3) by (cases k) auto
  let ?r = "k' @ CHR ''='' # v"
  have c: "tag_char c" and r: "list_all tag_char ?r" using assms k by (simp_all add: tag_char_def)
  have "\<not> (c = CHR ''b'' \<and> dropWhile is_wsp (?r @ CHR '';'' # s) \<noteq> [] \<and> hd (dropWhile is_wsp (?r @ CHR '';'' # s)) = CHR ''='')"
    using assms(1,2,4) k by (cases k') (auto simp: tag_char_not)
  then have "empty_b_loop (CHR '' '' # before) (c # ?r @ CHR '';'' # s)
      = c # empty_b_loop (c # CHR '' '' # before) (?r @ CHR '';'' # s)"
    by (subst empty_b_loop.simps) (auto simp: Let_def)
  also have "\<dots> = c # ?r @ empty_b_loop (rev ?r @ c # CHR '' '' # before) (CHR '';'' # s)"
    by (simp only: empty_b_pass [OF r c])
  finally show ?thesis
    unfolding tag_text_def k by (simp add: empty_b_space del: empty_b_loop.simps)
qed

lemma empty_b_last:
  assumes "list_all tag_char v"
  shows "empty_b_loop (CHR '';'' # before) (tag_text ''b'' v) = '' b=''"
proof -
  let ?b = "CHR '' '' # CHR '';'' # before" and ?cs = "CHR ''='' # v"
  have "CHR '';'' \<notin> set v" using assms by (auto simp: list_all_iff tag_char_def)
  then have "takeWhile (\<lambda>x. x \<noteq> CHR '';'') v = v" unfolding takeWhile_eq_all_conv by fast
  then have tw: "takeWhile (\<lambda>x. x \<noteq> CHR '';'') ?cs = ?cs" by simp
  have b: "at_boundary ?b" by (simp add: at_boundary_def is_wsp_def)
  have e: "dropWhile is_wsp ?cs = ?cs" "takeWhile is_wsp ?cs = []" by (simp_all add: is_wsp_def)
  have "empty_b_loop ?b (CHR ''b'' # ?cs) = ''b='' @ empty_b_loop (rev ?cs @ CHR ''b'' # ?b) []"
    by (subst empty_b_loop.simps) (simp only: Let_def e tw b, simp)
  then show ?thesis by (simp add: tag_text_def empty_b_space del: empty_b_loop.simps(2))
qed

section \<open>A signed message\<close>

lemma find_blank_line_no_CR:
  "CR \<notin> set l \<Longrightarrow> find_blank_line (l @ s) = map_option ((+) (length l)) (find_blank_line s)"
proof (induction l)
  case Nil
  show ?case by (cases "find_blank_line s") simp_all
next
  case (Cons a l)
  then show ?case by (cases "find_blank_line s") (auto simp: starts_with_def)
qed

text \<open>A message begins with a header field.\<close>

definition field_line :: "string \<Rightarrow> bool" where
  "field_line l = (l \<noteq> [] \<and> \<not> is_wsp (hd l) \<and> CHR '':'' \<in> set l)"

definition starts_with_field :: "string \<Rightarrow> bool" where
  "starts_with_field message = field_line (hd (split_crlf message))"

lemma find_blank_line_after:
  assumes "starts_with_field message"
  shows "find_blank_line (CR # LF # message) = map_option ((+) 2) (find_blank_line message)"
proof -
  have "\<not> starts_with CRLF message"
  proof
    assume "starts_with CRLF message"
    then obtain r where "message = CR # LF # r" by (auto simp: starts_with_prefix prefix_def)
    with assms show False by (simp add: starts_with_field_def field_line_def)
  qed
  then have "\<not> starts_with (CRLF @ CRLF) (CR # LF # message)" by (simp add: starts_with_def)
  moreover have "\<not> starts_with (CRLF @ CRLF) (LF # message)" by (simp add: starts_with_def)
  ultimately show ?thesis by (cases "find_blank_line message") simp_all
qed

lemma find_blank_line_Some:
  "find_blank_line s = Some i \<Longrightarrow> s = take i s @ CR # LF # CR # LF # drop (i + 4) s"
proof (induction s arbitrary: i)
  case (Cons c s)
  show ?case
  proof (cases "starts_with (CRLF @ CRLF) (c # s)")
    case True
    then obtain r where "c # s = (CRLF @ CRLF) @ r" by (auto simp: starts_with_prefix prefix_def)
    with True Cons.prems show ?thesis by auto
  next
    case False
    with Cons.prems obtain j where "find_blank_line s = Some j" "i = Suc j" by auto
    moreover from this have "drop (i + 4) (c # s) = drop (j + 4) s" by (simp only: add_Suc drop_Suc_Cons)
    ultimately show ?thesis using Cons.IH [of j] by simp
  qed
qed simp

lemma parse_header_line_Cons: "out \<noteq> [] \<Longrightarrow> parse_header_line (f # out) l = f # parse_header_line out l"
  by (auto simp: parse_header_line_def split: option.splits)

lemma foldl_parse_header_Cons:
  "out \<noteq> [] \<Longrightarrow> foldl parse_header_line (f # out) ls = f # foldl parse_header_line out ls"
proof (induction ls arbitrary: out)
  case (Cons l ls)
  have "parse_header_line out l \<noteq> []"
    using Cons.prems by (auto simp: parse_header_line_def split: option.splits)
  with Cons show ?case by (simp add: parse_header_line_Cons)
qed simp

lemma parse_header_line_field:
  assumes "field_line l"
  shows "\<exists>f. parse_header_line out l = out @ [f]"
proof -
  obtain n v where "split_once (CHR '':'') l = Some (n, v)"
    using assms split_once_None [of "CHR '':''" l] by (cases "split_once (CHR '':'') l") (auto simp: field_line_def)
  with assms show ?thesis by (auto simp: parse_header_line_def field_line_def)
qed

lemma parse_headers_prepend:
  assumes "field_line (hd (split_crlf head))" and "parse_header_line [] l = [f]" and "split_crlf l = [l]"
  shows "parse_headers (l @ CR # LF # head) = f # parse_headers head"
proof -
  obtain m ms where ms: "split_crlf head = m # ms" by (cases "split_crlf head") auto
  with assms(1) have m: "field_line m" by simp
  obtain g where g: "parse_header_line [] m = [g]" using parse_header_line_field [OF m, of "[]"] by auto
  have "parse_header_line [f] m = [f, g]"
    using g m by (auto simp: parse_header_line_def field_line_def split: option.splits)
  then show ?thesis
    unfolding parse_headers_def split_crlf_append using assms(2,3) ms g
    by (simp add: foldl_parse_header_Cons del: split_crlf.simps)
qed

lemma split_headers_body_prepend:
  assumes "starts_with_field message" "CR \<notin> set l" "parse_header_line [] l = [f]"
  shows "split_headers_body (l @ CR # LF # message) =
    (f # fst (split_headers_body message), snd (split_headers_body message))"
proof -
  have l: "split_crlf l = [l]" using assms(2)
    by (induction l) (auto simp add: split_crlf_single_Cons simp del: split_crlf.simps(2,3))
  have fb: "find_blank_line (l @ CR # LF # message) = map_option (\<lambda>i. length l + (2 + i)) (find_blank_line message)"
    using find_blank_line_no_CR [OF assms(2)] find_blank_line_after [OF assms(1)]
    by (simp add: option.map_comp comp_def)
  show ?thesis
  proof (cases "find_blank_line message")
    case None
    with fb show ?thesis
      using parse_headers_prepend [OF _ assms(3) l] assms(1)
      by (simp add: split_headers_body_def starts_with_field_def)
  next
    case (Some i)
    have "message = take i message @ CR # LF # (CR # LF # drop (i + 4) message)"
      using find_blank_line_Some [OF Some] by simp
    then have "split_crlf message = split_crlf (take i message) @ split_crlf (CR # LF # drop (i + 4) message)"
      using split_crlf_append by metis
    then have "hd (split_crlf (take i message)) = hd (split_crlf message)" by (simp del: split_crlf.simps)
    with assms(1) have "field_line (hd (split_crlf (take i message)))" by (simp add: starts_with_field_def)
    moreover have "drop (length l + (2 + i) + 4) (l @ CR # LF # message) = drop (i + 4) message"
      by (simp add: numeral_eq_Suc)
    ultimately show ?thesis
      using fb Some parse_headers_prepend [OF _ assms(3) l] by (simp add: split_headers_body_def)
  qed
qed

section \<open>Assembling the signing input\<close>

lemma signed_names_subset: "set (signed_names headers) \<subseteq> set SIGNED_HEADERS"
  by (auto simp: signed_names_def SIGNED_HEADERS_def)

lemma SIGNED_HEADERS_props:
  "list_all (\<lambda>h. list_all tag_char h \<and> CHR '':'' \<notin> set h \<and> h \<noteq> [] \<and> \<not> eq_ignore_ascii_case ''DKIM-Signature'' h) SIGNED_HEADERS"
  by (simp add: SIGNED_HEADERS_def tag_char_def eq_ignore_ascii_case_def to_ascii_lowercase_def ascii_lower_def)

lemma signed_name:
  assumes "h \<in> set (signed_names headers)"
  shows "list_all tag_char h" "CHR '':'' \<notin> set h" "h \<noteq> []" "\<not> eq_ignore_ascii_case ''DKIM-Signature'' h" "trim h = h"
  using assms signed_names_subset [of headers] SIGNED_HEADERS_props
  by (auto simp only: list_all_iff subset_iff intro!: trim_tag)

lemma set_join_with: "set (join_with sep ss) \<subseteq> set sep \<union> (\<Union>s \<in> set ss. set s)"
  by (induction sep ss rule: join_with.induct) auto

lemma split_join_with:
  "ss \<noteq> [] \<Longrightarrow> list_all (\<lambda>s. c \<notin> set s) ss \<Longrightarrow> split_on c (join_with [c] ss) = ss"
proof (induction "[c]" ss rule: join_with.induct)
  case (3 s t ss)
  then show ?case by (simp add: split_on_append_sep split_on_no_sep)
qed (simp_all add: split_on_no_sep)

lemma h_tag_signed_names: "h_tag_names (join_with '':'' (signed_names headers)) = signed_names headers"
proof -
  have "split_on (CHR '':'') (join_with '':'' (signed_names headers)) = signed_names headers"
    by (rule split_join_with) (simp add: signed_names_def, simp add: list_all_iff signed_name(2))
  then show ?thesis
    by (auto simp: h_tag_names_def signed_name(3,5) intro!: filter_True map_idI)
qed

lemma h_tag_chars: "list_all tag_char (join_with '':'' (signed_names headers))"
proof -
  have "tag_char (CHR '':'')" by (simp add: tag_char_def)
  moreover have "tag_char c" if "h \<in> set (signed_names headers)" "c \<in> set h" for h c
    using signed_name(1) [OF that(1)] that(2) by (simp add: list_all_iff)
  ultimately show ?thesis
    using set_join_with [of "'':''" "signed_names headers"] by (auto simp: list_all_iff)
qed

lemma header_instance_prepend:
  "\<not> named (trim n) f \<Longrightarrow> header_instance (f # headers) before n = header_instance headers before n"
  by (simp add: header_instance_def)

lemma assemble_prepend:
  "list_all (\<lambda>n. \<not> named (trim n) f) ns \<Longrightarrow>
     assemble_from (f # headers) before ns = assemble_from headers before ns"
  by (induction ns arbitrary: before) (simp_all add: header_instance_prepend)

lemma canon_value_space: "s \<noteq> [] \<Longrightarrow> tag_char (hd s) \<Longrightarrow> canon_value True False s = canon_value False False s"
  by (cases s) (simp_all add: tag_char_not)

text \<open>The signature field's value as a list of tags.\<close>

definition signed_tags :: "dkim_crypto \<Rightarrow> dkim_key \<Rightarrow> fields \<Rightarrow> string \<Rightarrow> u64 \<Rightarrow> (string \<times> string) list" where
  "signed_tags C key headers body t =
     [(''v'', ''1''), (''a'', ''ed25519-sha256''), (''c'', ''relaxed/relaxed''), (''d'', dk_domain key),
      (''s'', dk_selector key), (''t'', dec (unat t)), (''h'', join_with '':'' (signed_names headers)),
      (''bh'', body_hash C body)]"

definition tag_ok :: "string \<times> string \<Rightarrow> bool" where
  "tag_ok = (\<lambda>(k, v). list_all tag_char k \<and> CHR ''='' \<notin> set k \<and> k \<noteq> [] \<and> k \<noteq> ''b'' \<and> list_all tag_char v)"

fun tags_text :: "(string \<times> string) list \<Rightarrow> string \<Rightarrow> string" where
  "tags_text [] b = tag_text ''b'' b"
| "tags_text ((k, v) # ts) b = tag_text k v @ CHR '';'' # tags_text ts b"

lemma tags_text_base: "tags_text (signed_tags C key headers body t) b = CHR '' '' # dkim_header_base C key headers body t @ b"
  by (simp add: signed_tags_def tag_text_def dkim_header_base_def)

lemma signed_tags_ok:
  "list_all tag_char (dk_domain key) \<Longrightarrow> list_all tag_char (dk_selector key) \<Longrightarrow>
     list_all tag_ok (signed_tags C key headers body t)"
  by (simp add: signed_tags_def tag_ok_def dec_tag h_tag_chars body_hash_def b64_encode_tag) (simp add: tag_char_def)

lemma parse_tags_text_list:
  "list_all tag_ok ts \<Longrightarrow> list_all tag_char b \<Longrightarrow> parse_tags (tags_text ts b) = ts @ [(''b'', b)]"
proof (induction ts)
  case Nil
  have "list_all tag_char ''b''" by (simp add: tag_char_def)
  with Nil show ?case by (simp add: parse_tags_text)
next
  case (Cons kv ts)
  then show ?case by (cases kv) (simp add: tag_ok_def parse_tags_text)
qed

lemma empty_b_tags_text:
  "list_all tag_ok ts \<Longrightarrow> list_all tag_char b \<Longrightarrow>
     empty_b_loop (CHR '';'' # before) (tags_text ts b) = tags_text ts []"
proof (induction ts arbitrary: before)
  case Nil
  then show ?case using empty_b_last [of b] by (simp add: tag_text_def del: empty_b_loop.simps)
next
  case (Cons kv ts)
  then show ?case by (cases kv) (simp add: tag_ok_def empty_b_tag del: empty_b_loop.simps)
qed

lemma empty_b_signed:
  assumes "list_all tag_ok ts" "ts \<noteq> []" "list_all tag_char b"
  shows "empty_b_value (tags_text ts b) = tags_text ts []"
proof -
  obtain k v ts' where "ts = (k, v) # ts'" using assms(2) by (cases ts) auto
  with assms show ?thesis
    by (simp add: empty_b_value_def tag_ok_def empty_b_tag empty_b_tags_text del: empty_b_loop.simps)
qed

lemma tag_chars_ascii: "list_all tag_char s \<Longrightarrow> c \<in> set s \<Longrightarrow> byte_of c < 128 \<and> c \<noteq> CR"
  using tag_char_not(1,5) [of c] by (auto simp: list_all_iff)

lemma tag_text_ascii:
  assumes "list_all tag_char k" "list_all tag_char v" "c \<in> set (tag_text k v)"
  shows "byte_of c < 128 \<and> c \<noteq> CR"
proof -
  consider "c = CHR '' ''" | "c = CHR ''=''" | "c \<in> set k" | "c \<in> set v"
    using assms(3) by (auto simp: tag_text_def)
  then show ?thesis using assms(1,2) tag_chars_ascii by cases simp_all
qed

lemma tags_text_ascii:
  "list_all tag_ok ts \<Longrightarrow> list_all tag_char b \<Longrightarrow> c \<in> set (tags_text ts b) \<Longrightarrow> byte_of c < 128 \<and> c \<noteq> CR"
proof (induction ts)
  case Nil
  have "list_all tag_char ''b''" by (simp add: tag_char_def)
  with Nil show ?case using tag_text_ascii [of "''b''" b c] by simp
next
  case (Cons kv ts)
  obtain k v where kv: "kv = (k, v)" by fastforce
  consider "c \<in> set (tag_text k v)" | "c = CHR '';''" | "c \<in> set (tags_text ts b)"
    using Cons.prems(3) kv by auto
  then show ?case
  proof cases
    case 1
    then show ?thesis using tag_text_ascii [of k v c] Cons.prems(1) kv by (simp add: tag_ok_def)
  next
    case 3
    then show ?thesis using Cons by simp
  qed simp
qed

section \<open>Signing, then verifying\<close>

text \<open>What is relied on of Ed25519: sizes, the key of a seed is a valid one, and a signature verifies.\<close>

definition ed25519_laws :: "dkim_crypto \<Rightarrow> bool" where
  "ed25519_laws C =
     (\<forall>seed. length seed = 32 \<longrightarrow> length (verifying_key C seed) = 32 \<and> vk_valid C (verifying_key C seed) \<and>
        (\<forall>m. length (ed_sign C seed m) = 64 \<and> ed_verify C (verifying_key C seed) m (ed_sign C seed m)))"

lemma signature_line: "parse_header_line [] (''DKIM-Signature:'' @ v) = [(''DKIM-Signature'', v)]"
proof -
  have "from_utf8_lossy (as_bytes ''DKIM-Signature'') = ''DKIM-Signature''"
    by (rule from_utf8_lossy_str, rule ascii_is_str) simp
  moreover have "split_once (CHR '':'') (''DKIM-Signature'' @ CHR '':'' # v) = Some (''DKIM-Signature'', v)"
    by (rule split_once_first) simp
  ultimately show ?thesis by (simp add: parse_header_line_def is_wsp_def)
qed

lemma trim_signature_name: "trim ''DKIM-Signature'' = ''DKIM-Signature''"
  by (rule trim_graphic) simp

lemma find_signature:
  assumes "find_header headers ''dkim-signature'' = None"
  shows "find_header ((''DKIM-Signature'', v) # headers) ''dkim-signature'' = Some (''DKIM-Signature'', v)"
proof -
  have "named ''dkim-signature'' (''DKIM-Signature'', v)"
    unfolding named_def fst_conv trim_signature_name by code_simp
  with assms show ?thesis by (simp add: find_header_def find_append)
qed

lemma signing_input_signed:
  assumes "list_all tag_ok ts" "list_all tag_char b" "tags_text ts [] = CHR '' '' # base"
    and "base \<noteq> []" "tag_char (hd base)" "ts \<noteq> []"
  shows "signing_input ((''DKIM-Signature'', tags_text ts b) # headers) (signed_names headers)
      (empty_b_value (tags_text ts b)) = signing_input headers (signed_names headers) base"
proof -
  have "list_all (\<lambda>n. \<not> named (trim n) (''DKIM-Signature'', tags_text ts b)) (signed_names headers)"
    unfolding list_all_iff using signed_name(4,5) by (auto simp: named_def trim_signature_name)
  then show ?thesis
    using assms by (simp add: signing_input_def assemble_signed_headers_def assemble_prepend empty_b_signed
        canonicalize_header_def canon_value_space)
qed

lemma signed_tags_get:
  fixes C key headers body t b
  defines "tags \<equiv> signed_tags C key headers body t @ [(''b'', b)]"
  shows "get_tag tags ''a'' = Some ''ed25519-sha256''" "get_tag tags ''c'' = Some ''relaxed/relaxed''"
    "get_tag tags ''d'' = Some (dk_domain key)" "get_tag tags ''s'' = Some (dk_selector key)"
    "get_tag tags ''h'' = Some (join_with '':'' (signed_names headers))"
    "get_tag tags ''bh'' = Some (body_hash C body)" "get_tag tags ''b'' = Some b"
  by (simp_all add: tags_def signed_tags_def get_tag_def)

lemma from_signed: "list_ex (\<lambda>n. eq_ignore_ascii_case n ''from'') (signed_names headers)"
  by (simp add: signed_names_def)

lemma signed_passes:
  assumes "ed25519_laws C" and "length (dk_signing key) = 32"
    and "list_all tag_char (dk_domain key)" and "list_all tag_char (dk_selector key)"
    and "starts_with_field message"
    and "find_header (fst (split_headers_body message)) ''dkim-signature'' = None"
  shows "fst (verify_with_resolver C (sign C key message t @ message)
      (\<lambda>d s w. (static_resolve_dkim_key (publish static_new (dk_domain key) (dk_selector key) (public_bytes C key)) d s, w)) w)
    = DkPass (dk_domain key) (dk_selector key)"
proof -
  obtain headers body where hb: "split_headers_body message = (headers, body)" by fastforce
  let ?ts = "signed_tags C key headers body t" and ?base = "dkim_header_base C key headers body t"
  define input where "input = signing_input headers (signed_names headers) ?base"
  define sig where "sig = ed_sign C (dk_signing key) (sha256 C (as_bytes input))"
  define val where "val = tags_text ?ts (b64_encode sig)"
  note ok = signed_tags_ok [OF assms(3,4), of C headers body t] and b = b64_encode_tag [of sig]
  have sign: "sign C key message t @ message = (''DKIM-Signature:'' @ val) @ CR # LF # message"
    by (simp add: sign_def hb Let_def val_def tags_text_base input_def sig_def)
  have cr: "CR \<notin> set (''DKIM-Signature:'' @ val)"
    using tags_text_ascii [OF ok b] by (auto simp: val_def)
  have split: "split_headers_body (sign C key message t @ message) = ((''DKIM-Signature'', val) # headers, body)"
    unfolding sign split_headers_body_prepend [OF assms(5) cr signature_line] hb by simp
  have find: "find_header ((''DKIM-Signature'', val) # headers) ''dkim-signature'' = Some (''DKIM-Signature'', val)"
    using assms(6) hb by (intro find_signature) simp
  have "is_str val" unfolding val_def using tags_text_ascii [OF ok b]
    by (intro ascii_is_str) (auto simp: list_all_iff)
  then have tags: "parse_tags (from_utf8_lossy (as_bytes val)) = ?ts @ [(''b'', b64_encode sig)]"
    using parse_tags_text_list [OF ok b] by (simp add: from_utf8_lossy_str val_def)
  have input: "signing_input ((''DKIM-Signature'', val) # headers) (signed_names headers) (empty_b_value val) = input"
    unfolding val_def input_def
  proof (rule signing_input_signed [OF ok b])
    show "tags_text ?ts [] = CHR '' '' # ?base" by (simp add: tags_text_base)
  qed (simp_all add: dkim_header_base_def signed_tags_def tag_char_def)
  have "verify_signature C (public_bytes C key) (b64_encode sig) input = Inr ()"
    using assms(1,2) decode_encode [of 0 sig]
    by (simp add: verify_signature_Inr public_bytes_def ed25519_laws_def sig_def b64_decode_def b64_encode_def)
  then have "verify C (sign C key message t @ message) (public_bytes C key) = Inr ()"
    unfolding verify_def split by (simp add: find tags signed_tags_get h_tag_signed_names from_signed input Let_def)
  moreover have "signing_domain_selector (sign C key message t @ message) = Some (dk_domain key, dk_selector key)"
    unfolding signing_domain_selector_def split by (simp add: find tags signed_tags_get)
  ultimately show ?thesis
    by (simp add: verify_with_resolver_def static_resolve_dkim_key_def publish_def static_new_def)
qed

text \<open>A toy scheme with the shapes of Ed25519, and one signed message.\<close>

definition toy_crypto :: dkim_crypto where
  "toy_crypto = \<lparr>sha256 = take 32, verifying_key = id,
     ed_sign = (\<lambda>seed m. take 64 (seed @ m @ replicate 64 0)), vk_valid = (\<lambda>_. True),
     ed_verify = (\<lambda>pk m sig. sig = take 64 (pk @ m @ replicate 64 0))\<rparr>"

definition demo_message :: string where
  "demo_message = ''From: a'' @ CRLF @ CRLF @ ''x''"

lemma toy_laws: "ed25519_laws toy_crypto"
  by (simp add: ed25519_laws_def toy_crypto_def min_def)

lemma demo_split: "split_headers_body demo_message = ([(''From'', '' a'')], ''x'')"
proof -
  have "from_utf8_lossy (as_bytes ''From'') = ''From''"
    by (rule from_utf8_lossy_str, rule ascii_is_str) simp
  then have "parse_headers ''From: a'' = [(''From'', '' a'')]"
    by (simp add: parse_headers_def parse_header_line_def is_wsp_def)
  moreover have "find_blank_line demo_message = Some 7"
    by (simp add: demo_message_def starts_with_def)
  ultimately show ?thesis by (simp add: split_headers_body_def demo_message_def)
qed

lemma demo_checks:
  "starts_with_field demo_message" "find_header (fst (split_headers_body demo_message)) ''dkim-signature'' = None"
  "list_all tag_char ''example.org''" "list_all tag_char ''s1''"
proof -
  show "starts_with_field demo_message"
    by (simp add: starts_with_field_def field_line_def demo_message_def is_wsp_def)
  have "trim ''From'' = ''From''" by (rule trim_graphic) simp
  then show "find_header (fst (split_headers_body demo_message)) ''dkim-signature'' = None"
    by (simp add: demo_split find_header_def named_def eq_ignore_ascii_case_def to_ascii_lowercase_def)
qed (simp_all add: tag_char_def)

definition demo_key :: dkim_key where
  "demo_key = from_seed ''example.org'' ''s1'' (replicate 32 7)"

lemma demo_key_fields [simp]:
  "dk_domain demo_key = ''example.org''" "dk_selector demo_key = ''s1''" "length (dk_signing demo_key) = 32"
  "public_bytes toy_crypto demo_key = replicate 32 7"
  by (simp_all add: demo_key_def from_seed_def public_bytes_def toy_crypto_def)

definition demo_resolver :: "unit dkim_resolver" where
  "demo_resolver d s w = (static_resolve_dkim_key (publish static_new ''example.org'' ''s1'' (replicate 32 7)) d s, w)"

text \<open>C13: A message signed here passes: for a message that begins with a header field and carries no signature
  yet, and a domain and selector of visible ASCII, prepending the field that \<open>sign\<close> returns gives a message
  whose verdict, against a resolver that publishes the signer's key, is a pass for this domain and selector.
\<close>

theorem signed_message_passes:
  assumes "ed25519_laws C" and "length (dk_signing key) = 32"
    and "list_all tag_char (dk_domain key)" and "list_all tag_char (dk_selector key)"
    and "starts_with_field message"
    and "find_header (fst (split_headers_body message)) ''dkim-signature'' = None"
  shows "fst (verify_with_resolver C (sign C key message t @ message)
      (\<lambda>d s w. (static_resolve_dkim_key (publish static_new (dk_domain key) (dk_selector key) (public_bytes C key)) d s, w)) w)
    = DkPass (dk_domain key) (dk_selector key)"
  by (rule signed_passes [OF assms])

lemma signed_message_passes_witness:
  "fst (verify_with_resolver toy_crypto (sign toy_crypto demo_key demo_message 5 @ demo_message) demo_resolver ())
    = DkPass ''example.org'' ''s1''"
  using signed_message_passes [OF toy_laws, where key = demo_key and message = demo_message and t = 5 and w = "()"]
    demo_checks
  unfolding demo_key_fields demo_resolver_def [abs_def] by blast

text \<open>C6: A DKIM pass means what it says. When the verdict is a pass for a domain and a selector, the message's
  last DKIM-Signature field names them, the resolver published a 32-byte key under them, and this key
  verifies the 64-byte signature of the field over the digest of the signed fields, with From among
  them, and of the field itself with its signature removed; the body hash of the field is the hash of the
  canonical body of this message.
\<close>

theorem dkim_pass_sound:
  assumes "fst (verify_with_resolver C message resolver w) = DkPass domain selector"
  shows "\<exists>headers body name value key tags h b sig.
    split_headers_body message = (headers, body) \<and>
    find_header headers ''dkim-signature'' = Some (name, value) \<and>
    tags = parse_tags (from_utf8_lossy (as_bytes value)) \<and>
    get_tag tags ''d'' = Some domain \<and> get_tag tags ''s'' = Some selector \<and>
    fst (resolver domain selector w) = Some key \<and> length key = 32 \<and> vk_valid C key \<and>
    get_tag tags ''bh'' = Some (body_hash C body) \<and>
    get_tag tags ''h'' = Some h \<and> list_ex (\<lambda>n. eq_ignore_ascii_case n ''from'') (h_tag_names h) \<and>
    get_tag tags ''b'' = Some b \<and> b64_decode b = Inr sig \<and> length sig = 64 \<and>
    ed_verify C key (sha256 C (as_bytes (signing_input headers (h_tag_names h) (empty_b_value value)))) sig"
proof -
  have ds: "signing_domain_selector message = Some (domain, selector)"
    using assms by (auto simp: verify_with_resolver_def split: option.splits sum.splits prod.splits)
  then obtain key where k: "fst (resolver domain selector w) = Some key" "verify C message key = Inr ()"
    using assms by (auto simp: verify_with_resolver_def split: option.splits sum.splits prod.splits)
  from k(2) show ?thesis
  proof (cases rule: verify_InrE)
    case (1 headers body name val tags h b)
    with ds have "get_tag tags ''d'' = Some domain" "get_tag tags ''s'' = Some selector"
      by (auto simp: signing_domain_selector_def Let_def split: option.splits bind_splits)
    with 1 k show ?thesis unfolding verify_signature_Inr by blast
  qed
qed

lemma dkim_pass_sound_witness:
  "\<exists>headers body name value key h b sig.
    split_headers_body (sign toy_crypto demo_key demo_message 5 @ demo_message) = (headers, body) \<and>
    find_header headers ''dkim-signature'' = Some (name, value) \<and>
    fst (demo_resolver ''example.org'' ''s1'' ()) = Some key \<and>
    ed_verify toy_crypto key (sha256 toy_crypto (as_bytes (signing_input headers (h_tag_names h) (empty_b_value value)))) sig"
proof -
  have "fst (verify_with_resolver toy_crypto (sign toy_crypto demo_key demo_message 5 @ demo_message) demo_resolver ())
      = DkPass ''example.org'' ''s1''"
    using signed_passes [OF toy_laws, where key = demo_key and message = demo_message and t = 5 and w = "()"]
      demo_checks
    unfolding demo_key_fields demo_resolver_def [abs_def] by blast
  from dkim_pass_sound [OF this] show ?thesis by blast
qed

section \<open>A folded signature tag\<close>

text \<open>
  The scan for the \<open>b=\<close> tag looks back over spaces and tabs only. A tag that was folded onto its own line
  keeps its signature in the signing input, so no folded signature can verify.
\<close>

lemma empty_b_no_b: "CHR ''b'' \<notin> set s \<Longrightarrow> empty_b_loop before (s @ r) = s @ empty_b_loop (rev s @ before) r"
proof (induction s arbitrary: before)
  case (Cons a s)
  then have "a \<noteq> CHR ''b''" "CHR ''b'' \<notin> set s" by auto
  with Cons.IH show ?case by (simp add: Let_def)
qed simp

lemma folded_b_kept:
  assumes "list_all tag_char v" and "CHR ''b'' \<notin> set s"
  shows "empty_b_loop before (s @ '';'' @ CRLF @ tag_text ''b'' v) = s @ '';'' @ CRLF @ tag_text ''b'' v"
proof -
  let ?p = "s @ CHR '';'' # CR # LF # [CHR '' '']"
  have "CHR ''b'' \<notin> set ?p" using assms(2) by auto
  note p = empty_b_no_b [OF this, of before "CHR ''b'' # CHR ''='' # v"]
  have "\<not> at_boundary (rev ?p @ before)" by (simp add: at_boundary_def)
  then have "empty_b_loop (rev ?p @ before) (CHR ''b'' # CHR ''='' # v)
      = CHR ''b'' # empty_b_loop (CHR ''b'' # rev ?p @ before) (CHR ''='' # v)"
    by (subst empty_b_loop.simps) (simp add: Let_def)
  moreover have "empty_b_loop (CHR ''b'' # rev ?p @ before) ((CHR ''='' # v) @ []) = (CHR ''='' # v) @ []"
    using empty_b_pass [of "CHR ''='' # v" "CHR ''b''" "rev ?p @ before" "[]"] assms(1)
    by (simp add: tag_char_def)
  ultimately show ?thesis using p by (simp add: tag_text_def del: empty_b_loop.simps(2))
qed

end
