(* ===== verification/Gw_Dmarc.thy ===== *)
theory Gw_Dmarc
  imports Gw_Dkim_Sound
begin

text \<open>
  DMARC (\<open>gateway/src/dmarc.rs\<close>): the policy record, its discovery at the From domain and at the
  organizational domain, identifier alignment, and the verdict. The public suffix list (crate \<open>psl\<close>) and the
  MIME header parser (crate \<open>kotva_mail\<close>) are parameters.
\<close>

section \<open>Policies and records\<close>

datatype dmarc_policy = DpNone | DpQuarantine | DpReject

datatype dmarc_disposition = DdNone | DdQuarantine | DdReject

fun to_disposition :: "dmarc_policy \<Rightarrow> dmarc_disposition" where
  "to_disposition DpNone = DdNone"
| "to_disposition DpQuarantine = DdQuarantine"
| "to_disposition DpReject = DdReject"

record dmarc_record =
  dr_policy :: dmarc_policy
  dr_subdomain_policy :: "dmarc_policy option"
  dr_dkim_strict :: bool
  dr_spf_strict :: bool
  dr_pct :: u8

datatype dmarc_verdict =
  DmarcPass | DmarcFail dmarc_disposition | DmarcNoPolicy | DmarcPermError

type_synonym 'w txt_resolver = "string \<Rightarrow> 'w \<Rightarrow> string list \<times> 'w"

type_synonym in_memory_dmarc = "string \<rightharpoonup> string list"

definition dmarc_with_txt :: "string \<Rightarrow> string list \<Rightarrow> in_memory_dmarc \<Rightarrow> in_memory_dmarc" where
  "dmarc_with_txt name vs m = m(to_ascii_lowercase name \<mapsto> vs)"

definition im_lookup_txt :: "in_memory_dmarc \<Rightarrow> 'w txt_resolver" where
  "im_lookup_txt m name w = ((case m (to_ascii_lowercase name) of Some vs \<Rightarrow> vs | None \<Rightarrow> []), w)"

definition dmarc_normalize :: "string \<Rightarrow> string" where
  "dmarc_normalize domain = to_ascii_lowercase (trim_end_char (CHR ''.'') (trim domain))"

type_synonym psl = "string \<Rightarrow> string option"

definition organizational_domain :: "psl \<Rightarrow> string \<Rightarrow> string" where
  "organizational_domain psl domain =
     (let d = dmarc_normalize domain in case psl d of Some registrable \<Rightarrow> registrable | None \<Rightarrow> d)"

definition domains_aligned :: "psl \<Rightarrow> string \<Rightarrow> string \<Rightarrow> bool \<Rightarrow> bool" where
  "domains_aligned psl auth_domain header_domain strict =
     (if strict then eq_ignore_ascii_case auth_domain header_domain
      else case (psl (dmarc_normalize auth_domain), psl (dmarc_normalize header_domain)) of
        (Some org_auth, Some org_header) \<Rightarrow> eq_ignore_ascii_case org_auth org_header
      | _ \<Rightarrow> eq_ignore_ascii_case auth_domain header_domain)"

definition is_dmarc1_record :: "string \<Rightarrow> bool" where
  "is_dmarc1_record t =
     (let t' = trim t in
      t' = ''v=DMARC1'' \<or> starts_with ''v=DMARC1;'' t' \<or> starts_with ''v=DMARC1 '' t')"

definition parse_policy_value :: "string \<Rightarrow> unit + dmarc_policy" where
  "parse_policy_value v =
     (if v = ''none'' then Inr DpNone
      else if v = ''quarantine'' then Inr DpQuarantine
      else if v = ''reject'' then Inr DpReject
      else Inl ())"

text \<open>The local variables of \<open>dmarc_parse_record\<close>.\<close>

record record_state =
  rs_policy :: "dmarc_policy option"
  rs_sp :: "dmarc_policy option"
  rs_adkim_strict :: bool
  rs_aspf_strict :: bool
  rs_pct :: u8
  rs_saw_version :: bool

definition record_start :: record_state where
  "record_start = \<lparr>rs_policy = None, rs_sp = None, rs_adkim_strict = False, rs_aspf_strict = False,
     rs_pct = 100, rs_saw_version = False\<rparr>"

definition parse_mode :: "string \<Rightarrow> unit + bool" where
  "parse_mode v = (if v = ''s'' then Inr True else if v = ''r'' then Inr False else Inl ())"

definition record_field :: "string \<Rightarrow> string \<Rightarrow> record_state \<Rightarrow> unit + record_state" where
  "record_field k v st =
     (if k = ''v'' then (if v \<noteq> ''DMARC1'' then Inl () else Inr (st\<lparr>rs_saw_version := True\<rparr>))
      else if k = ''p'' then bindE (parse_policy_value v) (\<lambda>p. Inr (st\<lparr>rs_policy := Some p\<rparr>))
      else if k = ''sp'' then bindE (parse_policy_value v) (\<lambda>p. Inr (st\<lparr>rs_sp := Some p\<rparr>))
      else if k = ''adkim'' then bindE (parse_mode v) (\<lambda>s. Inr (st\<lparr>rs_adkim_strict := s\<rparr>))
      else if k = ''aspf'' then bindE (parse_mode v) (\<lambda>s. Inr (st\<lparr>rs_aspf_strict := s\<rparr>))
      else if k = ''pct'' then
        bindE (ok_or () (parse_u8 v)) (\<lambda>n. if n > 100 then Inl () else Inr (st\<lparr>rs_pct := n\<rparr>))
      else Inr st)"

definition record_tag :: "string \<Rightarrow> record_state \<Rightarrow> unit + record_state" where
  "record_tag tag st =
     (let t = trim tag in
      if t = [] then Inr st
      else bindE (ok_or () (split_once (CHR ''='') t)) (\<lambda>(k, v). record_field (trim k) (trim v) st))"

fun record_tags :: "string list \<Rightarrow> record_state \<Rightarrow> unit + record_state" where
  "record_tags [] st = Inr st"
| "record_tags (t # ts) st = bindE (record_tag t st) (record_tags ts)"

definition dmarc_parse_record :: "string \<Rightarrow> unit + dmarc_record" where
  "dmarc_parse_record txt =
     bindE (record_tags (split_on (CHR '';'') txt) record_start) (\<lambda>st.
       if \<not> rs_saw_version st then Inl ()
       else bindE (ok_or () (rs_policy st)) (\<lambda>policy.
         Inr \<lparr>dr_policy = policy, dr_subdomain_policy = rs_sp st, dr_dkim_strict = rs_adkim_strict st,
               dr_spf_strict = rs_aspf_strict st, dr_pct = rs_pct st\<rparr>))"

section \<open>Discovery\<close>

datatype discovery = DiscFound dmarc_record bool | DiscNone | DiscPermError

datatype lookup_at_result = LaFound dmarc_record | LaNotFound | LaPermError

definition judge_txts :: "string list \<Rightarrow> lookup_at_result" where
  "judge_txts txts =
     (case filter is_dmarc1_record txts of
        [] \<Rightarrow> LaNotFound
      | [t] \<Rightarrow> (case dmarc_parse_record t of Inr r \<Rightarrow> LaFound r | Inl _ \<Rightarrow> LaPermError)
      | _ \<Rightarrow> LaPermError)"

definition lookup_at :: "'w txt_resolver \<Rightarrow> string \<Rightarrow> 'w \<Rightarrow> lookup_at_result \<times> 'w" where
  "lookup_at resolver domain w =
     (let (txts, w') = resolver (''_dmarc.'' @ to_ascii_lowercase (trim_end_char (CHR ''.'') (trim domain))) w in
      (judge_txts txts, w'))"

definition discover :: "psl \<Rightarrow> 'w txt_resolver \<Rightarrow> string \<Rightarrow> 'w \<Rightarrow> discovery \<times> 'w" where
  "discover psl resolver header_domain w =
     (case lookup_at resolver header_domain w of
        (LaFound r, w1) \<Rightarrow> (DiscFound r False, w1)
      | (LaPermError, w1) \<Rightarrow> (DiscPermError, w1)
      | (LaNotFound, w1) \<Rightarrow>
          let org = organizational_domain psl header_domain in
          if \<not> eq_ignore_ascii_case header_domain org then
            (case lookup_at resolver org w1 of
               (LaFound r, w2) \<Rightarrow> (DiscFound r True, w2)
             | (LaPermError, w2) \<Rightarrow> (DiscPermError, w2)
             | (LaNotFound, w2) \<Rightarrow> (DiscNone, w2))
          else (DiscNone, w1))"

section \<open>The From domain\<close>

datatype header_from_result = HfSingle string | HfUnusable | HfAmbiguous

record mail_addr =
  ma_host :: "string option"

record mime =
  headers_only :: "bytes \<Rightarrow> (string \<times> string) list"
  parse_address_list :: "string \<Rightarrow> mail_addr list"

definition header_from :: "mime \<Rightarrow> bytes \<Rightarrow> header_from_result" where
  "header_from M data =
     (case filter (\<lambda>(n, _). eq_ignore_ascii_case (trim n) ''from'') (headers_only M data) of
        [] \<Rightarrow> HfUnusable
      | [(_, v)] \<Rightarrow>
          (case parse_address_list M v of
             [] \<Rightarrow> HfUnusable
           | [addr] \<Rightarrow>
               (case ma_host addr of
                  Some h \<Rightarrow> if h \<noteq> [] then HfSingle h else HfUnusable
                | None \<Rightarrow> HfUnusable)
           | _ \<Rightarrow> HfAmbiguous)
      | _ \<Rightarrow> HfAmbiguous)"

definition header_from_domain :: "mime \<Rightarrow> bytes \<Rightarrow> string option" where
  "header_from_domain M data = (case header_from M data of HfSingle d \<Rightarrow> Some d | _ \<Rightarrow> None)"

section \<open>The verdict\<close>

definition spf_aligned :: "psl \<Rightarrow> dmarc_record \<Rightarrow> string \<Rightarrow> string \<Rightarrow> spf_result option \<Rightarrow> bool" where
  "spf_aligned psl r header_domain envelope_domain spf =
     (spf = Some SpfPass \<and> envelope_domain \<noteq> [] \<and>
      domains_aligned psl envelope_domain header_domain (dr_spf_strict r))"

definition dkim_aligned :: "psl \<Rightarrow> dmarc_record \<Rightarrow> string \<Rightarrow> dkim_verdict \<Rightarrow> bool" where
  "dkim_aligned psl r header_domain dkim =
     (case dkim of
        DkPass domain _ \<Rightarrow> domains_aligned psl domain header_domain (dr_dkim_strict r)
      | _ \<Rightarrow> False)"

definition effective_policy :: "dmarc_record \<Rightarrow> bool \<Rightarrow> dmarc_policy" where
  "effective_policy r is_subdomain =
     (if is_subdomain then (case dr_subdomain_policy r of Some p \<Rightarrow> p | None \<Rightarrow> dr_policy r)
      else dr_policy r)"

definition dmarc_evaluate ::
    "psl \<Rightarrow> 'w txt_resolver \<Rightarrow> string \<Rightarrow> string \<Rightarrow> spf_result option \<Rightarrow> dkim_verdict \<Rightarrow> 'w \<Rightarrow> dmarc_verdict \<times> 'w" where
  "dmarc_evaluate psl resolver header_domain envelope_domain spf dkim w =
     (case discover psl resolver header_domain w of
        (DiscNone, w') \<Rightarrow> (DmarcNoPolicy, w')
      | (DiscPermError, w') \<Rightarrow> (DmarcPermError, w')
      | (DiscFound r is_subdomain, w') \<Rightarrow>
          (if spf_aligned psl r header_domain envelope_domain spf \<or> dkim_aligned psl r header_domain dkim
           then DmarcPass
           else DmarcFail (to_disposition (effective_policy r is_subdomain)), w'))"

section \<open>Records\<close>

text \<open>A record in the form domains publish it.\<close>

fun policy_text :: "dmarc_policy \<Rightarrow> string" where
  "policy_text DpNone = ''none''"
| "policy_text DpQuarantine = ''quarantine''"
| "policy_text DpReject = ''reject''"

definition mode_text :: "bool \<Rightarrow> string" where
  "mode_text strict = (if strict then ''s'' else ''r'')"

definition record_text :: "dmarc_record \<Rightarrow> string" where
  "record_text r =
     ''v=DMARC1; p='' @ policy_text (dr_policy r) @
     (case dr_subdomain_policy r of Some p \<Rightarrow> ''; sp='' @ policy_text p | None \<Rightarrow> []) @
     ''; adkim='' @ mode_text (dr_dkim_strict r) @ ''; aspf='' @ mode_text (dr_spf_strict r) @
     ''; pct='' @ dec (unat (dr_pct r))"

lemma record_tag_text:
  assumes "list_all tag_char k" "CHR ''='' \<notin> set k" "k \<noteq> []" "list_all tag_char v"
  shows "record_tag (tag_text k v) st = record_field k v st"
    "record_tag (k @ CHR ''='' # v) st = record_field k v st"
proof -
  have eq: "tag_char (CHR ''='')" by (simp add: tag_char_def)
  then have kv: "list_all tag_char (k @ CHR ''='' # v)" using assms by simp
  have t: "trim (tag_text k v) = k @ CHR ''='' # v" "trim (k @ CHR ''='' # v) = k @ CHR ''='' # v"
    using trim_space [OF kv] trim_tag [OF kv] by (simp_all add: tag_text_def)
  show "record_tag (tag_text k v) st = record_field k v st"
    "record_tag (k @ CHR ''='' # v) st = record_field k v st"
    by (simp_all add: record_tag_def t Let_def split_once_first [OF assms(2)] trim_tag assms)
qed

lemma record_values_tag: "list_all tag_char (policy_text p)" "list_all tag_char (mode_text b)"
  by (cases p; simp add: tag_char_def) (simp add: mode_text_def tag_char_def)

lemma parse_policy_text: "parse_policy_value (policy_text p) = Inr p"
  by (cases p) (simp_all add: parse_policy_value_def)

lemma parse_mode_text: "parse_mode (mode_text b) = Inr b"
  by (simp add: parse_mode_def mode_text_def)

lemma parse_u8_dec: "parse_u8 (dec (unat (n :: u8))) = Some n"
proof -
  have "\<not> starts_with ''+'' (dec (unat n))"
    using dec_digits [of "unat n"] by (cases "dec (unat n)") (auto simp: starts_with_def is_ascii_digit_def)
  then show ?thesis
    using dec_digits [of "unat n"] unat_u8_le [of n]
    by (simp add: parse_u8_def parse_uint_def digits_value_dec Let_def)
qed

lemma record_tags_text:
  assumes "list_all tag_char k" "CHR ''='' \<notin> set k" "k \<noteq> []" "list_all tag_char v"
  shows "record_tags (split_on (CHR '';'') (tag_text k v @ CHR '';'' # s)) st
      = bindE (record_field k v st) (record_tags (split_on (CHR '';'') s))"
    "record_tags (split_on (CHR '';'') (tag_text k v)) st = record_field k v st"
    "record_tags (split_on (CHR '';'') (k @ CHR ''='' # v @ CHR '';'' # s)) st
      = bindE (record_field k v st) (record_tags (split_on (CHR '';'') s))"
proof -
  have n: "CHR '';'' \<notin> set (tag_text k v)" by (rule tag_text_no_sep [OF assms(1,4)])
  then have n': "CHR '';'' \<notin> set (k @ CHR ''='' # v)" by (simp add: tag_text_def)
  have b: "bindE r (record_tags []) = r" for r by (cases r) simp_all
  show "record_tags (split_on (CHR '';'') (tag_text k v @ CHR '';'' # s)) st
      = bindE (record_field k v st) (record_tags (split_on (CHR '';'') s))"
    "record_tags (split_on (CHR '';'') (tag_text k v)) st = record_field k v st"
    using n by (simp_all add: split_on_append_sep split_on_no_sep record_tag_text [OF assms] b)
  show "record_tags (split_on (CHR '';'') (k @ CHR ''='' # v @ CHR '';'' # s)) st
      = bindE (record_field k v st) (record_tags (split_on (CHR '';'') s))"
    using n' split_on_append_sep [of "CHR '';''" "k @ CHR ''='' # v" s] record_tag_text(2) [OF assms]
    by (simp add: split_on_no_sep)
qed

lemma record_text_tags:
  "record_text r = ''v'' @ CHR ''='' # ''DMARC1'' @ CHR '';'' # tag_text ''p'' (policy_text (dr_policy r)) @ CHR '';'' #
     (case dr_subdomain_policy r of Some p \<Rightarrow> tag_text ''sp'' (policy_text p) @ '';'' | None \<Rightarrow> []) @
     tag_text ''adkim'' (mode_text (dr_dkim_strict r)) @ CHR '';'' # tag_text ''aspf'' (mode_text (dr_spf_strict r)) @
     CHR '';'' # tag_text ''pct'' (dec (unat (dr_pct r)))"
  by (simp add: record_text_def tag_text_def split: option.split)

lemma record_keys:
  "list_all tag_char ''v''" "list_all tag_char ''p''" "list_all tag_char ''sp''" "list_all tag_char ''adkim''"
  "list_all tag_char ''aspf''" "list_all tag_char ''pct''" "list_all tag_char ''DMARC1''"
  by (simp_all add: tag_char_def)

lemma record_field_text:
  "record_field ''v'' ''DMARC1'' st = Inr (st\<lparr>rs_saw_version := True\<rparr>)"
  "record_field ''p'' (policy_text p) st = Inr (st\<lparr>rs_policy := Some p\<rparr>)"
  "record_field ''sp'' (policy_text p) st = Inr (st\<lparr>rs_sp := Some p\<rparr>)"
  "record_field ''adkim'' (mode_text b) st = Inr (st\<lparr>rs_adkim_strict := b\<rparr>)"
  "record_field ''aspf'' (mode_text b) st = Inr (st\<lparr>rs_aspf_strict := b\<rparr>)"
  "record_field ''pct'' (dec (unat n)) st = (if n \<le> 100 then Inr (st\<lparr>rs_pct := n\<rparr>) else Inl ())"
  by (simp_all add: record_field_def parse_policy_text parse_mode_text parse_u8_dec not_le)

lemmas record_text_steps =
  record_tags_text(3) [OF record_keys(1) _ _ record_keys(7)]
  record_tags_text(1) [OF record_keys(2) _ _ record_values_tag(1)]
  record_tags_text(1) [OF record_keys(3) _ _ record_values_tag(1)]
  record_tags_text(1) [OF record_keys(4) _ _ record_values_tag(2)]
  record_tags_text(1) [OF record_keys(5) _ _ record_values_tag(2)]
  record_tags_text(2) [OF record_keys(6) _ _ dec_tag]

lemma parse_record_text:
  "dmarc_parse_record (record_text r) = (if dr_pct r \<le> 100 then Inr r else Inl ())"
proof -
  define rest where "rest = tag_text ''adkim'' (mode_text (dr_dkim_strict r)) @ CHR '';'' #
    tag_text ''aspf'' (mode_text (dr_spf_strict r)) @ CHR '';'' # tag_text ''pct'' (dec (unat (dr_pct r)))"
  have rest: "record_tags (split_on (CHR '';'') rest) st =
      (if dr_pct r \<le> 100
       then Inr (st\<lparr>rs_adkim_strict := dr_dkim_strict r, rs_aspf_strict := dr_spf_strict r, rs_pct := dr_pct r\<rparr>)
       else Inl ())" for st
    unfolding rest_def by (simp add: record_text_steps record_field_text)
  let ?sp = "case dr_subdomain_policy r of Some p \<Rightarrow> tag_text ''sp'' (policy_text p) @ CHR '';'' # rest | None \<Rightarrow> rest"
  have sp: "record_tags (split_on (CHR '';'') ?sp) st =
      record_tags (split_on (CHR '';'') rest) (st\<lparr>rs_sp := (case dr_subdomain_policy r of Some p \<Rightarrow> Some p | None \<Rightarrow> rs_sp st)\<rparr>)" for st
    by (cases "dr_subdomain_policy r") (simp_all add: record_text_steps(3) record_field_text)
  have "record_text r = ''v'' @ CHR ''='' # ''DMARC1'' @ CHR '';'' # tag_text ''p'' (policy_text (dr_policy r)) @ CHR '';'' # ?sp"
    unfolding record_text_tags rest_def by (simp split: option.split)
  then have "record_tags (split_on (CHR '';'') (record_text r)) record_start =
      record_tags (split_on (CHR '';'') ?sp) (record_start\<lparr>rs_saw_version := True, rs_policy := Some (dr_policy r)\<rparr>)"
    using record_tag_text(2) [OF record_keys(1) _ _ record_keys(7), of record_start]
    by (simp add: record_text_steps(2) record_field_text)
  then show ?thesis
    unfolding dmarc_parse_record_def sp rest
    by (cases "dr_subdomain_policy r") (auto simp: record_start_def)
qed

text \<open>Parsing a published record gives back every policy it states: for each record whose percentage is at
  most 100 the parser applied to its text returns exactly this record, and a larger percentage is an error.
\<close>

theorem dmarc_record_roundtrip:
  "dmarc_parse_record (record_text r) = (if dr_pct r \<le> 100 then Inr r else Inl ())"
  by (rule parse_record_text)

text \<open>A record in this form is recognized as one.\<close>

lemma record_text_is_dmarc1: "is_dmarc1_record (record_text r)"
proof -
  let ?v = "''v=DMARC1''"
  obtain s where s: "record_text r = ?v @ CHR '';'' # s" by (simp add: record_text_def)
  have a: "list_all tag_char x \<Longrightarrow> list_all (\<lambda>c. byte_of c < 128) x" for x
    by (auto simp: list_all_iff dest: tag_char_not)
  have "list_all (\<lambda>c. byte_of c < 128) (record_text r)"
    by (simp add: record_text_def a record_values_tag dec_tag split: option.split)
  moreover have "33 \<le> byte_of (last (record_text r))"
  proof -
    have d: "dec n \<noteq> []" "is_ascii_digit (last (dec n))" for n
      using dec_digits [of n] by (auto simp: list_all_iff)
    then have "last (record_text r) = last (dec (unat (dr_pct r)))"
      unfolding record_text_def by (simp only: last_appendR append_is_Nil_conv not_Cons_self2 simp_thms)
    with d(2) [of "unat (dr_pct r)"] show ?thesis by (simp add: is_ascii_digit_def)
  qed
  ultimately have "trim (record_text r) = record_text r"
    by (intro trim_inner) (simp_all add: s)
  then show ?thesis by (simp add: is_dmarc1_record_def s starts_with_def Let_def)
qed

section \<open>Alignment\<close>

text \<open>An authenticated identifier: a domain that SPF or DKIM has vouched for.\<close>

definition authenticated :: "string \<Rightarrow> spf_result option \<Rightarrow> dkim_verdict \<Rightarrow> string \<Rightarrow> bool" where
  "authenticated envelope_domain spf dkim d \<longleftrightarrow>
     spf = Some SpfPass \<and> d = envelope_domain \<and> d \<noteq> [] \<or> (\<exists>selector. dkim = DkPass d selector)"

text \<open>Two domains of one owner: the same name, or the same registrable domain.\<close>

definition same_owner :: "psl \<Rightarrow> string \<Rightarrow> string \<Rightarrow> bool" where
  "same_owner psl a b \<longleftrightarrow>
     eq_ignore_ascii_case a b \<or>
     (\<exists>x y. psl (dmarc_normalize a) = Some x \<and> psl (dmarc_normalize b) = Some y \<and> eq_ignore_ascii_case x y)"

lemma aligned_same_owner: "domains_aligned psl a b strict \<Longrightarrow> same_owner psl a b"
  by (auto simp: domains_aligned_def same_owner_def split: if_splits option.splits)

lemma dmarc_pass_authenticated:
  assumes "fst (dmarc_evaluate psl resolver header_domain envelope_domain spf dkim w) = DmarcPass"
  shows "\<exists>d. authenticated envelope_domain spf dkim d \<and> same_owner psl d header_domain"
  using assms
  by (auto simp: dmarc_evaluate_def spf_aligned_def dkim_aligned_def authenticated_def
      split: discovery.splits prod.splits if_splits dkim_verdict.splits dest: aligned_same_owner)

end
