(* ===== verification/Gw_Attest.thy ===== *)
theory Gw_Attest
  imports Descriptor Byte_Io
begin

text \<open>
  Gateway attestations (\<open>gateway/src/attestation.rs\<close>): the length-prefixed body a gateway signs for a
  wrapped message, and the checks a recipient makes. Keys and signatures are the parameter \<open>identity_api\<close>;
  a content id is its bytes.
\<close>

definition ATTESTATION_DS :: bytes where
  "ATTESTATION_DS = as_bytes ''DMTAP-v0/gateway-attestation'' @ [0]"

record 'k attestation_key =
  ak_domain :: string
  ak_selector :: string
  ak_key :: 'k

definition attestation_key_sharing :: "string \<Rightarrow> string \<Rightarrow> 'k \<Rightarrow> 'k attestation_key" where
  "attestation_key_sharing domain selector key = \<lparr>ak_domain = domain, ak_selector = selector, ak_key = key\<rparr>"

definition ak_public :: "'k identity_api \<Rightarrow> 'k attestation_key \<Rightarrow> bytes" where
  "ak_public ia key = ia_public ia (ak_key key)"

definition ak_sign_ds :: "'k identity_api \<Rightarrow> 'k attestation_key \<Rightarrow> bytes \<Rightarrow> bytes \<Rightarrow> bytes" where
  "ak_sign_ds ia key ds preimage = ia_sign ia (ak_key key) ds preimage"

record attestation =
  at_domain :: string
  at_selector :: string
  at_gateway_key :: bytes
  at_received_at :: u64
  at_mail_from :: string
  at_rcpt_to :: string
  at_mote_id :: bytes
  at_sig :: bytes

definition push_field :: "bytes \<Rightarrow> bytes" where
  "push_field b = be64 (of_nat (length b)) @ b"

definition attestation_signing_body :: "attestation \<Rightarrow> bytes" where
  "attestation_signing_body a =
     push_field (as_bytes (at_domain a)) @ push_field (as_bytes (at_selector a)) @
     push_field (at_gateway_key a) @ be64 (at_received_at a) @
     push_field (as_bytes (at_mail_from a)) @ push_field (as_bytes (at_rcpt_to a)) @
     push_field (at_mote_id a)"

definition attest :: "'k identity_api \<Rightarrow> 'k attestation_key \<Rightarrow> bytes \<Rightarrow> string \<Rightarrow> string \<Rightarrow> u64 \<Rightarrow> attestation" where
  "attest ia key mote_id mail_from rcpt_to received_at =
     (let att = \<lparr>at_domain = ak_domain key, at_selector = ak_selector key, at_gateway_key = ak_public ia key,
                 at_received_at = received_at, at_mail_from = mail_from, at_rcpt_to = rcpt_to,
                 at_mote_id = mote_id, at_sig = []\<rparr> in
      att\<lparr>at_sig := ak_sign_ds ia key ATTESTATION_DS (attestation_signing_body att)\<rparr>)"

datatype attestation_error =
  WrongDomain | NoPublishedKey | KeyMismatch | MoteMismatch | BadSignature string

definition attestation_verify ::
    "'k identity_api \<Rightarrow> attestation \<Rightarrow> string \<Rightarrow> bytes option \<Rightarrow> bytes \<Rightarrow> attestation_error + unit" where
  "attestation_verify ia att expected_domain published_key wrapped_mote_id =
     (if at_domain att \<noteq> expected_domain then Inl WrongDomain
      else if at_mote_id att \<noteq> wrapped_mote_id then Inl MoteMismatch
      else bindE (ok_or NoPublishedKey published_key) (\<lambda>published.
        if published \<noteq> at_gateway_key att then Inl KeyMismatch
        else map_err BadSignature (ia_verify ia published ATTESTATION_DS (attestation_signing_body att) (at_sig att))))"

type_synonym static_gw_keys = "(string \<times> string \<times> bytes) list"

definition gw_publish :: "static_gw_keys \<Rightarrow> string \<Rightarrow> string \<Rightarrow> bytes \<Rightarrow> static_gw_keys" where
  "gw_publish entries domain selector key = entries @ [(domain, selector, key)]"

definition resolve_gw_key :: "static_gw_keys \<Rightarrow> string \<Rightarrow> string \<Rightarrow> bytes option" where
  "resolve_gw_key entries domain selector =
     map_option (\<lambda>(d, s, k). k) (find (\<lambda>(d, s, k). d = domain \<and> s = selector) entries)"

section \<open>The signed body determines the attestation\<close>

text \<open>Every field is shorter than the length prefix can count.\<close>

definition fits :: "bytes \<Rightarrow> bool" where
  "fits b = (length b < 2 ^ 64)"

definition attestation_fits :: "attestation \<Rightarrow> bool" where
  "attestation_fits a =
     list_all fits [as_bytes (at_domain a), as_bytes (at_selector a), at_gateway_key a, as_bytes (at_mail_from a),
       as_bytes (at_rcpt_to a), at_mote_id a]"

lemma be64_inj: "be64 a = be64 b \<Longrightarrow> a = b"
  using of_be64_be64 by metis

lemma be64_append_inj: "be64 a @ x = be64 b @ y \<Longrightarrow> a = b \<and> x = y"
  using be64_inj by (simp add: append_eq_append_conv)

lemma of_nat_u64_inj:
  assumes "a < 2 ^ 64" and "b < 2 ^ 64" and "(of_nat a :: u64) = of_nat b"
  shows "a = b"
proof (rule of_nat_word_inj [where 'a = 64])
  show "a < 2 ^ LENGTH(64)" using assms(1) by simp
  show "b < 2 ^ LENGTH(64)" using assms(2) by simp
qed (rule assms(3))

lemma push_field_inj:
  assumes "push_field a @ x = push_field b @ y" and "fits a" and "fits b"
  shows "a = b \<and> x = y"
proof -
  have "(of_nat (length a) :: u64) = of_nat (length b)" "a @ x = b @ y"
    using be64_append_inj [of _ "a @ x" _ "b @ y"] assms(1) by (auto simp: push_field_def)
  moreover from this(1) have "length a = length b"
    using assms(2,3) of_nat_u64_inj by (simp add: fits_def)
  ultimately show ?thesis by simp
qed

text \<open>C35: The signed body is unambiguous: two attestations with the same signed body agree in the domain, the
  selector, the gateway key, the time, both envelope addresses and the message id, so a signature over the
  body vouches for exactly one combination of them.
\<close>

theorem attestation_body_injective:
  assumes "attestation_signing_body a = attestation_signing_body b"
    and "attestation_fits a" and "attestation_fits b"
  shows "a\<lparr>at_sig := s\<rparr> = b\<lparr>at_sig := s\<rparr>"
proof -
  note body = assms(1) [unfolded attestation_signing_body_def]
  have fits: "fits (as_bytes (at_domain a))" "fits (as_bytes (at_selector a))" "fits (at_gateway_key a)"
    "fits (as_bytes (at_mail_from a))" "fits (as_bytes (at_rcpt_to a))" "fits (at_mote_id a)"
    "fits (as_bytes (at_domain b))" "fits (as_bytes (at_selector b))" "fits (at_gateway_key b)"
    "fits (as_bytes (at_mail_from b))" "fits (as_bytes (at_rcpt_to b))" "fits (at_mote_id b)"
    using assms(2,3) by (simp_all add: attestation_fits_def)
  note s1 = push_field_inj [OF body fits(1,7)]
  note s2 = push_field_inj [OF s1 [THEN conjunct2] fits(2,8)]
  note s3 = push_field_inj [OF s2 [THEN conjunct2] fits(3,9)]
  note s4 = be64_append_inj [OF s3 [THEN conjunct2]]
  note s5 = push_field_inj [OF s4 [THEN conjunct2] fits(4,10)]
  note s6 = push_field_inj [OF s5 [THEN conjunct2] fits(5,11)]
  have s7: "at_mote_id a = at_mote_id b"
    using push_field_inj [of "at_mote_id a" "[]" "at_mote_id b" "[]"] s6 fits(6,12) by simp
  show ?thesis
    using s1 s2 s3 s4 s5 s6 s7 by (cases a, cases b) simp
qed

lemma attestation_body_injective_witness:
  "(attest tag_identity (attestation_key_sharing ''d'' ''s'' 7) [1] ''m'' ''r'' 5)\<lparr>at_sig := []\<rparr> =
   \<lparr>at_domain = ''d'', at_selector = ''s'', at_gateway_key = [7], at_received_at = 5, at_mail_from = ''m'',
    at_rcpt_to = ''r'', at_mote_id = [1], at_sig = []\<rparr>"
  by (rule attestation_body_injective [where s = "[]" and
      b = "\<lparr>at_domain = ''d'', at_selector = ''s'', at_gateway_key = [7], at_received_at = 5, at_mail_from = ''m'',
        at_rcpt_to = ''r'', at_mote_id = [1], at_sig = []\<rparr>", simplified])
    (simp_all add: attest_def attestation_key_sharing_def ak_public_def tag_identity_def
      attestation_signing_body_def attestation_fits_def fits_def)

lemma attest_verifies:
  "identity_laws ia \<Longrightarrow>
     attestation_verify ia (attest ia key mote_id mail_from rcpt_to now) (ak_domain key) (Some (ak_public ia key)) mote_id
       = Inr ()"
  by (simp add: attestation_verify_def attest_def Let_def ak_sign_ds_def ak_public_def identity_verify_sign
      attestation_signing_body_def)

end
