(* ===== verification/Gw_Provenance.thy ===== *)
theory Gw_Provenance
  imports Gw_Attest Gw_Admission
begin

text \<open>
  Provenance (\<open>gateway/src/provenance.rs\<close>): gateway attestations on the wire, the provenance record of a
  message, and the bridge that authorizes, signs and meters one hop. \<open>ContentId::of\<close> is the parameter \<open>cid\<close>;
  a CBOR error keeps its message.
\<close>

definition GATEWAY_ATTEST_DS :: bytes where
  "GATEWAY_ATTEST_DS = as_bytes ''DMTAP-v0/gateway-attest'' @ [0]"

definition DISC_LEGACY_BRIDGE :: u8 where
  "DISC_LEGACY_BRIDGE = 1"

record gateway_attestation =
  ga_disc :: u8
  ga_domain :: string
  ga_selector :: string
  ga_recv_at :: u64
  ga_msg_digest :: bytes
  ga_legacy_from :: "string option"
  ga_seq :: "u8 option"
  ga_sig :: bytes

definition opt_field :: "u64 \<Rightarrow> ('a \<Rightarrow> cv) \<Rightarrow> 'a option \<Rightarrow> (u64 \<times> cv) list" where
  "opt_field k c x = (case x of Some a \<Rightarrow> [(k, c a)] | None \<Rightarrow> [])"

definition ga_pairs :: "gateway_attestation \<Rightarrow> (u64 \<times> cv) list" where
  "ga_pairs a =
     [(0, CvU64 (ucast (ga_disc a))), (1, CvText (ga_domain a)), (2, CvText (ga_selector a)),
      (3, CvU64 (ga_recv_at a)), (4, CvBytes (ga_msg_digest a))] @
     opt_field 5 CvText (ga_legacy_from a) @ opt_field 6 (\<lambda>s. CvU64 (ucast s)) (ga_seq a)"

definition ga_to_cv :: "gateway_attestation \<Rightarrow> bool \<Rightarrow> cv" where
  "ga_to_cv a include_sig = CvMap (ga_pairs a @ (if include_sig then [(7, CvBytes (ga_sig a))] else []))"

definition ga_det_cbor :: "'f cbor_api \<Rightarrow> gateway_attestation \<Rightarrow> bytes" where
  "ga_det_cbor api a = cb_encode api (ga_to_cv a True)"

definition ga_signing_body :: "'f cbor_api \<Rightarrow> gateway_attestation \<Rightarrow> bytes" where
  "ga_signing_body api a = cb_encode api (ga_to_cv a False)"

definition ga_sign ::
    "'f cbor_api \<Rightarrow> 'k identity_api \<Rightarrow> (bytes \<Rightarrow> bytes) \<Rightarrow> 'k attestation_key \<Rightarrow> bytes \<Rightarrow> string option \<Rightarrow> u64 \<Rightarrow> u8
      \<Rightarrow> gateway_attestation" where
  "ga_sign api ia cid att_key rfc5322 legacy_from recv_at seq =
     (let att = \<lparr>ga_disc = DISC_LEGACY_BRIDGE, ga_domain = ak_domain att_key, ga_selector = ak_selector att_key,
                 ga_recv_at = recv_at, ga_msg_digest = cid rfc5322, ga_legacy_from = legacy_from,
                 ga_seq = (if seq = 0 then None else Some seq), ga_sig = []\<rparr> in
      att\<lparr>ga_sig := ak_sign_ds ia att_key GATEWAY_ATTEST_DS (ga_signing_body api att)\<rparr>)"

text \<open>\<open>acc(f.req(k)?)?\<close> and \<open>f.take(k).map(acc).transpose()?\<close>.\<close>

definition req_as :: "'f cbor_api \<Rightarrow> (cv \<Rightarrow> cbor_error + 'v) \<Rightarrow> 'f \<Rightarrow> u64 \<Rightarrow> cbor_error + ('v \<times> 'f)" where
  "req_as api acc f k = bindE (cb_req api f k) (\<lambda>(v, f'). bindE (acc v) (\<lambda>x. Inr (x, f')))"

definition take_as :: "'f cbor_api \<Rightarrow> (cv \<Rightarrow> cbor_error + 'v) \<Rightarrow> 'f \<Rightarrow> u64 \<Rightarrow> cbor_error + ('v option \<times> 'f)" where
  "take_as api acc f k =
     (case cb_take api f k of
        (None, f') \<Rightarrow> Inr (None, f')
      | (Some v, f') \<Rightarrow> bindE (acc v) (\<lambda>x. Inr (Some x, f')))"

definition ga_from_cv :: "'f cbor_api \<Rightarrow> cv \<Rightarrow> cbor_error + gateway_attestation" where
  "ga_from_cv api v =
     bindE (cb_fields api v) (\<lambda>f0.
     bindE (req_as api (cb_as_u8 api) f0 0) (\<lambda>(disc, f1).
     bindE (req_as api (cb_as_text api) f1 1) (\<lambda>(domain, f2).
     bindE (req_as api (cb_as_text api) f2 2) (\<lambda>(selector, f3).
     bindE (req_as api (cb_as_u64 api) f3 3) (\<lambda>(recv_at, f4).
     bindE (req_as api (cb_as_bytes api) f4 4) (\<lambda>(digest, f5).
     bindE (take_as api (cb_as_text api) f5 5) (\<lambda>(legacy_from, f6).
     bindE (take_as api (cb_as_u8 api) f6 6) (\<lambda>(seq, f7).
     bindE (req_as api (cb_as_bytes api) f7 7) (\<lambda>(sig, f8).
     bindE (cb_deny_unknown api f8) (\<lambda>_.
       Inr \<lparr>ga_disc = disc, ga_domain = domain, ga_selector = selector, ga_recv_at = recv_at,
             ga_msg_digest = digest, ga_legacy_from = legacy_from, ga_seq = seq, ga_sig = sig\<rparr>))))))))))"

definition ga_from_det_cbor :: "'f cbor_api \<Rightarrow> bytes \<Rightarrow> cbor_error + gateway_attestation" where
  "ga_from_det_cbor api bs = bindE (cb_decode api bs) (ga_from_cv api)"

datatype provenance_error = PInvalid | PKeyUntrusted

fun provenance_error_code :: "provenance_error \<Rightarrow> u16" where
  "provenance_error_code PInvalid = 0x0601"
| "provenance_error_code PKeyUntrusted = 0x0602"

definition ga_verify ::
    "'f cbor_api \<Rightarrow> 'k identity_api \<Rightarrow> (bytes \<Rightarrow> bytes) \<Rightarrow> gateway_attestation \<Rightarrow> string \<Rightarrow> bytes option \<Rightarrow> bytes
      \<Rightarrow> provenance_error + unit" where
  "ga_verify api ia cid a expected_domain published_key rfc5322 =
     (if ga_disc a \<noteq> DISC_LEGACY_BRIDGE then Inl PInvalid
      else if \<not> eq_ignore_ascii_case (ga_domain a) expected_domain then Inl PKeyUntrusted
      else if ga_msg_digest a \<noteq> cid rfc5322 then Inl PInvalid
      else bindE (ok_or PKeyUntrusted published_key) (\<lambda>key.
        map_err (\<lambda>_. PInvalid) (ia_verify ia key GATEWAY_ATTEST_DS (ga_signing_body api a) (ga_sig a))))"

section \<open>Provenance records\<close>

datatype tier = Private | Fast

fun tier_as_u8 :: "tier \<Rightarrow> u8" where
  "tier_as_u8 Private = 1"
| "tier_as_u8 Fast = 2"

definition tier_of :: "u8 \<Rightarrow> tier option" where
  "tier_of b = (if b = 1 then Some Private else if b = 2 then Some Fast else None)"

datatype profile = NotApplicable | Standard | HighSecurity

fun profile_as_u8 :: "profile \<Rightarrow> u8" where
  "profile_as_u8 NotApplicable = 0"
| "profile_as_u8 Standard = 1"
| "profile_as_u8 HighSecurity = 2"

definition profile_of :: "u8 \<Rightarrow> profile option" where
  "profile_of b =
     (if b = 0 then Some NotApplicable else if b = 1 then Some Standard
      else if b = 2 then Some HighSecurity else None)"

datatype origin = PureMesh | GatewayTouched

fun origin_as_u8 :: "origin \<Rightarrow> u8" where
  "origin_as_u8 PureMesh = 0"
| "origin_as_u8 GatewayTouched = 1"

definition unknown_discriminant :: "u8 \<Rightarrow> cbor_error" where
  "unknown_discriminant b = ''unknown discriminant '' @ dec (unat b)"

definition tier_from_u8 :: "u8 \<Rightarrow> cbor_error + tier" where
  "tier_from_u8 b = ok_or (unknown_discriminant b) (tier_of b)"

definition profile_from_u8 :: "u8 \<Rightarrow> cbor_error + profile" where
  "profile_from_u8 b = ok_or (unknown_discriminant b) (profile_of b)"

record provenance_record =
  pr_tier :: tier
  pr_profile :: profile
  pr_origin :: origin
  pr_gateways :: "gateway_attestation list"
  pr_min_hops :: "u8 option"
  pr_observed_at :: "u64 option"

definition assemble :: "tier \<Rightarrow> profile \<Rightarrow> u8 option \<Rightarrow> u64 option \<Rightarrow> gateway_attestation list \<Rightarrow> provenance_record" where
  "assemble tier profile min_hops observed_at gateways =
     \<lparr>pr_tier = tier, pr_profile = profile,
      pr_origin = (if gateways = [] then PureMesh else GatewayTouched),
      pr_gateways = gateways, pr_min_hops = min_hops, pr_observed_at = observed_at\<rparr>"

definition is_pure_mesh :: "provenance_record \<Rightarrow> bool" where
  "is_pure_mesh r = (pr_origin r = PureMesh)"

definition gateway_hops :: "provenance_record \<Rightarrow> nat" where
  "gateway_hops r = length (pr_gateways r)"

definition pr_to_cv :: "provenance_record \<Rightarrow> cv" where
  "pr_to_cv r = CvMap (
     [(1, CvU64 (ucast (tier_as_u8 (pr_tier r)))), (2, CvU64 (ucast (profile_as_u8 (pr_profile r)))),
      (3, CvU64 (ucast (origin_as_u8 (pr_origin r)))),
      (4, CvArray (map (\<lambda>g. ga_to_cv g True) (pr_gateways r)))] @
     opt_field 5 (\<lambda>h. CvU64 (ucast h)) (pr_min_hops r) @ opt_field 6 CvU64 (pr_observed_at r))"

definition pr_det_cbor :: "'f cbor_api \<Rightarrow> provenance_record \<Rightarrow> bytes" where
  "pr_det_cbor api r = cb_encode api (pr_to_cv r)"

fun mapE :: "('a \<Rightarrow> 'e + 'b) \<Rightarrow> 'a list \<Rightarrow> 'e + 'b list" where
  "mapE f [] = Inr []"
| "mapE f (x # xs) = bindE (f x) (\<lambda>y. bindE (mapE f xs) (\<lambda>ys. Inr (y # ys)))"

definition origin_of :: "u8 \<Rightarrow> gateway_attestation list \<Rightarrow> cbor_error + origin" where
  "origin_of b gateways =
     (if b = 0 \<and> gateways = [] then Inr PureMesh
      else if b = 1 \<and> gateways \<noteq> [] then Inr GatewayTouched
      else Inl (unknown_discriminant b))"

definition pr_from_det_cbor :: "'f cbor_api \<Rightarrow> bytes \<Rightarrow> cbor_error + provenance_record" where
  "pr_from_det_cbor api bs =
     bindE (cb_decode api bs) (\<lambda>v.
     bindE (cb_fields api v) (\<lambda>f0.
     bindE (req_as api (cb_as_u8 api) f0 1) (\<lambda>(t, f1).
     bindE (tier_from_u8 t) (\<lambda>tier.
     bindE (req_as api (cb_as_u8 api) f1 2) (\<lambda>(p, f2).
     bindE (profile_from_u8 p) (\<lambda>profile.
     bindE (req_as api (cb_as_u8 api) f2 3) (\<lambda>(origin_byte, f3).
     bindE (req_as api (cb_as_array api) f3 4) (\<lambda>(gs, f4).
     bindE (mapE (ga_from_cv api) gs) (\<lambda>gateways.
     bindE (take_as api (cb_as_u8 api) f4 5) (\<lambda>(min_hops, f5).
     bindE (take_as api (cb_as_u64 api) f5 6) (\<lambda>(observed_at, f6).
     bindE (cb_deny_unknown api f6) (\<lambda>_.
     bindE (origin_of origin_byte gateways) (\<lambda>origin.
       Inr \<lparr>pr_tier = tier, pr_profile = profile, pr_origin = origin, pr_gateways = gateways,
             pr_min_hops = min_hops, pr_observed_at = observed_at\<rparr>)))))))))))))"

section \<open>The bridge\<close>

type_synonym gateway_authz = "bridge_direction \<Rightarrow> string \<Rightarrow> authz_decision"

definition static_allow :: "(string \<times> string) list \<Rightarrow> string \<Rightarrow> string \<Rightarrow> (string \<times> string) list" where
  "static_allow entries domain account = entries @ [(domain, account)]"

definition static_authorize :: "(string \<times> string) list \<Rightarrow> gateway_authz" where
  "static_authorize entries direction domain =
     (case find (\<lambda>(d, _). eq_ignore_ascii_case d domain) entries of
        Some (_, account) \<Rightarrow> AzAllowed account
      | None \<Rightarrow> AzDenied (''domain '' @ domain @ '' not authorized to relay through this gateway''))"

text \<open>A meter is its \<open>record\<close> on the state \<open>'m\<close>.\<close>

type_synonym 'm gateway_meter = "meter_event \<Rightarrow> 'm \<Rightarrow> 'm"

definition counting_record :: "meter_event list gateway_meter" where
  "counting_record event events = events @ [event]"

definition null_record :: "'m gateway_meter" where
  "null_record event m = m"

definition bridge ::
    "'f cbor_api \<Rightarrow> 'k identity_api \<Rightarrow> (bytes \<Rightarrow> bytes) \<Rightarrow> 'k attestation_key \<Rightarrow> gateway_authz \<Rightarrow> 'm gateway_meter
      \<Rightarrow> bridge_direction \<Rightarrow> string \<Rightarrow> bytes \<Rightarrow> string option \<Rightarrow> u64 \<Rightarrow> gateway_attestation list \<Rightarrow> 'm
      \<Rightarrow> (string + gateway_attestation) \<times> 'm" where
  "bridge api ia cid att_key authz meter direction self_host_domain rfc5322 legacy_from recv_at prior m =
     (case authz direction self_host_domain of
        AzDenied reason \<Rightarrow> (Inl reason, m)
      | AzAllowed account \<Rightarrow>
          let seq = of_nat (length prior) :: u8;
              att = ga_sign api ia cid att_key rfc5322 legacy_from recv_at seq in
          (Inr att, meter \<lparr>me_direction = direction, me_account = account, me_domain = self_host_domain,
                           me_msg_digest = ga_msg_digest att, me_at = recv_at\<rparr> m))"

definition chain_append :: "gateway_attestation list \<Rightarrow> gateway_attestation \<Rightarrow> gateway_attestation list" where
  "chain_append prior hop = prior @ [hop]"

section \<open>Wire round trip\<close>

interpretation tier_wire: wire_codec tier_as_u8 tier_of
  by unfold_locales (case_tac x, auto simp: tier_of_def split: if_splits)

interpretation profile_wire: wire_codec profile_as_u8 profile_of
  by unfold_locales (case_tac x, auto simp: profile_of_def split: if_splits)

lemma req_as_ok:
  assumes "cbor_laws api" "map_of (cb_into_pairs api f) k = Some v" "acc v = Inr x"
  obtains f' where "req_as api acc f k = Inr (x, f')" "cb_into_pairs api f' = without_key k (cb_into_pairs api f)"
  using cbor_present [OF assms(1,2)] assms(3) that by (auto simp: req_as_def)

lemma take_as_ok:
  assumes "cbor_laws api" "map_of (cb_into_pairs api f) k = map_option c x" "\<And>y. acc (c y) = Inr y"
  obtains f' where "take_as api acc f k = Inr (x, f')" "cb_into_pairs api f' = without_key k (cb_into_pairs api f)"
proof (rule cbor_takeE [OF assms(1), of f k])
  fix f'
  assume "cb_take api f k = (map_of (cb_into_pairs api f) k, f')"
    "cb_into_pairs api f' = without_key k (cb_into_pairs api f)"
  with assms(2,3) show thesis by (intro that [of f']) (auto simp: take_as_def split: option.splits)
qed

lemma u8_as_u64:
  assumes "cbor_laws api"
  shows "cb_as_u8 api (CvU64 (ucast (b :: u8))) = Inr b"
proof -
  have u: "unat (ucast b :: u64) = unat b"
    by (simp add: unsigned_ucast_eq take_bit_nat_eq_self_iff order_le_less_trans [OF unat_u8_le])
  then have "(ucast b :: u64) < 256" using unat_u8_le [of b] by (simp add: word_less_nat_alt)
  moreover have "unat (ucast (ucast b :: u64) :: u8) = unat b"
    using unat_u8_le [of b] by (simp only: unsigned_ucast_eq [of "ucast b :: u64"] u) (simp add: take_bit_nat_eq_self_iff)
  then have "(ucast (ucast b :: u64) :: u8) = b" by (rule unsigned_word_eqI [where 'a = nat])
  ultimately show ?thesis using cbor_accessors(2) [OF assms, of "ucast b"] by simp
qed

lemma req_as_u8:
  assumes "cbor_laws api" "map_of (cb_into_pairs api f) k = Some (CvU64 (ucast (x :: u8)))"
  obtains f' where "req_as api (cb_as_u8 api) f k = Inr (x, f')" "cb_into_pairs api f' = without_key k (cb_into_pairs api f)"
  by (rule req_as_ok [where acc = "cb_as_u8 api", OF assms u8_as_u64 [OF assms(1)]])

lemma req_as_u64:
  assumes "cbor_laws api" "map_of (cb_into_pairs api f) k = Some (CvU64 x)"
  obtains f' where "req_as api (cb_as_u64 api) f k = Inr (x, f')" "cb_into_pairs api f' = without_key k (cb_into_pairs api f)"
  by (rule req_as_ok [where acc = "cb_as_u64 api", OF assms cbor_accessors(1) [OF assms(1)]])

lemma req_as_bytes:
  assumes "cbor_laws api" "map_of (cb_into_pairs api f) k = Some (CvBytes x)"
  obtains f' where "req_as api (cb_as_bytes api) f k = Inr (x, f')" "cb_into_pairs api f' = without_key k (cb_into_pairs api f)"
  by (rule req_as_ok [where acc = "cb_as_bytes api", OF assms cbor_accessors(3) [OF assms(1)]])

lemma req_as_text:
  assumes "cbor_laws api" "map_of (cb_into_pairs api f) k = Some (CvText x)"
  obtains f' where "req_as api (cb_as_text api) f k = Inr (x, f')" "cb_into_pairs api f' = without_key k (cb_into_pairs api f)"
  by (rule req_as_ok [where acc = "cb_as_text api", OF assms cbor_accessors(4) [OF assms(1)]])

lemma req_as_array:
  assumes "cbor_laws api" "map_of (cb_into_pairs api f) k = Some (CvArray x)"
  obtains f' where "req_as api (cb_as_array api) f k = Inr (x, f')" "cb_into_pairs api f' = without_key k (cb_into_pairs api f)"
  by (rule req_as_ok [where acc = "cb_as_array api", OF assms cbor_accessors(5) [OF assms(1)]])

lemma take_as_u8:
  assumes "cbor_laws api" "map_of (cb_into_pairs api f) k = map_option (\<lambda>x :: u8. CvU64 (ucast x)) x"
  obtains f' where "take_as api (cb_as_u8 api) f k = Inr (x, f')" "cb_into_pairs api f' = without_key k (cb_into_pairs api f)"
  by (rule take_as_ok [where acc = "cb_as_u8 api", OF assms u8_as_u64 [OF assms(1)]])

lemma take_as_u64:
  assumes "cbor_laws api" "map_of (cb_into_pairs api f) k = map_option (CvU64) x"
  obtains f' where "take_as api (cb_as_u64 api) f k = Inr (x, f')" "cb_into_pairs api f' = without_key k (cb_into_pairs api f)"
  by (rule take_as_ok [where acc = "cb_as_u64 api", OF assms cbor_accessors(1) [OF assms(1)]])

lemma take_as_text:
  assumes "cbor_laws api" "map_of (cb_into_pairs api f) k = map_option (CvText) x"
  obtains f' where "take_as api (cb_as_text api) f k = Inr (x, f')" "cb_into_pairs api f' = without_key k (cb_into_pairs api f)"
  by (rule take_as_ok [where acc = "cb_as_text api", OF assms cbor_accessors(4) [OF assms(1)]])

lemma opt_field_simps [simp]:
  "without_key k (opt_field k c x @ r) = without_key k r"
  "j \<noteq> k \<Longrightarrow> without_key k (opt_field j c x @ r) = opt_field j c x @ without_key k r"
  "without_key k (opt_field k c x) = []" "j \<noteq> k \<Longrightarrow> without_key k (opt_field j c x) = opt_field j c x"
  "map_of (opt_field k c x) = (\<lambda>k'. if k' = k then map_option c x else None)"
  by (auto simp: opt_field_def fun_eq_iff split: option.splits)

lemma case_option_map [simp]:
  "n = None \<Longrightarrow> (case x of None \<Rightarrow> n | Some y \<Rightarrow> (Some \<circ> c) y) = map_option c x"
  by (cases x) simp_all

lemma det_ga: "det_cv (ga_to_cv a True)"
  by (auto simp: ga_to_cv_def ga_pairs_def opt_field_def split: option.splits)

lemma ga_roundtrip_cv:
  assumes laws: "cbor_laws api"
  shows "ga_from_cv api (ga_to_cv a True) = Inr a"
proof -
  let ?tail = "opt_field 5 CvText (ga_legacy_from a) @ opt_field 6 (\<lambda>s. CvU64 (ucast s)) (ga_seq a) @ [(7 :: u64, CvBytes (ga_sig a))]"
  let ?m = "(0 :: u64, CvU64 (ucast (ga_disc a))) # (1, CvText (ga_domain a)) # (2, CvText (ga_selector a)) #
    (3, CvU64 (ga_recv_at a)) # (4, CvBytes (ga_msg_digest a)) # ?tail"
  have cv: "ga_to_cv a True = CvMap ?m" by (simp add: ga_to_cv_def ga_pairs_def)
  have "sorted_wrt (<) (map fst ?m)" by (auto simp: opt_field_def split: option.splits)
  then obtain f0 where f0: "cb_fields api (CvMap ?m) = Inr f0" "cb_into_pairs api f0 = ?m"
    using cbor_fields_ex [OF laws] by blast
  obtain f1 where f1: "req_as api (cb_as_u8 api) f0 0 = Inr (ga_disc a, f1)" "cb_into_pairs api f1 = tl ?m"
    by (rule req_as_u8 [OF laws, of f0 0]) (simp_all add: f0)
  obtain f2 where f2: "req_as api (cb_as_text api) f1 1 = Inr (ga_domain a, f2)" "cb_into_pairs api f2 = tl (tl ?m)"
    by (rule req_as_text [OF laws, of f1 1]) (simp_all add: f1)
  obtain f3 where f3: "req_as api (cb_as_text api) f2 2 = Inr (ga_selector a, f3)" "cb_into_pairs api f3 = tl (tl (tl ?m))"
    by (rule req_as_text [OF laws, of f2 2]) (simp_all add: f2)
  obtain f4 where f4: "req_as api (cb_as_u64 api) f3 3 = Inr (ga_recv_at a, f4)" "cb_into_pairs api f4 = (4, CvBytes (ga_msg_digest a)) # ?tail"
    by (rule req_as_u64 [OF laws, of f3 3]) (simp_all add: f3)
  obtain f5 where f5: "req_as api (cb_as_bytes api) f4 4 = Inr (ga_msg_digest a, f5)" "cb_into_pairs api f5 = ?tail"
    by (rule req_as_bytes [OF laws, of f4 4]) (simp_all add: f4)
  obtain f6 where f6: "take_as api (cb_as_text api) f5 5 = Inr (ga_legacy_from a, f6)"
      "cb_into_pairs api f6 = opt_field 6 (\<lambda>s. CvU64 (ucast s)) (ga_seq a) @ [(7, CvBytes (ga_sig a))]"
    by (rule take_as_text [OF laws, of f5 5]) (simp_all add: f5 map_add_def)
  obtain f7 where f7: "take_as api (cb_as_u8 api) f6 6 = Inr (ga_seq a, f7)" "cb_into_pairs api f7 = [(7, CvBytes (ga_sig a))]"
    by (rule take_as_u8 [OF laws, of f6 6]) (simp_all add: f6 map_add_def)
  obtain f8 where f8: "req_as api (cb_as_bytes api) f7 7 = Inr (ga_sig a, f8)" "cb_into_pairs api f8 = []"
    by (rule req_as_bytes [OF laws, of f7 7]) (simp_all add: f7)
  show ?thesis
    unfolding cv ga_from_cv_def
    by (simp only: f0(1) f1(1) f2(1) f3(1) f4(1) f5(1) f6(1) f7(1) f8(1) cbor_deny_ok [OF laws f8(2)]
        bindE_simps split_conv) simp
qed

lemma mapE_map: "(\<And>x. g (f x) = Inr x) \<Longrightarrow> mapE g (map f xs) = Inr xs"
  by (induction xs) simp_all

lemma det_pr: "det_cv (pr_to_cv r)"
  by (cases "pr_min_hops r"; cases "pr_observed_at r") (simp_all add: pr_to_cv_def opt_field_def det_ga)

lemma pr_roundtrip:
  assumes laws: "cbor_laws api" and wf: "pr_origin r = (if pr_gateways r = [] then PureMesh else GatewayTouched)"
  shows "pr_from_det_cbor api (pr_det_cbor api r) = Inr r"
proof -
  let ?tail = "opt_field (5 :: u64) (\<lambda>h. CvU64 (ucast h)) (pr_min_hops r) @ opt_field 6 CvU64 (pr_observed_at r)"
  let ?gs = "map (\<lambda>g. ga_to_cv g True) (pr_gateways r)"
  let ?m = "(1, CvU64 (ucast (tier_as_u8 (pr_tier r)))) # (2, CvU64 (ucast (profile_as_u8 (pr_profile r)))) #
    (3, CvU64 (ucast (origin_as_u8 (pr_origin r)))) # (4, CvArray ?gs) # ?tail"
  have cv: "pr_to_cv r = CvMap ?m" by (simp add: pr_to_cv_def)
  have sorted: "sorted_wrt (<) (map fst ?m)" by (auto simp: opt_field_def split: option.splits)
  have "det_cv (CvMap ?m)" using det_pr [of r] unfolding cv .
  then have dec: "cb_decode api (pr_det_cbor api r) = Inr (CvMap ?m)"
    unfolding pr_det_cbor_def cv by (rule cbor_decode_encode [OF laws])
  obtain f0 where f0: "cb_fields api (CvMap ?m) = Inr f0" "cb_into_pairs api f0 = ?m"
    using cbor_fields_ex [OF laws sorted] by blast
  obtain f1 where f1: "req_as api (cb_as_u8 api) f0 1 = Inr (tier_as_u8 (pr_tier r), f1)" "cb_into_pairs api f1 = tl ?m"
    by (rule req_as_u8 [OF laws, of f0 1]) (simp_all add: f0)
  obtain f2 where f2: "req_as api (cb_as_u8 api) f1 2 = Inr (profile_as_u8 (pr_profile r), f2)" "cb_into_pairs api f2 = tl (tl ?m)"
    by (rule req_as_u8 [OF laws, of f1 2]) (simp_all add: f1)
  obtain f3 where f3: "req_as api (cb_as_u8 api) f2 3 = Inr (origin_as_u8 (pr_origin r), f3)" "cb_into_pairs api f3 = (4, CvArray ?gs) # ?tail"
    by (rule req_as_u8 [OF laws, of f2 3]) (simp_all add: f2)
  obtain f4 where f4: "req_as api (cb_as_array api) f3 4 = Inr (?gs, f4)" "cb_into_pairs api f4 = ?tail"
    by (rule req_as_array [OF laws, of f3 4]) (simp_all add: f3)
  obtain f5 where f5: "take_as api (cb_as_u8 api) f4 5 = Inr (pr_min_hops r, f5)"
      "cb_into_pairs api f5 = opt_field 6 CvU64 (pr_observed_at r)"
    by (rule take_as_u8 [OF laws, of f4 5]) (simp_all add: f4 map_add_def)
  obtain f6 where f6: "take_as api (cb_as_u64 api) f5 6 = Inr (pr_observed_at r, f6)" "cb_into_pairs api f6 = []"
    by (rule take_as_u64 [OF laws, of f5 6]) (simp_all add: f5 map_add_def)
  have gs: "mapE (ga_from_cv api) ?gs = Inr (pr_gateways r)"
    using mapE_map [of "ga_from_cv api" "\<lambda>g. ga_to_cv g True"] ga_roundtrip_cv [OF laws] by blast
  have org: "origin_of (origin_as_u8 (pr_origin r)) (pr_gateways r) = Inr (pr_origin r)"
    using wf by (cases "pr_gateways r = []") (simp_all add: origin_of_def)
  show ?thesis
    unfolding pr_from_det_cbor_def
    by (simp only: dec f0(1) f1(1) f2(1) f3(1) f4(1) f5(1) f6(1) cbor_deny_ok [OF laws f6(2)] bindE_simps split_conv
        tier_from_u8_def profile_from_u8_def tier_wire.dec_enc profile_wire.dec_enc ok_or_simps
        gs org) simp
qed

text \<open>C12: Provenance records survive the wire, and the pure-mesh mark cannot be forged: decoding the
  encoding of an assembled record gives the record back, while whatever bytes a decoder accepts, the
  decoded record is marked pure mesh exactly when it lists no gateway.
\<close>

theorem provenance_roundtrip:
  assumes "cbor_laws api"
  shows "pr_from_det_cbor api (pr_det_cbor api (assemble t p h o' gs)) = Inr (assemble t p h o' gs) \<and>
    (case pr_from_det_cbor api bytes of
       Inl _ \<Rightarrow> True
     | Inr r \<Rightarrow> is_pure_mesh r = (gateway_hops r = 0))"
proof
  show "pr_from_det_cbor api (pr_det_cbor api (assemble t p h o' gs)) = Inr (assemble t p h o' gs)"
    by (rule pr_roundtrip [OF assms]) (simp add: assemble_def)
  have "is_pure_mesh r = (gateway_hops r = 0)" if "pr_from_det_cbor api bytes = Inr r" for r
    using that by (auto simp: pr_from_det_cbor_def bindE_Inr origin_of_def is_pure_mesh_def gateway_hops_def
        split: if_splits)
  then show "case pr_from_det_cbor api bytes of Inl _ \<Rightarrow> True | Inr r \<Rightarrow> is_pure_mesh r = (gateway_hops r = 0)"
    by (simp split: sum.split)
qed

definition demo_hop :: gateway_attestation where
  "demo_hop = ga_sign assoc_cbor tag_identity id (attestation_key_sharing ''d'' ''s'' 7) [1, 2] (Some ''m'') 5 3"

lemma provenance_roundtrip_witness:
  "pr_from_det_cbor assoc_cbor (pr_det_cbor assoc_cbor (assemble Fast NotApplicable (Some 2) None [demo_hop]))
     = Inr (assemble Fast NotApplicable (Some 2) None [demo_hop])"
  using provenance_roundtrip [OF assoc_cbor_laws] by blast

section \<open>One hop\<close>

text \<open>C37: The bridge meters exactly the hops it signs: a denied hop leaves the meter as it was and yields no
  attestation; an allowed hop records one event, for the account the authorization named and with the digest
  of the attested message, and its attestation verifies under the gateway's published key for this message.
\<close>

theorem bridge_meters_signed_hops:
  assumes "identity_laws ia"
  shows "case bridge api ia cid key authz counting_record dir domain msg from at prior m of
      (Inl reason, m') \<Rightarrow> authz dir domain = AzDenied reason \<and> m' = m
    | (Inr att, m') \<Rightarrow>
        (\<exists>account e. authz dir domain = AzAllowed account \<and> m' = m @ [e] \<and>
           me_account e = account \<and> me_domain e = domain \<and> me_msg_digest e = cid msg \<and> me_at e = at) \<and>
        ga_verify api ia cid att (ak_domain key) (Some (ak_public ia key)) msg = Inr ()"
proof (cases "authz dir domain")
  case (AzAllowed account)
  with assms show ?thesis
    by (simp add: bridge_def Let_def ga_sign_def counting_record_def ga_verify_def ak_sign_ds_def
        ak_public_def identity_verify_sign ga_signing_body_def ga_to_cv_def ga_pairs_def)
qed (simp add: bridge_def)

lemma bridge_meters_signed_hops_witness:
  "case bridge assoc_cbor tag_identity id (attestation_key_sharing ''d'' ''s'' 7)
      (static_authorize [(''D'', ''acct'')]) counting_record Inbound ''d'' [1, 2] None 5 [] [] of
     (Inl reason, m') \<Rightarrow> static_authorize [(''D'', ''acct'')] Inbound ''d'' = AzDenied reason \<and> m' = []
   | (Inr att, m') \<Rightarrow>
       (\<exists>account e. static_authorize [(''D'', ''acct'')] Inbound ''d'' = AzAllowed account \<and> m' = [] @ [e] \<and>
          me_account e = account \<and> me_domain e = ''d'' \<and> me_msg_digest e = id [1, 2] \<and> me_at e = 5) \<and>
       ga_verify assoc_cbor tag_identity id att (ak_domain (attestation_key_sharing ''d'' ''s'' (7 :: u8)))
         (Some (ak_public tag_identity (attestation_key_sharing ''d'' ''s'' 7))) [1, 2] = Inr ()"
  by (rule bridge_meters_signed_hops [OF tag_identity_laws])

text \<open>The position in the chain is kept in a byte: after 256 prior hops it is that of a first hop.\<close>

lemma bridge_seq_wraps:
  assumes "length prior = 256" and "authz dir domain = AzAllowed account"
  shows "\<exists>att m'. bridge api ia cid key authz meter dir domain msg from at prior m = (Inr att, m') \<and> ga_seq att = None"
  using assms by (simp add: bridge_def Let_def ga_sign_def)

end
