(* ===== verification/Gw_Gate.thy ===== *)
theory Gw_Gate
  imports Rust_Strings
begin

text \<open>
  The cold-sender gate of the inbound gateway (\<open>ColdSenderGate\<close> of \<open>gateway/src/inbound.rs\<close>): allow and block
  lists, a rate limit and greylisting for unknown senders. The clock is an argument; the two tables behind the
  gate's mutex are the state.
\<close>

datatype abuse_decision = AbuseAccept | AbuseReject u16 string

record gate_state =
  gs_greylist :: "string \<times> string \<rightharpoonup> u64"
  gs_accepts :: "string \<rightharpoonup> u64 list"

record cold_sender_gate =
  cg_known_ip_prefixes :: "string list"
  cg_known_senders :: "string list"
  cg_blocked_ip_prefixes :: "string list"
  cg_blocked_senders :: "string list"
  cg_greylist_min_retry_ms :: u64
  cg_greylist_ttl_ms :: u64
  cg_rate_limit :: u32
  cg_rate_window_ms :: u64

definition gate_with_clock :: cold_sender_gate where
  "gate_with_clock =
     \<lparr>cg_known_ip_prefixes = [], cg_known_senders = [], cg_blocked_ip_prefixes = [], cg_blocked_senders = [],
      cg_greylist_min_retry_ms = 60000, cg_greylist_ttl_ms = 12 * 3600000, cg_rate_limit = 60,
      cg_rate_window_ms = 60000\<rparr>"

definition gate_start :: gate_state where
  "gate_start = \<lparr>gs_greylist = Map.empty, gs_accepts = Map.empty\<rparr>"

definition allow_ip_prefix :: "string \<Rightarrow> cold_sender_gate \<Rightarrow> cold_sender_gate" where
  "allow_ip_prefix p g = g\<lparr>cg_known_ip_prefixes := cg_known_ip_prefixes g @ [p]\<rparr>"

definition allow_sender :: "string \<Rightarrow> cold_sender_gate \<Rightarrow> cold_sender_gate" where
  "allow_sender a g = g\<lparr>cg_known_senders := cg_known_senders g @ [to_ascii_lowercase a]\<rparr>"

definition block_ip_prefix :: "string \<Rightarrow> cold_sender_gate \<Rightarrow> cold_sender_gate" where
  "block_ip_prefix p g = g\<lparr>cg_blocked_ip_prefixes := cg_blocked_ip_prefixes g @ [p]\<rparr>"

definition block_sender :: "string \<Rightarrow> cold_sender_gate \<Rightarrow> cold_sender_gate" where
  "block_sender a g = g\<lparr>cg_blocked_senders := cg_blocked_senders g @ [to_ascii_lowercase a]\<rparr>"

definition with_greylist :: "u64 \<Rightarrow> u64 \<Rightarrow> cold_sender_gate \<Rightarrow> cold_sender_gate" where
  "with_greylist min_retry ttl g = g\<lparr>cg_greylist_min_retry_ms := min_retry, cg_greylist_ttl_ms := ttl\<rparr>"

definition with_rate_limit :: "u32 \<Rightarrow> u64 \<Rightarrow> cold_sender_gate \<Rightarrow> cold_sender_gate" where
  "with_rate_limit m window g = g\<lparr>cg_rate_limit := m, cg_rate_window_ms := window\<rparr>"

definition is_known :: "cold_sender_gate \<Rightarrow> string \<Rightarrow> string \<Rightarrow> bool" where
  "is_known g peer_ip from =
     (list_ex (\<lambda>p. starts_with p peer_ip) (cg_known_ip_prefixes g) \<or>
      to_ascii_lowercase from \<in> set (cg_known_senders g))"

definition is_blocked :: "cold_sender_gate \<Rightarrow> string \<Rightarrow> string \<Rightarrow> bool" where
  "is_blocked g peer_ip from =
     (list_ex (\<lambda>p. starts_with p peer_ip) (cg_blocked_ip_prefixes g) \<or>
      to_ascii_lowercase from \<in> set (cg_blocked_senders g))"

definition em_dash :: string where
  "em_dash = map char_of [0xE2, 0x80, 0x94 :: nat]"

definition section_sign :: string where
  "section_sign = map char_of [0xC2, 0xA7 :: nat]"

text \<open>The greylist decision of an unknown sender that is within its rate.\<close>

definition greylist_check ::
    "cold_sender_gate \<Rightarrow> u64 \<Rightarrow> string \<Rightarrow> string \<Rightarrow> gate_state \<Rightarrow> abuse_decision \<times> gate_state" where
  "greylist_check g now peer_ip mail_from st =
     (let key = (peer_ip, mail_from);
          cold = (case gs_greylist st key of
                    Some ts \<Rightarrow> sat_sub now ts > cg_greylist_ttl_ms g
                  | None \<Rightarrow> True) in
      if cold then
        (AbuseReject 451 (''4.7.1 greylisted '' @ em_dash @ '' please retry shortly (cost for cold contact, '' @
           section_sign @ ''9)''),
         st\<lparr>gs_greylist := (gs_greylist st)(key \<mapsto> now)\<rparr>)
      else if sat_sub now (the (gs_greylist st key)) < cg_greylist_min_retry_ms g then
        (AbuseReject 451 (''4.7.1 greylisted '' @ em_dash @ '' retry interval not yet elapsed''), st)
      else
        (AbuseAccept, st\<lparr>gs_accepts := (gs_accepts st)(peer_ip \<mapsto> get_or [] (gs_accepts st) peer_ip @ [now])\<rparr>))"

definition gate_check ::
    "cold_sender_gate \<Rightarrow> u64 \<Rightarrow> string \<Rightarrow> string \<Rightarrow> gate_state \<Rightarrow> abuse_decision \<times> gate_state" where
  "gate_check g now peer_ip mail_from st =
     (if is_blocked g peer_ip mail_from then (AbuseReject 554 ''5.7.1 sender blocked by policy'', st)
      else if is_known g peer_ip mail_from then (AbuseAccept, st)
      else
        (let window_start = sat_sub now (cg_rate_window_ms g);
             hits = filter (\<lambda>t. t \<ge> window_start) (get_or [] (gs_accepts st) peer_ip);
             st1 = st\<lparr>gs_accepts := (gs_accepts st)(peer_ip \<mapsto> hits)\<rparr> in
         if (of_nat (length hits) :: u32) \<ge> cg_rate_limit g
         then (AbuseReject 451 ''4.7.1 rate limit exceeded, slow down and retry later'', st1)
         else greylist_check g now peer_ip mail_from st1))"

end
