(* ===== verification/Gw_Inbound.thy ===== *)
theory Gw_Inbound
  imports Gw_Dmarc Gw_Provenance Gw_Gate
begin

text \<open>
  The inbound gateway (\<open>gateway/src/inbound.rs\<close>): the SPF, DKIM and DMARC gates, the
  wrapping and attestation of a message, and the SMTP session that ends in a reply. Everything that reaches the
  outside (directory, mesh delivery, resolvers, the anti-abuse gate) is a function on the state \<open>'w\<close> of the
  world; the MIME and sealing functions of other crates are fields of \<open>inbound_lib\<close>.
\<close>

section \<open>Data\<close>

record recipient_key =
  rk_ik :: bytes
  rk_seal_pub :: bytes

datatype delivery_outcome = Acked | NoAck

record smtp_reply =
  sr_code :: u16
  sr_text :: string

definition reply :: "u16 \<Rightarrow> string \<Rightarrow> smtp_reply" where
  "reply code text = \<lparr>sr_code = code, sr_text = text\<rparr>"

definition reply_is_ok :: "smtp_reply \<Rightarrow> bool" where
  "reply_is_ok r = (200 \<le> sr_code r \<and> sr_code r < 300)"

definition reply_wire :: "smtp_reply \<Rightarrow> string" where
  "reply_wire r = dec (unat (sr_code r)) @ '' '' @ sr_text r @ CRLF"

section \<open>The gateway\<close>

datatype dkim_policy = DkimAnnotate | DkimEnforce

datatype spf_policy = SpfAnnotate | SpfEnforce

datatype dmarc_handling = DmarcAnnotate | DmarcEnforce

definition DEFAULT_MAX_MESSAGE_BYTES :: nat where
  "DEFAULT_MAX_MESSAGE_BYTES = 25 * 1024 * 1024"

record ('k, 'e, 'w) inbound_gateway =
  ig_ik :: 'k
  ig_attest_keys :: "'k attestation_key list"
  ig_directory :: "string \<Rightarrow> 'w \<Rightarrow> recipient_key option \<times> 'w"
  ig_delivery :: "'e \<Rightarrow> attestation \<Rightarrow> 'w \<Rightarrow> delivery_outcome \<times> 'w"
  ig_abuse :: "string \<Rightarrow> string \<Rightarrow> 'w \<Rightarrow> abuse_decision \<times> 'w"
  ig_dkim_resolver :: "'w dkim_resolver option"
  ig_dkim_policy :: dkim_policy
  ig_spf_resolver :: "'w spf_resolver option"
  ig_spf_policy :: spf_policy
  ig_dmarc_resolver :: "'w txt_resolver option"
  ig_dmarc_policy :: dmarc_handling
  ig_max_message_bytes :: nat

definition inbound_new :: "'k \<Rightarrow> 'k attestation_key list \<Rightarrow> (string \<Rightarrow> 'w \<Rightarrow> recipient_key option \<times> 'w)
    \<Rightarrow> ('e \<Rightarrow> attestation \<Rightarrow> 'w \<Rightarrow> delivery_outcome \<times> 'w) \<Rightarrow> (string \<Rightarrow> string \<Rightarrow> 'w \<Rightarrow> abuse_decision \<times> 'w)
    \<Rightarrow> ('k, 'e, 'w) inbound_gateway" where
  "inbound_new ik attest_keys directory delivery abuse =
     \<lparr>ig_ik = ik, ig_attest_keys = attest_keys, ig_directory = directory, ig_delivery = delivery, ig_abuse = abuse,
      ig_dkim_resolver = None, ig_dkim_policy = DkimAnnotate, ig_spf_resolver = None, ig_spf_policy = SpfAnnotate,
      ig_dmarc_resolver = None, ig_dmarc_policy = DmarcAnnotate, ig_max_message_bytes = DEFAULT_MAX_MESSAGE_BYTES\<rparr>"

definition for_own_domains :: "'k \<Rightarrow> (string \<times> string) list \<Rightarrow> (string \<Rightarrow> 'w \<Rightarrow> recipient_key option \<times> 'w)
    \<Rightarrow> ('e \<Rightarrow> attestation \<Rightarrow> 'w \<Rightarrow> delivery_outcome \<times> 'w) \<Rightarrow> (string \<Rightarrow> string \<Rightarrow> 'w \<Rightarrow> abuse_decision \<times> 'w)
    \<Rightarrow> ('k, 'e, 'w) inbound_gateway" where
  "for_own_domains ik domains directory delivery abuse =
     inbound_new ik (map (\<lambda>(domain, selector). attestation_key_sharing domain selector ik) domains)
       directory delivery abuse"

definition with_max_message_bytes :: "nat \<Rightarrow> ('k, 'e, 'w) inbound_gateway \<Rightarrow> ('k, 'e, 'w) inbound_gateway" where
  "with_max_message_bytes n gw = gw\<lparr>ig_max_message_bytes := n\<rparr>"

definition with_dkim :: "'w dkim_resolver \<Rightarrow> dkim_policy \<Rightarrow> ('k, 'e, 'w) inbound_gateway \<Rightarrow> ('k, 'e, 'w) inbound_gateway" where
  "with_dkim r p gw = gw\<lparr>ig_dkim_resolver := Some r, ig_dkim_policy := p\<rparr>"

definition with_spf :: "'w spf_resolver \<Rightarrow> spf_policy \<Rightarrow> ('k, 'e, 'w) inbound_gateway \<Rightarrow> ('k, 'e, 'w) inbound_gateway" where
  "with_spf r p gw = gw\<lparr>ig_spf_resolver := Some r, ig_spf_policy := p\<rparr>"

definition with_dmarc :: "'w txt_resolver \<Rightarrow> dmarc_handling \<Rightarrow> ('k, 'e, 'w) inbound_gateway \<Rightarrow> ('k, 'e, 'w) inbound_gateway" where
  "with_dmarc r p gw = gw\<lparr>ig_dmarc_resolver := Some r, ig_dmarc_policy := p\<rparr>"

text \<open>
  Functions of other crates: identity keys, DKIM's primitives, the public suffix list, MIME, and the sealing of
  a draft to a recipient (\<open>build_mote_draft\<close>, the ephemeral key and \<open>build_mote\<close>).
\<close>

record ('k, 'e, 'w) inbound_lib =
  il_identity :: "'k identity_api"
  il_crypto :: dkim_crypto
  il_psl :: psl
  il_mime :: mime
  il_header_and_body :: "bytes \<Rightarrow> bytes \<times> bytes"
  il_strip_headers :: "bytes \<Rightarrow> bytes"
  il_seal :: "'k \<Rightarrow> recipient_key \<Rightarrow> bytes \<Rightarrow> u64 \<Rightarrow> 'w \<Rightarrow> 'e option \<times> 'w"
  il_env_id :: "'e \<Rightarrow> bytes"

definition attest_key_for :: "('k, 'e, 'w) inbound_gateway \<Rightarrow> string \<Rightarrow> 'k attestation_key option" where
  "attest_key_for gw domain = find (\<lambda>k. eq_ignore_ascii_case (ak_domain k) domain) (ig_attest_keys gw)"

definition verify_inbound_dkim ::
    "('k, 'e, 'w) inbound_lib \<Rightarrow> ('k, 'e, 'w) inbound_gateway \<Rightarrow> bytes \<Rightarrow> 'w \<Rightarrow> dkim_verdict \<times> 'w" where
  "verify_inbound_dkim L gw message w =
     (case ig_dkim_resolver gw of
        Some resolver \<Rightarrow> verify_with_resolver (il_crypto L) (text_of message) resolver w
      | None \<Rightarrow> (DkNoSignature, w))"

definition dkim_gate :: "('k, 'e, 'w) inbound_gateway \<Rightarrow> dkim_verdict \<Rightarrow> smtp_reply + unit" where
  "dkim_gate gw verdict =
     (if ig_dkim_policy gw \<noteq> DkimEnforce then Inr ()
      else case verdict of
        DkFail _ \<Rightarrow> Inl (reply 550 ''5.7.20 DKIM signature present but does not verify'')
      | _ \<Rightarrow> Inr ())"

definition evaluate_spf ::
    "('k, 'e, 'w) inbound_gateway \<Rightarrow> string \<Rightarrow> string \<Rightarrow> string option \<Rightarrow> 'w \<Rightarrow> spf_outcome \<times> 'w" where
  "evaluate_spf gw peer_ip mail_from helo w =
     (case ig_spf_resolver gw of
        None \<Rightarrow> (unevaluated, w)
      | Some resolver \<Rightarrow>
          (case parse_ip (trim peer_ip) of
             None \<Rightarrow> (unevaluated, w)
           | Some ip \<Rightarrow> spf_evaluate resolver ip mail_from helo w))"

definition spf_gate :: "('k, 'e, 'w) inbound_gateway \<Rightarrow> spf_outcome \<Rightarrow> smtp_reply + unit" where
  "spf_gate gw outcome =
     (if ig_spf_policy gw \<noteq> SpfEnforce then Inr ()
      else if so_result outcome = SpfFail
      then Inl (reply 550 ''5.7.23 SPF hard fail (RFC 7208): sender IP not authorized for this domain'')
      else if so_result outcome = TempError
      then Inl (reply 451 ''4.4.3 SPF temporary DNS error evaluating sender policy, please retry'')
      else Inr ())"

definition dmarc_verdict_with_dkim ::
    "('k, 'e, 'w) inbound_lib \<Rightarrow> ('k, 'e, 'w) inbound_gateway \<Rightarrow> bytes \<Rightarrow> spf_outcome option \<Rightarrow> dkim_verdict \<Rightarrow> string
      \<Rightarrow> 'w \<Rightarrow> dmarc_verdict \<times> 'w" where
  "dmarc_verdict_with_dkim L gw data spf dkim mail_from w =
     (case ig_dmarc_resolver gw of
        None \<Rightarrow> (DmarcNoPolicy, w)
      | Some resolver \<Rightarrow>
          (case header_from (il_mime L) data of
             HfUnusable \<Rightarrow> (DmarcPermError, w)
           | HfAmbiguous \<Rightarrow> (DmarcFail DdReject, w)
           | HfSingle header_domain \<Rightarrow>
               let envelope_domain = (case domain_of mail_from of Some d \<Rightarrow> d | None \<Rightarrow> []) in
               dmarc_evaluate (il_psl L) resolver header_domain envelope_domain (map_option so_result spf) dkim w))"

definition evaluate_dmarc ::
    "('k, 'e, 'w) inbound_lib \<Rightarrow> ('k, 'e, 'w) inbound_gateway \<Rightarrow> bytes \<Rightarrow> spf_outcome option \<Rightarrow> string
      \<Rightarrow> 'w \<Rightarrow> dmarc_verdict \<times> 'w" where
  "evaluate_dmarc L gw data spf mail_from w =
     (let (dkim, w1) = verify_inbound_dkim L gw data w in dmarc_verdict_with_dkim L gw data spf dkim mail_from w1)"

definition dmarc_gate ::
    "('k, 'e, 'w) inbound_lib \<Rightarrow> ('k, 'e, 'w) inbound_gateway \<Rightarrow> bytes \<Rightarrow> spf_outcome option \<Rightarrow> dkim_verdict \<Rightarrow> string
      \<Rightarrow> 'w \<Rightarrow> (smtp_reply + unit) \<times> 'w" where
  "dmarc_gate L gw data spf dkim mail_from w =
     (if ig_dmarc_policy gw \<noteq> DmarcEnforce then (Inr (), w)
      else case dmarc_verdict_with_dkim L gw data spf dkim mail_from w of
        (DmarcFail DdReject, w') \<Rightarrow>
          (Inl (reply 550 ''5.7.1 message failed DMARC (RFC 7489): policy=reject and SPF/DKIM not aligned''), w')
      | (_, w') \<Rightarrow> (Inr (), w'))"

datatype inbound_error = NoRecipient string | NoAttestationKey string | BadAddress string | SealFailed

definition strip_trust_boundary_headers :: "('k, 'e, 'w) inbound_lib \<Rightarrow> bytes \<Rightarrow> bytes" where
  "strip_trust_boundary_headers L rfc5322 =
     (let (head, body) = il_header_and_body L rfc5322 in il_strip_headers L head @ body)"

definition wrap_and_attest ::
    "('k, 'e, 'w) inbound_lib \<Rightarrow> ('k, 'e, 'w) inbound_gateway \<Rightarrow> string \<Rightarrow> string \<Rightarrow> bytes \<Rightarrow> u64 \<Rightarrow> 'w
      \<Rightarrow> (inbound_error + 'e \<times> attestation) \<times> 'w" where
  "wrap_and_attest L gw mail_from rcpt_to data now w =
     (case domain_of rcpt_to of
        None \<Rightarrow> (Inl (BadAddress rcpt_to), w)
      | Some domain \<Rightarrow>
          (case ig_directory gw rcpt_to w of
             (None, w1) \<Rightarrow> (Inl (NoRecipient rcpt_to), w1)
           | (Some recip, w1) \<Rightarrow>
               (case attest_key_for gw domain of
                  None \<Rightarrow> (Inl (NoAttestationKey domain), w1)
                | Some att_key \<Rightarrow>
                    (case il_seal L (ig_ik gw) recip (strip_trust_boundary_headers L data) now w1 of
                       (None, w2) \<Rightarrow> (Inl SealFailed, w2)
                     | (Some env, w2) \<Rightarrow>
                         (Inr (env, attest (il_identity L) att_key (il_env_id L env) mail_from rcpt_to now), w2)))))"

record 'e inbound_bridged =
  ib_env :: 'e
  ib_attestation :: attestation
  ib_gateway_attestation :: gateway_attestation
  ib_provenance :: provenance_record

definition wrap_attest_and_stamp ::
    "'f cbor_api \<Rightarrow> (bytes \<Rightarrow> bytes) \<Rightarrow> ('k, 'e, 'w) inbound_lib \<Rightarrow> ('k, 'e, 'w) inbound_gateway \<Rightarrow> string \<Rightarrow> string \<Rightarrow> bytes
      \<Rightarrow> u64 \<Rightarrow> 'w \<Rightarrow> (inbound_error + 'e inbound_bridged) \<times> 'w" where
  "wrap_attest_and_stamp api cid L gw mail_from rcpt_to data now w =
     (case domain_of rcpt_to of
        None \<Rightarrow> (Inl (BadAddress rcpt_to), w)
      | Some domain \<Rightarrow>
          (case attest_key_for gw domain of
             None \<Rightarrow> (Inl (NoAttestationKey domain), w)
           | Some att_key \<Rightarrow>
               (case wrap_and_attest L gw mail_from rcpt_to data now w of
                  (Inl e, w1) \<Rightarrow> (Inl e, w1)
                | (Inr (env, att), w1) \<Rightarrow>
                    let ga = ga_sign api (il_identity L) cid att_key (strip_trust_boundary_headers L data)
                               (Some mail_from) now 0 in
                    (Inr \<lparr>ib_env = env, ib_attestation = att, ib_gateway_attestation = ga,
                           ib_provenance = assemble Fast NotApplicable None None [ga]\<rparr>, w1))))"

definition wrap_error_reply :: "inbound_error \<Rightarrow> smtp_reply" where
  "wrap_error_reply e =
     (case e of
        NoRecipient _ \<Rightarrow> reply 550 ''5.1.1 no such user here''
      | BadAddress _ \<Rightarrow> reply 550 ''5.1.1 no such user here''
      | NoAttestationKey _ \<Rightarrow> reply 451 ''4.3.5 gateway not configured for this domain''
      | SealFailed \<Rightarrow> reply 451 ''4.3.0 temporary failure wrapping message'')"

definition accept_message_with_spf ::
    "('k, 'e, 'w) inbound_lib \<Rightarrow> ('k, 'e, 'w) inbound_gateway \<Rightarrow> string \<Rightarrow> string \<Rightarrow> bytes \<Rightarrow> u64 \<Rightarrow> spf_outcome option \<Rightarrow> 'w
      \<Rightarrow> smtp_reply \<times> 'w" where
  "accept_message_with_spf L gw mail_from rcpt_to data now spf w =
     (let (dkim, w1) = verify_inbound_dkim L gw data w in
      case dkim_gate gw dkim of
        Inl r \<Rightarrow> (r, w1)
      | Inr _ \<Rightarrow>
          (case dmarc_gate L gw data spf dkim mail_from w1 of
             (Inl r, w2) \<Rightarrow> (r, w2)
           | (Inr _, w2) \<Rightarrow>
               (case wrap_and_attest L gw mail_from rcpt_to data now w2 of
                  (Inl e, w3) \<Rightarrow> (wrap_error_reply e, w3)
                | (Inr (env, att), w3) \<Rightarrow>
                    (case ig_delivery gw env att w3 of
                       (Acked, w4) \<Rightarrow> (reply 250 ''2.6.0 message durably accepted'', w4)
                     | (NoAck, w4) \<Rightarrow>
                         (reply 451 ''4.4.1 recipient has not durably accepted yet, try again later'', w4)))))"

definition accept_message ::
    "('k, 'e, 'w) inbound_lib \<Rightarrow> ('k, 'e, 'w) inbound_gateway \<Rightarrow> string \<Rightarrow> string \<Rightarrow> bytes \<Rightarrow> u64 \<Rightarrow> 'w \<Rightarrow> smtp_reply \<times> 'w" where
  "accept_message L gw mail_from rcpt_to data now w = accept_message_with_spf L gw mail_from rcpt_to data now None w"

definition rcpt_acceptable ::
    "('k, 'e, 'w) inbound_gateway \<Rightarrow> string \<Rightarrow> 'w \<Rightarrow> (smtp_reply + unit) \<times> 'w" where
  "rcpt_acceptable gw rcpt w =
     (case domain_of rcpt of
        None \<Rightarrow> (Inl (reply 501 ''5.1.3 bad recipient address''), w)
      | Some domain \<Rightarrow>
          (case ig_directory gw rcpt w of
             (None, w1) \<Rightarrow> (Inl (reply 550 ''5.1.1 no such user here''), w1)
           | (Some _, w1) \<Rightarrow>
               if attest_key_for gw domain = None
               then (Inl (reply 451 ''4.3.5 gateway not configured for this domain''), w1)
               else (Inr (), w1)))"

section \<open>The session\<close>

datatype phase = Command | Data

record mx_session =
  mx_peer_ip :: string
  mx_now :: u64
  mx_phase :: phase
  mx_helo :: "string option"
  mx_mail_from :: "string option"
  mx_rcpt_to :: "string option"
  mx_data :: bytes
  mx_size_exceeded :: bool
  mx_spf_outcome :: "spf_outcome option"

definition mx_session_new :: "string \<Rightarrow> u64 \<Rightarrow> mx_session" where
  "mx_session_new peer_ip now =
     \<lparr>mx_peer_ip = peer_ip, mx_now = now, mx_phase = Command, mx_helo = None, mx_mail_from = None,
      mx_rcpt_to = None, mx_data = [], mx_size_exceeded = False, mx_spf_outcome = None\<rparr>"

definition greeting :: smtp_reply where
  "greeting = reply 220 ''envoir-gateway DMTAP MX ready''"

definition reset_transaction :: "mx_session \<Rightarrow> mx_session" where
  "reset_transaction s =
     s\<lparr>mx_mail_from := None, mx_rcpt_to := None, mx_data := [], mx_size_exceeded := False, mx_spf_outcome := None\<rparr>"

definition after_prefix :: "string \<Rightarrow> string \<Rightarrow> string \<Rightarrow> string option" where
  "after_prefix upper lower rest =
     (case strip_prefix upper rest of Some a \<Rightarrow> Some a | None \<Rightarrow> strip_prefix lower rest)"

definition cmd_mail ::
    "('k, 'e, 'w) inbound_gateway \<Rightarrow> string \<Rightarrow> mx_session \<Rightarrow> 'w \<Rightarrow> smtp_reply \<times> mx_session \<times> 'w" where
  "cmd_mail gw rest s w =
     (case after_prefix ''FROM:'' ''from:'' rest of
        None \<Rightarrow> (reply 501 ''5.5.4 syntax: MAIL FROM:<address>'', s, w)
      | Some a \<Rightarrow>
          let addr = trim a in
          (case ig_abuse gw (mx_peer_ip s) addr w of
             (AbuseReject code reason, w1) \<Rightarrow> (reply code reason, s, w1)
           | (AbuseAccept, w1) \<Rightarrow>
               let (outcome, w2) = evaluate_spf gw (mx_peer_ip s) addr (mx_helo s) w1 in
               (case spf_gate gw outcome of
                  Inl r \<Rightarrow> (r, s, w2)
                | Inr _ \<Rightarrow>
                    (reply 250 ''2.1.0 sender ok'', s\<lparr>mx_mail_from := Some addr, mx_spf_outcome := Some outcome\<rparr>, w2))))"

definition cmd_rcpt ::
    "('k, 'e, 'w) inbound_gateway \<Rightarrow> string \<Rightarrow> mx_session \<Rightarrow> 'w \<Rightarrow> smtp_reply \<times> mx_session \<times> 'w" where
  "cmd_rcpt gw rest s w =
     (if mx_mail_from s = None then (reply 503 ''5.5.1 need MAIL before RCPT'', s, w)
      else case after_prefix ''TO:'' ''to:'' rest of
        None \<Rightarrow> (reply 501 ''5.5.4 syntax: RCPT TO:<address>'', s, w)
      | Some a \<Rightarrow>
          let addr = trim_end_char (CHR ''>'') (trim_start_char (CHR ''<'') (trim a)) in
          (case rcpt_acceptable gw addr w of
             (Inl r, w1) \<Rightarrow> (r, s, w1)
           | (Inr _, w1) \<Rightarrow> (reply 250 ''2.1.5 recipient ok'', s\<lparr>mx_rcpt_to := Some addr\<rparr>, w1)))"

definition cmd_data :: "mx_session \<Rightarrow> smtp_reply \<times> mx_session" where
  "cmd_data s =
     (if mx_mail_from s = None \<or> mx_rcpt_to s = None
      then (reply 503 ''5.5.1 need MAIL and RCPT before DATA'', s)
      else (reply 354 ''start mail input; end with <CRLF>.<CRLF>'', s\<lparr>mx_phase := Data\<rparr>))"

definition unwrap_str :: "string option \<Rightarrow> string" where
  "unwrap_str x = (case x of Some s \<Rightarrow> s | None \<Rightarrow> [])"

definition append_line :: "('k, 'e, 'w) inbound_gateway \<Rightarrow> bytes \<Rightarrow> mx_session \<Rightarrow> mx_session" where
  "append_line gw line s =
     (let unstuffed = (if line \<noteq> [] \<and> hd line = 46 then tl line else line) in
      if mx_size_exceeded s then s
      else if length (mx_data s) + length unstuffed + 2 > ig_max_message_bytes gw
      then s\<lparr>mx_size_exceeded := True, mx_data := []\<rparr>
      else s\<lparr>mx_data := mx_data s @ unstuffed @ [13, 10]\<rparr>)"

definition feed_data ::
    "('k, 'e, 'w) inbound_lib \<Rightarrow> ('k, 'e, 'w) inbound_gateway \<Rightarrow> bytes \<Rightarrow> mx_session \<Rightarrow> 'w \<Rightarrow> smtp_reply \<times> mx_session \<times> 'w" where
  "feed_data L gw line s w =
     (if line = [46] then
        (let s1 = reset_transaction (s\<lparr>mx_phase := Command\<rparr>) in
         if mx_size_exceeded s
         then (reply 552 ''5.3.4 message size exceeds fixed maximum message size'', s1, w)
         else (let (r, w') = accept_message_with_spf L gw (unwrap_str (mx_mail_from s)) (unwrap_str (mx_rcpt_to s))
                               (mx_data s) (mx_now s) (mx_spf_outcome s) w
               in (r, s1, w')))
      else (reply 0 [], append_line gw line s, w))"

definition parse_command :: "string \<Rightarrow> string \<times> string" where
  "parse_command line =
     (case split_once (CHR '' '') line of
        Some (v, r) \<Rightarrow> (to_ascii_uppercase v, trim r)
      | None \<Rightarrow> (to_ascii_uppercase (trim line), []))"

definition feed_line_bytes ::
    "('k, 'e, 'w) inbound_lib \<Rightarrow> ('k, 'e, 'w) inbound_gateway \<Rightarrow> bytes \<Rightarrow> mx_session \<Rightarrow> 'w \<Rightarrow> smtp_reply \<times> mx_session \<times> 'w" where
  "feed_line_bytes L gw line s w =
     (if mx_phase s = Data then feed_data L gw line s w
      else
        (let (verb, rest) = parse_command (from_utf8_lossy line) in
         if verb = ''HELO'' \<or> verb = ''EHLO'' then
           (let arg = trim rest in
            (reply 250 ''envoir-gateway at your service'', s\<lparr>mx_helo := (if arg = [] then None else Some arg)\<rparr>, w))
         else if verb = ''MAIL'' then cmd_mail gw rest s w
         else if verb = ''RCPT'' then cmd_rcpt gw rest s w
         else if verb = ''DATA'' then (let (r, s') = cmd_data s in (r, s', w))
         else if verb = ''RSET'' then (reply 250 ''2.0.0 flushed'', reset_transaction s, w)
         else if verb = ''NOOP'' then (reply 250 ''2.0.0 ok'', s, w)
         else if verb = ''QUIT'' then (reply 221 ''2.0.0 bye'', s, w)
         else (reply 502 ''5.5.1 command not implemented'', s, w)))"

definition feed_line ::
    "('k, 'e, 'w) inbound_lib \<Rightarrow> ('k, 'e, 'w) inbound_gateway \<Rightarrow> string \<Rightarrow> mx_session \<Rightarrow> 'w \<Rightarrow> smtp_reply \<times> mx_session \<times> 'w" where
  "feed_line L gw line s w = feed_line_bytes L gw (as_bytes line) s w"

end
