(* ===== verification/Gw_Inbound_Sound.thy ===== *)
theory Gw_Inbound_Sound
  imports Gw_Inbound
begin

text \<open>
  What the inbound gateway guarantees: the session's invariant, that 250 is only ever the answer to a durable
  acknowledgement, that an enforced DMARC reject policy is honoured, and the cold-sender gate's greylisting.
\<close>

section \<open>Reachable sessions\<close>

inductive mx_reach :: "('k, 'e, 'w) inbound_lib \<Rightarrow> ('k, 'e, 'w) inbound_gateway \<Rightarrow> string \<Rightarrow> u64 \<Rightarrow> mx_session \<Rightarrow> bool"
  for L gw ip now where
  start: "mx_reach L gw ip now (mx_session_new ip now)"
| line: "mx_reach L gw ip now s \<Longrightarrow> feed_line_bytes L gw l s w = (r, s', w') \<Longrightarrow> mx_reach L gw ip now s'"

definition mx_inv :: "('k, 'e, 'w) inbound_gateway \<Rightarrow> mx_session \<Rightarrow> bool" where
  "mx_inv gw s =
     ((mx_phase s = Data \<longrightarrow> mx_mail_from s \<noteq> None \<and> mx_rcpt_to s \<noteq> None) \<and>
      (mx_phase s = Command \<longrightarrow> mx_data s = [] \<and> \<not> mx_size_exceeded s) \<and>
      length (mx_data s) \<le> ig_max_message_bytes gw \<and> (mx_size_exceeded s \<longrightarrow> mx_data s = []) \<and>
      (mx_mail_from s = None \<longleftrightarrow> mx_spf_outcome s = None) \<and>
      (mx_rcpt_to s \<noteq> None \<longrightarrow> mx_mail_from s \<noteq> None))"

lemma mx_inv_reset: "mx_inv gw (reset_transaction (s\<lparr>mx_phase := Command\<rparr>))" "mx_phase s = Command \<Longrightarrow> mx_inv gw (reset_transaction s)"
  by (simp_all add: mx_inv_def reset_transaction_def)

lemma mx_inv_append: "mx_inv gw s \<Longrightarrow> mx_phase s = Data \<Longrightarrow> mx_inv gw (append_line gw l s)"
  by (auto simp: mx_inv_def append_line_def Let_def)

lemma mx_inv_mail: "mx_inv gw s \<Longrightarrow> mx_inv gw (fst (snd (cmd_mail gw rest s w)))"
  by (auto simp: mx_inv_def cmd_mail_def Let_def split: option.split prod.split abuse_decision.split sum.split)

lemma mx_inv_rcpt: "mx_inv gw s \<Longrightarrow> mx_inv gw (fst (snd (cmd_rcpt gw rest s w)))"
  by (auto simp: mx_inv_def cmd_rcpt_def Let_def split: option.split prod.split sum.split)

lemma mx_inv_data: "mx_inv gw s \<Longrightarrow> mx_inv gw (snd (cmd_data s))"
  by (auto simp: mx_inv_def cmd_data_def)

lemma mx_inv_feed_data: "mx_inv gw s \<Longrightarrow> mx_phase s = Data \<Longrightarrow> mx_inv gw (fst (snd (feed_data L gw l s w)))"
  by (auto simp: feed_data_def Let_def mx_inv_reset mx_inv_append split: prod.split)

lemma mx_inv_feed:
  assumes "mx_inv gw s"
  shows "mx_inv gw (fst (snd (feed_line_bytes L gw l s w)))"
proof (cases "mx_phase s = Data")
  case True
  with assms show ?thesis by (simp add: feed_line_bytes_def mx_inv_feed_data)
next
  case False
  then have c: "mx_phase s = Command" by (cases "mx_phase s") simp_all
  have h: "mx_inv gw (s\<lparr>mx_helo := h\<rparr>)" for h using assms by (auto simp: mx_inv_def)
  obtain verb rest where p: "parse_command (from_utf8_lossy l) = (verb, rest)" by fastforce
  show ?thesis
    using c assms h mx_inv_mail [OF assms] mx_inv_rcpt [OF assms] mx_inv_data [OF assms] mx_inv_reset(2) [OF c, of gw]
    by (simp add: feed_line_bytes_def p Let_def case_prod_beta)
qed

lemma mx_reach_inv: "mx_reach L gw ip now s \<Longrightarrow> mx_inv gw s"
proof (induction rule: mx_reach.induct)
  case start
  show ?case by (simp add: mx_inv_def mx_session_new_def)
next
  case (line s l w r s' w')
  then show ?case using mx_inv_feed [of gw s L l w] by simp
qed

section \<open>No silent loss\<close>

lemma reply_code [simp]: "sr_code (reply c t) = c"
  by (simp add: reply_def)

lemma wrap_error_codes: "sr_code (wrap_error_reply e) = 550 \<or> sr_code (wrap_error_reply e) = 451"
  by (cases e) (simp_all add: wrap_error_reply_def)

lemma dkim_gate_code: "dkim_gate gw v = Inl r \<Longrightarrow> sr_code r = 550"
  by (auto simp: dkim_gate_def split: if_splits dkim_verdict.splits)

lemma dmarc_gate_code: "dmarc_gate L gw data spf v mf w = (Inl r, w') \<Longrightarrow> sr_code r = 550"
  by (auto simp: dmarc_gate_def split: if_splits prod.splits dmarc_verdict.splits dmarc_disposition.splits)

text \<open>The ways through \<open>accept_message_with_spf\<close>: a gate, a wrapping error, or a delivery attempt.\<close>

lemma accept_cases:
  obtains (gated) r w' where "accept_message_with_spf L gw mf rcpt data now spf w = (r, w')" "sr_code r = 550"
  | (unwrapped) dkim w1 w2 e w3 where "verify_inbound_dkim L gw data w = (dkim, w1)" "dkim_gate gw dkim = Inr ()"
      "dmarc_gate L gw data spf dkim mf w1 = (Inr (), w2)" "wrap_and_attest L gw mf rcpt data now w2 = (Inl e, w3)"
      "accept_message_with_spf L gw mf rcpt data now spf w = (wrap_error_reply e, w3)"
  | (tried) dkim w1 w2 env att w3 o' w4 where "verify_inbound_dkim L gw data w = (dkim, w1)" "dkim_gate gw dkim = Inr ()"
      "dmarc_gate L gw data spf dkim mf w1 = (Inr (), w2)"
      "wrap_and_attest L gw mf rcpt data now w2 = (Inr (env, att), w3)" "ig_delivery gw env att w3 = (o', w4)"
      "accept_message_with_spf L gw mf rcpt data now spf w =
        (if o' = Acked then reply 250 ''2.6.0 message durably accepted''
         else reply 451 ''4.4.1 recipient has not durably accepted yet, try again later'', w4)"
proof -
  obtain dkim w1 where v: "verify_inbound_dkim L gw data w = (dkim, w1)" by fastforce
  show thesis
  proof (cases "dkim_gate gw dkim")
    case (Inl r)
    with v show thesis using dkim_gate_code [OF Inl] by (intro gated) (simp_all add: accept_message_with_spf_def)
  next
    case g: (Inr u)
    obtain d w2 where d: "dmarc_gate L gw data spf dkim mf w1 = (d, w2)" by fastforce
    show thesis
    proof (cases d)
      case (Inl r)
      with v g d show thesis using dmarc_gate_code [of L gw data spf dkim mf w1 r w2]
        by (intro gated) (simp_all add: accept_message_with_spf_def)
    next
      case (Inr u')
      obtain x w3 where x: "wrap_and_attest L gw mf rcpt data now w2 = (x, w3)" by fastforce
      show thesis
      proof (cases x)
        case (Inl e)
        with v g d Inr x show thesis by (intro unwrapped) (simp_all add: accept_message_with_spf_def)
      next
        case (Inr p)
        obtain env att where p: "p = (env, att)" by fastforce
        obtain o' w4 where "ig_delivery gw env att w3 = (o', w4)" by fastforce
        with v g d \<open>d = Inr u'\<close> x Inr p show thesis
          by (intro tried [of dkim w1 w2 env att w3 o' w4])
            (simp_all add: accept_message_with_spf_def, cases o', simp_all)
      qed
    qed
  qed
qed

lemma wrap_Inr:
  "wrap_and_attest L gw mf rcpt data now w = (Inr (env, att), w') \<longleftrightarrow>
     (\<exists>domain recip key w1. domain_of rcpt = Some domain \<and> ig_directory gw rcpt w = (Some recip, w1) \<and>
        attest_key_for gw domain = Some key \<and>
        il_seal L (ig_ik gw) recip (strip_trust_boundary_headers L data) now w1 = (Some env, w') \<and>
        att = attest (il_identity L) key (il_env_id L env) mf rcpt now)"
  by (auto simp: wrap_and_attest_def split: option.splits prod.splits)

text \<open>C14: No silent loss: in every reachable session, the dot that ends a message is answered by 250 only when the
  gateway sealed the message to the key the directory gave for the recipient, attested it under the
  recipient's domain, and the mesh acknowledged durable custody of exactly that envelope; every other
  outcome is a 451, 550 or 552, and the transaction is reset either way.
\<close>

theorem no_silent_loss:
  assumes "mx_reach L gw ip now s" and "mx_phase s = Data"
  shows "case feed_line_bytes L gw [46] s w of (r, s', w') \<Rightarrow>
    (if sr_code r = 250 then
       \<exists>mf rcpt domain recip key w1 w2 w3 env.
         mx_mail_from s = Some mf \<and> mx_rcpt_to s = Some rcpt \<and> domain_of rcpt = Some domain \<and>
         ig_directory gw rcpt w1 = (Some recip, w2) \<and> attest_key_for gw domain = Some key \<and>
         il_seal L (ig_ik gw) recip (strip_trust_boundary_headers L (mx_data s)) (mx_now s) w2 = (Some env, w3) \<and>
         ig_delivery gw env (attest (il_identity L) key (il_env_id L env) mf rcpt (mx_now s)) w3 = (Acked, w')
     else sr_code r \<in> {451, 550, 552}) \<and>
    s' = reset_transaction (s\<lparr>mx_phase := Command\<rparr>)"
proof -
  from mx_reach_inv [OF assms(1)] assms(2) obtain mf rcpt where
    e: "mx_mail_from s = Some mf" "mx_rcpt_to s = Some rcpt" by (auto simp: mx_inv_def)
  have f: "feed_line_bytes L gw [46] s w = feed_data L gw [46] s w"
    using assms(2) by (simp add: feed_line_bytes_def)
  show ?thesis
  proof (cases "mx_size_exceeded s")
    case True
    then show ?thesis by (simp add: f feed_data_def Let_def)
  next
    case False
    let ?a = "accept_message_with_spf L gw mf rcpt (mx_data s) (mx_now s) (mx_spf_outcome s) w"
    have fd: "feed_data L gw [46] s w = (fst ?a, reset_transaction (s\<lparr>mx_phase := Command\<rparr>), snd ?a)"
      using False e by (simp add: feed_data_def Let_def unwrap_str_def case_prod_beta)
    show ?thesis
    proof (cases rule: accept_cases [of L gw mf rcpt "mx_data s" "mx_now s" "mx_spf_outcome s" w])
      case (gated r w')
      then show ?thesis by (simp add: f fd)
    next
      case (unwrapped dkim w1 w2 err w3)
      then show ?thesis using wrap_error_codes [of err] by (auto simp: f fd)
    next
      case (tried dkim w1 w2 env att w3 o' w4)
      from tried(4) [unfolded wrap_Inr] tried(5,6) e show ?thesis
        by (cases o') (simp_all add: f fd, blast)
    qed
  qed
qed

section \<open>Enforced DMARC\<close>

text \<open>C15: An enforced reject policy protects the From domain: when the gateway enforces DMARC, the message has
  one From domain, the policy found for it says reject, and the message is accepted, then SPF passed for the
  envelope domain or a DKIM signature of some domain verified, and this domain is the From domain or shares
  its registrable domain.
\<close>

theorem dmarc_reject_enforced:
  assumes "ig_dmarc_policy gw = DmarcEnforce" and "ig_dmarc_resolver gw = Some resolver"
    and "header_from (il_mime L) data = HfSingle domain"
    and "\<And>w. \<exists>r sub w'. discover (il_psl L) resolver domain w = (DiscFound r sub, w') \<and> effective_policy r sub = DpReject"
    and "sr_code (fst (accept_message_with_spf L gw mf rcpt data now spf w)) = 250"
  shows "\<exists>d. authenticated (unwrap_str (domain_of mf)) (map_option so_result spf) (fst (verify_inbound_dkim L gw data w)) d \<and>
    same_owner (il_psl L) d domain"
proof (cases rule: accept_cases [of L gw mf rcpt data now spf w])
  case (gated r w')
  with assms(5) show ?thesis by simp
next
  case (unwrapped dkim w1 w2 e w3)
  with assms(5) wrap_error_codes [of e] show ?thesis by auto
next
  case (tried dkim w1 w2 env att w3 o' w4)
  let ?v = "dmarc_evaluate (il_psl L) resolver domain (unwrap_str (domain_of mf)) (map_option so_result spf) dkim w1"
  have "dmarc_verdict_with_dkim L gw data spf dkim mf w1 = ?v"
    using assms(2,3) by (simp add: dmarc_verdict_with_dkim_def unwrap_str_def Let_def)
  with tried(3) assms(1) have "fst ?v \<noteq> DmarcFail DdReject"
    by (auto simp: dmarc_gate_def split: prod.splits dmarc_verdict.splits dmarc_disposition.splits)
  moreover obtain r sub w' where "discover (il_psl L) resolver domain w1 = (DiscFound r sub, w')"
    "effective_policy r sub = DpReject" using assms(4) by blast
  ultimately have "fst ?v = DmarcPass" by (auto simp: dmarc_evaluate_def split: if_splits)
  from dmarc_pass_authenticated [OF this] tried(1) show ?thesis by simp
qed

section \<open>Greylisting\<close>

text \<open>A run of checks with the clock readings they saw, newest first.\<close>

inductive gate_run :: "cold_sender_gate \<Rightarrow> (u64 \<times> string \<times> string) list \<Rightarrow> gate_state \<Rightarrow> bool" for g where
  gate_begin: "gate_run g [] gate_start"
| gate_next: "gate_run g log st \<Longrightarrow> gate_check g now ip mf st = (d, st') \<Longrightarrow> gate_run g ((now, ip, mf) # log) st'"

lemma gate_check_greylist:
  assumes "gate_check g now ip mf st = (d, st')" "gs_greylist st' k = Some ts"
  shows "gs_greylist st k = Some ts \<or> k = (ip, mf) \<and> ts = now"
  using assms by (auto simp: gate_check_def greylist_check_def Let_def split: if_splits option.splits)

lemma gate_run_greylist:
  "gate_run g log st \<Longrightarrow> gs_greylist st (ip, mf) = Some ts \<Longrightarrow> (ts, ip, mf) \<in> set log"
proof (induction arbitrary: ts rule: gate_run.induct)
  case gate_begin
  then show ?case by (simp add: gate_start_def)
next
  case (gate_next log st now ip' mf' d st')
  then show ?case using gate_check_greylist [of g now ip' mf' st d st' "(ip, mf)" ts] by auto
qed

text \<open>The cold-sender gate makes strangers wait: over any run of checks, a sender that is not on an allow-list
  is accepted only if it is not blocked and the same peer address and envelope sender were seen by an earlier check, at least
  the retry interval and at most the lifetime ago.
\<close>

theorem cold_sender_waits:
  assumes "gate_run g log st" and "fst (gate_check g now ip mf st) = AbuseAccept" and "\<not> is_known g ip mf"
  shows "\<not> is_blocked g ip mf \<and> (\<exists>ts. (ts, ip, mf) \<in> set log \<and>
    cg_greylist_min_retry_ms g \<le> sat_sub now ts \<and> sat_sub now ts \<le> cg_greylist_ttl_ms g)"
proof -
  have "\<not> is_blocked g ip mf" using assms(2) by (auto simp: gate_check_def)
  moreover obtain ts where "gs_greylist st (ip, mf) = Some ts" "cg_greylist_min_retry_ms g \<le> sat_sub now ts"
    "sat_sub now ts \<le> cg_greylist_ttl_ms g"
    using assms(2,3) by (auto simp: gate_check_def greylist_check_def Let_def not_less split: if_splits option.splits)
  ultimately show ?thesis using gate_run_greylist [OF assms(1)] by blast
qed

section \<open>Two recipients in one transaction\<close>

lemma rcpt_acceptable_code: "rcpt_acceptable gw a w = (Inl r, w') \<Longrightarrow> sr_code r \<noteq> 250"
  by (auto simp: rcpt_acceptable_def split: option.splits prod.splits if_splits)

text \<open>C21: Only the last recipient of a transaction is delivered to: after two accepted RCPT commands the
  session is the one that saw the second alone, so the final 250 tells the peer that a message for two
  recipients was accepted while the first one's copy is never sealed.
\<close>

theorem earlier_recipient_forgotten:
  "case cmd_rcpt gw a s w of (r1, s1, w1) \<Rightarrow>
     case cmd_rcpt gw b s1 w1 of (r2, s2, w2) \<Rightarrow>
       if sr_code r1 = 250 \<and> sr_code r2 = 250 then cmd_rcpt gw b s w1 = (r2, s2, w2) else True"
  by (auto simp: cmd_rcpt_def Let_def dest: rcpt_acceptable_code
      split: option.splits prod.splits sum.splits if_splits)

section \<open>A concrete gateway\<close>

definition demo_lib :: "(u8, bytes, unit) inbound_lib" where
  "demo_lib = \<lparr>il_identity = tag_identity, il_crypto = toy_crypto, il_psl = Some,
     il_mime = \<lparr>headers_only = (\<lambda>_. [(''from'', ''a@b'')]), parse_address_list = (\<lambda>_. [\<lparr>ma_host = Some ''b''\<rparr>])\<rparr>,
     il_header_and_body = (\<lambda>b. (b, [])), il_strip_headers = id,
     il_seal = (\<lambda>k r b t w. (Some b, w)), il_env_id = id\<rparr>"

definition demo_record :: dmarc_record where
  "demo_record = \<lparr>dr_policy = DpReject, dr_subdomain_policy = None, dr_dkim_strict = False, dr_spf_strict = False,
     dr_pct = 100\<rparr>"

definition demo_gateway :: "(u8, bytes, unit) inbound_gateway" where
  "demo_gateway = with_dmarc (\<lambda>name w. ([record_text demo_record], w)) DmarcEnforce
     (inbound_new 7 [attestation_key_sharing ''b'' ''s'' 7] (\<lambda>r w. (Some \<lparr>rk_ik = [1], rk_seal_pub = [2]\<rparr>, w))
       (\<lambda>env att w. (Acked, w)) (\<lambda>ip mf w. (AbuseAccept, w)))"

definition demo_session :: mx_session where
  "demo_session = (mx_session_new ''192.0.2.1'' 5)\<lparr>mx_mail_from := Some ''a@b'', mx_spf_outcome := Some unevaluated\<rparr>"

lemma parse_command_ascii:
  assumes "list_all (\<lambda>c. 33 \<le> byte_of c \<and> byte_of c < 128) v" "list_all (\<lambda>c. 33 \<le> byte_of c \<and> byte_of c < 128) a"
  shows "parse_command (from_utf8_lossy (as_bytes (v @ CHR '' '' # a))) = (to_ascii_uppercase v, a)"
proof -
  have "list_all (\<lambda>c. byte_of c < 128) (v @ CHR '' '' # a)" using assms by (auto simp: list_all_iff)
  then have "is_str (v @ CHR '' '' # a)" by (rule ascii_is_str)
  moreover have "CHR '' '' \<notin> set v" using assms(1) by (auto simp: list_all_iff)
  ultimately show ?thesis
    using trim_graphic [OF assms(2)] by (simp add: from_utf8_lossy_str parse_command_def split_once_first del: as_bytes_append)
qed

lemma demo_domain: "domain_of ''a@b'' = Some ''b''"
proof -
  have "trim ''a@b'' = ''a@b''" by (rule trim_graphic) simp
  then show ?thesis by (simp add: domain_of_def trim_start_char_def trim_end_char_def rsplit_once_def)
qed

lemma demo_mail: "mx_reach demo_lib demo_gateway ''192.0.2.1'' 5 demo_session"
proof -
  have t: "trim ''a@b'' = ''a@b''" by (rule trim_graphic) simp
  have "cmd_mail demo_gateway ''FROM:a@b'' (mx_session_new ''192.0.2.1'' 5) () = (reply 250 ''2.1.0 sender ok'', demo_session, ())"
    by (simp add: cmd_mail_def after_prefix_def strip_prefix_def starts_with_def t demo_gateway_def with_dmarc_def
        inbound_new_def evaluate_spf_def spf_gate_def demo_session_def)
  then have "feed_line_bytes demo_lib demo_gateway (as_bytes (''MAIL'' @ CHR '' '' # ''FROM:a@b'')) (mx_session_new ''192.0.2.1'' 5) ()
      = (reply 250 ''2.1.0 sender ok'', demo_session, ())"
    unfolding feed_line_bytes_def by (subst parse_command_ascii) (simp_all add: to_ascii_uppercase_def ascii_upper_def mx_session_new_def)
  then show ?thesis by (rule mx_reach.line [OF mx_reach.start])
qed

definition demo_data_session :: mx_session where
  "demo_data_session = demo_session\<lparr>mx_rcpt_to := Some ''a@b'', mx_phase := Data\<rparr>"

lemma demo_session_reach: "mx_reach demo_lib demo_gateway ''192.0.2.1'' 5 demo_data_session"
proof -
  let ?s = "demo_session\<lparr>mx_rcpt_to := Some ''a@b''\<rparr>"
  have t: "trim ''a@b'' = ''a@b''" by (rule trim_graphic) simp
  have "cmd_rcpt demo_gateway ''TO:a@b'' demo_session () = (reply 250 ''2.1.5 recipient ok'', ?s, ())"
    by (simp add: cmd_rcpt_def after_prefix_def strip_prefix_def starts_with_def t demo_session_def Let_def
        trim_end_char_def trim_start_char_def rcpt_acceptable_def demo_domain)
      (simp add: demo_gateway_def with_dmarc_def inbound_new_def attest_key_for_def attestation_key_sharing_def)
  then have r: "feed_line_bytes demo_lib demo_gateway (as_bytes (''RCPT'' @ CHR '' '' # ''TO:a@b'')) demo_session ()
      = (reply 250 ''2.1.5 recipient ok'', ?s, ())"
    unfolding feed_line_bytes_def by (subst parse_command_ascii)
      (simp_all add: to_ascii_uppercase_def ascii_upper_def demo_session_def mx_session_new_def)
  have "cmd_data ?s = (reply 354 ''start mail input; end with <CRLF>.<CRLF>'', demo_data_session)"
    by (simp add: cmd_data_def demo_data_session_def demo_session_def)
  then have "feed_line_bytes demo_lib demo_gateway (as_bytes (''DATA'' @ CHR '' '' # [])) ?s ()
      = (reply 354 ''start mail input; end with <CRLF>.<CRLF>'', demo_data_session, ())"
    unfolding feed_line_bytes_def by (subst parse_command_ascii)
      (simp_all add: to_ascii_uppercase_def ascii_upper_def demo_session_def mx_session_new_def)
  then show ?thesis by (rule mx_reach.line [OF mx_reach.line [OF demo_mail r]])
qed

lemma no_silent_loss_witness:
  "case feed_line_bytes demo_lib demo_gateway [46] demo_data_session () of (r, s', w') \<Rightarrow>
     (sr_code r = 250 \<or> sr_code r \<in> {451, 550, 552}) \<and>
     s' = reset_transaction (demo_data_session\<lparr>mx_phase := Command\<rparr>)"
  using no_silent_loss [OF demo_session_reach, of "()"] by (auto simp: demo_data_session_def split: if_splits prod.splits)

lemma cold_sender_waits_witness:
  "\<exists>ts. (ts, ''ip'', ''mf'') \<in> set [(0 :: u64, ''ip'', ''mf'')] \<and> 60000 \<le> sat_sub 60000 ts"
proof -
  let ?g = "gate_with_clock"
  have n: "\<not> is_known ?g ''ip'' ''mf''" "\<not> is_blocked ?g ''ip'' ''mf''"
    by (simp_all add: is_known_def is_blocked_def gate_with_clock_def)
  obtain d st where st: "gate_check ?g 0 ''ip'' ''mf'' gate_start = (d, st)" by fastforce
  have run: "gate_run ?g [(0, ''ip'', ''mf'')] st"
    by (rule gate_next [OF gate_begin st])
  have "gs_greylist st (''ip'', ''mf'') = Some 0" "get_or [] (gs_accepts st) ''ip'' = []"
    using st n by (simp_all add: gate_check_def greylist_check_def gate_start_def Let_def)
      (auto simp: gate_with_clock_def greylist_check_def Let_def)
  then have "fst (gate_check ?g 60000 ''ip'' ''mf'' st) = AbuseAccept"
    using n by (simp add: gate_check_def greylist_check_def Let_def sat_sub_def) (simp add: gate_with_clock_def)
  from cold_sender_waits [OF run this n(1)] show ?thesis by (auto simp: gate_with_clock_def)
qed

lemma demo_discover:
  "discover psl (\<lambda>name w. ([record_text demo_record], w)) domain w = (DiscFound demo_record False, w)"
  by (simp add: discover_def lookup_at_def judge_txts_def record_text_is_dmarc1 parse_record_text demo_record_def)

lemma dmarc_reject_enforced_witness:
  "\<exists>d. authenticated ''b'' (Some SpfPass) DkNoSignature d \<and> same_owner Some d ''b''"
proof -
  let ?spf = "\<lparr>so_result = SpfPass, so_domain = ''b''\<rparr>"
  let ?r = "\<lambda>(name :: string) (w :: unit). ([record_text demo_record], w)"
  have gw: "ig_dmarc_policy demo_gateway = DmarcEnforce" "ig_dmarc_resolver demo_gateway = Some ?r"
    "ig_dkim_resolver demo_gateway = None" "ig_dkim_policy demo_gateway = DkimAnnotate"
    by (simp_all add: demo_gateway_def with_dmarc_def inbound_new_def)
  have "trim ''from'' = ''from''" by (rule trim_graphic) simp
  then have hf: "header_from (il_mime demo_lib) [] = HfSingle ''b''"
    by (simp add: header_from_def demo_lib_def)
  have lib: "il_psl demo_lib = Some" by (simp add: demo_lib_def)
  have dm: "dmarc_verdict_with_dkim demo_lib demo_gateway [] (Some ?spf) DkNoSignature ''a@b'' () = (DmarcPass, ())"
    by (simp add: dmarc_verdict_with_dkim_def gw hf lib demo_domain dmarc_evaluate_def demo_discover spf_aligned_def
        domains_aligned_def Let_def)
  have v: "verify_inbound_dkim demo_lib demo_gateway [] () = (DkNoSignature, ())"
    by (simp add: verify_inbound_dkim_def gw)
  have wr: "wrap_and_attest demo_lib demo_gateway ''a@b'' ''a@b'' [] 5 ()
      = (Inr ([], attest tag_identity (attestation_key_sharing ''b'' ''s'' 7) [] ''a@b'' ''a@b'' 5), ())"
    by (simp add: wrap_and_attest_def demo_domain demo_gateway_def with_dmarc_def inbound_new_def attest_key_for_def
        attestation_key_sharing_def strip_trust_boundary_headers_def demo_lib_def)
  have dl: "ig_delivery demo_gateway env att () = (Acked, ())" for env att
    by (simp add: demo_gateway_def with_dmarc_def inbound_new_def)
  have acc: "sr_code (fst (accept_message_with_spf demo_lib demo_gateway ''a@b'' ''a@b'' [] 5 (Some ?spf) ())) = 250"
    by (simp add: accept_message_with_spf_def v dkim_gate_def gw dmarc_gate_def dm wr dl)
  have disc: "\<exists>r sub w'. discover (il_psl demo_lib) ?r ''b'' w = (DiscFound r sub, w') \<and> effective_policy r sub = DpReject" for w
    by (intro exI conjI, rule demo_discover) (simp add: effective_policy_def demo_record_def)
  from dmarc_reject_enforced [OF gw(1,2) hf disc acc] show ?thesis
    by (simp add: demo_domain unwrap_str_def v lib)
qed

end
