(* ===== verification/Gw_Net.thy ===== *)
theory Gw_Net
  imports Byte_Io
begin

text \<open>
  Socket helpers (\<open>gateway/src/net.rs\<close>): reading a line byte by byte, reading a multi-line SMTP reply, and
  the connection limiter. A peer is the list of what successive \<open>read\<close> calls of one byte return; its end is
  the end of the stream. A panic is \<open>None\<close>.
\<close>

datatype rd = RByte u8 | RIntr | RFail string

datatype net_error =
    UnexpectedEof string | InvalidData string | TimedOut string | PermissionDenied string | NotFound string
  | BadInput string | OtherIo string

fun net_error_text :: "net_error \<Rightarrow> string" where
  "net_error_text (UnexpectedEof s) = s"
| "net_error_text (InvalidData s) = s"
| "net_error_text (TimedOut s) = s"
| "net_error_text (PermissionDenied s) = s"
| "net_error_text (NotFound s) = s"
| "net_error_text (BadInput s) = s"
| "net_error_text (OtherIo s) = s"

definition MAX_LINE :: nat where
  "MAX_LINE = 64 * 1024"

fun read_line :: "bytes \<Rightarrow> rd list \<Rightarrow> (net_error + bytes option) \<times> rd list" where
  "read_line buf [] = (if buf = [] then Inr None else Inl (UnexpectedEof ''peer closed mid-line''), [])"
| "read_line buf (RIntr # rs) = read_line buf rs"
| "read_line buf (RFail e # rs) = (Inl (OtherIo e), rs)"
| "read_line buf (RByte b # rs) =
     (if b = 10 then (Inr (Some (if buf \<noteq> [] \<and> last buf = 13 then butlast buf else buf)), rs)
      else if length (buf @ [b]) > MAX_LINE then (Inl (InvalidData ''SMTP line too long''), rs)
      else read_line (buf @ [b]) rs)"

definition read_line_str :: "rd list \<Rightarrow> (net_error + string option) \<times> rd list" where
  "read_line_str rs =
     (case read_line [] rs of
        (Inl e, rs') \<Rightarrow> (Inl e, rs')
      | (Inr l, rs') \<Rightarrow> (Inr (map_option from_utf8_lossy l), rs'))"

text \<open>\<open>&line[..n]\<close> panics when \<open>n\<close> is past the end or inside a character; \<open>line.get(n..)\<close> is \<open>None\<close> there.\<close>

definition is_char_boundary :: "string \<Rightarrow> nat \<Rightarrow> bool" where
  "is_char_boundary s n = (n = 0 \<or> n = length s \<or> n < length s \<and> \<not> is_cont (s ! n))"

definition slice_to :: "string \<Rightarrow> nat \<Rightarrow> string option" where
  "slice_to s n = (if is_char_boundary s n then Some (take n s) else None)"

definition get_from :: "string \<Rightarrow> nat \<Rightarrow> string option" where
  "get_from s n = (if is_char_boundary s n then Some (drop n s) else None)"

lemma read_line_shorter:
  assumes "read_line buf rs = (Inr (Some l), rs')"
  shows "length rs' < length rs"
proof -
  have "length rs' < length rs \<or> rs = []" using assms
    by (induction buf rs rule: read_line.induct) (auto split: if_splits)
  then show ?thesis using assms by (cases rs) (auto split: if_splits)
qed

function read_reply_loop :: "string \<Rightarrow> rd list \<Rightarrow> ((net_error + u16 \<times> string) \<times> rd list) option" where
  "read_reply_loop text rs =
     (case read_line [] rs of
        (Inl e, rs') \<Rightarrow> Some (Inl e, rs')
      | (Inr None, rs') \<Rightarrow> Some (Inl (UnexpectedEof ''no SMTP reply''), rs')
      | (Inr (Some bytes), rs') \<Rightarrow>
          let line = from_utf8_lossy bytes in
          if length line < 3 then Some (Inl (InvalidData ''short SMTP reply line''), rs')
          else case slice_to line 3 of
            None \<Rightarrow> None
          | Some digits \<Rightarrow>
              (case parse_uint 65535 digits of
                 None \<Rightarrow> Some (Inl (InvalidData ''non-numeric SMTP code''), rs')
               | Some code \<Rightarrow>
                   let more = (length line > 3 \<and> line ! 3 = CHR ''-'');
                       text' = (if text = [] then text else text @ '' '') @
                         trim (case get_from line 4 of Some t \<Rightarrow> t | None \<Rightarrow> []) in
                   if more then read_reply_loop text' rs' else Some (Inr (of_nat code, text'), rs')))"
  by pat_completeness auto
termination
  by (relation "measure (\<lambda>(t, rs). length rs)") (auto dest!: read_line_shorter [OF sym] intro: read_line_shorter)

definition read_reply :: "rd list \<Rightarrow> ((net_error + u16 \<times> string) \<times> rd list) option" where
  "read_reply rs = read_reply_loop [] rs"

definition wire_bytes :: "string \<Rightarrow> rd list" where
  "wire_bytes s = map RByte (as_bytes s)"

section \<open>Lines\<close>

text \<open>A line that fits is read whole, whatever follows it.\<close>

lemma read_line_fits:
  "10 \<notin> set l \<Longrightarrow> length buf + length l \<le> MAX_LINE \<Longrightarrow>
     read_line buf (map RByte l @ rs) = read_line (buf @ l) rs"
  by (induction l arbitrary: buf) auto

lemma read_line_bound: "read_line buf rs = (Inr (Some l), rs') \<Longrightarrow> length buf \<le> MAX_LINE \<Longrightarrow> length l \<le> MAX_LINE \<and> 10 \<notin> set l - set buf"
proof (induction buf rs rule: read_line.induct)
  case (4 buf b rs)
  then show ?case by (auto split: if_splits dest: in_set_butlastD)
qed (auto split: if_splits)

text \<open>Reading lines: a line without a line feed of at most 64 KiB less its carriage return is returned
  exactly, with the rest of the stream left, whether it ends with CR LF or with a bare LF; a stream that has
  sent more than 64 KiB without a line feed is an error, so the buffer never exceeds the bound.
\<close>

theorem read_line_spec:
  "(10 \<notin> set l \<and> length l < MAX_LINE \<and> (l = [] \<or> last l \<noteq> 13) \<longrightarrow>
     read_line [] (map RByte (l @ [13, 10]) @ rs) = (Inr (Some l), rs) \<and>
     read_line [] (map RByte (l @ [10]) @ rs) = (Inr (Some l), rs)) \<and>
   (10 \<notin> set l \<and> length l > MAX_LINE \<longrightarrow>
     (\<exists>rs'. read_line [] (map RByte l @ rs) = (Inl (InvalidData ''SMTP line too long''), rs')))"
proof (intro conjI impI)
  assume l: "10 \<notin> set l \<and> length l < MAX_LINE \<and> (l = [] \<or> last l \<noteq> 13)"
  then show "read_line [] (map RByte (l @ [10]) @ rs) = (Inr (Some l), rs)"
    using read_line_fits [of l "[]" "RByte 10 # rs"] by auto
  show "read_line [] (map RByte (l @ [13, 10]) @ rs) = (Inr (Some l), rs)"
    using read_line_fits [of "l @ [13]" "[]" "RByte 10 # rs"] l by auto
next
  assume l: "10 \<notin> set l \<and> length l > MAX_LINE"
  have "take MAX_LINE l @ drop MAX_LINE l = l" by simp
  moreover obtain b r where r: "drop MAX_LINE l = b # r" using l by (cases "drop MAX_LINE l") auto
  ultimately have e: "l = take MAX_LINE l @ b # r" by simp
  have t: "10 \<notin> set (take MAX_LINE l)" "length (take MAX_LINE l) = MAX_LINE" "b \<noteq> 10"
    using l r by (auto dest: in_set_takeD) (metis in_set_dropD list.set_intros(1))
  have "read_line [] (map RByte (take MAX_LINE l) @ RByte b # map RByte r @ rs)
      = read_line (take MAX_LINE l) (RByte b # map RByte r @ rs)"
    using read_line_fits [of "take MAX_LINE l" "[]"] t by simp
  then have "read_line [] (map RByte l @ rs) = (Inl (InvalidData ''SMTP line too long''), map RByte r @ rs)"
    using t by (subst e) simp
  then show "\<exists>rs'. read_line [] (map RByte l @ rs) = (Inl (InvalidData ''SMTP line too long''), rs')" by blast
qed

lemma read_line_spec_witness:
  "read_line [] (map RByte ([65, 66] @ [13, 10]) @ [RByte 67]) = (Inr (Some [65, 66]), [RByte 67])"
  using read_line_spec [of "[65, 66]" "[RByte 67]"] by (simp add: MAX_LINE_def)

text \<open>A bare line feed ends a line, so a lone dot between bare line feeds is a line of its own.\<close>

lemma bare_lf_dot: "read_line [] (map RByte [46, 10] @ rs) = (Inr (Some [46]), rs)"
  by (simp add: MAX_LINE_def)

section \<open>Replies\<close>

text \<open>A reply line whose third byte lies inside a character makes the reader panic: the lossy decoding
  turns a stray byte into a three-byte character, and the code is sliced at a fixed byte position.
\<close>

theorem read_reply_panics:
  "read_reply (map RByte [50, 0xFF, 13, 10] @ rs) = None"
proof -
  have "read_line [] (map RByte [50, 0xFF, 13, 10] @ rs) = (Inr (Some [50, 0xFF]), rs)"
    by (simp add: MAX_LINE_def)
  moreover have "from_utf8_lossy [50, 0xFF] = CHR ''2'' # replacement_char"
  proof -
    have "(of_char (CHR ''2'') :: nat) = 50" by simp
    then have "char_of (50 :: nat) = CHR ''2''" by (metis char_of_char)
    then show ?thesis by (simp add: utf8_step_def replacement_char_def text_of_def)
  qed
  moreover have "slice_to (CHR ''2'' # replacement_char) 3 = None"
    by (simp add: slice_to_def is_char_boundary_def replacement_char_def is_cont_def numeral_3_eq_3)
  moreover have "\<not> length (CHR ''2'' # replacement_char) < 3" by (simp add: replacement_char_def)
  ultimately show ?thesis unfolding read_reply_def by (subst read_reply_loop.simps) (simp del: read_line.simps)
qed

section \<open>The connection limiter\<close>

record conn_limiter =
  cl_active :: nat
  cl_max :: nat

definition limiter_new :: "nat \<Rightarrow> conn_limiter" where
  "limiter_new m = \<lparr>cl_active = 0, cl_max = m\<rparr>"

text \<open>
  \<open>try_acquire\<close> is a loop of an atomic load and an atomic compare-exchange. A thread is before the load,
  between the two, refused, or holds a guard.
\<close>

datatype acquirer = Trying | Loaded nat | Refused | Holding

definition acquire_load :: "conn_limiter \<Rightarrow> acquirer" where
  "acquire_load l = (if cl_active l \<ge> cl_max l then Refused else Loaded (cl_active l))"

definition acquire_cas :: "nat \<Rightarrow> conn_limiter \<Rightarrow> acquirer \<times> conn_limiter" where
  "acquire_cas cur l =
     (if cl_active l = cur then (Holding, l\<lparr>cl_active := cur + 1\<rparr>) else (Trying, l))"

definition conn_guard_drop :: "conn_limiter \<Rightarrow> conn_limiter" where
  "conn_guard_drop l = l\<lparr>cl_active := cl_active l - 1\<rparr>"

type_synonym 't limiter_state = "conn_limiter \<times> ('t \<Rightarrow> acquirer)"

inductive limiter_step :: "'t limiter_state \<Rightarrow> 't limiter_state \<Rightarrow> bool" where
  step_load: "th t = Trying \<Longrightarrow> limiter_step (l, th) (l, th(t := acquire_load l))"
| step_cas: "th t = Loaded cur \<Longrightarrow> acquire_cas cur l = (a, l') \<Longrightarrow> limiter_step (l, th) (l', th(t := a))"
| step_drop: "th t = Holding \<Longrightarrow> limiter_step (l, th) (conn_guard_drop l, th(t := Trying))"
| step_retry: "th t = Refused \<Longrightarrow> limiter_step (l, th) (l, th(t := Trying))"

inductive_cases limiter_stepE: "limiter_step s s'"

definition holders :: "('t \<Rightarrow> acquirer) \<Rightarrow> 't set" where
  "holders th = {t. th t = Holding}"

definition limiter_inv :: "nat \<Rightarrow> 't limiter_state \<Rightarrow> bool" where
  "limiter_inv m s \<longleftrightarrow>
     cl_max (fst s) = m \<and> finite (holders (snd s)) \<and> cl_active (fst s) = card (holders (snd s)) \<and>
     cl_active (fst s) \<le> m \<and> (\<forall>t c. snd s t = Loaded c \<longrightarrow> c < m)"

lemma holders_upd:
  "holders (th(t := a)) = (if a = Holding then insert t (holders th) else holders th - {t})"
  "th t \<noteq> Holding \<Longrightarrow> holders th - {t} = holders th" "t \<in> holders th \<longleftrightarrow> th t = Holding"
  by (auto simp: holders_def)

lemma limiter_inv_step: "limiter_step s s' \<Longrightarrow> limiter_inv m s \<Longrightarrow> limiter_inv m s'"
proof (induction rule: limiter_step.induct)
  case (step_load th t l)
  then show ?case by (auto simp: limiter_inv_def holders_upd acquire_load_def)
next
  case (step_cas th t cur l a l')
  then show ?case
    by (auto simp: limiter_inv_def holders_upd acquire_cas_def Suc_le_eq split: if_splits)
next
  case (step_drop th t l)
  then have "t \<in> holders th" by (simp add: holders_upd)
  with step_drop show ?case
    by (auto simp: limiter_inv_def holders_upd conn_guard_drop_def card_Diff_singleton)
next
  case (step_retry th t l)
  then show ?case by (auto simp: limiter_inv_def holders_upd)
qed

text \<open>C20: Whatever the interleaving of the atomic operations of any number of connections, the limiter never
  lets more than its maximum hold a guard at once, its counter is the number of guards held, and a
  connection is refused only when that many guards are held.
\<close>

theorem limiter_bounds_connections:
  assumes "limiter_step\<^sup>*\<^sup>* (limiter_new m, \<lambda>_. Trying) (l, th)"
  shows "finite (holders th) \<and> card (holders th) \<le> m \<and> cl_active l = card (holders th) \<and>
    (acquire_load l = Refused \<longleftrightarrow> card (holders th) = m)"
proof -
  have "limiter_inv m (limiter_new m, \<lambda>_ :: 'a. Trying)" by (simp add: limiter_inv_def limiter_new_def holders_def)
  with assms have "limiter_inv m (l, th)"
    by (induction rule: rtranclp_induct) (auto intro: limiter_inv_step)
  then show ?thesis by (auto simp: limiter_inv_def acquire_load_def)
qed

lemma limiter_bounds_connections_witness:
  "card (holders ((\<lambda>_ :: nat. Trying)(0 := Holding))) \<le> 1"
proof -
  have "limiter_step (limiter_new 1, \<lambda>_ :: nat. Trying) (limiter_new 1, (\<lambda>_. Trying)(0 := Loaded 0))"
    using step_load [of "\<lambda>_ :: nat. Trying" 0 "limiter_new 1"] by (simp add: acquire_load_def limiter_new_def)
  moreover have "limiter_step (limiter_new 1, (\<lambda>_ :: nat. Trying)(0 := Loaded 0))
      (\<lparr>cl_active = 1, cl_max = 1\<rparr>, ((\<lambda>_. Trying)(0 := Loaded 0))(0 := Holding))"
    by (rule step_cas [where cur = 0]) (simp_all add: acquire_cas_def limiter_new_def)
  ultimately have "limiter_step\<^sup>*\<^sup>* (limiter_new 1, \<lambda>_ :: nat. Trying) (\<lparr>cl_active = 1, cl_max = 1\<rparr>, (\<lambda>_. Trying)(0 := Holding))"
    by (simp add: converse_rtranclp_into_rtranclp)
  from limiter_bounds_connections [OF this] show ?thesis by blast
qed

end
