(* ===== verification/Gw_Mx.thy ===== *)
theory Gw_Mx
  imports Gw_Inbound_Sound Gw_Net
begin

text \<open>
  The MX connection handler (\<open>gateway/src/inbound_tcp.rs\<close>): the loop that reads lines from a socket, answers
  EHLO and STARTTLS itself and feeds everything else to the session. The TLS handshake turns the rest of the
  plain stream into the decrypted one and is a parameter, as are the deadline and whether a write succeeds.
\<close>

record ('k, 'e, 'w) mx_io =
  io_lib :: "('k, 'e, 'w) inbound_lib"
  io_tls :: "(rd list \<Rightarrow> net_error + rd list) option"
  io_late :: "rd list \<Rightarrow> bool"
  io_can_write :: "string list \<Rightarrow> bool"

definition put :: "('k, 'e, 'w) mx_io \<Rightarrow> string \<Rightarrow> string list \<Rightarrow> net_error + string list" where
  "put io s out = (if io_can_write io out then Inr (out @ [s]) else Inl (OtherIo ''write failed''))"

record mx_conn =
  mc_session :: mx_session
  mc_in_data :: bool
  mc_secured :: bool
  mc_out :: "string list"

text \<open>What one line does: an error, the end of the loop, or another round on the stream given.\<close>

datatype mx_next = MxStop net_error "string list" | MxQuit "string list" | MxGo mx_conn "rd list"

definition go :: "mx_conn \<Rightarrow> rd list \<Rightarrow> net_error + string list \<Rightarrow> mx_next" where
  "go c rs r = (case r of Inl e \<Rightarrow> MxStop e (mc_out c) | Inr out \<Rightarrow> MxGo (c\<lparr>mc_out := out\<rparr>) rs)"

definition first_word :: "string \<Rightarrow> string" where
  "first_word line = hd (split_on (CHR '' '') line)"

definition handle_command ::
    "('k, 'e, 'w) mx_io \<Rightarrow> ('k, 'e, 'w) inbound_gateway \<Rightarrow> string \<Rightarrow> rd list \<Rightarrow> mx_conn \<Rightarrow> 'w \<Rightarrow> mx_next \<times> 'w" where
  "handle_command io gw line rs c w =
     (let verb = to_ascii_uppercase (first_word line); s = mc_session c in
      if verb = ''EHLO'' \<or> verb = ''HELO'' then
        ((if io_tls io \<noteq> None \<and> \<not> mc_secured c then
            go c rs (bindE (put io (''250-envoir-gateway at your service'' @ CRLF) (mc_out c)) (put io (''250 STARTTLS'' @ CRLF)))
          else go c rs (put io (''250 envoir-gateway at your service'' @ CRLF) (mc_out c))), w)
      else if verb = ''STARTTLS'' then
        (case (io_tls io, mc_secured c) of
           (Some upgrade, False) \<Rightarrow>
             (case put io (reply_wire (reply 220 ''2.0.0 ready to start TLS'')) (mc_out c) of
                Inl e \<Rightarrow> (MxStop e (mc_out c), w)
              | Inr out \<Rightarrow>
                  (case upgrade rs of
                     Inl e \<Rightarrow> (MxStop e out, w)
                   | Inr rs' \<Rightarrow>
                       (MxGo (c\<lparr>mc_out := out, mc_secured := True,
                                 mc_session := mx_session_new (mx_peer_ip s) (mx_now s)\<rparr>) rs', w)))
         | (Some _, True) \<Rightarrow> (go c rs (put io (reply_wire (reply 503 ''5.5.1 already secured'')) (mc_out c)), w)
         | (None, _) \<Rightarrow> (go c rs (put io (reply_wire (reply 502 ''5.5.1 STARTTLS not available'')) (mc_out c)), w))
      else if verb = ''QUIT'' then
        (let (r, s', w') = feed_line (io_lib io) gw ''QUIT'' s w in
         (case put io (reply_wire r) (mc_out c) of Inl e \<Rightarrow> MxStop e (mc_out c) | Inr out \<Rightarrow> MxQuit out, w'))
      else if verb = ''DATA'' then
        (let (r, s', w') = feed_line (io_lib io) gw ''DATA'' s w in
         (go (c\<lparr>mc_session := s', mc_in_data := (sr_code r = 354)\<rparr>) rs (put io (reply_wire r) (mc_out c)), w'))
      else
        (let (r, s', w') = feed_line (io_lib io) gw line s w in
         (go (c\<lparr>mc_session := s'\<rparr>) rs (put io (reply_wire r) (mc_out c)), w')))"

definition handle_line ::
    "('k, 'e, 'w) mx_io \<Rightarrow> ('k, 'e, 'w) inbound_gateway \<Rightarrow> bytes \<Rightarrow> rd list \<Rightarrow> mx_conn \<Rightarrow> 'w \<Rightarrow> mx_next \<times> 'w" where
  "handle_line io gw line rs c w =
     (if io_late io rs then
        (MxStop (TimedOut ''inbound MX transaction exceeded the max transaction duration'')
           (case put io (reply_wire (reply 421 ''4.4.2 transaction timed out, closing connection'')) (mc_out c) of
              Inl _ \<Rightarrow> mc_out c | Inr out \<Rightarrow> out), w)
      else if mc_in_data c then
        (let (r, s', w') = feed_line_bytes (io_lib io) gw line (mc_session c) w;
             c' = c\<lparr>mc_session := s'\<rparr> in
         if sr_code r \<noteq> 0 then (go (c'\<lparr>mc_in_data := False\<rparr>) rs (put io (reply_wire r) (mc_out c)), w')
         else (MxGo c' rs, w'))
      else handle_command io gw (from_utf8_lossy line) rs c w)"

lemma go_MxGo: "go c rs r = MxGo c' rs' \<Longrightarrow> rs' = rs \<and> mc_secured c' = mc_secured c"
  by (auto simp: go_def split: sum.splits)

lemma handle_line_progress:
  assumes "handle_line io gw line rs c w = (MxGo c' rs', w')"
  shows "rs' = rs \<and> mc_secured c' = mc_secured c \<or> \<not> mc_secured c \<and> mc_secured c'"
  using assms
  by (auto simp: handle_line_def handle_command_def Let_def split: if_splits prod.splits option.splits sum.splits bool.splits
      dest!: go_MxGo)

function mx_loop ::
    "('k, 'e, 'w) mx_io \<Rightarrow> ('k, 'e, 'w) inbound_gateway \<Rightarrow> rd list \<Rightarrow> mx_conn \<Rightarrow> 'w \<Rightarrow> (net_error + unit) \<times> string list \<times> 'w" where
  "mx_loop io gw rs c w =
     (case read_line [] rs of
        (Inl e, rs') \<Rightarrow> (Inl e, mc_out c, w)
      | (Inr None, rs') \<Rightarrow> (Inr (), mc_out c, w)
      | (Inr (Some line), rs') \<Rightarrow>
          (case handle_line io gw line rs' c w of
             (MxStop e out, w') \<Rightarrow> (Inl e, out, w')
           | (MxQuit out, w') \<Rightarrow> (Inr (), out, w')
           | (MxGo c' rs'', w') \<Rightarrow> mx_loop io gw rs'' c' w'))"
  by pat_completeness auto
termination
  by (relation "measures [\<lambda>(io, gw, rs, c, w). if mc_secured c then 0 else 1, \<lambda>(io, gw, rs, c, w). length rs]")
    (auto dest!: handle_line_progress [OF sym] read_line_shorter [OF sym])

definition handle_connection ::
    "('k, 'e, 'w) mx_io \<Rightarrow> ('k, 'e, 'w) inbound_gateway \<Rightarrow> string \<Rightarrow> u64 \<Rightarrow> rd list \<Rightarrow> 'w \<Rightarrow> (net_error + unit) \<times> string list \<times> 'w" where
  "handle_connection io gw peer_ip now rs w =
     (case put io (reply_wire greeting) [] of
        Inl e \<Rightarrow> (Inl e, [], w)
      | Inr out \<Rightarrow>
          mx_loop io gw rs \<lparr>mc_session = mx_session_new peer_ip now, mc_in_data = False, mc_secured = False, mc_out = out\<rparr> w)"

section \<open>Connections and their sessions\<close>

definition conn_start :: "string \<Rightarrow> u64 \<Rightarrow> string list \<Rightarrow> mx_conn" where
  "conn_start ip now out = \<lparr>mc_session = mx_session_new ip now, mc_in_data = False, mc_secured = False, mc_out = out\<rparr>"

inductive conn_reach :: "('k, 'e, 'w) mx_io \<Rightarrow> ('k, 'e, 'w) inbound_gateway \<Rightarrow> string \<Rightarrow> u64 \<Rightarrow> mx_conn \<Rightarrow> bool"
  for io gw ip now where
  conn_begin: "conn_reach io gw ip now (conn_start ip now out)"
| conn_line: "conn_reach io gw ip now c \<Longrightarrow> handle_line io gw line rs c w = (MxGo c' rs', w') \<Longrightarrow> conn_reach io gw ip now c'"

text \<open>The session never learns the HELO name: it only sees lines whose first word is another one.\<close>

lemma hd_split_on: "hd (split_on c s) = (case split_once c s of Some (a, b) \<Rightarrow> a | None \<Rightarrow> s)"
  by (induction s) (auto split: option.splits list.splits)

lemma feed_helo:
  assumes "mx_helo s = None"
    and "mx_phase s = Data \<or> from_utf8_lossy l = line \<and> to_ascii_uppercase (first_word line) \<notin> {''EHLO'', ''HELO''}"
  shows "mx_helo (fst (snd (feed_line_bytes L gw l s w))) = None"
proof (cases "mx_phase s = Data")
  case True
  with assms(1) show ?thesis
    by (simp add: feed_line_bytes_def feed_data_def reset_transaction_def append_line_def Let_def split: prod.split)
next
  case cmd: False
  with assms(2) have l: "from_utf8_lossy l = line" and n: "to_ascii_uppercase (first_word line) \<notin> {''EHLO'', ''HELO''}"
    by auto
  obtain v r where p: "parse_command line = (v, r)" by fastforce
  have h: "r = [] \<or> v \<notin> {''EHLO'', ''HELO''}"
    using p n by (auto simp: parse_command_def first_word_def hd_split_on split: option.splits)
  have m: "mx_helo (fst (snd (cmd_mail gw r s w))) = None"
    using assms(1) by (simp add: cmd_mail_def Let_def split: option.split prod.split abuse_decision.split sum.split)
  have c: "mx_helo (fst (snd (cmd_rcpt gw r s w))) = None"
    using assms(1) by (simp add: cmd_rcpt_def Let_def split: option.split prod.split sum.split)
  have d: "mx_helo (snd (cmd_data s)) = None"
    using assms(1) by (simp add: cmd_data_def)
  show ?thesis
  proof (cases "v = ''HELO'' \<or> v = ''EHLO''")
    case True
    with h have "r = []" by blast
    with True cmd show ?thesis by (simp add: feed_line_bytes_def l p Let_def)
  next
    case False
    then have "v \<noteq> ''HELO''" "v \<noteq> ''EHLO''" by blast+
    with m c d assms(1) cmd show ?thesis
      by (simp add: feed_line_bytes_def l p case_prod_beta reset_transaction_def)
  qed
qed

lemma feed_word_helo:
  assumes "mx_helo s = None" and "word \<in> {''QUIT'', ''DATA''}"
  shows "mx_helo (fst (snd (feed_line L gw word s w))) = None"
proof -
  have "is_str word" using assms(2) by (auto intro!: ascii_is_str)
  moreover have "to_ascii_uppercase (first_word word) \<notin> {''EHLO'', ''HELO''}"
    using assms(2) by (auto simp: first_word_def to_ascii_uppercase_def ascii_upper_def)
  ultimately show ?thesis
    unfolding feed_line_def using feed_helo [OF assms(1), of "as_bytes word" word] by (simp add: from_utf8_lossy_str)
qed

lemma accept_code: "sr_code (fst (accept_message_with_spf L gw mf rcpt data now spf w)) \<noteq> 0"
proof (cases rule: accept_cases [of L gw mf rcpt data now spf w])
  case (unwrapped dkim w1 w2 e w3)
  then show ?thesis using wrap_error_codes [of e] by auto
qed (simp_all add: reply_def)

text \<open>A line of the message keeps the session in the data phase exactly when it is not answered.\<close>

lemma feed_data_code:
  assumes "mx_phase s = Data" and "feed_line_bytes L gw l s w = (r, s', w')"
  shows "sr_code r = 0 \<longrightarrow> mx_phase s' = Data"
  using assms
  by (auto simp: accept_code feed_line_bytes_def feed_data_def append_line_def Let_def case_prod_beta reply_def split: if_splits)

lemma feed_DATA:
  assumes "feed_line L gw ''DATA'' s w = (r, s', w')" and "sr_code r = 354"
  shows "mx_phase s' = Data"
proof -
  have l: "from_utf8_lossy (as_bytes ''DATA'') = ''DATA''"
    by (rule from_utf8_lossy_str) (simp add: ascii_is_str)
  have p: "parse_command ''DATA'' = (''DATA'', [])"
    by (simp add: parse_command_def trim_graphic to_ascii_uppercase_def ascii_upper_def)
  have n: "as_bytes ''DATA'' \<noteq> [46]" by (simp add: as_bytes_def)
  show ?thesis
    using assms n
    by (auto simp: feed_line_def feed_line_bytes_def l p cmd_data_def feed_data_def append_line_def Let_def reply_def
        split: if_splits)
qed

definition conn_inv ::
    "('k, 'e, 'w) mx_io \<Rightarrow> ('k, 'e, 'w) inbound_gateway \<Rightarrow> string \<Rightarrow> u64 \<Rightarrow> mx_conn \<Rightarrow> bool" where
  "conn_inv io gw ip now c =
     (mx_reach (io_lib io) gw ip now (mc_session c) \<and> (mc_in_data c \<longrightarrow> mx_phase (mc_session c) = Data) \<and>
      mx_helo (mc_session c) = None)"


lemma go_same: "go c rs r = MxGo c' rs' \<Longrightarrow> \<exists>out. c' = c\<lparr>mc_out := out\<rparr>"
  by (auto simp: go_def split: sum.splits)

lemma conn_inv_feed:
  assumes "conn_inv io gw ip now c" and "feed_line_bytes (io_lib io) gw l (mc_session c) w = (r, s', w')"
    and "mx_helo s' = None" and "d \<longrightarrow> mx_phase s' = Data"
  shows "conn_inv io gw ip now (c\<lparr>mc_session := s', mc_in_data := d, mc_out := out\<rparr>)"
  using assms mx_reach.line by (fastforce simp: conn_inv_def)

lemma conn_inv_command:
  assumes "conn_inv io gw ip now c" and "mx_peer_ip (mc_session c) = ip" "mx_now (mc_session c) = now" "\<not> mc_in_data c"
    and "is_str line" and "handle_command io gw line rs c w = (MxGo c' rs', w')"
  shows "conn_inv io gw ip now c'"
proof -
  let ?v = "to_ascii_uppercase (first_word line)" and ?s = "mc_session c"
  have h: "mx_helo ?s = None" using assms(1) by (simp add: conn_inv_def)
  consider "?v = ''EHLO'' \<or> ?v = ''HELO''" | "?v = ''STARTTLS''" | "?v = ''QUIT''" | "?v = ''DATA''"
    | (other) "?v \<notin> {''EHLO'', ''HELO'', ''STARTTLS'', ''QUIT'', ''DATA''}" by auto
  then show ?thesis
  proof cases
    case 1
    with assms(1,6) show ?thesis
      by (auto simp: handle_command_def conn_inv_def split: if_splits dest!: go_same)
  next
    case 2
    have "mx_helo (mx_session_new ip now) = None" by (simp add: mx_session_new_def)
    with 2 assms(1,2,3,4,6) show ?thesis
      by (auto simp: handle_command_def Let_def conn_inv_def mx_reach.start
          split: if_splits option.splits bool.splits sum.splits dest!: go_same)
  next
    case 3
    with assms(6) show ?thesis by (auto simp: handle_command_def Let_def case_prod_beta split: sum.splits)
  next
    case 4
    obtain r s' w1 where f: "feed_line (io_lib io) gw ''DATA'' ?s w = (r, s', w1)" by (metis prod_cases3)
    with 4 assms(6) obtain out where "c' = c\<lparr>mc_session := s', mc_in_data := (sr_code r = 354), mc_out := out\<rparr>"
      by (auto simp: handle_command_def go_def split: sum.splits)
    moreover have "mx_helo s' = None" using feed_word_helo [OF h, of "''DATA''" "io_lib io" gw w] f by simp
    ultimately show ?thesis
      using conn_inv_feed [OF assms(1) f [unfolded feed_line_def]] feed_DATA [OF f] by blast
  next
    case other
    obtain r s' w1 where f: "feed_line (io_lib io) gw line ?s w = (r, s', w1)" by (metis prod_cases3)
    with other assms(6) obtain out where "c' = c\<lparr>mc_session := s', mc_out := out\<rparr>"
      by (auto simp: handle_command_def go_def split: sum.splits)
    moreover have "mx_helo s' = None"
      using feed_helo [OF h, of "as_bytes line" line "io_lib io" gw w] f other assms(5)
      by (simp add: from_utf8_lossy_str feed_line_def)
    ultimately show ?thesis
      using conn_inv_feed [OF assms(1) f [unfolded feed_line_def], of False out] assms(4) by (simp add: conn_inv_def)
  qed
qed

lemma feed_fixed:
  "mx_peer_ip (fst (snd (feed_line_bytes L gw l s w))) = mx_peer_ip s \<and>
   mx_now (fst (snd (feed_line_bytes L gw l s w))) = mx_now s"
proof -
  have a: "mx_peer_ip (fst (snd (cmd_mail gw r s w))) = mx_peer_ip s \<and> mx_now (fst (snd (cmd_mail gw r s w))) = mx_now s" for r
    by (simp add: cmd_mail_def Let_def split: option.split prod.split abuse_decision.split sum.split)
  have b: "mx_peer_ip (fst (snd (cmd_rcpt gw r s w))) = mx_peer_ip s \<and> mx_now (fst (snd (cmd_rcpt gw r s w))) = mx_now s" for r
    by (simp add: cmd_rcpt_def Let_def split: option.split prod.split sum.split)
  have c: "mx_peer_ip (snd (cmd_data s)) = mx_peer_ip s \<and> mx_now (snd (cmd_data s)) = mx_now s"
    by (simp add: cmd_data_def)
  have d: "mx_peer_ip (fst (snd (feed_data L gw l s w))) = mx_peer_ip s \<and> mx_now (fst (snd (feed_data L gw l s w))) = mx_now s"
    by (simp add: feed_data_def reset_transaction_def append_line_def Let_def case_prod_beta)
  obtain v r where p: "parse_command (from_utf8_lossy l) = (v, r)" by fastforce
  show ?thesis
    using a [of r] b [of r] c d by (simp add: feed_line_bytes_def p reset_transaction_def Let_def case_prod_beta)
qed

lemma mx_reach_fixed: "mx_reach L gw ip now s \<Longrightarrow> mx_peer_ip s = ip \<and> mx_now s = now"
proof (induction rule: mx_reach.induct)
  case start
  show ?case by (simp add: mx_session_new_def)
next
  case (line s l w r s' w')
  then show ?case using feed_fixed [of L gw l s w] by simp
qed

lemma conn_inv_line:
  assumes "conn_inv io gw ip now c" and "handle_line io gw l rs c w = (MxGo c' rs', w')"
  shows "conn_inv io gw ip now c'"
proof -
  have f: "mx_peer_ip (mc_session c) = ip" "mx_now (mc_session c) = now"
    using assms(1) mx_reach_fixed [of "io_lib io" gw ip now "mc_session c"] by (simp_all add: conn_inv_def)
  have late: "\<not> io_late io rs" using assms(2) by (auto simp: handle_line_def split: sum.splits)
  show ?thesis
  proof (cases "mc_in_data c")
    case False
    then show ?thesis
      using late assms f conn_inv_command [OF assms(1) f False is_str_from_utf8_lossy] by (simp add: handle_line_def)
  next
    case True
    then have d: "mx_phase (mc_session c) = Data" "mx_helo (mc_session c) = None"
      using assms(1) by (auto simp: conn_inv_def)
    obtain r s' w1 where g: "feed_line_bytes (io_lib io) gw l (mc_session c) w = (r, s', w1)" by (metis prod_cases3)
    with True late assms(2) have "\<exists>out. c' = c\<lparr>mc_session := s', mc_in_data := (sr_code r = 0), mc_out := out\<rparr>"
      by (cases c; cases "sr_code r = 0") (auto simp: handle_line_def Let_def dest!: go_same)
    then obtain out where "c' = c\<lparr>mc_session := s', mc_in_data := (sr_code r = 0), mc_out := out\<rparr>" ..
    moreover have "mx_helo s' = None" using feed_helo [OF d(2), of l "[]" "io_lib io" gw w] d(1) g by simp
    ultimately show ?thesis using conn_inv_feed [OF assms(1) g] feed_data_code [OF d(1) g] by simp
  qed
qed

lemma conn_reach_inv: "conn_reach io gw ip now c \<Longrightarrow> conn_inv io gw ip now c"
proof (induction rule: conn_reach.induct)
  case (conn_begin out)
  show ?case by (simp add: conn_inv_def conn_start_def mx_reach.start) (simp add: mx_session_new_def)
qed (rule conn_inv_line)

text \<open>C18: The connection handler keeps its session honest: in every connection it can reach, its session is one
  the session machine reaches for this peer and this clock, so all that holds of reachable sessions holds of
  the wire; while the handler takes lines as message content, the session is in its data phase; and the
  session has no HELO name, because the handler answers EHLO itself and never passes it on.
\<close>

theorem mx_connection_invariant:
  assumes "conn_reach io gw ip now c"
  shows "mx_reach (io_lib io) gw ip now (mc_session c) \<and> (mc_in_data c \<longrightarrow> mx_phase (mc_session c) = Data) \<and>
    mx_helo (mc_session c) = None"
  using conn_reach_inv [OF assms] by (simp add: conn_inv_def)

definition demo_io :: "(u8, bytes, unit) mx_io" where
  "demo_io = \<lparr>io_lib = demo_lib, io_tls = None, io_late = \<lambda>rs. False, io_can_write = \<lambda>out. True\<rparr>"

lemma mx_connection_invariant_witness:
  "\<exists>c w'. handle_line demo_io demo_gateway (as_bytes ''EHLO a'') [] (conn_start ''ip'' 0 []) () = (MxGo c [], w') \<and>
     mc_out c = [''250 envoir-gateway at your service'' @ CRLF] \<and> mx_helo (mc_session c) = None"
proof -
  have l: "from_utf8_lossy (as_bytes ''EHLO a'') = ''EHLO a''"
    by (rule from_utf8_lossy_str) (simp add: ascii_is_str)
  have "to_ascii_uppercase (first_word ''EHLO a'') = ''EHLO''"
    by (simp add: first_word_def to_ascii_uppercase_def ascii_upper_def)
  then have h: "handle_line demo_io demo_gateway (as_bytes ''EHLO a'') [] (conn_start ''ip'' 0 []) () =
      (MxGo ((conn_start ''ip'' 0 [])\<lparr>mc_out := [''250 envoir-gateway at your service'' @ CRLF]\<rparr>) [], ())"
    by (simp add: handle_line_def handle_command_def l demo_io_def conn_start_def go_def put_def)
  from mx_connection_invariant [OF conn_line [OF conn_begin h]] h show ?thesis by simp
qed

end
