(* ===== verification/Gw_Dial.thy ===== *)
theory Gw_Dial
  imports Gw_Spf_Sound Gw_Net
begin

text \<open>
  Where the gateway may connect to (\<open>gateway/src/outbound_tcp.rs\<close>): the addresses that a name under a
  stranger's control must not lead to, and the choice of the first other address. Name resolution is a
  parameter.
\<close>

type_synonym sock_addr = "ip_addr \<times> u16"

definition octet :: "nat \<Rightarrow> u32 \<Rightarrow> u8" where
  "octet i a = ucast (drop_bit (24 - 8 * i) a)"

definition v4_is_loopback :: "u32 \<Rightarrow> bool" where
  "v4_is_loopback a = (octet 0 a = 127)"

definition v4_is_private :: "u32 \<Rightarrow> bool" where
  "v4_is_private a =
     (octet 0 a = 10 \<or> octet 0 a = 172 \<and> 16 \<le> octet 1 a \<and> octet 1 a \<le> 31 \<or> octet 0 a = 192 \<and> octet 1 a = 168)"

definition v4_is_link_local :: "u32 \<Rightarrow> bool" where
  "v4_is_link_local a = (octet 0 a = 169 \<and> octet 1 a = 254)"

definition is_forbidden_v4 :: "u32 \<Rightarrow> bool" where
  "is_forbidden_v4 v4 =
     (v4_is_loopback v4 \<or> v4_is_private v4 \<or> v4_is_link_local v4 \<or> v4 = 0 \<or> v4 = 0xFFFFFFFF \<or> octet 0 v4 = 0)"

definition seg0 :: "u128 \<Rightarrow> u16" where
  "seg0 a = ucast (drop_bit 112 a)"

unbundle bit_operations_syntax

definition is_forbidden_v6 :: "u128 \<Rightarrow> bool" where
  "is_forbidden_v6 v6 =
     (v6 = 1 \<or> v6 = 0 \<or> seg0 v6 AND 0xFFC0 = 0xFE80 \<or> seg0 v6 AND 0xFE00 = 0xFC00)"

definition to_ipv4_mapped :: "u128 \<Rightarrow> u32 option" where
  "to_ipv4_mapped v6 = (if drop_bit 32 v6 = 0xFFFF then Some (ucast v6) else None)"

definition is_forbidden_dest_ip :: "ip_addr \<Rightarrow> bool" where
  "is_forbidden_dest_ip ip =
     (case ip of
        V4 v4 \<Rightarrow> is_forbidden_v4 v4
      | V6 v6 \<Rightarrow> (case to_ipv4_mapped v6 of Some mapped \<Rightarrow> is_forbidden_v4 mapped | None \<Rightarrow> is_forbidden_v6 v6))"

text \<open>The loop over the resolved addresses, with what it says when it finds none.\<close>

fun first_allowed :: "net_error \<Rightarrow> net_error \<Rightarrow> bool \<Rightarrow> sock_addr list \<Rightarrow> net_error + sock_addr" where
  "first_allowed refused none resolved_any [] = Inl (if resolved_any then refused else none)"
| "first_allowed refused none resolved_any (addr # addrs) =
     (if \<not> is_forbidden_dest_ip (fst addr) then Inr addr else first_allowed refused none True addrs)"

lemma first_allowed_Inr: "first_allowed r n b addrs = Inr a \<Longrightarrow> a \<in> set addrs \<and> \<not> is_forbidden_dest_ip (fst a)"
  by (induction r n b addrs rule: first_allowed.induct) (auto split: if_splits)

lemma first_allowed_Inl: "first_allowed r n b addrs = Inl e \<Longrightarrow> \<forall>a \<in> set addrs. is_forbidden_dest_ip (fst a)"
  by (induction r n b addrs rule: first_allowed.induct) (auto split: if_splits)

section \<open>The forbidden blocks\<close>

definition forbidden_blocks :: "(u32 \<times> u8) list" where
  "forbidden_blocks =
     [(0x7F000000, 8), (0x0A000000, 8), (0xAC100000, 12), (0xC0A80000, 16), (0xA9FE0000, 16), (0, 8), (0xFFFFFFFF, 32)]"

definition forbidden_blocks6 :: "(u128 \<times> u8) list" where
  "forbidden_blocks6 = [(1, 128), (0, 128), (0xFE80 * 2 ^ 112, 10), (0xFC00 * 2 ^ 112, 7)]"

lemma unat_shift: "unat (drop_bit n (a :: 'a::len word)) = unat a div 2 ^ n"
  by (simp only: unat_drop_bit_eq) (simp only: drop_bit_eq_div)

lemma octet_nat: "unat (octet 0 a) = unat a div 2 ^ 24" "unat (octet 1 a) = unat a div 2 ^ 16 mod 256"
proof -
  have "unat a < 2 ^ 32" using unsigned_less [of a] by simp
  then have "unat a div 2 ^ 24 < 256" by simp
  then show "unat (octet 0 a) = unat a div 2 ^ 24"
    by (simp add: octet_def unsigned_ucast_eq unat_shift take_bit_eq_mod)
  show "unat (octet 1 a) = unat a div 2 ^ 16 mod 256"
    by (simp add: octet_def unsigned_ucast_eq unat_shift take_bit_eq_mod)
qed

lemma cidr4_nat:
  "unat c \<le> 32 \<Longrightarrow> ipv4_in_cidr a net c \<longleftrightarrow> unat a div 2 ^ (32 - unat c) = unat net div 2 ^ (32 - unat c)"
  by (simp only: ipv4_cidr_prefix min.absorb1 word_unat_eq_iff unat_shift)

lemma octet_eq: "octet 0 a = n \<longleftrightarrow> unat a div 2 ^ 24 = unat n" "octet 1 a = m \<longleftrightarrow> unat a div 2 ^ 16 mod 256 = unat m"
  by (simp_all only: word_unat_eq_iff octet_nat)

lemma nat_div_eq: "0 < k \<Longrightarrow> q div k = n \<longleftrightarrow> k * n \<le> q \<and> q < k * n + k" for q :: nat
  by (metis add.commute div_nat_eqI dividend_less_times_div mult.commute mult_Suc_right times_div_less_eq_dividend)

lemma div_mod_eq: "q div n = a \<and> q mod n = b \<Longrightarrow> q = n * a + b" for q :: nat
  by auto

lemma private_172:
  fixes h k l m :: nat
  assumes "k = 16 * h + m" and "m < 16" and "m = 1 \<longleftrightarrow> 16 \<le> l \<and> l \<le> 31"
  shows "h = 172 \<and> 16 \<le> l \<and> l \<le> 31 \<longleftrightarrow> k = 2753"
proof
  assume "k = 2753"
  with assms(1,2) have h: "h = 172" by linarith
  with assms(1) \<open>k = 2753\<close> have "m = 1" by simp
  with assms(3) h show "h = 172 \<and> 16 \<le> l \<and> l \<le> 31" by blast
qed (use assms in auto)

lemma forbidden_v4_blocks: "is_forbidden_v4 a \<longleftrightarrow> list_ex (\<lambda>(net, c). ipv4_in_cidr a net c) forbidden_blocks"
proof -
  define q where "q = unat a div 2 ^ 16"
  have q: "unat a div 2 ^ 24 = q div 256" "unat a div 2 ^ 20 = q div 16"
    by (simp_all add: q_def div_mult2_eq [symmetric])
  have h: "q = 256 * (q div 256) + q mod 256" "q mod 256 < 256" by simp_all
  have "q div 16 = (16 * (16 * (q div 256)) + q mod 256) div 16" by simp
  then have "q div 16 = 16 * (q div 256) + q mod 256 div 16" by (simp only: div_mult_self4 zero_neq_numeral simp_thms)
  moreover have "q mod 256 div 16 < 16" using h(2) by simp
  ultimately have x: "q div 256 = 172 \<and> 16 \<le> q mod 256 \<and> q mod 256 \<le> 31 \<longleftrightarrow> q div 16 = 2753"
    by (rule private_172) (use nat_div_eq [of 16 "q mod 256" 1] in auto)
  have y: "q div 256 = 192 \<and> q mod 256 = 168 \<longleftrightarrow> q = 49320" "q div 256 = 169 \<and> q mod 256 = 254 \<longleftrightarrow> q = 43518"
    using div_mod_eq [of q 256 192 168] div_mod_eq [of q 256 169 254] by auto
  note d = q [unfolded q_def] x [unfolded q_def] y [unfolded q_def]
  have e: "a = 4294967295 \<longleftrightarrow> unat a = 4294967295" "a = 0 \<Longrightarrow> unat a div 65536 div 256 = 0"
    by (simp_all add: word_unat_eq_iff)
  show ?thesis
    using d e
    by (simp add: is_forbidden_v4_def v4_is_loopback_def v4_is_private_def v4_is_link_local_def
        octet_eq octet_eq(2) [unfolded One_nat_def] octet_nat(2) [unfolded One_nat_def]
        word_le_nat_alt octet_nat forbidden_blocks_def cidr4_nat)
      (use e(2) in metis)
qed

lemma seg0_prefix:
  "k \<le> 16 \<Longrightarrow> seg0 b AND NOT (mask k) = n AND NOT (mask k) \<longleftrightarrow> unat b div 2 ^ (112 + k) = unat n div 2 ^ k"
proof -
  have "unat b < 2 ^ 128" using unsigned_less [of b] by simp
  then have "unat b div 2 ^ 112 < 2 ^ 16" by (simp add: less_mult_imp_div_less)
  then have "unat (seg0 b) = unat b div 2 ^ 112"
    by (simp add: seg0_def unsigned_ucast_eq unat_shift take_bit_eq_mod)
  then show ?thesis
    by (simp only: prefix_mask) (simp only: word_unat_eq_iff unat_shift div_mult2_eq power_add)
qed

lemma cidr6_nat:
  "unat c \<le> 128 \<Longrightarrow> ipv6_in_cidr a net c \<longleftrightarrow> unat a div 2 ^ (128 - unat c) = unat net div 2 ^ (128 - unat c)"
  by (simp only: ipv6_cidr_prefix min.absorb1 word_unat_eq_iff unat_shift)

lemma forbidden_v6_blocks: "is_forbidden_v6 b \<longleftrightarrow> list_ex (\<lambda>(net, c). ipv6_in_cidr b net c) forbidden_blocks6"
proof -
  have m: "(0xFFC0 :: u16) = NOT (mask 6)" "(0xFE00 :: u16) = NOT (mask 9)"
    "(0xFE80 :: u16) = 0xFE80 AND NOT (mask 6)" "(0xFC00 :: u16) = 0xFC00 AND NOT (mask 9)"
    by (simp_all add: mask_eq_exp_minus_1)
  have s: "seg0 b AND 0xFFC0 = 0xFE80 \<longleftrightarrow> unat b div 2 ^ 118 = 1018"
    "seg0 b AND 0xFE00 = 0xFC00 \<longleftrightarrow> unat b div 2 ^ 121 = 126"
    using seg0_prefix [of 6 b "0xFE80"] seg0_prefix [of 9 b "0xFC00"] unfolding m(1,2) m(3,4) [symmetric] by simp_all
  show ?thesis
    by (simp add: is_forbidden_v6_def s forbidden_blocks6_def cidr6_nat word_unat_eq_iff [of b])
qed

lemma mapped_block: "drop_bit 32 b = (0xFFFF :: u128) \<longleftrightarrow> ipv6_in_cidr b 0xFFFF00000000 96"
  by (simp add: ipv6_cidr_prefix)

text \<open>C27: The destinations a delivery refuses are exactly the blocks its documentation names: an IPv4 address,
  plain or mapped into IPv6, is refused if and only if it lies in 127/8, 10/8, 172.16/12, 192.168/16,
  169.254/16, 0/8 or is the broadcast address; any other IPv6 address if and only if it is \<open>::1\<close>, \<open>::\<close> or lies
  in fe80::/10 or fc00::/7.
\<close>

theorem forbidden_destinations:
  "is_forbidden_dest_ip ip \<longleftrightarrow>
     (case ip of
        V4 a \<Rightarrow> list_ex (\<lambda>(net, c). ipv4_in_cidr a net c) forbidden_blocks
      | V6 b \<Rightarrow>
          if ipv6_in_cidr b 0xFFFF00000000 96 then list_ex (\<lambda>(net, c). ipv4_in_cidr (ucast b) net c) forbidden_blocks
          else list_ex (\<lambda>(net, c). ipv6_in_cidr b net c) forbidden_blocks6)"
  by (auto simp: is_forbidden_dest_ip_def to_ipv4_mapped_def mapped_block forbidden_v4_blocks forbidden_v6_blocks
      split: ip_addr.split)

end
