(* ===== verification/Gw_Mta_Sts.thy ===== *)
theory Gw_Mta_Sts
  imports Gw_Dial Gw_Dmarc
begin

text \<open>
  MTA-STS (\<open>gateway/src/mta_sts.rs\<close>): the policy parser, the matching of mail host names against the
  policy's patterns, the discovery of a policy and the TLS requirement it gives. The TXT resolver, the HTTPS
  exchange and name resolution are parameters; a fetch threads the state of the world.
\<close>

section \<open>Policies\<close>

datatype policy_mode = StsEnforce | StsTesting | StsNone

record sts_policy =
  sp_mode :: policy_mode
  sp_mx_patterns :: "string list"
  sp_max_age :: u64

datatype sts_parse_error =
  MalformedLine | MissingVersion | UnsupportedVersion string | MissingMode | UnknownMode string | NoMxPatterns

record sts_state =
  ss_version :: "string option"
  ss_mode :: "policy_mode option"
  ss_mx_patterns :: "string list"
  ss_max_age :: "u64 option"

definition sts_start :: sts_state where
  "sts_start = \<lparr>ss_version = None, ss_mode = None, ss_mx_patterns = [], ss_max_age = None\<rparr>"

definition parse_sts_mode :: "string \<Rightarrow> sts_parse_error + policy_mode" where
  "parse_sts_mode v =
     (if v = ''enforce'' then Inr StsEnforce
      else if v = ''testing'' then Inr StsTesting
      else if v = ''none'' then Inr StsNone
      else Inl (UnknownMode v))"

definition sts_field :: "string \<Rightarrow> string \<Rightarrow> sts_state \<Rightarrow> sts_parse_error + sts_state" where
  "sts_field key v st =
     (if key = ''version'' then Inr (st\<lparr>ss_version := Some v\<rparr>)
      else if key = ''mode'' then bindE (parse_sts_mode v) (\<lambda>m. Inr (st\<lparr>ss_mode := Some m\<rparr>))
      else if key = ''mx'' then Inr (st\<lparr>ss_mx_patterns := ss_mx_patterns st @ [v]\<rparr>)
      else if key = ''max_age'' then Inr (st\<lparr>ss_max_age := map_option of_nat (parse_uint (2 ^ 64 - 1) v)\<rparr>)
      else Inr st)"

definition sts_line :: "string \<Rightarrow> sts_state \<Rightarrow> sts_parse_error + sts_state" where
  "sts_line raw st =
     (let line = trim raw in
      if line = [] then Inr st
      else case split_once (CHR '':'') line of
        None \<Rightarrow> Inl MalformedLine
      | Some (key, v) \<Rightarrow> sts_field (trim key) (trim v) st)"

fun sts_lines :: "string list \<Rightarrow> sts_state \<Rightarrow> sts_parse_error + sts_state" where
  "sts_lines [] st = Inr st"
| "sts_lines (l # ls) st = bindE (sts_line l st) (sts_lines ls)"

definition parse_policy :: "string \<Rightarrow> sts_parse_error + sts_policy" where
  "parse_policy text =
     bindE (sts_lines (str_lines text) sts_start) (\<lambda>st.
     bindE (ok_or MissingVersion (ss_version st)) (\<lambda>version.
     if version \<noteq> ''STSv1'' then Inl (UnsupportedVersion version)
     else bindE (ok_or MissingMode (ss_mode st)) (\<lambda>mode.
       if mode \<noteq> StsNone \<and> ss_mx_patterns st = [] then Inl NoMxPatterns
       else Inr \<lparr>sp_mode = mode, sp_mx_patterns = ss_mx_patterns st,
                 sp_max_age = (case ss_max_age st of Some n \<Rightarrow> n | None \<Rightarrow> 86400)\<rparr>)))"

section \<open>Patterns\<close>

definition bare_host :: "string \<Rightarrow> string" where
  "bare_host s = trim_end_char (CHR ''.'') (trim s)"

definition mx_pattern_matches :: "string \<Rightarrow> string \<Rightarrow> bool" where
  "mx_pattern_matches pattern0 host0 =
     (let pattern = bare_host pattern0; host = bare_host host0 in
      case strip_prefix ''*.'' pattern of
        Some suf \<Rightarrow>
          (case strip_suffix (CHR ''.'' # to_ascii_lowercase suf) (to_ascii_lowercase host) of
             Some pre \<Rightarrow> pre \<noteq> [] \<and> CHR ''.'' \<notin> set pre
           | None \<Rightarrow> False)
      | None \<Rightarrow> eq_ignore_ascii_case pattern host)"

definition any_pattern_matches :: "string list \<Rightarrow> string \<Rightarrow> bool" where
  "any_pattern_matches patterns host = list_ex (\<lambda>p. mx_pattern_matches p host) patterns"

section \<open>Resolvers and fetchers\<close>

type_synonym 'w policy_fetcher = "string \<Rightarrow> 'w \<Rightarrow> string option \<times> 'w"

type_synonym in_memory_txt = "string \<rightharpoonup> string list"

type_synonym in_memory_policies = "string \<rightharpoonup> string"

definition sts_with_txt :: "string \<Rightarrow> string list \<Rightarrow> in_memory_txt \<Rightarrow> in_memory_txt" where
  "sts_with_txt name vs m = m(to_ascii_lowercase name \<mapsto> vs)"

definition sts_lookup_txt :: "in_memory_txt \<Rightarrow> 'w txt_resolver" where
  "sts_lookup_txt m name w = ((case m (to_ascii_lowercase name) of Some vs \<Rightarrow> vs | None \<Rightarrow> []), w)"

definition with_policy :: "string \<Rightarrow> string \<Rightarrow> in_memory_policies \<Rightarrow> in_memory_policies" where
  "with_policy domain body m = m(to_ascii_lowercase domain \<mapsto> body)"

definition im_fetch_policy :: "in_memory_policies \<Rightarrow> 'w policy_fetcher" where
  "im_fetch_policy m domain w = (m (to_ascii_lowercase domain), w)"

definition sts_dns_lookup_txt :: "'w dns_client \<Rightarrow> 'w txt_resolver" where
  "sts_dns_lookup_txt client name w =
     (case client name TYPE_TXT w of
        (Inr (packet, msg), w') \<Rightarrow> (map parse_txt_rdata (rrs_of TYPE_TXT msg), w')
      | (Inl _, w') \<Rightarrow> ([], w'))"

definition sts_refusal :: "string \<Rightarrow> string" where
  "sts_refusal host =
     ''refusing to fetch MTA-STS policy from '' @ host @ '': it resolves only to disallowed '' @
     ''(loopback/private/link-local/unique-local/unspecified/broadcast) addresses''"

definition resolve_addr :: "(string \<Rightarrow> u16 \<Rightarrow> net_error + sock_addr list) \<Rightarrow> string \<Rightarrow> net_error + sock_addr" where
  "resolve_addr resolve host =
     bindE (resolve host 443) (first_allowed (PermissionDenied (sts_refusal host)) (NotFound ''no address for mta-sts host'') False)"

text \<open>Connecting, the handshake with the server of the given name, sending the request and reading to the end
  of the stream are one parameter.\<close>

definition sts_request :: "string \<Rightarrow> string" where
  "sts_request host =
     ''GET /.well-known/mta-sts.txt HTTP/1.1'' @ CRLF @ ''Host: '' @ host @ CRLF @ ''Connection: close'' @ CRLF @
     ''User-Agent: envoir-gateway'' @ CRLF @ CRLF"

definition http_body :: "bytes \<Rightarrow> net_error + string" where
  "http_body response =
     (let text = from_utf8_lossy response in
      case find_blank_line text of
        None \<Rightarrow> Inl (net_error.InvalidData ''no HTTP header/body split'')
      | Some i \<Rightarrow>
          let status_line = (case str_lines (take i text) of l # _ \<Rightarrow> l | [] \<Rightarrow> []);
              words = split_whitespace status_line in
          if 1 < length words \<and> starts_with ''2'' (words ! 1) then Inr (drop (i + 4) text)
          else Inl (OtherIo (''non-2xx MTA-STS policy fetch: '' @ status_line)))"

definition https_fetch ::
    "(string \<Rightarrow> u16 \<Rightarrow> net_error + sock_addr list) \<Rightarrow> (sock_addr \<Rightarrow> string \<Rightarrow> string \<Rightarrow> net_error + bytes)
      \<Rightarrow> string \<Rightarrow> net_error + string" where
  "https_fetch resolve exchange domain =
     (let host = ''mta-sts.'' @ domain in
      bindE (resolve_addr resolve host) (\<lambda>addr.
      bindE (exchange addr host (sts_request host)) http_body))"

definition https_fetch_policy ::
    "(string \<Rightarrow> u16 \<Rightarrow> net_error + sock_addr list) \<Rightarrow> (sock_addr \<Rightarrow> string \<Rightarrow> string \<Rightarrow> net_error + bytes)
      \<Rightarrow> string \<Rightarrow> string option" where
  "https_fetch_policy resolve exchange domain =
     (case https_fetch resolve exchange domain of Inr body \<Rightarrow> Some body | Inl _ \<Rightarrow> None)"

section \<open>The TLS requirement\<close>

datatype tls_requirement = TlsRequired | TlsOpportunistic

record 'w tls_policy =
  tp_requirement_for :: "string \<Rightarrow> 'w \<Rightarrow> tls_requirement \<times> 'w"
  tp_allowed_mx_patterns :: "string \<Rightarrow> 'w \<Rightarrow> string list \<times> 'w"

definition always_require_tls :: "'w tls_policy" where
  "always_require_tls = \<lparr>tp_requirement_for = \<lambda>d w. (TlsRequired, w), tp_allowed_mx_patterns = \<lambda>d w. ([], w)\<rparr>"

definition sts_resolve :: "'w txt_resolver \<Rightarrow> 'w policy_fetcher \<Rightarrow> string \<Rightarrow> 'w \<Rightarrow> sts_policy option \<times> 'w" where
  "sts_resolve txt fetcher domain w =
     (let (vs, w1) = txt (''_mta-sts.'' @ domain) w in
      if \<not> list_ex (\<lambda>v. starts_with ''v=STSv1'' (trim_start v)) vs then (None, w1)
      else case fetcher domain w1 of
        (None, w2) \<Rightarrow> (None, w2)
      | (Some body, w2) \<Rightarrow> (case parse_policy body of Inr p \<Rightarrow> Some p | Inl _ \<Rightarrow> None, w2))"

definition sts_requirement_for :: "'w txt_resolver \<Rightarrow> 'w policy_fetcher \<Rightarrow> string \<Rightarrow> 'w \<Rightarrow> tls_requirement \<times> 'w" where
  "sts_requirement_for txt fetcher domain w =
     (case sts_resolve txt fetcher domain w of
        (Some p, w') \<Rightarrow> (if sp_mode p = StsEnforce then TlsRequired else TlsOpportunistic, w')
      | (None, w') \<Rightarrow> (TlsOpportunistic, w'))"

definition sts_allowed_mx_patterns :: "'w txt_resolver \<Rightarrow> 'w policy_fetcher \<Rightarrow> string \<Rightarrow> 'w \<Rightarrow> string list \<times> 'w" where
  "sts_allowed_mx_patterns txt fetcher domain w =
     (case sts_resolve txt fetcher domain w of
        (Some p, w') \<Rightarrow> (if sp_mode p = StsEnforce then sp_mx_patterns p else [], w')
      | (None, w') \<Rightarrow> ([], w'))"

definition mta_sts_tls_policy :: "'w txt_resolver \<Rightarrow> 'w policy_fetcher \<Rightarrow> 'w tls_policy" where
  "mta_sts_tls_policy txt fetcher =
     \<lparr>tp_requirement_for = sts_requirement_for txt fetcher,
      tp_allowed_mx_patterns = sts_allowed_mx_patterns txt fetcher\<rparr>"

end
