(* ===== verification/Gw_Smtp_Client.thy ===== *)
theory Gw_Smtp_Client
  imports Gw_Mta_Sts
begin

text \<open>
  The SMTP client (\<open>gateway/src/outbound_tcp.rs\<close>): one delivery over a connection, with STARTTLS. The peer is
  what successive reads return; the client's state holds the address it dialed, the rest of that stream,
  whether the stream is encrypted, and every byte sent so far with the protection it was sent under. Name
  resolution, connecting, the TLS handshake and the point at which a write fails are parameters. A panic is
  \<open>None\<close>; the state is kept.
\<close>

datatype transport_result =
    TrDelivered u16
  | TrTransient u16 string
  | TrPermanent u16 string
  | TlsUnavailable

datatype transport_abort = AbortIo net_error | AbortTls | AbortPermanent u16 string

record smtp_transport =
  st_ehlo_name :: string
  st_port :: u16
  st_fixed_addr :: "sock_addr option"

record client_env =
  ce_idna :: "string \<Rightarrow> string + string"
  ce_idn_text :: "idn_error \<Rightarrow> string"
  ce_resolve :: "string \<Rightarrow> u16 \<Rightarrow> net_error + sock_addr list"
  ce_connect :: "sock_addr \<Rightarrow> net_error + rd list"
  ce_upgrade :: "string \<Rightarrow> rd list \<Rightarrow> net_error + rd list"
  ce_write :: "(bool \<times> u8) list \<Rightarrow> bytes \<Rightarrow> nat option"

record client_state =
  cs_dialed :: "sock_addr option"
  cs_in :: "rd list"
  cs_tls :: bool
  cs_out :: "(bool \<times> u8) list"

type_synonym 'a client = "client_state \<Rightarrow> (transport_abort + 'a) option \<times> client_state"

definition retC :: "'a \<Rightarrow> 'a client" where
  "retC a s = (Some (Inr a), s)"

definition failC :: "transport_abort \<Rightarrow> 'a client" where
  "failC e s = (Some (Inl e), s)"

definition panicC :: "'a client" where
  "panicC s = (None, s)"

definition bindC :: "'a client \<Rightarrow> ('a \<Rightarrow> 'b client) \<Rightarrow> 'b client" where
  "bindC m f s =
     (case m s of
        (Some (Inr a), s') \<Rightarrow> f a s'
      | (Some (Inl e), s') \<Rightarrow> (Some (Inl e), s')
      | (None, s') \<Rightarrow> (None, s'))"

definition liftC :: "transport_abort + 'a \<Rightarrow> 'a client" where
  "liftC r = (case r of Inl e \<Rightarrow> failC e | Inr a \<Rightarrow> retC a)"

definition ioC :: "net_error + 'a \<Rightarrow> 'a client" where
  "ioC r = liftC (map_err AbortIo r)"

section \<open>Bytes on the connection\<close>

definition smtp_write :: "client_env \<Rightarrow> bytes \<Rightarrow> unit client" where
  "smtp_write E bs s =
     (case ce_write E (cs_out s) bs of
        None \<Rightarrow> (Some (Inr ()), s\<lparr>cs_out := cs_out s @ map (Pair (cs_tls s)) bs\<rparr>)
      | Some k \<Rightarrow> (Some (Inl (AbortIo (OtherIo ''write failed''))), s\<lparr>cs_out := cs_out s @ map (Pair (cs_tls s)) (take k bs)\<rparr>))"

definition smtp_put :: "client_env \<Rightarrow> string \<Rightarrow> unit client" where
  "smtp_put E text = smtp_write E (as_bytes text)"

definition smtp_reply_of :: "(u16 \<times> string) client" where
  "smtp_reply_of s =
     (case read_reply (cs_in s) of
        None \<Rightarrow> (None, s)
      | Some (r, rs) \<Rightarrow> ioC r (s\<lparr>cs_in := rs\<rparr>))"

fun write_dot_stuffed :: "client_env \<Rightarrow> bool \<Rightarrow> bytes \<Rightarrow> unit client" where
  "write_dot_stuffed E at_line_start [] = retC ()"
| "write_dot_stuffed E at_line_start (b # bs) =
     bindC (if at_line_start \<and> b = 46 then smtp_write E [46] else retC ()) (\<lambda>_.
     bindC (smtp_write E [b]) (\<lambda>_. write_dot_stuffed E (b = 10) bs))"

definition is_2xx :: "u16 \<Rightarrow> bool" where
  "is_2xx code = (200 \<le> code \<and> code < 300)"

definition classify :: "u16 \<Rightarrow> string \<Rightarrow> transport_result" where
  "classify code text =
     (if is_2xx code then TrDelivered code
      else if 400 \<le> code \<and> code \<le> 499 then TrTransient code text
      else TrPermanent code text)"

definition expect_2xx :: "u16 \<times> string \<Rightarrow> unit client" where
  "expect_2xx r =
     (case r of (code, text) \<Rightarrow>
        if is_2xx code then retC ()
        else if 400 \<le> code \<and> code < 500 then failC (AbortIo (OtherIo (dec (unat code) @ '' '' @ text)))
        else failC (AbortPermanent code text))"

section \<open>Capabilities\<close>

text \<open>One line of the reply: the capabilities with its token, and whether more lines follow.\<close>

definition ehlo_line :: "string list \<Rightarrow> string \<Rightarrow> (transport_abort + string list \<times> bool) option" where
  "ehlo_line caps line =
     (if length line < 3 then Some (Inl (AbortIo (net_error.InvalidData ''short EHLO reply'')))
      else case slice_to line 3 of
        None \<Rightarrow> None
      | Some digits \<Rightarrow>
          (case parse_uint 65535 digits of
             None \<Rightarrow> Some (Inl (AbortIo (net_error.InvalidData ''bad EHLO code'')))
           | Some code \<Rightarrow>
               if \<not> is_2xx (of_nat code) then Some (Inl (AbortPermanent (of_nat code) line))
               else
                 Some (Inr (case get_from line 4 of
                              Some rest \<Rightarrow> (case split_whitespace rest of tok # _ \<Rightarrow> caps @ [tok] | [] \<Rightarrow> caps)
                            | None \<Rightarrow> caps,
                            length line > 3 \<and> line ! 3 = CHR ''-''))))"

function ehlo_loop :: "string list \<Rightarrow> string list client" where
  "ehlo_loop caps s =
     (case read_line [] (cs_in s) of
        (Inl e, rs) \<Rightarrow> (Some (Inl (AbortIo e)), s\<lparr>cs_in := rs\<rparr>)
      | (Inr None, rs) \<Rightarrow> (Some (Inl (AbortIo (UnexpectedEof ''no EHLO reply''))), s\<lparr>cs_in := rs\<rparr>)
      | (Inr (Some bytes), rs) \<Rightarrow>
          (case ehlo_line caps (from_utf8_lossy bytes) of
             None \<Rightarrow> (None, s\<lparr>cs_in := rs\<rparr>)
           | Some (Inl e) \<Rightarrow> (Some (Inl e), s\<lparr>cs_in := rs\<rparr>)
           | Some (Inr (caps', again)) \<Rightarrow>
               if again then ehlo_loop caps' (s\<lparr>cs_in := rs\<rparr>) else (Some (Inr caps'), s\<lparr>cs_in := rs\<rparr>)))"
  by pat_completeness auto
termination
  by (relation "measure (\<lambda>(c, s). length (cs_in s))") (auto dest!: read_line_shorter [OF sym])

declare ehlo_loop.simps [simp del]

definition ehlo :: "client_env \<Rightarrow> smtp_transport \<Rightarrow> string list client" where
  "ehlo E T = bindC (smtp_put E (''EHLO '' @ st_ehlo_name T @ CRLF)) (\<lambda>_. ehlo_loop [])"

definition has_cap :: "string list \<Rightarrow> string \<Rightarrow> bool" where
  "has_cap caps cap = list_ex (\<lambda>c. eq_ignore_ascii_case c cap) caps"

section \<open>The envelope\<close>

definition angle_addr :: "string \<Rightarrow> string option" where
  "angle_addr v =
     (case (find_char (CHR ''<'') v, rfind_char (CHR ''>'') v) of
        (Some l, Some r) \<Rightarrow> if l < r then Some (trim (take (r - (l + 1)) (drop (l + 1) v))) else None
      | _ \<Rightarrow> None)"

definition line_addr :: "string \<Rightarrow> string \<Rightarrow> string option" where
  "line_addr name line =
     (case split_once (CHR '':'') line of
        None \<Rightarrow> None
      | Some (h, v0) \<Rightarrow>
          if \<not> eq_ignore_ascii_case (trim h) name then None
          else
            (let v = trim v0 in
             case angle_addr v of
               Some a \<Rightarrow> Some a
             | None \<Rightarrow>
                 map_option (trim_matches (\<lambda>c. c = CHR ''<'' \<or> c = CHR ''>''))
                   (find (\<lambda>t. CHR ''@'' \<in> set t) (split_whitespace v))))"

definition header_addr :: "string \<Rightarrow> string \<Rightarrow> string option" where
  "header_addr message name =
     (let head_end = (case find_blank_line message of Some i \<Rightarrow> i | None \<Rightarrow> length message) in
      find_map (line_addr name) (split_crlf (from_utf8_lossy (as_bytes (take head_end message)))))"

definition str_is_ascii :: "string \<Rightarrow> bool" where
  "str_is_ascii s = list_all (\<lambda>c. byte_of c < 128) s"

section \<open>A delivery\<close>

definition dial_refusal :: "string \<Rightarrow> string" where
  "dial_refusal d =
     ''refusing to dial '' @ d @ '': it resolves only to disallowed '' @
     ''(loopback/private/link-local/unique-local/unspecified/broadcast) addresses''"

definition dial_addr :: "client_env \<Rightarrow> smtp_transport \<Rightarrow> string \<Rightarrow> net_error + sock_addr" where
  "dial_addr E T d =
     (case st_fixed_addr T of
        Some a \<Rightarrow> Inr a
      | None \<Rightarrow>
          bindE (ce_resolve E d (st_port T))
            (first_allowed (PermissionDenied (dial_refusal d)) (NotFound ''no address for destination'') False))"

definition smtp_connect :: "client_env \<Rightarrow> sock_addr \<Rightarrow> unit client" where
  "smtp_connect E addr s =
     (case ce_connect E addr of
        Inl e \<Rightarrow> (Some (Inl (AbortIo e)), s\<lparr>cs_dialed := Some addr\<rparr>)
      | Inr rs \<Rightarrow> (Some (Inr ()), s\<lparr>cs_dialed := Some addr, cs_in := rs\<rparr>))"

definition smtp_upgrade :: "client_env \<Rightarrow> string \<Rightarrow> unit client" where
  "smtp_upgrade E d s =
     (case ce_upgrade E d (cs_in s) of
        Inl _ \<Rightarrow> (Some (Inl AbortTls), s)
      | Inr rs \<Rightarrow> (Some (Inr ()), s\<lparr>cs_in := rs, cs_tls := True\<rparr>))"

text \<open>The capabilities the envelope is sent with: those after STARTTLS where it was offered.\<close>

definition secure_stream :: "client_env \<Rightarrow> smtp_transport \<Rightarrow> string \<Rightarrow> bool \<Rightarrow> string list client" where
  "secure_stream E T d require_tls =
     bindC smtp_reply_of (\<lambda>r. bindC (expect_2xx r) (\<lambda>_.
     bindC (ehlo E T) (\<lambda>caps.
     let starttls_offered = has_cap caps ''STARTTLS'' in
     if require_tls \<and> \<not> starttls_offered then failC AbortTls
     else if starttls_offered then
       bindC (smtp_put E (''STARTTLS'' @ CRLF)) (\<lambda>_.
       bindC smtp_reply_of (\<lambda>(code, _).
       if \<not> is_2xx code then failC AbortTls
       else bindC (smtp_upgrade E d) (\<lambda>_. ehlo E T)))
     else retC caps)))"

definition mail_params :: "bool \<Rightarrow> bool \<Rightarrow> string" where
  "mail_params needs_8bitmime needs_smtputf8 =
     (if needs_8bitmime then '' BODY=8BITMIME'' else []) @ (if needs_smtputf8 then '' SMTPUTF8'' else [])"

definition check_caps :: "string \<Rightarrow> string list \<Rightarrow> bool \<Rightarrow> bool \<Rightarrow> unit client" where
  "check_caps d caps needs_8bitmime needs_smtputf8 =
     (if needs_smtputf8 \<and> \<not> has_cap caps ''SMTPUTF8'' then
        failC (AbortPermanent 553 (''5.6.7 envelope address requires SMTPUTF8 (RFC 6531) but '' @ d @
          '' does not advertise it; cannot deliver without corrupting the address''))
      else if needs_8bitmime \<and> \<not> has_cap caps ''8BITMIME'' then
        failC (AbortPermanent 554 (''5.6.3 message body is 8-bit but '' @ d @
          '' does not advertise 8BITMIME (RFC 6152); refusing to send bytes the peer has not agreed to carry''))
      else retC ())"

text \<open>The message content: stuffed, with a line end where it has none, and the final dot.\<close>

definition send_content :: "client_env \<Rightarrow> string \<Rightarrow> unit client" where
  "send_content E message =
     bindC (write_dot_stuffed E True (as_bytes message)) (\<lambda>_.
     bindC (if ends_with CRLF message then retC () else smtp_put E CRLF) (\<lambda>_.
     smtp_put E (''.'' @ CRLF)))"

definition ignore_write :: "unit client \<Rightarrow> unit client" where
  "ignore_write m s = (case m s of (Some _, s') \<Rightarrow> (Some (Inr ()), s') | (None, s') \<Rightarrow> (None, s'))"

definition finish_data :: "client_env \<Rightarrow> string \<Rightarrow> transport_result client" where
  "finish_data E message =
     bindC (send_content E message) (\<lambda>_.
     bindC smtp_reply_of (\<lambda>(final_code, final_text).
     bindC (ignore_write (smtp_put E (''QUIT'' @ CRLF))) (\<lambda>_.
     retC (classify final_code final_text))))"

definition command :: "client_env \<Rightarrow> string \<Rightarrow> unit client" where
  "command E text = bindC (smtp_put E text) (\<lambda>_. bindC smtp_reply_of expect_2xx)"

definition transaction :: "client_env \<Rightarrow> string \<Rightarrow> string \<Rightarrow> string \<Rightarrow> string \<Rightarrow> transport_result client" where
  "transaction E mail_from params rcpt_to message =
     bindC (command E (''MAIL FROM:<'' @ mail_from @ ''>'' @ params @ CRLF)) (\<lambda>_.
     bindC (command E (''RCPT TO:<'' @ rcpt_to @ ''>'' @ CRLF)) (\<lambda>_.
     bindC (smtp_put E (''DATA'' @ CRLF)) (\<lambda>_.
     bindC smtp_reply_of (\<lambda>(code, text).
     if code \<noteq> 354 then retC (classify code text) else finish_data E message))))"

definition try_run :: "client_env \<Rightarrow> smtp_transport \<Rightarrow> string \<Rightarrow> string \<Rightarrow> bool \<Rightarrow> transport_result client" where
  "try_run E T dest_domain message require_tls =
     bindC (liftC (map_err (\<lambda>e. AbortPermanent 553 (''5.1.2 '' @ ce_idn_text E e)) (domain_to_ascii (ce_idna E) dest_domain))) (\<lambda>d.
     bindC (ioC (dial_addr E T d)) (\<lambda>addr.
     bindC (smtp_connect E addr) (\<lambda>_.
     bindC (secure_stream E T d require_tls) (\<lambda>caps.
     let mail_from = (case header_addr message ''from'' of Some a \<Rightarrow> a | None \<Rightarrow> ''<>'') in
     bindC (ioC (ok_or (BadInput ''no To: header'') (header_addr message ''to''))) (\<lambda>rcpt_to.
     let needs_smtputf8 = (\<not> str_is_ascii mail_from \<or> \<not> str_is_ascii rcpt_to);
         needs_8bitmime = list_ex (\<lambda>c. byte_of c \<ge> 128) message in
     bindC (check_caps d caps needs_8bitmime needs_smtputf8) (\<lambda>_.
     transaction E mail_from (mail_params needs_8bitmime needs_smtputf8) rcpt_to message))))))"

definition client_start :: client_state where
  "client_start = \<lparr>cs_dialed = None, cs_in = [], cs_tls = False, cs_out = []\<rparr>"

definition run_delivery :: "client_env \<Rightarrow> smtp_transport \<Rightarrow> string \<Rightarrow> string \<Rightarrow> bool \<Rightarrow> transport_result option \<times> client_state" where
  "run_delivery E T d message require_tls =
     (case try_run E T d message require_tls client_start of
        (None, s) \<Rightarrow> (None, s)
      | (Some (Inr r), s) \<Rightarrow> (Some r, s)
      | (Some (Inl AbortTls), s) \<Rightarrow> (Some TlsUnavailable, s)
      | (Some (Inl (AbortPermanent code text)), s) \<Rightarrow> (Some (TrPermanent code text), s)
      | (Some (Inl (AbortIo e)), s) \<Rightarrow> (Some (TrTransient 421 (''4.4.0 '' @ net_error_text e)), s))"

end
