(* ===== verification/Gw_Smtp_Client_Sound.thy ===== *)
theory Gw_Smtp_Client_Sound
  imports Gw_Smtp_Client "HOL-Library.Sublist"
begin

text \<open>
  What a delivery puts on the wire. A small program logic for the client: \<open>validC P m Q R\<close> says that from a
  state with \<open>P\<close> a normal return satisfies \<open>Q\<close>, and an abort or a panic leaves a state with \<open>R\<close>.
\<close>

section \<open>The logic\<close>

named_theorems client_rules

fun outcome :: "('a \<Rightarrow> client_state \<Rightarrow> bool) \<Rightarrow> (client_state \<Rightarrow> bool) \<Rightarrow> (transport_abort + 'a) option \<times> client_state \<Rightarrow> bool" where
  "outcome Q R (None, s) = R s"
| "outcome Q R (Some (Inl e), s) = R s"
| "outcome Q R (Some (Inr a), s) = Q a s"

definition validC :: "(client_state \<Rightarrow> bool) \<Rightarrow> 'a client \<Rightarrow> ('a \<Rightarrow> client_state \<Rightarrow> bool) \<Rightarrow> (client_state \<Rightarrow> bool) \<Rightarrow> bool" where
  "validC P m Q R = (\<forall>s. P s \<longrightarrow> outcome Q R (m s))"

lemma client_cases:
  obtains (Panic) s where "x = (None, s)" | (Abort) e s where "x = (Some (Inl e), s)" | (Value) a s where "x = (Some (Inr a), s)"
  by (metis prod.collapse option.exhaust sum.exhaust)

lemma outcomeI: "(\<And>s. P s \<Longrightarrow> R s) \<Longrightarrow> P (snd x) \<Longrightarrow> outcome (\<lambda>_. P) R x"
  by (cases x rule: client_cases) auto

lemma outcome_snd: "outcome (\<lambda>_. P) P x \<Longrightarrow> P (snd x)"
  by (cases x rule: client_cases) auto

lemma validC_bind:
  assumes "validC P m Q R" and "\<And>a. validC (Q a) (f a) Q' R"
  shows "validC P (bindC m f) Q' R"
proof -
  have "outcome Q' R (bindC m f s)" if "outcome Q R (m s)" for s
    using that assms(2) by (cases "m s" rule: client_cases) (auto simp: bindC_def validC_def)
  with assms(1) show ?thesis by (simp add: validC_def)
qed

lemma validC_weaken:
  assumes "validC P m Q R" and "\<And>s. P' s \<Longrightarrow> P s" and "\<And>a s. Q a s \<Longrightarrow> Q' a s" and "\<And>s. R s \<Longrightarrow> R' s"
  shows "validC P' m Q' R'"
proof -
  have "outcome Q' R' (m s)" if "outcome Q R (m s)" for s
    using that assms(3,4) by (cases "m s" rule: client_cases) auto
  with assms(1,2) show ?thesis by (simp add: validC_def)
qed

lemma validC_ret: "(\<And>s. P s \<Longrightarrow> Q a s) \<Longrightarrow> validC P (retC a) Q R"
  by (simp add: validC_def retC_def)

lemma validC_fail: "(\<And>s. P s \<Longrightarrow> R s) \<Longrightarrow> validC P (failC e) Q R"
  by (simp add: validC_def failC_def)

lemma validC_lift: "(\<And>s. P s \<Longrightarrow> R s) \<Longrightarrow> (\<And>a s. r = Inr a \<Longrightarrow> P s \<Longrightarrow> Q a s) \<Longrightarrow> validC P (liftC r) Q R"
  by (cases r) (auto simp: liftC_def intro: validC_ret validC_fail)

lemma validC_io: "(\<And>s. P s \<Longrightarrow> R s) \<Longrightarrow> (\<And>a s. r = Inr a \<Longrightarrow> P s \<Longrightarrow> Q a s) \<Longrightarrow> validC P (ioC r) Q R"
  unfolding ioC_def by (rule validC_lift) (auto simp: map_err_Inr)

lemma validC_if:
  "(b \<Longrightarrow> validC P m Q R) \<Longrightarrow> (\<not> b \<Longrightarrow> validC P n Q R) \<Longrightarrow> validC P (if b then m else n) Q R"
  by simp

text \<open>A property of the state that reading does not touch.\<close>

definition read_blind :: "(client_state \<Rightarrow> bool) \<Rightarrow> bool" where
  "read_blind P = (\<forall>s rs. P s \<longrightarrow> P (s\<lparr>cs_in := rs\<rparr>))"

lemma validC_reply: "read_blind P \<Longrightarrow> (\<And>s. P s \<Longrightarrow> R s) \<Longrightarrow> validC P smtp_reply_of (\<lambda>_. P) R"
  by (auto simp: validC_def smtp_reply_of_def ioC_def liftC_def retC_def failC_def read_blind_def
      split: option.split sum.split)

lemma validC_expect: "(\<And>s. P s \<Longrightarrow> R s) \<Longrightarrow> validC P (expect_2xx r) (\<lambda>_. P) R"
  by (auto simp: expect_2xx_def intro!: validC_ret validC_fail split: prod.split)

lemma ehlo_loop_keeps:
  "read_blind P \<Longrightarrow> P s \<Longrightarrow> P (snd (ehlo_loop caps s))"
proof (induction caps s rule: ehlo_loop.induct)
  case (1 caps s)
  have k: "P (s\<lparr>cs_in := rs\<rparr>)" for rs using 1(2,3) by (simp add: read_blind_def)
  obtain l rs where rl: "read_line [] (cs_in s) = (l, rs)" by fastforce
  show ?case
  proof (cases "\<exists>bytes caps'. l = Inr (Some bytes) \<and> ehlo_line caps (from_utf8_lossy bytes) = Some (Inr (caps', True))")
    case True
    then obtain bytes caps' where l: "l = Inr (Some bytes)" "ehlo_line caps (from_utf8_lossy bytes) = Some (Inr (caps', True))"
      by blast
    have "P (snd (ehlo_loop caps' (s\<lparr>cs_in := rs\<rparr>)))"
      by (rule 1(1) [OF rl [symmetric] l(1) refl l(2) refl refl _ 1(2) k]) simp
    with rl l show ?thesis by (subst ehlo_loop.simps) simp
  next
    case False
    with rl k show ?thesis by (subst ehlo_loop.simps) (auto split: sum.split option.split)
  qed
qed

lemma validC_ehlo_loop: "read_blind P \<Longrightarrow> (\<And>s. P s \<Longrightarrow> R s) \<Longrightarrow> validC P (ehlo_loop caps) (\<lambda>_. P) R"
  by (simp add: validC_def outcomeI ehlo_loop_keeps)

section \<open>What is sent in the clear\<close>

definition plain :: "client_state \<Rightarrow> bytes" where
  "plain s = map snd (filter (\<lambda>x. \<not> fst x) (cs_out s))"

definition clear_hello :: "smtp_transport \<Rightarrow> bytes" where
  "clear_hello T = as_bytes (''EHLO '' @ st_ehlo_name T @ CRLF @ ''STARTTLS'' @ CRLF)"

definition dial_ok :: "smtp_transport \<Rightarrow> client_state \<Rightarrow> bool" where
  "dial_ok T s = (\<forall>a. cs_dialed s = Some a \<longrightarrow> st_fixed_addr T = Some a \<or> \<not> is_forbidden_dest_ip (fst a))"

definition clear :: "smtp_transport \<Rightarrow> bytes \<Rightarrow> client_state \<Rightarrow> bool" where
  "clear T bs s = (dial_ok T s \<and> \<not> cs_tls s \<and> plain s = bs)"

definition secure :: "smtp_transport \<Rightarrow> client_state \<Rightarrow> bool" where
  "secure T s = (dial_ok T s \<and> cs_tls s \<and> plain s = clear_hello T)"

definition safe :: "smtp_transport \<Rightarrow> client_state \<Rightarrow> bool" where
  "safe T s = (dial_ok T s \<and> prefix (plain s) (clear_hello T))"

lemma read_blind_clear: "read_blind (clear T bs)" "read_blind (secure T)"
  by (simp_all add: read_blind_def clear_def secure_def dial_ok_def plain_def)

lemma secure_safe: "secure T s \<Longrightarrow> safe T s"
  by (simp add: secure_def safe_def)

lemma clear_safe: "clear T bs s \<Longrightarrow> prefix bs (clear_hello T) \<Longrightarrow> safe T s"
  by (simp add: clear_def safe_def)

lemma validC_clear_put:
  assumes "prefix (bs @ as_bytes text) (clear_hello T)"
  shows "validC (clear T bs) (smtp_put E text) (\<lambda>_. clear T (bs @ as_bytes text)) (safe T)"
proof -
  have "prefix (bs @ take k (as_bytes text)) (clear_hello T)" for k
    using assms by (meson append_prefixD prefix_order.trans same_prefix_prefix take_is_prefix)
  then show ?thesis
    by (auto simp: validC_def smtp_put_def smtp_write_def clear_def safe_def plain_def dial_ok_def o_def split: option.split)
qed

lemma validC_clear_ehlo:
  "validC (clear T []) (ehlo E T) (\<lambda>_. clear T (as_bytes (''EHLO '' @ st_ehlo_name T @ CRLF))) (safe T)"
proof -
  have p: "prefix (as_bytes (''EHLO '' @ st_ehlo_name T @ CRLF)) (clear_hello T)"
    by (simp add: clear_hello_def as_bytes_append [symmetric] del: as_bytes_append) (simp add: as_bytes_def)
  show ?thesis
    unfolding ehlo_def
    by (rule validC_bind [OF validC_clear_put [where bs = "[]", simplified]])
      (use p in \<open>auto intro!: validC_ehlo_loop read_blind_clear clear_safe [OF _ p]\<close>)
qed

text \<open>Once the stream is encrypted, nothing more is sent in the clear.\<close>

definition keeps :: "(client_state \<Rightarrow> bool) \<Rightarrow> 'a client \<Rightarrow> bool" where
  "keeps P m = validC P m (\<lambda>_. P) P"

lemma keeps_bind [client_rules]: "keeps P m \<Longrightarrow> (\<And>a. keeps P (f a)) \<Longrightarrow> keeps P (bindC m f)"
  unfolding keeps_def by (rule validC_bind)

lemma keeps_basic [client_rules]:
  "keeps P (retC a)" "keeps P (failC e)" "keeps P (expect_2xx r)" "keeps P (ioC x)"
  by (auto simp: keeps_def intro: validC_ret validC_fail validC_expect validC_io)

lemma keeps_reads [client_rules]: "read_blind P \<Longrightarrow> keeps P smtp_reply_of" "read_blind P \<Longrightarrow> keeps P (ehlo_loop caps)"
  by (auto simp: keeps_def intro: validC_reply validC_ehlo_loop)

lemma keeps_write [client_rules]: "keeps (secure T) (smtp_write E bs)"
  by (auto simp: keeps_def validC_def smtp_write_def secure_def plain_def dial_ok_def split: option.split)

lemma keeps_put [client_rules]: "keeps (secure T) (smtp_put E text)"
  by (simp add: smtp_put_def keeps_write)

lemma keeps_stuffed [client_rules]: "keeps (secure T) (write_dot_stuffed E b bs)"
  by (induction E b bs rule: write_dot_stuffed.induct) (auto intro!: client_rules)

lemma keeps_ignore [client_rules]: "keeps P m \<Longrightarrow> keeps P (ignore_write m)"
proof -
  have "outcome (\<lambda>_. P) P (ignore_write m s)" if "outcome (\<lambda>_. P) P (m s)" for s
    using that by (cases "m s" rule: client_cases) (simp_all add: ignore_write_def)
  then show "keeps P m \<Longrightarrow> keeps P (ignore_write m)" by (simp add: keeps_def validC_def)
qed

lemma keeps_transaction: "keeps (secure T) (transaction E mf params rcpt message)"
  unfolding transaction_def command_def finish_data_def send_content_def
  by (auto intro!: client_rules read_blind_clear split: prod.split)

lemma keeps_caps: "keeps P (check_caps d caps x y)"
  by (auto simp: check_caps_def intro!: client_rules)


lemma validC_secure_stream: "validC (clear T []) (secure_stream E T d True) (\<lambda>_. secure T) (safe T)"
proof -
  let ?hello = "as_bytes (''EHLO '' @ st_ehlo_name T @ CRLF)"
  have h: "?hello @ as_bytes (''STARTTLS'' @ CRLF) = clear_hello T"
    by (simp add: clear_hello_def as_bytes_def)
  then have p: "prefix ?hello (clear_hello T)" by (metis prefixI)
  have c: "clear T [] s \<Longrightarrow> safe T s" "clear T ?hello s \<Longrightarrow> safe T s" "clear T (clear_hello T) s \<Longrightarrow> safe T s" for s
    using clear_safe p by auto
  have up: "validC (clear T (clear_hello T)) (smtp_upgrade E d) (\<lambda>_. secure T) (safe T)"
    using c(3) by (auto simp: validC_def smtp_upgrade_def clear_def secure_def plain_def dial_ok_def split: sum.split)
  have "keeps (secure T) (ehlo E T)" unfolding ehlo_def by (auto intro!: client_rules read_blind_clear)
  then have hello2: "validC (secure T) (ehlo E T) (\<lambda>_. secure T) (safe T)"
    unfolding keeps_def by (rule validC_weaken) (auto intro: secure_safe)
  have start: "validC (clear T ?hello) (smtp_put E (''STARTTLS'' @ CRLF)) (\<lambda>_. clear T (clear_hello T)) (safe T)"
    using validC_clear_put [of ?hello "''STARTTLS'' @ CRLF" T E] h by simp
  have reply: "validC (clear T (clear_hello T)) (bindC smtp_reply_of (\<lambda>(code, _).
      if \<not> is_2xx code then failC AbortTls else bindC (smtp_upgrade E d) (\<lambda>_. ehlo E T))) (\<lambda>_. secure T) (safe T)"
    by (rule validC_bind [OF validC_reply [OF read_blind_clear(1) c(3)]])
      (auto intro: validC_fail c(3) validC_bind [OF up hello2] split: prod.split)
  have caps: "validC (clear T ?hello) (if True \<and> \<not> has_cap caps ''STARTTLS'' then failC AbortTls
      else if has_cap caps ''STARTTLS'' then bindC (smtp_put E (''STARTTLS'' @ CRLF)) (\<lambda>_. bindC smtp_reply_of (\<lambda>(code, _).
        if \<not> is_2xx code then failC AbortTls else bindC (smtp_upgrade E d) (\<lambda>_. ehlo E T)))
      else retC caps) (\<lambda>_. secure T) (safe T)" for caps
    using validC_bind [OF start reply] validC_fail [of "clear T ?hello" "safe T", OF c(2)]
    by (cases "has_cap caps ''STARTTLS''") simp_all
  show ?thesis
    unfolding secure_stream_def Let_def
    by (rule validC_bind [OF validC_reply [OF read_blind_clear(1) c(1)]], assumption,
        rule validC_bind [OF validC_expect [OF c(1)]], assumption, rule validC_bind [OF validC_clear_ehlo], rule caps)
qed

lemma keeps_safe: "keeps (secure T) m \<Longrightarrow> validC (secure T) m (\<lambda>_. safe T) (safe T)"
  unfolding keeps_def by (erule validC_weaken) (auto intro: secure_safe)

lemma dial_addr_ok: "dial_addr E T d = Inr a \<Longrightarrow> st_fixed_addr T = Some a \<or> \<not> is_forbidden_dest_ip (fst a)"
  by (auto simp: dial_addr_def bindE_Inr split: option.splits dest: first_allowed_Inr)

lemma validC_try_run: "validC (\<lambda>s. s = client_start) (try_run E T d message True) (\<lambda>_. safe T) (safe T)"
proof -
  have z: "safe T client_start" by (simp add: safe_def client_start_def dial_ok_def plain_def)
  have con: "validC (\<lambda>s. s = client_start \<and> dial_addr E T d' = Inr a) (smtp_connect E a) (\<lambda>_. clear T []) (safe T)" for d' a
    using dial_addr_ok
    by (fastforce simp: validC_def smtp_connect_def clear_def safe_def client_start_def dial_ok_def plain_def split: sum.split)
  have rest: "validC (secure T) (bindC (check_caps d' caps x y) (\<lambda>_. transaction E mf ps rcpt message)) (\<lambda>_. safe T) (safe T)"
    for d' caps x y mf ps rcpt
    by (intro keeps_safe keeps_bind keeps_caps keeps_transaction)
  have io: "validC (secure T) (ioC r) (\<lambda>_. secure T) (safe T)" for r :: "net_error + string"
    by (intro validC_io) (auto intro: secure_safe)
  show ?thesis
    unfolding try_run_def Let_def
    by (rule validC_bind [OF validC_lift [where Q = "\<lambda>_ s. s = client_start"]],
        use z in simp, simp,
        rule validC_bind [OF validC_io [where Q = "\<lambda>a s. s = client_start \<and> dial_addr E T _ = Inr a"]],
        use z in simp, simp, rule validC_bind [OF con], rule validC_bind [OF validC_secure_stream],
        rule validC_bind [OF io], rule rest)
qed

text \<open>Whether TLS is required or not, the address dialed is pinned or allowed.\<close>

lemma keeps_dial [client_rules]:
  "keeps (dial_ok T) (smtp_write E bs)" "keeps (dial_ok T) (smtp_put E text)" "keeps (dial_ok T) (smtp_upgrade E d)"
  by (auto simp: keeps_def validC_def smtp_put_def smtp_write_def smtp_upgrade_def dial_ok_def split: option.split sum.split)

lemma keeps_dial_stuffed [client_rules]: "keeps (dial_ok T) (write_dot_stuffed E b bs)"
  by (induction E b bs rule: write_dot_stuffed.induct) (auto intro!: client_rules)

lemma read_blind_dial: "read_blind (dial_ok T)"
  by (simp add: read_blind_def dial_ok_def)

lemma keeps_dial_run: "keeps (dial_ok T) (transaction E mf params rcpt message)" "keeps (dial_ok T) (secure_stream E T d b)"
  unfolding transaction_def command_def finish_data_def send_content_def secure_stream_def ehlo_def Let_def
  by (auto intro!: client_rules read_blind_dial split: prod.split)

lemma keeps_connect: "dial_addr E T d = Inr a \<Longrightarrow> keeps (dial_ok T) (smtp_connect E a)"
  using dial_addr_ok [of E T d a] by (auto simp: keeps_def validC_def smtp_connect_def dial_ok_def split: sum.split)

lemma keeps_io_bind: "(\<And>a. x = Inr a \<Longrightarrow> keeps P (f a)) \<Longrightarrow> keeps P (bindC (ioC x) f)"
  by (cases x) (auto simp: keeps_def validC_def bindC_def ioC_def liftC_def retC_def failC_def)

lemma keeps_lift: "keeps P (liftC x)"
  by (auto simp: keeps_def intro: validC_lift)

lemma dialed_ok: "dial_ok T (snd (try_run E T d message b client_start))"
proof -
  have "keeps (dial_ok T) (try_run E T d message b)"
    unfolding try_run_def Let_def
    by (intro keeps_bind keeps_lift keeps_io_bind keeps_connect keeps_dial_run keeps_caps) simp
  then have "outcome (\<lambda>_. dial_ok T) (dial_ok T) (try_run E T d message b client_start)"
    by (simp add: keeps_def validC_def client_start_def dial_ok_def)
  then show ?thesis by (rule outcome_snd)
qed

lemma run_state: "snd (run_delivery E T d message b) = snd (try_run E T d message b client_start)"
  by (cases "try_run E T d message b client_start" rule: client_cases)
    (auto simp: run_delivery_def split: transport_abort.split)

text \<open>C23: Mandatory TLS is mandatory on the wire. Whatever the peer sends and wherever a write fails, a delivery
  that requires TLS sends in the clear at most its EHLO and STARTTLS commands, never an address or a byte of
  the message; and it connects only to a pinned address or to one outside the refused blocks.
\<close>

theorem required_tls_never_clear:
  assumes "run_delivery E T d message True = (r, s)"
  shows "prefix (plain s) (clear_hello T) \<and>
    (\<forall>a. cs_dialed s = Some a \<longrightarrow> st_fixed_addr T = Some a \<or> \<not> is_forbidden_dest_ip (fst a))"
proof -
  have "outcome (\<lambda>_. safe T) (safe T) (try_run E T d message True client_start)"
    using validC_try_run by (simp add: validC_def)
  then have "safe T (snd (try_run E T d message True client_start))" by (rule outcome_snd)
  with assms run_state [of E T d message True] show ?thesis by (simp add: safe_def dial_ok_def)
qed

section \<open>What a reported delivery means\<close>

fun stuff :: "bool \<Rightarrow> bytes \<Rightarrow> bytes" where
  "stuff at_line_start [] = []"
| "stuff at_line_start (b # bs) = (if at_line_start \<and> b = 46 then [46] else []) @ b # stuff (b = 10) bs"

definition content :: "string \<Rightarrow> bytes" where
  "content message =
     stuff True (as_bytes message) @ (if ends_with CRLF message then [] else [13, 10]) @ [46, 13, 10]"

definition sent :: "client_state \<Rightarrow> bytes" where
  "sent s = map snd (cs_out s)"

lemma validC_sent: "validC (\<lambda>s. sent s = bs) (smtp_write E bs') (\<lambda>_ s. sent s = bs @ bs') (\<lambda>_. True)"
  by (auto simp: validC_def smtp_write_def sent_def o_def split: option.split)

lemma validC_sent_put: "validC (\<lambda>s. sent s = bs) (smtp_put E text) (\<lambda>_ s. sent s = bs @ as_bytes text) (\<lambda>_. True)"
  by (simp add: smtp_put_def validC_sent)

lemma validC_sent_stuffed:
  "validC (\<lambda>s. sent s = bs) (write_dot_stuffed E b ms) (\<lambda>_ s. sent s = bs @ stuff b ms) (\<lambda>_. True)"
proof (induction ms arbitrary: b bs)
  case Nil
  then show ?case by (simp add: validC_ret)
next
  case (Cons m ms)
  let ?dot = "if b \<and> m = 46 then [46] else []"
  have dot: "validC (\<lambda>s. sent s = bs) (if b \<and> m = 46 then smtp_write E [46] else retC ()) (\<lambda>_ s. sent s = bs @ ?dot) (\<lambda>_. True)"
    using validC_sent [of bs E "[46]"] by (auto intro: validC_ret)
  have one: "validC (\<lambda>s. sent s = bs @ ?dot) (smtp_write E [m]) (\<lambda>_ s. sent s = (bs @ ?dot) @ [m]) (\<lambda>_. True)"
    by (rule validC_sent)
  show ?case
    unfolding write_dot_stuffed.simps stuff.simps
    using validC_bind [OF dot validC_bind [OF one Cons]] by simp
qed

lemma validC_sent_content:
  "validC (\<lambda>s. sent s = bs) (send_content E message) (\<lambda>_ s. sent s = bs @ content message) (\<lambda>_. True)"
proof -
  let ?m = "stuff True (as_bytes message)" and ?e = "if ends_with CRLF message then [] else [13, 10]"
  have "validC (\<lambda>s. sent s = bs @ ?m) (if ends_with CRLF message then retC () else smtp_put E CRLF)
      (\<lambda>_ s. sent s = (bs @ ?m) @ ?e) (\<lambda>_. True)"
    using validC_sent_put [of "bs @ ?m" E CRLF] by (auto intro: validC_ret simp: as_bytes_def)
  moreover have "validC (\<lambda>s. sent s = (bs @ ?m) @ ?e) (smtp_put E (''.'' @ CRLF)) (\<lambda>_ s. sent s = bs @ content message) (\<lambda>_. True)"
    using validC_sent_put [of "(bs @ ?m) @ ?e" E "''.'' @ CRLF"] by (simp add: content_def as_bytes_def)
  ultimately show ?thesis
    unfolding send_content_def by (intro validC_bind [OF validC_sent_stuffed] validC_bind)
qed

text \<open>The steps of a computation that succeeds.\<close>

lemma bindC_Inr: "bindC m f s = (Some (Inr b), s') \<longleftrightarrow> (\<exists>a s1. m s = (Some (Inr a), s1) \<and> f a s1 = (Some (Inr b), s'))"
  by (auto simp: bindC_def split: prod.splits option.splits sum.splits)

lemma retC_Inr: "retC a s = (Some (Inr b), s') \<longleftrightarrow> a = b \<and> s' = s"
  by (auto simp: retC_def)

lemma liftC_Inr: "liftC r s = (Some (Inr b), s') \<longleftrightarrow> r = Inr b \<and> s' = s"
  by (cases r) (auto simp: liftC_def retC_def failC_def)

lemma ioC_Inr: "ioC r s = (Some (Inr b), s') \<longleftrightarrow> r = Inr b \<and> s' = s"
  by (cases r) (auto simp: ioC_def liftC_Inr)

lemma expect_Inr: "expect_2xx r s = (Some (Inr u), s') \<longleftrightarrow> is_2xx (fst r) \<and> s' = s"
  by (auto simp: expect_2xx_def retC_def failC_def split: prod.split)

lemmas client_steps = bindC_Inr retC_Inr liftC_Inr ioC_Inr expect_Inr

lemma sent_ok:
  assumes "validC (\<lambda>s. sent s = bs) m (\<lambda>_ s. sent s = bs @ bs') (\<lambda>_. True)" and "sent s = bs" and "m s = (Some (Inr u), s')"
  shows "sent s' = bs @ bs'"
  using assms by (auto simp: validC_def)

definition quiet :: "'a client \<Rightarrow> bool" where
  "quiet m \<longleftrightarrow> (\<forall>s. cs_in (snd (m s)) = cs_in s)"

lemma quiet_bind [client_rules]: "quiet m \<Longrightarrow> (\<And>a. quiet (f a)) \<Longrightarrow> quiet (bindC m f)"
  by (simp add: quiet_def bindC_def split: prod.splits option.splits sum.splits) (metis snd_conv)

lemma quiet_basic [client_rules]: "quiet (retC a)" "quiet (smtp_write E bs)" "quiet (smtp_put E msg)"
  by (simp_all add: quiet_def retC_def smtp_put_def smtp_write_def split: option.split)

lemma quiet_stuffed [client_rules]: "quiet (write_dot_stuffed E b ms)"
  by (induction ms arbitrary: b) (auto intro!: client_rules)

lemma quiet_content: "quiet (send_content E message)"
  by (auto simp: send_content_def intro!: client_rules)

text \<open>\<open>dialogue s xs s'\<close>: from \<open>s\<close> to \<open>s'\<close> the client, for each pair of \<open>xs\<close> in turn, sends exactly
  the bytes and only then reads one reply of the peer, which has the code.\<close>

fun dialogue :: "client_state \<Rightarrow> (bytes \<times> u16) list \<Rightarrow> client_state \<Rightarrow> bool" where
  "dialogue s [] s' \<longleftrightarrow> s' = s"
| "dialogue s ((bs, code) # xs) s' \<longleftrightarrow>
     (\<exists>s1 s2 msg. sent s1 = sent s @ bs \<and> cs_in s1 = cs_in s
        \<and> read_reply (cs_in s1) = Some (Inr (code, msg), cs_in s2) \<and> s2 = s1\<lparr>cs_in := cs_in s2\<rparr> \<and> dialogue s2 xs s')"

lemma reply_Inr: "smtp_reply_of s = (Some (Inr (code, msg)), s') \<Longrightarrow>
    read_reply (cs_in s) = Some (Inr (code, msg), cs_in s') \<and> s' = s\<lparr>cs_in := cs_in s'\<rparr>"
  by (auto simp: smtp_reply_of_def ioC_Inr split: option.splits prod.splits)

lemma put_Inr: "smtp_put E msg s = (Some (Inr u), s') \<Longrightarrow> sent s' = sent s @ as_bytes msg \<and> cs_in s' = cs_in s"
  using sent_ok [OF validC_sent_put refl] quiet_basic(3) [of E msg] by (auto simp: quiet_def) (metis snd_conv)

lemma content_Inr:
  "send_content E message s = (Some (Inr u), s') \<Longrightarrow> sent s' = sent s @ content message \<and> cs_in s' = cs_in s"
  using sent_ok [OF validC_sent_content refl] quiet_content [of E message] by (auto simp: quiet_def) (metis snd_conv)

lemma command_Inr:
  assumes "command E msg s = (Some (Inr u), s')"
  obtains code where "is_2xx code" "\<And>xs s''. dialogue s' xs s'' \<Longrightarrow> dialogue s ((as_bytes msg, code) # xs) s''"
proof -
  from assms obtain s1 code reply where "smtp_put E msg s = (Some (Inr ()), s1)"
      "smtp_reply_of s1 = (Some (Inr (code, reply)), s')" "is_2xx code"
    by (auto simp: command_def client_steps)
  with put_Inr [of E msg s "()" s1] reply_Inr [of s1 code reply s'] that show thesis by fastforce
qed

definition DATA_line :: bytes where
  "DATA_line = as_bytes (''DATA'' @ CRLF)"

definition QUIT_line :: bytes where
  "QUIT_line = as_bytes (''QUIT'' @ CRLF)"

lemma quit_sends: "ignore_write (smtp_put E (''QUIT'' @ CRLF)) s = (Some (Inr u), s') \<Longrightarrow>
    cs_in s' = cs_in s \<and> (\<exists>q. prefix q QUIT_line \<and> sent s' = sent s @ q)"
  by (auto simp: ignore_write_def smtp_put_def smtp_write_def sent_def QUIT_line_def o_def take_is_prefix
      split: option.splits)

text \<open>The envelope commands, and the two ways a transaction ends well: a reply to the content, or a reply to
  DATA itself that is not 354.\<close>

definition envelope :: "string \<Rightarrow> string \<Rightarrow> string \<Rightarrow> u16 \<Rightarrow> u16 \<Rightarrow> (bytes \<times> u16) list" where
  "envelope mf params rcpt c1 c2 =
     [(as_bytes (''MAIL FROM:<'' @ mf @ ''>'' @ params @ CRLF), c1), (as_bytes (''RCPT TO:<'' @ rcpt @ ''>'' @ CRLF), c2)]"

definition replied :: "string \<Rightarrow> string \<Rightarrow> string \<Rightarrow> string \<Rightarrow> client_state \<Rightarrow> u16 \<Rightarrow> client_state \<Rightarrow> bool" where
  "replied mf params rcpt message s0 code s \<longleftrightarrow> (\<exists>c1 c2. is_2xx c1 \<and> is_2xx c2 \<and>
     ((\<exists>s1 q. dialogue s0 (envelope mf params rcpt c1 c2 @ [(DATA_line, 354), (content message, code)]) s1
         \<and> prefix q QUIT_line \<and> sent s = sent s1 @ q \<and> cs_in s = cs_in s1)
      \<or> code \<noteq> 354 \<and> dialogue s0 (envelope mf params rcpt c1 c2 @ [(DATA_line, code)]) s))"

lemma finish_Inr:
  assumes "finish_data E message s = (Some (Inr r), s')"
  shows "\<exists>code msg s1 q. r = classify code msg \<and> dialogue s [(content message, code)] s1
    \<and> prefix q QUIT_line \<and> sent s' = sent s1 @ q \<and> cs_in s' = cs_in s1"
proof -
  from assms obtain s1 s2 code msg where "send_content E message s = (Some (Inr ()), s1)"
      "smtp_reply_of s1 = (Some (Inr (code, msg)), s2)"
      "ignore_write (smtp_put E (''QUIT'' @ CRLF)) s2 = (Some (Inr ()), s')" "r = classify code msg"
    by (auto simp: finish_data_def client_steps)
  with content_Inr [of E message s "()" s1] reply_Inr [of s1 code msg s2] quit_sends [of E s2 "()" s']
  show ?thesis by fastforce
qed

lemma transaction_Inr:
  assumes "transaction E mf params rcpt message s0 = (Some (Inr r), s)"
  shows "\<exists>code msg. r = classify code msg \<and> replied mf params rcpt message s0 code s"
proof -
  from assms obtain s1 s2 s3 s4 c t where m: "command E (''MAIL FROM:<'' @ mf @ ''>'' @ params @ CRLF) s0 = (Some (Inr ()), s1)"
      and rc: "command E (''RCPT TO:<'' @ rcpt @ ''>'' @ CRLF) s1 = (Some (Inr ()), s2)"
      and d: "smtp_put E (''DATA'' @ CRLF) s2 = (Some (Inr ()), s3)" "smtp_reply_of s3 = (Some (Inr (c, t)), s4)"
      and f: "(if c \<noteq> 354 then retC (classify c t) else finish_data E message) s4 = (Some (Inr r), s)"
    by (auto simp: transaction_def client_steps)
  from m obtain c1 where c1: "is_2xx c1" "\<And>xs s'. dialogue s1 xs s' \<Longrightarrow>
      dialogue s0 ((as_bytes (''MAIL FROM:<'' @ mf @ ''>'' @ params @ CRLF), c1) # xs) s'" by (rule command_Inr) blast
  from rc obtain c2 where c2: "is_2xx c2" "\<And>xs s'. dialogue s2 xs s' \<Longrightarrow>
      dialogue s1 ((as_bytes (''RCPT TO:<'' @ rcpt @ ''>'' @ CRLF), c2) # xs) s'" by (rule command_Inr) blast
  have env: "dialogue s0 (envelope mf params rcpt c1 c2 @ xs) s'" if "dialogue s2 xs s'" for xs s'
    using c1(2) [OF c2(2) [OF that]] by (simp only: envelope_def append.simps)
  have data: "dialogue s2 ((DATA_line, c) # xs) s'" if "dialogue s4 xs s'" for xs s'
    using that put_Inr [OF d(1)] reply_Inr [OF d(2)] unfolding dialogue.simps DATA_line_def by blast
  show ?thesis
  proof (cases "c = 354")
    case True
    with f have "finish_data E message s4 = (Some (Inr r), s)" by simp
    from finish_Inr [OF this] obtain code msg s5 q where
        "r = classify code msg" "dialogue s4 [(content message, code)] s5"
        "prefix q QUIT_line" "sent s = sent s5 @ q" "cs_in s = cs_in s5" by blast
    then show ?thesis using c1(1) c2(1) env [OF data] True unfolding replied_def by metis
  next
    case False
    with f have "r = classify c t" "s = s4" by (auto simp: retC_Inr)
    then show ?thesis using False c1(1) c2(1) env [OF data, of "[]" s] unfolding replied_def by auto
  qed
qed

text \<open>C26: What a reported delivery means, for every peer and every point at which a write fails. The client connected
  to the address it chose and finished the opening of the stream; from there it sent MAIL FROM and RCPT TO
  and read a 2xx reply to each; and then, either it sent DATA, read 354, sent the whole
  message (every line that starts with a dot stuffed, a line end added where there was none, the final
  dot) and only then read the 2xx reply it reports, with at most QUIT after it, or the peer answered DATA
  itself with the 2xx reply it reports and no content was sent.
\<close>

theorem delivered_content:
  assumes "run_delivery E T d message b = (Some (TrDelivered code), s)"
  shows "is_2xx code \<and> (\<exists>host addr sc caps s0 mf rcpt params.
      dial_addr E T host = Inr addr \<and> smtp_connect E addr client_start = (Some (Inr ()), sc)
      \<and> secure_stream E T host b sc = (Some (Inr caps), s0)
      \<and> mf = (case header_addr message ''from'' of Some a \<Rightarrow> a | None \<Rightarrow> ''<>'') \<and> header_addr message ''to'' = Some rcpt
      \<and> replied mf params rcpt message s0 code s)"
proof -
  have "try_run E T d message b client_start = (Some (Inr (TrDelivered code)), s)"
    using assms by (cases "try_run E T d message b client_start" rule: client_cases)
      (auto simp: run_delivery_def split: transport_abort.splits)
  then obtain host addr sc caps s0 rcpt params where *: "dial_addr E T host = Inr addr"
      "smtp_connect E addr client_start = (Some (Inr ()), sc)" "secure_stream E T host b sc = (Some (Inr caps), s0)"
      "header_addr message ''to'' = Some rcpt"
      "transaction E (case header_addr message ''from'' of Some a \<Rightarrow> a | None \<Rightarrow> ''<>'') params rcpt message s0
        = (Some (Inr (TrDelivered code)), s)"
    by (auto simp: try_run_def client_steps Let_def check_caps_def failC_def ok_or_def
        split: if_splits option.splits)
  from transaction_Inr [OF *(5)] obtain c t where "TrDelivered code = classify c t"
      "replied (case header_addr message ''from'' of Some a \<Rightarrow> a | None \<Rightarrow> ''<>'') params rcpt message s0 c s" by blast
  moreover from this(1) have "c = code" "is_2xx code" by (auto simp: classify_def split: if_splits)
  ultimately show ?thesis using * by blast
qed

section \<open>A peer that answers DATA with 250\<close>

lemma lf_as_bytes: "10 \<in> set (as_bytes s) \<longleftrightarrow> LF \<in> set s"
proof -
  have "(of_nat (byte_of c) :: u8) = 10 \<longleftrightarrow> c = LF" for c
    using as_bytes_inj [of "[c]" "[LF]"] by (simp add: as_bytes_def)
  then show ?thesis by (auto simp: as_bytes_def image_iff)
qed

text \<open>One ASCII reply line as the readers see it.\<close>

lemma reply_line_parts:
  fixes digits reply_text :: string
  assumes "list_all (\<lambda>c. byte_of c < 128) (digits @ CHR '' '' # reply_text)" and "LF \<notin> set (digits @ reply_text)"
    and "length digits = 3" and "length reply_text < 1000"
  defines "line \<equiv> digits @ CHR '' '' # reply_text"
  shows "read_line [] (wire_bytes (digits @ '' '' @ reply_text @ CRLF) @ rs) = (Inr (Some (as_bytes line)), rs)"
    and "from_utf8_lossy (as_bytes line) = line" and "slice_to line 3 = Some digits" and "get_from line 4 = Some reply_text"
    and "line ! 3 = CHR '' ''"
proof -
  have "10 \<notin> set (as_bytes line @ [13])" using assms(2) lf_as_bytes [of line] by (simp add: line_def)
  moreover have "wire_bytes (digits @ '' '' @ reply_text @ CRLF) @ rs = map RByte (as_bytes line @ [13]) @ RByte 10 # rs"
    by (simp add: wire_bytes_def as_bytes_def line_def)
  ultimately show "read_line [] (wire_bytes (digits @ '' '' @ reply_text @ CRLF) @ rs) = (Inr (Some (as_bytes line)), rs)"
    using read_line_fits [of "as_bytes line @ [13]" "[]" "RByte 10 # rs"] assms(3,4)
    by (simp add: MAX_LINE_def butlast_append line_def)
  show "from_utf8_lossy (as_bytes line) = line"
    using assms(1) unfolding line_def by (intro from_utf8_lossy_str ascii_is_str)
  have a: "\<not> is_cont c" if "c \<in> set line" for c
  proof -
    have "byte_of c < 128" using assms(1) that by (auto simp: list_all_iff line_def)
    then show ?thesis by (simp add: is_cont_def)
  qed
  show sp: "line ! 3 = CHR '' ''" using assms(3) by (simp add: nth_append line_def)
  then show "slice_to line 3 = Some digits"
    using assms(3) a [of "CHR '' ''"] by (simp add: slice_to_def is_char_boundary_def line_def)
  have "4 = length line \<or> 4 < length line \<and> line ! 4 \<in> set line"
    using assms(3) nth_mem [of 4 line] by (cases reply_text) (auto simp: line_def)
  then show "get_from line 4 = Some reply_text"
    using a assms(3) by (auto simp: get_from_def is_char_boundary_def line_def)
qed

lemma read_reply_line:
  assumes "list_all (\<lambda>c. byte_of c < 128) (digits @ CHR '' '' # reply_text)" and "LF \<notin> set (digits @ reply_text)"
    and "length digits = 3" and "length reply_text < 1000" and "parse_uint 65535 digits = Some n"
  shows "read_reply (wire_bytes (digits @ '' '' @ reply_text @ CRLF) @ rs) = Some (Inr (of_nat n, trim reply_text), rs)"
proof -
  note p = reply_line_parts [OF assms(1-4)]
  have n: "\<not> length (digits @ CHR '' '' # reply_text) < 3" using assms(3) by simp
  show ?thesis
    unfolding read_reply_def
    by (subst read_reply_loop.simps) (simp add: p n assms(5) Let_def del: append.simps as_bytes_append length_append)
qed

lemma ehlo_loop_line:
  assumes "list_all (\<lambda>c. byte_of c < 128) (digits @ CHR '' '' # reply_text)" and "LF \<notin> set (digits @ reply_text)"
    and "length digits = 3" and "length reply_text < 1000" and "parse_uint 65535 digits = Some n" and "is_2xx (of_nat n)"
    and "split_whitespace reply_text = [tok]" and "cs_in s = wire_bytes (digits @ '' '' @ reply_text @ CRLF) @ rs"
  shows "ehlo_loop caps s = (Some (Inr (caps @ [tok])), s\<lparr>cs_in := rs\<rparr>)"
proof -
  note p = reply_line_parts [OF assms(1-4)]
  have n: "\<not> length (digits @ CHR '' '' # reply_text) < 3" using assms(3) by simp
  show ?thesis
    by (subst ehlo_loop.simps)
      (simp add: p n assms(5-8) ehlo_line_def del: append.simps as_bytes_append length_append)
qed

definition probe_message :: string where
  "probe_message = ''from:<a@b>'' @ CRLF @ ''to:<c@d>'' @ CRLF @ CRLF @ ''.x''"

definition probe_hi :: "rd list" where "probe_hi = wire_bytes (''220 hi'' @ CRLF)"
definition probe_ehlo :: "rd list" where "probe_ehlo = wire_bytes (''250 hi'' @ CRLF)"
definition probe_ok :: "rd list" where "probe_ok = wire_bytes (''250 ok'' @ CRLF)"

definition probe_peer :: "rd list" where
  "probe_peer = probe_hi @ probe_ehlo @ probe_ok @ probe_ok @ probe_ok @ probe_ok"

definition probe_env :: "rd list \<Rightarrow> client_env" where
  "probe_env peer =
     \<lparr>ce_idna = Inr, ce_idn_text = \<lambda>e. [], ce_resolve = \<lambda>d p. Inr [(V4 0x08080808, p)], ce_connect = \<lambda>a. Inr peer,
      ce_upgrade = \<lambda>d rs. Inr rs, ce_write = \<lambda>out bs. None\<rparr>"

definition probe_transport :: smtp_transport where
  "probe_transport = \<lparr>st_ehlo_name = ''gw'', st_port = 25, st_fixed_addr = None\<rparr>"

lemma probe_digits: "parse_uint 65535 ''220'' = Some 220" "parse_uint 65535 ''250'' = Some 250"
  by (simp_all add: parse_uint_def starts_with_def is_ascii_digit_def digits_value_def)

lemma probe_replies:
  "read_reply (probe_hi @ rs) = Some (Inr (220, ''hi''), rs)" "read_reply (probe_ok @ rs) = Some (Inr (250, ''ok''), rs)"
  using read_reply_line [of "''220''" "''hi''" 220 rs] read_reply_line [of "''250''" "''ok''" 250 rs]
    probe_digits trim_graphic [of "''hi''"] trim_graphic [of "''ok''"] by (simp_all add: probe_hi_def probe_ok_def)

lemma probe_headers: "header_addr probe_message ''from'' = Some ''a@b''" "header_addr probe_message ''to'' = Some ''c@d''"
proof -
  let ?head = "''from:<a@b>'' @ CRLF @ ''to:<c@d>''"
  have "find_blank_line probe_message = Some 20"
    by (simp add: probe_message_def starts_with_def)
  moreover have "take 20 probe_message = ?head" by (simp add: probe_message_def)
  moreover have "from_utf8_lossy (as_bytes ?head) = ?head"
    by (rule from_utf8_lossy_str, rule ascii_is_str) simp
  moreover have "split_crlf ?head = [''from:<a@b>'', ''to:<c@d>'']" by simp
  moreover have "trim ''from'' = ''from''" "trim ''to'' = ''to''" "trim ''<a@b>'' = ''<a@b>''" "trim ''<c@d>'' = ''<c@d>''"
    "trim ''a@b'' = ''a@b''" "trim ''c@d'' = ''c@d''"
    by (rule trim_graphic, simp)+
  moreover from this have "angle_addr ''<a@b>'' = Some ''a@b''" "angle_addr ''<c@d>'' = Some ''c@d''"
    by (simp_all add: angle_addr_def rfind_char_def)
  ultimately show "header_addr probe_message ''from'' = Some ''a@b''" "header_addr probe_message ''to'' = Some ''c@d''"
    by (simp_all add: header_addr_def line_addr_def eq_ignore_ascii_case_def to_ascii_lowercase_def ascii_lower_def
        del: append.simps)
qed

lemma probe_run:
  "\<exists>s. run_delivery (probe_env probe_peer) probe_transport ''b'' probe_message False = (Some (TrDelivered 250), s) \<and>
     (\<exists>pre. sent s = pre @ DATA_line)"
proof -
  have idn: "domain_to_ascii (ce_idna (probe_env probe_peer)) ''b'' = Inr ''b''"
    by (simp add: probe_env_def domain_to_ascii_def strip_suffix_def ends_with_def Let_def)
  have dial: "dial_addr (probe_env probe_peer) probe_transport ''b'' = Inr (V4 0x08080808, 25)"
    by (simp add: dial_addr_def probe_env_def probe_transport_def is_forbidden_dest_ip_def is_forbidden_v4_def
        v4_is_loopback_def v4_is_private_def v4_is_link_local_def octet_def)
  have "split_whitespace ''hi'' = [''hi'']" by (rule split_whitespace_word) simp_all
  then have eh: "cs_in s = probe_ehlo @ rs \<Longrightarrow> ehlo_loop [] s = (Some (Inr [''hi'']), s\<lparr>cs_in := rs\<rparr>)" for s rs
    using ehlo_loop_line [of "''250''" "''hi''" 250 "''hi''" s rs "[]"] probe_digits by (simp add: is_2xx_def probe_ehlo_def)
  have put: "smtp_put (probe_env peer) t s = (Some (Inr ()), s\<lparr>cs_out := cs_out s @ map (Pair (cs_tls s)) (as_bytes t)\<rparr>)" for peer t s
    by (simp add: smtp_put_def smtp_write_def probe_env_def)
  have con: "smtp_connect (probe_env probe_peer) a s = (Some (Inr ()), s\<lparr>cs_dialed := Some a, cs_in := probe_peer\<rparr>)" for a s
    by (simp add: smtp_connect_def probe_env_def)
  have rep: "cs_in s = probe_hi @ rs \<Longrightarrow> smtp_reply_of s = (Some (Inr (220, ''hi'')), s\<lparr>cs_in := rs\<rparr>)"
    "cs_in s = probe_ok @ rs \<Longrightarrow> smtp_reply_of s = (Some (Inr (250, ''ok'')), s\<lparr>cs_in := rs\<rparr>)" for s rs
    using probe_replies by (simp_all add: smtp_reply_of_def ioC_def liftC_def retC_def)
  have caps: "\<not> has_cap [''hi''] ''STARTTLS''" by (simp add: has_cap_def eq_ignore_ascii_case_def to_ascii_lowercase_def)
  have asc: "str_is_ascii ''a@b''" "str_is_ascii ''c@d''" "\<not> list_ex (\<lambda>c. byte_of c \<ge> 128) probe_message"
    by (simp_all add: str_is_ascii_def probe_message_def)
  note unf = bindC_def retC_def liftC_def ioC_def expect_2xx_def is_2xx_def
  let ?E = "probe_env probe_peer" and ?s0 = "client_start\<lparr>cs_dialed := Some (V4 0x08080808, 25), cs_in := probe_peer\<rparr>"
  obtain s1 where s1: "secure_stream ?E probe_transport ''b'' False ?s0 = (Some (Inr [''hi'']), s1)"
      "cs_in s1 = probe_ok @ probe_ok @ probe_ok @ probe_ok"
    by (simp add: secure_stream_def ehlo_def unf rep eh put caps probe_peer_def)
  have cmd: "cs_in s = probe_ok @ rs \<Longrightarrow> \<exists>s'. command ?E t s = (Some (Inr ()), s') \<and> cs_in s' = rs" for t s rs
    by (simp add: command_def unf rep put)
  obtain s2 where s2: "command ?E (''MAIL FROM:<a@b>'' @ CRLF) s1 = (Some (Inr ()), s2)" "cs_in s2 = probe_ok @ probe_ok @ probe_ok"
    using cmd [OF s1(2)] by blast
  obtain s3 where s3: "command ?E (''RCPT TO:<c@d>'' @ CRLF) s2 = (Some (Inr ()), s3)" "cs_in s3 = probe_ok @ probe_ok"
    using cmd [OF s2(2)] by blast
  have tr: "transaction ?E ''a@b'' [] ''c@d'' probe_message s1 =
      (Some (Inr (TrDelivered 250)), s3\<lparr>cs_out := cs_out s3 @ map (Pair (cs_tls s3)) DATA_line, cs_in := probe_ok\<rparr>)"
    using s2(1) s3 by (simp add: transaction_def bindC_def put rep retC_def classify_def is_2xx_def DATA_line_def)
  have "try_run ?E probe_transport ''b'' probe_message False client_start =
      (Some (Inr (TrDelivered 250)), s3\<lparr>cs_out := cs_out s3 @ map (Pair (cs_tls s3)) DATA_line, cs_in := probe_ok\<rparr>)"
    using idn s1(1) tr
    by (simp add: try_run_def bindC_def liftC_def ioC_def retC_def dial con probe_headers asc check_caps_def mail_params_def)
  then show ?thesis by (simp add: run_delivery_def sent_def o_def)
qed

text \<open>A peer that answers DATA with 250 makes the message vanish: the delivery is reported as delivered,
  although the last thing sent was the DATA command.
\<close>

theorem data_2xx_reported_delivered:
  "\<exists>s. run_delivery (probe_env probe_peer) probe_transport ''b'' probe_message False = (Some (TrDelivered 250), s) \<and>
     (\<exists>pre. sent s = pre @ DATA_line)"
  by (rule probe_run)

lemma delivered_content_witness:
  "\<exists>code s. run_delivery (probe_env probe_peer) probe_transport ''b'' probe_message False = (Some (TrDelivered code), s) \<and> is_2xx code"
  using probe_run delivered_content by blast

lemma required_tls_never_clear_witness:
  "prefix (plain (snd (run_delivery (probe_env probe_peer) probe_transport ''b'' probe_message True))) (clear_hello probe_transport)"
  using required_tls_never_clear [of "probe_env probe_peer" probe_transport "''b''" probe_message] by (metis prod.collapse)

end
