(* ===== verification/Gw_Mail_Loop.thy ===== *)
theory Gw_Mail_Loop
  imports Gw_Mx Gw_Smtp_Client_Sound
begin

text \<open>
  The two ends of a mail connection against each other: what the SMTP client of the outbound gateway writes for
  a message, read by the connection handler of the inbound gateway.
\<close>

definition crlf_lines :: "bytes list \<Rightarrow> bytes" where
  "crlf_lines ls = concat (map (\<lambda>l. l @ [13, 10]) ls)"

definition dot_of :: "bytes \<Rightarrow> bytes" where
  "dot_of l = (if l \<noteq> [] \<and> hd l = 46 then [46] else [])"

lemma stuff_inside: "10 \<notin> set l \<Longrightarrow> stuff False (l @ 13 # 10 # rest) = l @ 13 # 10 # stuff True rest"
  by (induction l) auto

lemma stuff_line:
  assumes "10 \<notin> set l"
  shows "stuff True (l @ 13 # 10 # rest) = dot_of l @ l @ 13 # 10 # stuff True rest"
proof (cases l)
  case (Cons b bs)
  then have "b \<noteq> 10" "10 \<notin> set bs" using assms by auto
  then show ?thesis using Cons stuff_inside [of bs rest] by (simp add: dot_of_def)
qed (simp add: dot_of_def)

lemma read_stuffed:
  assumes "10 \<notin> set l" and "length l + 2 \<le> MAX_LINE"
  shows "read_line [] (map RByte (dot_of l @ l @ 13 # 10 # later) @ rs) = (Inr (Some (dot_of l @ l)), map RByte later @ rs)"
proof -
  have "10 \<notin> set (dot_of l @ l @ [13])" "length (dot_of l @ l @ [13]) \<le> MAX_LINE"
    using assms by (auto simp: dot_of_def)
  from read_line_fits [of "dot_of l @ l @ [13]" "[]" "RByte 10 # map RByte later @ rs"] this show ?thesis
    by (simp add: butlast_append)
qed

definition taking :: "('k, 'e, 'w) inbound_gateway \<Rightarrow> mx_conn \<Rightarrow> nat \<Rightarrow> bool" where
  "taking gw c n =
     (mc_in_data c \<and> mx_phase (mc_session c) = Data \<and> \<not> mx_size_exceeded (mc_session c) \<and>
      length (mx_data (mc_session c)) + n \<le> ig_max_message_bytes gw)"

definition add_data :: "bytes \<Rightarrow> mx_conn \<Rightarrow> mx_conn" where
  "add_data d c = c\<lparr>mc_session := (mc_session c)\<lparr>mx_data := mx_data (mc_session c) @ d\<rparr>\<rparr>"

lemma append_unstuffed:
  assumes "taking gw c (length l + 2 + n)"
  shows "append_line gw (dot_of l @ l) (mc_session c) = mc_session (add_data (l @ [13, 10]) c)"
  using assms by (auto simp: append_line_def dot_of_def taking_def add_data_def Let_def)

lemma handle_content_line:
  assumes "taking gw c (length l + 2 + n)" and "\<not> io_late io rs"
  shows "handle_line io gw (dot_of l @ l) rs c w = (MxGo (add_data (l @ [13, 10]) c) rs, w)"
proof -
  have "dot_of l @ l \<noteq> [46]" by (cases l) (auto simp: dot_of_def)
  then have "feed_line_bytes (io_lib io) gw (dot_of l @ l) (mc_session c) w =
      (reply 0 [], mc_session (add_data (l @ [13, 10]) c), w)"
    using assms(1) append_unstuffed [OF assms(1)] by (simp add: feed_line_bytes_def feed_data_def taking_def)
  then show ?thesis
    using assms by (simp add: handle_line_def taking_def reply_def add_data_def)
qed

lemma mx_loop_lines:
  assumes "\<And>rs. \<not> io_late io rs" and "\<forall>l \<in> set ls. 10 \<notin> set l \<and> length l + 2 \<le> MAX_LINE"
    and "taking gw c (length (crlf_lines ls))"
  shows "mx_loop io gw (map RByte (stuff True (crlf_lines ls @ tail)) @ rs) c w =
     mx_loop io gw (map RByte (stuff True tail) @ rs) (add_data (crlf_lines ls) c) w"
  using assms(2,3)
proof (induction ls arbitrary: c)
  case Nil
  then show ?case by (simp add: crlf_lines_def add_data_def)
next
  case (Cons l ls)
  have l: "10 \<notin> set l" "length l + 2 \<le> MAX_LINE" using Cons(2) by auto
  have t: "taking gw c (length l + 2 + length (crlf_lines ls))" using Cons(3) by (simp add: crlf_lines_def)
  have st: "stuff True (crlf_lines (l # ls) @ tail) = dot_of l @ l @ 13 # 10 # stuff True (crlf_lines ls @ tail)"
    using stuff_line [OF l(1), of "crlf_lines ls @ tail"] by (simp add: crlf_lines_def)
  have "mx_loop io gw (map RByte (stuff True (crlf_lines (l # ls) @ tail)) @ rs) c w =
      mx_loop io gw (map RByte (stuff True (crlf_lines ls @ tail)) @ rs) (add_data (l @ [13, 10]) c) w"
    unfolding st
    by (subst mx_loop.simps) (simp only: read_stuffed [OF l] handle_content_line [OF t assms(1)] prod.case sum.case option.case mx_next.case)
  also have "\<dots> = mx_loop io gw (map RByte (stuff True tail) @ rs) (add_data (crlf_lines ls) (add_data (l @ [13, 10]) c)) w"
    using Cons(2) t by (intro Cons(1)) (auto simp: taking_def add_data_def)
  also have "add_data (crlf_lines ls) (add_data (l @ [13, 10]) c) = add_data (crlf_lines (l # ls)) c"
    by (simp add: add_data_def crlf_lines_def)
  finally show ?case .
qed

lemma content_lines:
  assumes "as_bytes message = crlf_lines ls" and "ls \<noteq> []"
  shows "content message = stuff True (crlf_lines ls) @ [46, 13, 10]"
proof -
  obtain b where "crlf_lines ls = b @ [13, 10]" using assms(2) by (cases ls rule: rev_cases) (auto simp: crlf_lines_def)
  then have "as_bytes message = as_bytes (text_of b @ CRLF)" using assms(1) by (simp add: as_bytes_def text_of_def comp_def del: of_char_of)
  then have "message = text_of b @ CRLF" by (simp only: as_bytes_inj)
  then have "ends_with CRLF message" by (simp add: ends_with_def)
  then show ?thesis by (simp add: content_def assms(1))
qed

lemma handle_final_dot:
  assumes "taking gw c n" and "\<not> io_late io rs" and "\<And>out. io_can_write io out" and "s = mc_session c"
    and "accept_message_with_spf (io_lib io) gw (unwrap_str (mx_mail_from s)) (unwrap_str (mx_rcpt_to s)) (mx_data s)
      (mx_now s) (mx_spf_outcome s) w = (r, w')"
  shows "handle_line io gw [46] rs c w =
    (MxGo (c\<lparr>mc_session := reset_transaction (s\<lparr>mx_phase := Command\<rparr>), mc_in_data := False,
      mc_out := mc_out c @ [reply_wire r]\<rparr>) rs, w')"
proof -
  have "feed_line_bytes (io_lib io) gw [46] s w = (r, reset_transaction (s\<lparr>mx_phase := Command\<rparr>), w')"
    using assms(1,4,5) by (simp add: feed_line_bytes_def feed_data_def taking_def)
  moreover have "sr_code r \<noteq> 0"
    using accept_code [of "io_lib io" gw "unwrap_str (mx_mail_from s)" "unwrap_str (mx_rcpt_to s)" "mx_data s" "mx_now s"
        "mx_spf_outcome s" w] assms(5) by simp
  ultimately show ?thesis
    using assms(1-4) by (simp add: handle_line_def taking_def go_def put_def Let_def)
qed

text \<open>C22: A message crosses intact. What the SMTP client writes for a message of CRLF lines, the connection handler
  of a gateway that is taking message data reads back as exactly that message, line dots and all, and hands to
  \<open>accept_message\<close>; it then answers with that verdict and goes on with the bytes after the final dot.
\<close>

theorem message_arrives:
  assumes "as_bytes message = crlf_lines ls" and "ls \<noteq> []" and "\<forall>l \<in> set ls. 10 \<notin> set l \<and> length l + 2 \<le> MAX_LINE"
    and "taking gw c (length message)" and "mx_data (mc_session c) = []"
    and "\<And>rs. \<not> io_late io rs" and "\<And>out. io_can_write io out"
    and "s = mc_session c"
    and "accept_message_with_spf (io_lib io) gw (unwrap_str (mx_mail_from s)) (unwrap_str (mx_rcpt_to s)) (as_bytes message)
      (mx_now s) (mx_spf_outcome s) w = (r, w')"
  shows "mx_loop io gw (map RByte (content message) @ rs) c w =
    mx_loop io gw rs (c\<lparr>mc_session := reset_transaction (s\<lparr>mx_phase := Command\<rparr>), mc_in_data := False,
      mc_out := mc_out c @ [reply_wire r]\<rparr>) w'"
proof -
  let ?c = "add_data (crlf_lines ls) c" and ?tail = "map RByte [46, 13, 10] @ rs"
  have n: "length message = length (crlf_lines ls)" using assms(1) by (metis length_as_bytes)
  have "mx_loop io gw (map RByte (content message) @ rs) c w =
      mx_loop io gw (map RByte (stuff True (crlf_lines ls @ [])) @ ?tail) c w"
    by (simp add: content_lines [OF assms(1,2)])
  also have "\<dots> = mx_loop io gw ?tail ?c w"
    using mx_loop_lines [OF assms(6,3), of gw c "[]" ?tail w] assms(4) n by simp
  also have "\<dots> = mx_loop io gw rs (c\<lparr>mc_session := reset_transaction (s\<lparr>mx_phase := Command\<rparr>), mc_in_data := False,
      mc_out := mc_out c @ [reply_wire r]\<rparr>) w'"
  proof -
    have t: "taking gw ?c 0" using assms(4) n by (simp add: taking_def add_data_def)
    have d: "mx_data (mc_session ?c) = as_bytes message" using assms(1,5) by (simp add: add_data_def)
    have rd: "read_line [] ?tail = (Inr (Some [46]), rs)" by (simp add: MAX_LINE_def)
    have "handle_line io gw [46] rs ?c w =
        (MxGo (?c\<lparr>mc_session := reset_transaction ((mc_session ?c)\<lparr>mx_phase := Command\<rparr>), mc_in_data := False,
          mc_out := mc_out ?c @ [reply_wire r]\<rparr>) rs, w')"
      using assms(8,9) d by (intro handle_final_dot [OF t assms(6,7) refl]) (simp add: add_data_def)
    then show ?thesis
      by (subst mx_loop.simps) (simp add: rd assms(8) add_data_def reset_transaction_def del: read_line.simps map_append list.map)
  qed
  finally show ?thesis .
qed

definition demo_conn :: mx_conn where
  "demo_conn = \<lparr>mc_session = (mx_session_new ''ip'' 5)\<lparr>mx_phase := Data, mx_mail_from := Some ''a@b'', mx_rcpt_to := Some ''a@b''\<rparr>,
     mc_in_data = True, mc_secured = False, mc_out = []\<rparr>"

lemma message_arrives_witness:
  "\<exists>r. mx_loop demo_io demo_gateway (map RByte (content (''.x'' @ CRLF))) demo_conn () = (Inr (), [reply_wire r], ())"
proof -
  let ?s = "mc_session demo_conn" and ?m = "''.x'' @ CRLF"
  obtain r w' where a: "accept_message_with_spf (io_lib demo_io) demo_gateway (unwrap_str (mx_mail_from ?s))
      (unwrap_str (mx_rcpt_to ?s)) (as_bytes ?m) (mx_now ?s) (mx_spf_outcome ?s) () = (r, w')" by (rule prod.exhaust)
  have m: "as_bytes ?m = crlf_lines [[46, 120]]" by (simp add: as_bytes_def crlf_lines_def)
  have l: "\<forall>l \<in> set [[46, 120 :: u8]]. 10 \<notin> set l \<and> length l + 2 \<le> MAX_LINE" by (simp add: MAX_LINE_def)
  have t: "taking demo_gateway demo_conn (length ?m)"
    by (simp add: taking_def demo_conn_def mx_session_new_def demo_gateway_def with_dmarc_def inbound_new_def DEFAULT_MAX_MESSAGE_BYTES_def)
  have io: "\<not> io_late demo_io rs" "io_can_write demo_io out" for rs out by (simp_all add: demo_io_def)
  have d: "mx_data ?s = []" by (simp add: demo_conn_def mx_session_new_def)
  have "mx_loop io gw [] c () = (Inr (), mc_out c, ())" for io gw c
    by (subst mx_loop.simps) simp
  with message_arrives [OF m _ l t d io refl a, of "[]"] show ?thesis
    by (simp add: demo_conn_def) blast
qed

end
