(* ===== verification/Gw_Outbound.thy ===== *)
theory Gw_Outbound
  imports Gw_Smtp_Client_Sound Gw_Inbound Gw_Guard
begin

text \<open>
  The outbound gateway (\<open>gateway/src/outbound.rs\<close>): rendering a payload as a mail message, signing it for the
  From domain, choosing the mail host under the destination's TLS policy, and the guarded entry point. The
  header encoders and the date format of \<open>kotva_mail\<close>, the content digest of \<open>kotva_core\<close>, IDNA and Ed25519 are
  fields of \<open>outbound_lib\<close>; everything that reaches the outside threads the state \<open>'w\<close> of the world. A
  transport that panics is \<open>None\<close>. A message is a \<open>string\<close> of octets.
\<close>

record outbound_payload =
  op_from :: bytes
  op_subject :: "string option"
  op_mime :: "string option"
  op_body :: string

record outbound_lib =
  ol_crypto :: dkim_crypto
  ol_idna :: "string \<Rightarrow> string + string"
  ol_idn_text :: "idn_error \<Rightarrow> string"
  ol_encode_display_name :: "string \<Rightarrow> string"
  ol_encode_header_value :: "string \<Rightarrow> string"
  ol_format_date :: "u64 \<Rightarrow> string"
  ol_content_digest :: "string \<Rightarrow> bytes"

datatype outbound_error =
    NotDelegated string
  | BadFromAddress string
  | BadDestAddress string
  | TlsEnforcementFailed string
  | NoMxMatchesPolicy string "string list" "string list"
  | DestinationRejected u16 string
  | NoMxHost string
  | HeaderInjection string
  | IdnNotConvertible string string

datatype outbound_report = OrDelivered | OrDeferred u16 string | OrFailed outbound_error

datatype governed_send = GsSent outbound_report | GsBlocked sender_verdict

type_synonym 'w address_authz = "bytes \<Rightarrow> string \<Rightarrow> 'w \<Rightarrow> bool \<times> 'w"

type_synonym 'w outbound_transport = "string \<Rightarrow> string \<Rightarrow> bool \<Rightarrow> 'w \<Rightarrow> transport_result option \<times> 'w"

record 'w outbound_gateway =
  obg_dkim_keys :: "dkim_key list"
  obg_tls_policy :: "'w tls_policy"
  obg_transport :: "'w outbound_transport"
  obg_mx_resolver :: "string \<Rightarrow> 'w \<Rightarrow> mx_host list \<times> 'w"
  obg_sender_guard :: "outbound_guard option"
  obg_address_authz :: "'w address_authz option"

definition directory_may_claim :: "(string \<Rightarrow> 'w \<Rightarrow> recipient_key option \<times> 'w) \<Rightarrow> 'w address_authz" where
  "directory_may_claim directory submitter_ik from_addr w =
     (case directory from_addr w of
        (Some recipient, w') \<Rightarrow> (rk_ik recipient = submitter_ik, w')
      | (None, w') \<Rightarrow> (False, w'))"

definition outbound_new :: "dkim_key list \<Rightarrow> 'w tls_policy \<Rightarrow> 'w outbound_transport \<Rightarrow> 'w outbound_gateway" where
  "outbound_new keys policy transport =
     \<lparr>obg_dkim_keys = keys, obg_tls_policy = policy, obg_transport = transport,
      obg_mx_resolver = \<lambda>d w. (im_resolve_mx mx_resolver_new d, w),
      obg_sender_guard = None, obg_address_authz = None\<rparr>"

definition with_sender_guard :: "outbound_guard \<Rightarrow> 'w outbound_gateway \<Rightarrow> 'w outbound_gateway" where
  "with_sender_guard g gw = gw\<lparr>obg_sender_guard := Some g\<rparr>"

definition with_address_claim_authz :: "'w address_authz \<Rightarrow> 'w outbound_gateway \<Rightarrow> 'w outbound_gateway" where
  "with_address_claim_authz a gw = gw\<lparr>obg_address_authz := Some a\<rparr>"

definition with_mx_resolver :: "(string \<Rightarrow> 'w \<Rightarrow> mx_host list \<times> 'w) \<Rightarrow> 'w outbound_gateway \<Rightarrow> 'w outbound_gateway" where
  "with_mx_resolver r gw = gw\<lparr>obg_mx_resolver := r\<rparr>"

definition dkim_key_for :: "'w outbound_gateway \<Rightarrow> string \<Rightarrow> dkim_key option" where
  "dkim_key_for gw domain = find (\<lambda>k. eq_ignore_ascii_case (dk_domain k) domain) (obg_dkim_keys gw)"

section \<open>Rendering\<close>

text \<open>The display name and the address with its domain in ASCII form.\<close>

definition name_and_spec :: "string \<Rightarrow> string option \<times> string" where
  "name_and_spec raw =
     (case (find_char (CHR ''<'') raw, rfind_char (CHR ''>'') raw) of
        (Some l, Some r) \<Rightarrow>
          if l < r then
            (let name = trim (trim_matches (\<lambda>c. c = CHR 0x22) (trim (take l raw))) in
             (if name = [] then None else Some name, trim (take (r - (l + 1)) (drop (l + 1) raw))))
          else (None, raw)
      | _ \<Rightarrow> (None, raw))"

definition wire_address :: "outbound_lib \<Rightarrow> string \<Rightarrow> outbound_error + string option \<times> string" where
  "wire_address L addr =
     (let (name, spec) = name_and_spec (trim addr) in
      case rsplit_once (CHR ''@'') spec of
        Some (local, domain) \<Rightarrow>
          if domain \<noteq> [] then
            (case domain_to_ascii (ol_idna L) domain of
               Inl e \<Rightarrow> Inl (IdnNotConvertible domain (ol_idn_text L e))
             | Inr ascii \<Rightarrow> Inr (name, local @ ''@'' @ ascii))
          else Inr (name, spec)
      | None \<Rightarrow> Inr (name, spec))"

definition wire_address_field :: "outbound_lib \<Rightarrow> string \<Rightarrow> outbound_error + string" where
  "wire_address_field L addr =
     bindE (wire_address L addr) (\<lambda>(name, spec).
       Inr (case name of Some n \<Rightarrow> ol_encode_display_name L n @ '' <'' @ spec @ ''>'' | None \<Rightarrow> spec))"

definition b64_id :: "outbound_lib \<Rightarrow> string \<Rightarrow> string" where
  "b64_id L body =
     map (\<lambda>c. if c \<in> {CHR ''+'', CHR ''/'', CHR ''=''} then CHR ''0'' else c)
       (b64_encode (take 12 (ol_content_digest L body)))"

definition no_inject :: "string \<Rightarrow> string \<Rightarrow> outbound_error + unit" where
  "no_inject field name =
     (if list_ex (\<lambda>c. c = CR \<or> c = LF \<or> c = CHR 0x00) field then Inl (HeaderInjection name) else Inr ())"

definition render_rfc5322 :: "outbound_lib \<Rightarrow> outbound_payload \<Rightarrow> string \<Rightarrow> string \<Rightarrow> u64 \<Rightarrow> outbound_error + string" where
  "render_rfc5322 L p from_addr to_addr ts =
     bindE (no_inject from_addr ''From'') (\<lambda>_.
     bindE (no_inject to_addr ''To'') (\<lambda>_.
     let subject = unwrap_str (op_subject p) in
     bindE (no_inject subject ''Subject'') (\<lambda>_.
     let mime = (case op_mime p of Some m \<Rightarrow> m | None \<Rightarrow> ''text/plain; charset=utf-8'') in
     bindE (no_inject mime ''Content-Type'') (\<lambda>_.
     bindE (wire_address_field L from_addr) (\<lambda>from_field.
     bindE (wire_address_field L to_addr) (\<lambda>to_field.
     bindE (wire_address L from_addr) (\<lambda>(_, from_spec).
     let mid = ''<'' @ b64_id L (op_body p) @ ''@'' @
                 (case domain_of from_spec of Some d \<Rightarrow> d | None \<Rightarrow> ''dmtap.local'') @ ''>'' in
     Inr (''From: '' @ from_field @ CRLF @
          ''To: '' @ to_field @ CRLF @
          ''Date: '' @ ol_format_date L ts @ CRLF @
          ''Subject: '' @ ol_encode_header_value L subject @ CRLF @
          ''Message-ID: '' @ mid @ CRLF @
          ''MIME-Version: 1.0'' @ CRLF @
          ''Content-Type: '' @ mime @ CRLF @
          ''Content-Transfer-Encoding: 8bit'' @ CRLF @ CRLF @
          op_body p @ (if ends_with [LF] (op_body p) then [] else CRLF)))))))))"

section \<open>Sending\<close>

definition translate_and_sign ::
    "outbound_lib \<Rightarrow> 'w outbound_gateway \<Rightarrow> outbound_payload \<Rightarrow> string \<Rightarrow> string \<Rightarrow> u64 \<Rightarrow> outbound_error + string" where
  "translate_and_sign L gw p from_addr to_addr now =
     bindE (wire_address L from_addr) (\<lambda>(_, from_spec).
     bindE (ok_or (BadFromAddress from_addr) (domain_of from_spec)) (\<lambda>from_domain.
     bindE (ok_or (NotDelegated from_domain) (dkim_key_for gw from_domain)) (\<lambda>key.
     bindE (render_rfc5322 L p from_addr to_addr now) (\<lambda>message.
       Inr (sign (ol_crypto L) key message (now div 1000) @ message)))))"

text \<open>The host to dial: the first candidate the policy's patterns allow.\<close>

definition choose_host :: "string \<Rightarrow> string list \<Rightarrow> mx_host list \<Rightarrow> outbound_error + string" where
  "choose_host dest patterns candidates =
     (let eligible = (if patterns = [] then candidates else filter (\<lambda>h. any_pattern_matches patterns (mh_host h)) candidates) in
      case eligible of
        h # _ \<Rightarrow> Inr (mh_host h)
      | [] \<Rightarrow> Inl (if patterns \<noteq> [] then NoMxMatchesPolicy dest patterns (map mh_host candidates) else NoMxHost dest))"

fun transport_report :: "string \<Rightarrow> transport_result \<Rightarrow> outbound_report" where
  "transport_report dest (TrDelivered _) = OrDelivered"
| "transport_report dest (TrTransient code text) = OrDeferred code text"
| "transport_report dest (TrPermanent code text) = OrFailed (DestinationRejected code text)"
| "transport_report dest TlsUnavailable = OrFailed (TlsEnforcementFailed dest)"

definition dispatch :: "'w outbound_gateway \<Rightarrow> string \<Rightarrow> string \<Rightarrow> 'w \<Rightarrow> outbound_report option \<times> 'w" where
  "dispatch gw dest msg w =
     (let (req, w1) = tp_requirement_for (obg_tls_policy gw) dest w;
          (patterns, w2) = tp_allowed_mx_patterns (obg_tls_policy gw) dest w1;
          (candidates, w3) = obg_mx_resolver gw dest w2 in
      case choose_host dest patterns candidates of
        Inl e \<Rightarrow> (Some (OrFailed e), w3)
      | Inr host \<Rightarrow>
          (let (r, w4) = obg_transport gw host msg (req = TlsRequired) w3
           in (map_option (transport_report dest) r, w4)))"

definition outbound_send ::
    "outbound_lib \<Rightarrow> 'w outbound_gateway \<Rightarrow> outbound_payload \<Rightarrow> string \<Rightarrow> string \<Rightarrow> u64 \<Rightarrow> 'w
      \<Rightarrow> outbound_report option \<times> 'w" where
  "outbound_send L gw p from_addr to_addr now w =
     (case translate_and_sign L gw p from_addr to_addr now of
        Inl e \<Rightarrow> (Some (OrFailed e), w)
      | Inr msg \<Rightarrow>
          (case domain_of to_addr of
             None \<Rightarrow> (Some (OrFailed (BadDestAddress to_addr)), w)
           | Some dest0 \<Rightarrow>
               (case domain_to_ascii (ol_idna L) dest0 of
                  Inl e \<Rightarrow> (Some (OrFailed (IdnNotConvertible dest0 (ol_idn_text L e))), w)
                | Inr dest \<Rightarrow> dispatch gw dest msg w)))"

definition no_guard_reason :: string where
  "no_guard_reason = ''5.7.1 outbound relay denied: no sender guard configured (fail-closed)''"

definition no_authz_reason :: string where
  "no_authz_reason =
     ''5.7.1 outbound relay denied: no address-claim authorizer configured (fail-closed, '' @ section_sign @ ''7.11.2 step 2)''"

definition not_yours_reason :: "string \<Rightarrow> string" where
  "not_yours_reason from_addr =
     ''5.7.1 outbound relay denied: sender is not authorized to claim the address '' @ from_addr @
     '' (ERR_GATEWAY_SENDER_ADDRESS_UNAUTHORIZED, '' @ section_sign @ ''7.11.2 step 2)''"

definition settle_outcome :: "outbound_guard \<Rightarrow> u64 \<Rightarrow> string \<Rightarrow> outbound_report \<Rightarrow> guard_state \<Rightarrow> guard_state" where
  "settle_outcome g now account report states =
     (case report of
        OrDelivered \<Rightarrow> report_outcome g now account True states
      | OrFailed _ \<Rightarrow> report_outcome g now account False states
      | OrDeferred _ _ \<Rightarrow> states)"

text \<open>\<open>t1\<close> and \<open>t2\<close> are the guard's clock when it authorizes and when it learns the outcome.\<close>

definition send_authenticated ::
    "outbound_lib \<Rightarrow> 'w outbound_gateway \<Rightarrow> u64 \<Rightarrow> u64 \<Rightarrow> outbound_payload \<Rightarrow> string \<Rightarrow> string \<Rightarrow> string \<Rightarrow> u64
      \<Rightarrow> guard_state \<times> 'w \<Rightarrow> governed_send option \<times> guard_state \<times> 'w" where
  "send_authenticated L gw t1 t2 p from_addr to_addr account now = (\<lambda>(gs, w).
     (case obg_sender_guard gw of
        None \<Rightarrow> (Some (GsBlocked (Refuse no_guard_reason)), gs, w)
      | Some guard \<Rightarrow>
          (let (verdict, gs1) = authorize_send guard t1 account gs in
           if \<not> is_allow verdict then (Some (GsBlocked verdict), gs1, w)
           else case obg_address_authz gw of
             None \<Rightarrow> (Some (GsBlocked (Refuse no_authz_reason)), gs1, w)
           | Some may_claim \<Rightarrow>
               (let (ok, w1) = may_claim (op_from p) from_addr w in
                if \<not> ok then (Some (GsBlocked (Refuse (not_yours_reason from_addr))), gs1, w1)
                else
                  (case outbound_send L gw p from_addr to_addr now w1 of
                     (None, w2) \<Rightarrow> (None, gs1, w2)
                   | (Some report, w2) \<Rightarrow> (Some (GsSent report), settle_outcome guard t2 account report gs1, w2))))))"

end
