(* ===== verification/Gw_Outbound_Sound.thy ===== *)
theory Gw_Outbound_Sound
  imports Gw_Outbound
begin

text \<open>
  The outbound gateway on the SMTP client: an enforced MTA-STS policy, the guarded entry point, and the header
  block of a rendered message.
\<close>

section \<open>An enforced policy\<close>

text \<open>The SMTP client as the gateway's transport; the world carries the log of connections beside the rest.\<close>

definition smtp_transport_of ::
    "client_env \<Rightarrow> smtp_transport \<Rightarrow> ('v \<times> (string \<times> client_state) list) outbound_transport" where
  "smtp_transport_of E T host msg req w =
     (let (r, s) = run_delivery E T host msg req in (r, (fst w, snd w @ [(host, s)])))"

lemma parse_policy_patterns: "parse_policy text = Inr p \<Longrightarrow> sp_mode p \<noteq> StsNone \<Longrightarrow> sp_mx_patterns p \<noteq> []"
  by (auto simp: parse_policy_def bindE_Inr ok_or_Inr split: if_splits)

lemma sts_resolve_patterns: "sts_resolve txt fetcher d w = (Some p, w') \<Longrightarrow> sp_mode p \<noteq> StsNone \<Longrightarrow> sp_mx_patterns p \<noteq> []"
  by (auto simp: sts_resolve_def Let_def parse_policy_patterns split: prod.splits if_splits option.splits sum.splits)

lemma choose_host_allowed:
  "choose_host dest patterns candidates = Inr host \<Longrightarrow> patterns \<noteq> [] \<Longrightarrow> any_pattern_matches patterns host"
  by (auto simp: choose_host_def Let_def filter_eq_Cons_iff split: list.splits)

text \<open>A policy in force: found and with the mode enforce.\<close>

definition enforced :: "sts_policy option \<Rightarrow> bool" where
  "enforced p \<longleftrightarrow> (case p of Some pol \<Rightarrow> sp_mode pol = StsEnforce | None \<Rightarrow> False)"

text \<open>What one contact of a send may be, when its two lookups of the policy gave \<open>p1\<close> and \<open>p2\<close>.\<close>

definition governed :: "smtp_transport \<Rightarrow> sts_policy option \<Rightarrow> sts_policy option \<Rightarrow> string \<times> client_state \<Rightarrow> bool" where
  "governed T p1 p2 = (\<lambda>(host, s).
     (enforced p1 \<longrightarrow> prefix (plain s) (clear_hello T)) \<and>
     (enforced p2 \<longrightarrow> any_pattern_matches (sp_mx_patterns (the p2)) host) \<and>
     (\<forall>a. cs_dialed s = Some a \<longrightarrow> st_fixed_addr T = Some a \<or> \<not> is_forbidden_dest_ip (fst a)))"

lemma requirement_of: "sts_resolve txt fetcher d w = (p, w') \<Longrightarrow>
    sts_requirement_for txt fetcher d w = (if enforced p then TlsRequired else TlsOpportunistic, w')"
  by (simp add: sts_requirement_for_def enforced_def split: option.split)

lemma patterns_of: "sts_resolve txt fetcher d w = (p, w') \<Longrightarrow>
    sts_allowed_mx_patterns txt fetcher d w = (if enforced p then sp_mx_patterns (the p) else [], w')"
  by (simp add: sts_allowed_mx_patterns_def enforced_def split: option.split)

lemma enforced_patterns: "sts_resolve txt fetcher d w = (p, w') \<Longrightarrow> enforced p \<Longrightarrow> sp_mx_patterns (the p) \<noteq> []"
  by (auto simp: enforced_def split: option.splits dest!: sts_resolve_patterns)

lemma run_governed:
  assumes "enforced p2 \<longrightarrow> any_pattern_matches (sp_mx_patterns (the p2)) host"
  shows "governed T p1 p2 (host, snd (run_delivery E T host msg (enforced p1)))"
proof -
  have "outcome (\<lambda>_. safe T) (safe T) (try_run E T host msg True client_start)"
    using validC_try_run by (simp add: validC_def)
  then have "safe T (snd (run_delivery E T host msg True))" unfolding run_state by (rule outcome_snd)
  with assms dialed_ok [of T E host msg "enforced p1"] show ?thesis
    by (auto simp: governed_def safe_def dial_ok_def run_state)
qed

lemma dispatch_governed:
  assumes "obg_tls_policy gw = mta_sts_tls_policy txt fetcher" and "obg_transport gw = smtp_transport_of E T"
    and r1: "sts_resolve txt fetcher dest w = (p1, w1)" and r2: "sts_resolve txt fetcher dest w1 = (p2, w2)"
    and mx: "obg_mx_resolver gw dest w2 = (cs, w3)"
  shows "\<exists>new. snd (snd (dispatch gw dest msg w)) = snd w3 @ new \<and> length new \<le> 1 \<and> list_all (governed T p1 p2) new"
proof (cases "choose_host dest (if enforced p2 then sp_mx_patterns (the p2) else []) cs")
  case (Inl e)
  with requirement_of [OF r1] patterns_of [OF r2] mx assms(1) show ?thesis
    by (simp add: dispatch_def mta_sts_tls_policy_def)
next
  case (Inr host)
  obtain r s where rs: "run_delivery E T host msg (enforced p1) = (r, s)" by fastforce
  have "enforced p2 \<longrightarrow> any_pattern_matches (sp_mx_patterns (the p2)) host"
    using Inr choose_host_allowed enforced_patterns [OF r2] by auto
  from run_governed [OF this, of T p1 E msg] rs have "governed T p1 p2 (host, s)" by simp
  with Inr requirement_of [OF r1] patterns_of [OF r2] mx rs assms(1,2) show ?thesis
    by (cases "enforced p1") (simp_all add: dispatch_def mta_sts_tls_policy_def smtp_transport_of_def Let_def)
qed

text \<open>C24: What MTA-STS guarantees of a send over the SMTP client. A send looks the destination's policy up twice, and
  the two answers \<open>p1\<close> and \<open>p2\<close> may differ. The send contacts at most one host. If the first lookup found a policy in
  force, nothing but EHLO and STARTTLS goes to that host in the clear; if the second lookup found a policy
  in force, the host matches one of that policy's patterns; and in every case the address dialed is
  outside the refused blocks, or the one the operator pinned. A send that fails before the lookups leaves the
  world as it was; \<open>w3\<close> is the world after them.
\<close>

theorem enforced_policy_holds:
  assumes "obg_tls_policy gw = mta_sts_tls_policy txt fetcher" and "obg_transport gw = smtp_transport_of E T"
    and "domain_of to_addr = Some d" and "domain_to_ascii (ol_idna L) d = Inr dest"
    and "sts_resolve txt fetcher dest w = (p1, w1)" and "sts_resolve txt fetcher dest w1 = (p2, w2)"
    and "obg_mx_resolver gw dest w2 = (cs, w3)"
    and "outbound_send L gw p from_addr to_addr now w = (r, w')"
  shows "w' = w \<or> (\<exists>new. snd w' = snd w3 @ new \<and> length new \<le> 1 \<and>
    list_all (\<lambda>(host, s). (enforced p1 \<longrightarrow> prefix (plain s) (clear_hello T)) \<and>
      (enforced p2 \<longrightarrow> any_pattern_matches (sp_mx_patterns (the p2)) host) \<and>
      (\<forall>a. cs_dialed s = Some a \<longrightarrow> st_fixed_addr T = Some a \<or> \<not> is_forbidden_dest_ip (fst a))) new)"
proof (cases "translate_and_sign L gw p from_addr to_addr now")
  case (Inl e)
  with assms(8) show ?thesis by (auto simp: outbound_send_def)
next
  case (Inr msg)
  then have "dispatch gw dest msg w = (r, w')" using assms(3,4,8) by (simp add: outbound_send_def)
  with dispatch_governed [OF assms(1,2,5,6,7), of msg] show ?thesis unfolding governed_def by simp
qed

section \<open>The guarded entry point\<close>

text \<open>C25: The gateway is no open relay. A guarded submission touches the world only when a guard is configured, it
  allows the account at this moment, an address authorizer is configured and it confirms that the submitter may
  claim the From address; in every other case the submission is blocked, and the authorizer's lookup is all
  that happened.
\<close>

theorem relay_fails_closed:
  assumes "send_authenticated L gw t1 t2 p from_addr to_addr account now (gs, w) = (r, gs', w')"
  shows "(\<exists>guard may_claim w1. obg_sender_guard gw = Some guard \<and> fst (authorize_send guard t1 account gs) = Allow \<and>
       obg_address_authz gw = Some may_claim \<and> may_claim (op_from p) from_addr w = (True, w1) \<and>
       r = map_option GsSent (fst (outbound_send L gw p from_addr to_addr now w1)) \<and>
       w' = snd (outbound_send L gw p from_addr to_addr now w1)) \<or>
     (\<exists>v. r = Some (GsBlocked v) \<and> v \<noteq> Allow \<and>
       (w' = w \<or> (\<exists>may_claim. obg_address_authz gw = Some may_claim \<and> may_claim (op_from p) from_addr w = (False, w'))))"
  using assms
  by (auto simp: send_authenticated_def is_allow_def Let_def split: option.splits prod.splits if_splits)

section \<open>A policy that changes between the two lookups\<close>

definition probe_body :: string where
  "probe_body = ''version:STSv1'' @ [LF] @ ''mode:enforce'' @ [LF] @ ''mx:mx.b''"

definition probe_policy :: sts_policy where
  "probe_policy = \<lparr>sp_mode = StsEnforce, sp_mx_patterns = [''mx.b''], sp_max_age = 86400\<rparr>"

lemma probe_parse: "parse_policy probe_body = Inr probe_policy"
proof -
  have t: "trim ''version:STSv1'' = ''version:STSv1''" "trim ''mode:enforce'' = ''mode:enforce''" "trim ''mx:mx.b'' = ''mx:mx.b''"
    "trim ''version'' = ''version''" "trim ''STSv1'' = ''STSv1''" "trim ''mode'' = ''mode''" "trim ''enforce'' = ''enforce''"
    "trim ''mx'' = ''mx''" "trim ''mx.b'' = ''mx.b''"
    by (rule trim_graphic, simp)+
  have "str_lines probe_body = [''version:STSv1'', ''mode:enforce'', ''mx:mx.b'']"
    by (simp add: str_lines_def probe_body_def strip_cr_def strip_suffix_def ends_with_def Let_def)
  then show ?thesis
    by (simp add: parse_policy_def sts_line_def sts_field_def parse_sts_mode_def sts_start_def t probe_policy_def Let_def)
qed

lemma probe_signal: "starts_with ''v=STSv1'' (trim_start ''v=STSv1'')"
proof -
  have "utf8_chars ''v=STSv1'' = map (\<lambda>c. [c]) ''v=STSv1''" by (rule utf8_chars_ascii) simp
  then show ?thesis by (simp add: trim_start_def not_ws_graphic starts_with_def del: utf8_chars.simps)
qed

text \<open>C28: The policy is looked up twice per send, and a failure of the second lookup alone disables its host
  constraint. When the first lookup finds a policy in force, the second finds none, and the first mail host the
  resolver names is one the policy forbids, then the message goes to that host with TLS required, and the
  outcome is the transport's; with the policy's patterns the host would not have been chosen.
\<close>

theorem policy_fetched_twice:
  assumes "obg_tls_policy gw = mta_sts_tls_policy txt fetcher"
    and "sts_resolve txt fetcher dest w = (Some pol, w1)" and "sp_mode pol = StsEnforce"
    and "sts_resolve txt fetcher dest w1 = (None, w2)" and "obg_mx_resolver gw dest w2 = (h # hs, w3)"
    and "\<not> any_pattern_matches (sp_mx_patterns pol) (mh_host h)"
  shows "choose_host dest (sp_mx_patterns pol) (h # hs) \<noteq> Inr (mh_host h)
    \<and> dispatch gw dest msg w = (case obg_transport gw (mh_host h) msg True w3 of
          (r, w4) \<Rightarrow> (map_option (transport_report dest) r, w4))"
proof -
  have e: "enforced (Some pol)" "\<not> enforced None" using assms(3) by (simp_all add: enforced_def)
  have "choose_host dest (sp_mx_patterns pol) (h # hs) \<noteq> Inr (mh_host h)"
    using enforced_patterns [OF assms(2) e(1)] choose_host_allowed assms(6) by fastforce
  moreover have "tp_requirement_for (obg_tls_policy gw) dest w = (TlsRequired, w1)"
    "tp_allowed_mx_patterns (obg_tls_policy gw) dest w1 = ([], w2)"
    using requirement_of [OF assms(2)] patterns_of [OF assms(4)] e by (simp_all add: assms(1) mta_sts_tls_policy_def)
  then have "dispatch gw dest msg w = (case obg_transport gw (mh_host h) msg True w3 of
      (r, w4) \<Rightarrow> (map_option (transport_report dest) r, w4))"
    using assms(5) by (simp add: dispatch_def choose_host_def)
  ultimately show ?thesis by blast
qed

text \<open>A fetcher that answers once and is then unreachable, and a gateway whose resolver names another host.\<close>

definition flaky_fetcher :: "(nat \<times> (string \<times> client_state) list) policy_fetcher" where
  "flaky_fetcher d w = (if fst w = 0 then Some probe_body else None, (Suc (fst w), snd w))"

definition flaky_gateway :: "(nat \<times> (string \<times> client_state) list) outbound_gateway" where
  "flaky_gateway =
     with_mx_resolver (\<lambda>d w. ([\<lparr>mh_host = ''evil'', mh_preference = 10\<rparr>], w))
       (outbound_new [] (mta_sts_tls_policy (\<lambda>n w. ([''v=STSv1''], w)) flaky_fetcher)
         (smtp_transport_of (probe_env probe_peer) probe_transport))"

theorem policy_fetched_twice_witness:
  "map fst (snd (snd (dispatch flaky_gateway ''b'' ''x'' (0, [])))) = [''evil'']"
proof -
  have "bare_host ''mx.b'' = ''mx.b''" "bare_host ''evil'' = ''evil''"
    using trim_graphic [of "''mx.b''"] trim_graphic [of "''evil''"] by (simp_all add: bare_host_def trim_end_char_def)
  then have n: "\<not> any_pattern_matches (sp_mx_patterns probe_policy) ''evil''"
    by (simp add: any_pattern_matches_def probe_policy_def mx_pattern_matches_def strip_prefix_def starts_with_def
        eq_ignore_ascii_case_def to_ascii_lowercase_def ascii_lower_def)
  have g: "obg_tls_policy flaky_gateway = mta_sts_tls_policy (\<lambda>n w. ([''v=STSv1''], w)) flaky_fetcher"
    "obg_mx_resolver flaky_gateway ''b'' (2, []) = ([\<lparr>mh_host = ''evil'', mh_preference = 10\<rparr>], (2, []))"
    "obg_transport flaky_gateway = smtp_transport_of (probe_env probe_peer) probe_transport"
    by (simp_all add: flaky_gateway_def with_mx_resolver_def outbound_new_def)
  have r: "sts_resolve (\<lambda>n w. ([''v=STSv1''], w)) flaky_fetcher ''b'' (0, []) = (Some probe_policy, (1, []))"
    "sts_resolve (\<lambda>n w. ([''v=STSv1''], w)) flaky_fetcher ''b'' (1, []) = (None, (2, []))"
    by (simp_all add: sts_resolve_def flaky_fetcher_def probe_signal probe_parse)
  have "sp_mode probe_policy = StsEnforce" by (simp add: probe_policy_def)
  from policy_fetched_twice [OF g(1) r(1) this r(2) g(2), of "''x''"] n g(3) show ?thesis
    by (simp add: smtp_transport_of_def split: prod.split)
qed

definition probe_lib :: outbound_lib where
  "probe_lib = \<lparr>ol_crypto = toy_crypto, ol_idna = Inr, ol_idn_text = \<lambda>e. [], ol_encode_display_name = id,
     ol_encode_header_value = id, ol_format_date = \<lambda>t. [], ol_content_digest = \<lambda>b. replicate 32 0\<rparr>"

definition probe_gateway :: "(unit \<times> (string \<times> client_state) list) outbound_gateway" where
  "probe_gateway =
     with_mx_resolver (\<lambda>d w. ([\<lparr>mh_host = ''mx.b'', mh_preference = 10\<rparr>], w))
       (outbound_new [from_seed ''b'' ''s'' []]
         (mta_sts_tls_policy (\<lambda>n w. ([''v=STSv1''], w)) (\<lambda>d w. (Some probe_body, w)))
         (smtp_transport_of (probe_env probe_peer) probe_transport))"

definition probe_payload :: outbound_payload where
  "probe_payload = \<lparr>op_from = [], op_subject = None, op_mime = None, op_body = ''x''\<rparr>"

theorem enforced_policy_holds_witness:
  "list_all (\<lambda>(host, s). any_pattern_matches [''mx.b''] host \<and> prefix (plain s) (clear_hello probe_transport))
     (snd (snd (outbound_send probe_lib probe_gateway probe_payload ''a@b'' ''a@b'' 0 ((), []))))"
proof -
  obtain r w' where o: "outbound_send probe_lib probe_gateway probe_payload ''a@b'' ''a@b'' 0 ((), []) = (r, w')" by (rule prod.exhaust)
  have "trim ''a@b'' = ''a@b''" by (rule trim_graphic) simp
  then have d: "domain_of ''a@b'' = Some ''b''"
    by (simp add: domain_of_def trim_start_char_def trim_end_char_def rsplit_once_def)
  have a: "domain_to_ascii (ol_idna probe_lib) ''b'' = Inr ''b''"
    by (simp add: probe_lib_def domain_to_ascii_def strip_suffix_def ends_with_def Let_def)
  have p: "sts_resolve (\<lambda>n w. ([''v=STSv1''], w)) (\<lambda>d w. (Some probe_body, w)) ''b'' ((), []) = (Some probe_policy, ((), []))"
    for w :: "unit \<times> (string \<times> client_state) list"
    by (simp add: sts_resolve_def probe_signal probe_parse)
  have g: "obg_tls_policy probe_gateway = mta_sts_tls_policy (\<lambda>n w. ([''v=STSv1''], w)) (\<lambda>d w. (Some probe_body, w))"
    "obg_transport probe_gateway = smtp_transport_of (probe_env probe_peer) probe_transport"
    "obg_mx_resolver probe_gateway ''b'' ((), []) = ([\<lparr>mh_host = ''mx.b'', mh_preference = 10\<rparr>], ((), []))"
    by (simp_all add: probe_gateway_def outbound_new_def with_mx_resolver_def)
  from enforced_policy_holds [OF g(1,2) d a p p g(3) o] show ?thesis
    by (auto simp: o probe_policy_def enforced_def list_all_iff)
qed

lemma relay_fails_closed_witness:
  "\<exists>v. fst (send_authenticated probe_lib probe_gateway 0 0 probe_payload ''a@b'' ''a@b'' ''alice'' 0 (Map.empty, ((), []))) =
     Some (GsBlocked v) \<and> v \<noteq> Allow"
proof -
  have n: "obg_sender_guard probe_gateway = None" by (simp add: probe_gateway_def outbound_new_def with_mx_resolver_def)
  obtain r gs' w' where e:
    "send_authenticated probe_lib probe_gateway 0 0 probe_payload ''a@b'' ''a@b'' ''alice'' 0 (Map.empty, ((), [])) = (r, gs', w')"
    by (metis prod_cases3)
  from relay_fails_closed [OF e] n show ?thesis by (auto simp: e)
qed

end
