(* ===== verification/Gw_Directory.thy ===== *)
theory Gw_Directory
  imports Gw_Inbound Gw_Net
begin

text \<open>
  The recipient directory (\<open>gateway/src/directory.rs\<close>) with its text format, and the delivery of a wrapped
  message to the local mesh node over HTTP (\<open>gateway/src/mesh.rs\<close>). Reading the file, name resolution and the
  socket are parameters; the iteration order of a hash map is not part of the model.
\<close>

section \<open>The directory\<close>

type_synonym directory = "string \<rightharpoonup> recipient_key"

datatype directory_error =
    DirIo string string
  | MissingField nat string
  | TrailingData nat
  | DirBadAddress nat string
  | BadBase64 nat string string

definition directory_new :: directory where
  "directory_new = Map.empty"

definition dir_key :: "string \<Rightarrow> string" where
  "dir_key email = to_ascii_lowercase (trim email)"

definition dir_insert :: "string \<Rightarrow> recipient_key \<Rightarrow> directory \<Rightarrow> directory" where
  "dir_insert email key d = d(dir_key email \<mapsto> key)"

definition with_recipient :: "string \<Rightarrow> recipient_key \<Rightarrow> directory \<Rightarrow> directory" where
  "with_recipient email key d = dir_insert email key d"

definition dir_remove :: "string \<Rightarrow> directory \<Rightarrow> bool \<times> directory" where
  "dir_remove email d = (d (dir_key email) \<noteq> None, d(dir_key email := None))"

definition dir_resolve :: "directory \<Rightarrow> string \<Rightarrow> recipient_key option" where
  "dir_resolve d rcpt = d (dir_key rcpt)"

definition dir_len :: "directory \<Rightarrow> nat" where
  "dir_len d = card (dom d)"

text \<open>One line of the file: its comment is cut off first.\<close>

definition dir_line :: "nat \<Rightarrow> string \<Rightarrow> directory \<Rightarrow> directory_error + directory" where
  "dir_line lineno raw d =
     (let line = trim (hd (split_on (CHR ''#'') raw)) in
      if line = [] then Inr d
      else case split_whitespace line of
        [] \<Rightarrow> Inl (MissingField lineno ''email'')
      | [_] \<Rightarrow> Inl (MissingField lineno ''ik'')
      | [_, _] \<Rightarrow> Inl (MissingField lineno ''seal'')
      | _ # _ # _ # _ # _ \<Rightarrow> Inl (TrailingData lineno)
      | [email, ik_b64, seal_b64] \<Rightarrow>
          if CHR ''@'' \<notin> set email then Inl (DirBadAddress lineno email)
          else bindE (map_err (BadBase64 lineno ''ik'') (b64_decode ik_b64)) (\<lambda>ik.
               bindE (map_err (BadBase64 lineno ''seal'') (b64_decode seal_b64)) (\<lambda>seal_pub.
                 Inr (dir_insert email \<lparr>rk_ik = ik, rk_seal_pub = seal_pub\<rparr> d))))"

fun dir_lines :: "nat \<Rightarrow> string list \<Rightarrow> directory \<Rightarrow> directory_error + directory" where
  "dir_lines lineno [] d = Inr d"
| "dir_lines lineno (l # ls) d = bindE (dir_line lineno l d) (dir_lines (lineno + 1) ls)"

definition dir_parse :: "string \<Rightarrow> directory_error + directory" where
  "dir_parse text = dir_lines 1 (str_lines text) directory_new"

definition file_directory_load :: "(string \<Rightarrow> string + string) \<Rightarrow> string \<Rightarrow> directory_error + directory" where
  "file_directory_load read_to_string path =
     bindE (map_err (DirIo path) (read_to_string path)) dir_parse"

section \<open>The mesh node\<close>

datatype mesh_config_error = UnsupportedScheme string | MissingHost string | BadPort string

record http_mesh =
  hm_host :: string
  hm_port :: u16
  hm_path :: string

definition null_mesh_deliver :: "'e \<Rightarrow> attestation \<Rightarrow> delivery_outcome" where
  "null_mesh_deliver env att = NoAck"

definition mesh_new :: "string \<Rightarrow> mesh_config_error + http_mesh" where
  "mesh_new endpoint =
     (case strip_prefix ''http://'' endpoint of
        None \<Rightarrow> Inl (UnsupportedScheme endpoint)
      | Some tail \<Rightarrow>
          (let (authority, path) = (case find_char (CHR ''/'') tail of
                                      Some i \<Rightarrow> (take i tail, drop i tail)
                                    | None \<Rightarrow> (tail, ''/'')) in
           if authority = [] then Inl (MissingHost endpoint)
           else
             bindE (case rsplit_once (CHR '':'') authority of
                      Some (h, p) \<Rightarrow> map_sum (\<lambda>_. BadPort p) (\<lambda>n. (h, of_nat n)) (ok_or () (parse_uint 65535 p))
                    | None \<Rightarrow> Inr (authority, 80)) (\<lambda>(host, port).
               if host = [] then Inl (MissingHost endpoint)
               else Inr \<lparr>hm_host = host, hm_port = port, hm_path = path\<rparr>)))"

definition mesh_authority :: "http_mesh \<Rightarrow> string" where
  "mesh_authority m = hm_host m @ '':'' @ dec (unat (hm_port m))"

definition header_safe :: "string \<Rightarrow> string" where
  "header_safe v = filter (\<lambda>c. c \<noteq> CR \<and> c \<noteq> LF) v"

definition mesh_head :: "http_mesh \<Rightarrow> bytes \<Rightarrow> bytes \<Rightarrow> attestation \<Rightarrow> string" where
  "mesh_head m mote_id body att =
     ''POST '' @ hm_path m @ '' HTTP/1.1'' @ CRLF @
     ''Host: '' @ hm_host m @ CRLF @
     ''User-Agent: envoir-gateway'' @ CRLF @
     ''Content-Type: application/dmtap-mote'' @ CRLF @
     ''Content-Length: '' @ dec (length body) @ CRLF @
     ''X-Dmtap-Mote-Id: '' @ b64_encode mote_id @ CRLF @
     ''X-Dmtap-Gateway-Domain: '' @ at_domain att @ CRLF @
     ''X-Dmtap-Gateway-Selector: '' @ at_selector att @ CRLF @
     ''X-Dmtap-Attestation-Sig: '' @ b64_encode (at_sig att) @ CRLF @
     ''X-Dmtap-Smtp-From: '' @ header_safe (at_mail_from att) @ CRLF @
     ''X-Dmtap-Smtp-Rcpt: '' @ header_safe (at_rcpt_to att) @ CRLF @
     ''Connection: close'' @ CRLF @ CRLF"

text \<open>\<open>exchange\<close> resolves, connects, writes the request and returns what the node answers.\<close>

definition mesh_post ::
    "(string \<Rightarrow> u16 \<Rightarrow> bytes \<Rightarrow> net_error + rd list) \<Rightarrow> http_mesh \<Rightarrow> bytes \<Rightarrow> bytes \<Rightarrow> attestation \<Rightarrow> net_error + bool" where
  "mesh_post exchange m mote_id body att =
     bindE (exchange (hm_host m) (hm_port m) (as_bytes (mesh_head m mote_id body att) @ body)) (\<lambda>rs.
     bindE (fst (read_line_str rs)) (\<lambda>l.
     bindE (ok_or (UnexpectedEof ''no HTTP status line'') l) (\<lambda>status.
       let words = split_whitespace status in
       Inr (1 < length words \<and> starts_with ''2'' (words ! 1)))))"

definition mesh_deliver ::
    "(string \<Rightarrow> u16 \<Rightarrow> bytes \<Rightarrow> net_error + rd list) \<Rightarrow> http_mesh \<Rightarrow> bytes \<Rightarrow> bytes \<Rightarrow> attestation \<Rightarrow> delivery_outcome" where
  "mesh_deliver exchange m mote_id body att =
     (case mesh_post exchange m mote_id body att of Inr True \<Rightarrow> Acked | _ \<Rightarrow> NoAck)"

end
