(* ===== verification/Gw_Multidomain.thy ===== *)
theory Gw_Multidomain
  imports Gw_Directory Gw_Alias
begin

text \<open>
  The multi-tenant gateway (\<open>gateway/src/multidomain.rs\<close>): one tenant per served domain with its DKIM key,
  directory, alias tables, block list and quota, the routing of a recipient, and the usage meter. The random
  draws of key seeds and alias tokens, the digest, and the order in which a directory is iterated are arguments.
\<close>

section \<open>Tenants\<close>

datatype multi_domain_error =
    InvalidDomain string
  | DomainExists string
  | NoSuchDomain string
  | MdAlias alias_error
  | BadKey string

datatype recipient = RcDirectory recipient_key | RcAlias alias_target

datatype route_error = RtNoSuchDomain | SenderBlocked | UserSuspended | RtUnmapped

fun route_smtp_code :: "route_error \<Rightarrow> u16" where
  "route_smtp_code RtNoSuchDomain = 550"
| "route_smtp_code SenderBlocked = 554"
| "route_smtp_code UserSuspended = 550"
| "route_smtp_code RtUnmapped = 550"

record domain_tenant =
  dt_domain :: string
  dt_dkim :: dkim_key
  dt_directory :: directory
  dt_aliases :: alias_allocator
  dt_random :: alias_map
  dt_blocked_senders :: "string set"
  dt_suspended_users :: "string set"
  dt_quota :: quota
  dt_ledger :: quota_ledger

record multi_gateway =
  mg_tenants :: "string \<rightharpoonup> domain_tenant"
  mg_global_blocked :: "string set"
  mg_default_quota :: quota

definition multi_new :: multi_gateway where
  "multi_new = \<lparr>mg_tenants = Map.empty, mg_global_blocked = {}, mg_default_quota = quota_messages 0 0\<rparr>"

definition with_default_quota :: "quota \<Rightarrow> multi_gateway \<Rightarrow> multi_gateway" where
  "with_default_quota q g = g\<lparr>mg_default_quota := q\<rparr>"

definition norm :: "string \<Rightarrow> string" where
  "norm s = to_ascii_lowercase (trim s)"

definition split_address :: "string \<Rightarrow> (string \<times> string) option" where
  "split_address addr =
     (case rsplit_once (CHR ''@'') (trim (trim_end_char (CHR ''>'') (trim_start_char (CHR ''<'') (trim addr)))) of
        None \<Rightarrow> None
      | Some (local, domain) \<Rightarrow>
          if local = [] \<or> domain = [] then None
          else Some (to_ascii_lowercase local, to_ascii_lowercase domain))"

definition local_part_of :: "string \<Rightarrow> string" where
  "local_part_of user = (let u = trim user in case rsplit_once (CHR ''@'') u of Some (l, _) \<Rightarrow> l | None \<Rightarrow> u)"

section \<open>Operations\<close>

text \<open>\<open>seed\<close> is the given seed or the one drawn when none is given.\<close>

definition add_domain ::
    "string \<Rightarrow> bytes \<Rightarrow> string \<Rightarrow> multi_gateway \<Rightarrow> (multi_domain_error + bytes) \<times> multi_gateway" where
  "add_domain domain seed selector0 g =
     (let d = norm domain in
      case for_domain d of
        Inl _ \<Rightarrow> (Inl (InvalidDomain domain), g)
      | Inr aliases \<Rightarrow>
          if mg_tenants g d \<noteq> None then (Inl (DomainExists d), g)
          else
            (let selector = (if trim selector0 = [] then ''gw1'' else trim selector0);
                 quota = mg_default_quota g;
                 tenant = \<lparr>dt_domain = d, dt_dkim = from_seed d selector seed, dt_directory = directory_new,
                           dt_aliases = aliases, dt_random = alias_map_new, dt_blocked_senders = {},
                           dt_suspended_users = {}, dt_quota = quota,
                           dt_ledger = upsert_quota d quota quota_ledger_new\<rparr>
             in (Inr seed, g\<lparr>mg_tenants := (mg_tenants g)(d \<mapsto> tenant)\<rparr>)))"

definition remove_domain :: "string \<Rightarrow> multi_gateway \<Rightarrow> bool \<times> multi_gateway" where
  "remove_domain domain g =
     (mg_tenants g (norm domain) \<noteq> None, g\<lparr>mg_tenants := (mg_tenants g)(norm domain := None)\<rparr>)"

definition serves :: "multi_gateway \<Rightarrow> string \<Rightarrow> bool" where
  "serves g domain = (mg_tenants g (norm domain) \<noteq> None)"

definition tenant_of :: "multi_gateway \<Rightarrow> string \<Rightarrow> domain_tenant option" where
  "tenant_of g domain = mg_tenants g (norm domain)"

text \<open>A change of one tenant, as the methods make it through \<open>tenant_mut\<close>.\<close>

definition tenant_mut ::
    "string \<Rightarrow> (domain_tenant \<Rightarrow> 'a \<times> domain_tenant) \<Rightarrow> multi_gateway \<Rightarrow> (multi_domain_error + 'a) \<times> multi_gateway" where
  "tenant_mut domain f g =
     (case mg_tenants g (norm domain) of
        None \<Rightarrow> (Inl (NoSuchDomain (norm domain)), g)
      | Some t \<Rightarrow> (let (a, t') = f t in (Inr a, g\<lparr>mg_tenants := (mg_tenants g)(norm domain \<mapsto> t')\<rparr>)))"

definition add_recipient :: "string \<Rightarrow> recipient_key \<Rightarrow> multi_gateway \<Rightarrow> (multi_domain_error + unit) \<times> multi_gateway" where
  "add_recipient email key g =
     (case split_address email of
        None \<Rightarrow> (Inl (InvalidDomain email), g)
      | Some (_, domain) \<Rightarrow>
          tenant_mut domain (\<lambda>t.
            ((), t\<lparr>dt_directory := dir_insert email key (dt_directory t),
                   dt_aliases := snd (reserve_directory_address email (dt_aliases t))\<rparr>)) g)"

definition remove_recipient :: "string \<Rightarrow> multi_gateway \<Rightarrow> (multi_domain_error + bool) \<times> multi_gateway" where
  "remove_recipient email g =
     (case split_address email of
        None \<Rightarrow> (Inl (InvalidDomain email), g)
      | Some (_, domain) \<Rightarrow>
          tenant_mut domain (\<lambda>t. let (b, d) = dir_remove email (dt_directory t) in (b, t\<lparr>dt_directory := d\<rparr>)) g)"

definition flatten_err :: "(multi_domain_error + (alias_error + 'a)) \<Rightarrow> multi_domain_error + 'a" where
  "flatten_err r = bindE r (map_err MdAlias)"

definition md_allocate_vanity ::
    "string \<Rightarrow> bytes \<Rightarrow> string \<Rightarrow> multi_gateway \<Rightarrow> (multi_domain_error + string) \<times> multi_gateway" where
  "md_allocate_vanity domain public_key local_part g =
     (let (r, g') = tenant_mut domain (\<lambda>t.
        let (r, al) = allocate_vanity public_key local_part (dt_aliases t) in (r, t\<lparr>dt_aliases := al\<rparr>)) g
      in (flatten_err r, g'))"

definition revoke_vanity :: "string \<Rightarrow> bytes \<Rightarrow> multi_gateway \<Rightarrow> (multi_domain_error + string option) \<times> multi_gateway" where
  "revoke_vanity domain public_key g =
     tenant_mut domain (\<lambda>t. let (r, al) = release_vanity public_key (dt_aliases t) in (r, t\<lparr>dt_aliases := al\<rparr>)) g"

text \<open>The draws of the token; \<open>None\<close> where they do not suffice.\<close>

definition mint_random_alias ::
    "bytes list \<Rightarrow> string \<Rightarrow> alias_target \<Rightarrow> string option \<Rightarrow> u64 option \<Rightarrow> bool \<Rightarrow> u64 \<Rightarrow> multi_gateway
      \<Rightarrow> (multi_domain_error + string option) \<times> multi_gateway" where
  "mint_random_alias draws domain target correspondent ttl_ms one_time now_ms g =
     tenant_mut domain (\<lambda>t.
       case mint_with draws (dt_random t) target correspondent ttl_ms one_time now_ms of
         None \<Rightarrow> (None, t)
       | Some (token, m) \<Rightarrow> (Some (token @ ''@'' @ dt_domain t), t\<lparr>dt_random := m\<rparr>)) g"

definition burn_random_alias :: "string \<Rightarrow> string \<Rightarrow> multi_gateway \<Rightarrow> (multi_domain_error + bool) \<times> multi_gateway" where
  "burn_random_alias domain token g =
     tenant_mut domain (\<lambda>t.
       let (b, m) = burn (dt_random t) (case rsplit_once (CHR ''@'') token of Some (l, _) \<Rightarrow> l | None \<Rightarrow> token)
       in (b, t\<lparr>dt_random := m\<rparr>)) g"

definition md_block_sender :: "string \<Rightarrow> string \<Rightarrow> multi_gateway \<Rightarrow> (multi_domain_error + unit) \<times> multi_gateway" where
  "md_block_sender domain sender g =
     tenant_mut domain (\<lambda>t. ((), t\<lparr>dt_blocked_senders := insert (norm sender) (dt_blocked_senders t)\<rparr>)) g"

definition unblock_sender :: "string \<Rightarrow> string \<Rightarrow> multi_gateway \<Rightarrow> (multi_domain_error + bool) \<times> multi_gateway" where
  "unblock_sender domain sender g =
     tenant_mut domain (\<lambda>t. (norm sender \<in> dt_blocked_senders t, t\<lparr>dt_blocked_senders := dt_blocked_senders t - {norm sender}\<rparr>)) g"

definition block_sender_global :: "string \<Rightarrow> multi_gateway \<Rightarrow> multi_gateway" where
  "block_sender_global sender g = g\<lparr>mg_global_blocked := insert (norm sender) (mg_global_blocked g)\<rparr>"

definition unblock_sender_global :: "string \<Rightarrow> multi_gateway \<Rightarrow> bool \<times> multi_gateway" where
  "unblock_sender_global sender g =
     (norm sender \<in> mg_global_blocked g, g\<lparr>mg_global_blocked := mg_global_blocked g - {norm sender}\<rparr>)"

definition suspend_user :: "string \<Rightarrow> string \<Rightarrow> multi_gateway \<Rightarrow> (multi_domain_error + unit) \<times> multi_gateway" where
  "suspend_user domain user g =
     tenant_mut domain (\<lambda>t.
       ((), t\<lparr>dt_suspended_users := insert (to_ascii_lowercase (local_part_of user)) (dt_suspended_users t)\<rparr>)) g"

definition unsuspend_user :: "string \<Rightarrow> string \<Rightarrow> multi_gateway \<Rightarrow> (multi_domain_error + bool) \<times> multi_gateway" where
  "unsuspend_user domain user g =
     tenant_mut domain (\<lambda>t. let l = to_ascii_lowercase (local_part_of user) in
       (l \<in> dt_suspended_users t, t\<lparr>dt_suspended_users := dt_suspended_users t - {l}\<rparr>)) g"

definition set_domain_quota :: "string \<Rightarrow> quota \<Rightarrow> multi_gateway \<Rightarrow> (multi_domain_error + unit) \<times> multi_gateway" where
  "set_domain_quota domain q g =
     tenant_mut domain (\<lambda>t. ((), t\<lparr>dt_quota := q, dt_ledger := upsert_quota (dt_domain t) q (dt_ledger t)\<rparr>)) g"

section \<open>Routing\<close>

text \<open>Within a tenant: directory, random alias, vanity or key-derived alias. \<open>keys\<close> lists the directory's
  identity keys in the order of iteration.\<close>

definition route_tenant ::
    "(bytes \<Rightarrow> bytes) \<Rightarrow> (directory \<Rightarrow> bytes list) \<Rightarrow> string \<Rightarrow> string \<Rightarrow> string \<Rightarrow> u64 \<Rightarrow> domain_tenant
      \<Rightarrow> (route_error + recipient) \<times> domain_tenant" where
  "route_tenant digest keys sender local domain now_ms t =
     (if norm sender \<in> dt_blocked_senders t then (Inl SenderBlocked, t)
      else if local \<in> dt_suspended_users t then (Inl UserSuspended, t)
      else
        (let clean = local @ ''@'' @ domain in
         case dir_resolve (dt_directory t) clean of
           Some key \<Rightarrow> (Inr (RcDirectory key), t)
         | None \<Rightarrow>
             (case resolve_opaque (dt_random t) local now_ms of
                (Inr target, m) \<Rightarrow> (Inr (RcAlias target), t\<lparr>dt_random := m\<rparr>)
              | (Inl _, m) \<Rightarrow>
                  (case resolve_alias digest (dt_aliases t) clean (keys (dt_directory t)) of
                     Some pk \<Rightarrow> (Inr (RcAlias (Identity pk)), t\<lparr>dt_random := m\<rparr>)
                   | None \<Rightarrow> (Inl RtUnmapped, t\<lparr>dt_random := m\<rparr>)))))"

definition route ::
    "(bytes \<Rightarrow> bytes) \<Rightarrow> (directory \<Rightarrow> bytes list) \<Rightarrow> string \<Rightarrow> string \<Rightarrow> u64 \<Rightarrow> multi_gateway
      \<Rightarrow> (route_error + recipient) \<times> multi_gateway" where
  "route digest keys sender rcpt now_ms g =
     (case split_address rcpt of
        None \<Rightarrow> (Inl RtNoSuchDomain, g)
      | Some (local, domain) \<Rightarrow>
          if norm sender \<in> mg_global_blocked g then (Inl SenderBlocked, g)
          else case mg_tenants g domain of
            None \<Rightarrow> (Inl RtNoSuchDomain, g)
          | Some t \<Rightarrow>
              (let (r, t') = route_tenant digest keys sender local domain now_ms t
               in (r, g\<lparr>mg_tenants := (mg_tenants g)(domain \<mapsto> t')\<rparr>)))"

definition md_dkim_sign :: "dkim_crypto \<Rightarrow> multi_gateway \<Rightarrow> string \<Rightarrow> string \<Rightarrow> u64 \<Rightarrow> string option" where
  "md_dkim_sign C g domain message t = map_option (\<lambda>tn. sign C (dt_dkim tn) message t) (tenant_of g domain)"

section \<open>Metering\<close>

datatype charge_error = CeNoSuchDomain string | CeQuota quota_error

definition charge_relay ::
    "(bytes \<Rightarrow> bytes) \<Rightarrow> string \<Rightarrow> bridge_direction \<Rightarrow> bytes \<Rightarrow> u64 \<Rightarrow> multi_gateway
      \<Rightarrow> (charge_error + usage) \<times> multi_gateway \<times> meter_event list" where
  "charge_relay msg_digest domain direction rfc5322 at g =
     (case mg_tenants g (norm domain) of
        None \<Rightarrow> (Inl (CeNoSuchDomain domain), g, [])
      | Some t \<Rightarrow>
          (let (r, l, evs) = charge_and_meter msg_digest (dt_ledger t) (dt_domain t) (dt_domain t) direction rfc5322 at
           in (map_err CeQuota r, g\<lparr>mg_tenants := (mg_tenants g)(norm domain \<mapsto> t\<lparr>dt_ledger := l\<rparr>)\<rparr>, evs)))"

record domain_usage =
  du_inbound :: u64
  du_outbound :: u64
  du_messages :: u64

type_synonym usage_meter = "string \<rightharpoonup> domain_usage"

definition domain_usage_default :: domain_usage where
  "domain_usage_default = \<lparr>du_inbound = 0, du_outbound = 0, du_messages = 0\<rparr>"

definition um_usage :: "usage_meter \<Rightarrow> string \<Rightarrow> domain_usage" where
  "um_usage m domain = get_or domain_usage_default m (norm domain)"

definition um_record :: "meter_event \<Rightarrow> usage_meter \<Rightarrow> usage_meter" where
  "um_record ev m =
     (let d = to_ascii_lowercase (me_domain ev);
          u = get_or domain_usage_default m d;
          u1 = (case me_direction ev of
                  Inbound \<Rightarrow> u\<lparr>du_inbound := du_inbound u + 1\<rparr>
                | Outbound \<Rightarrow> u\<lparr>du_outbound := du_outbound u + 1\<rparr>)
      in m(d \<mapsto> u1\<lparr>du_messages := du_messages u1 + 1\<rparr>))"

end
