(* ===== verification/Gw_Multidomain_Sound.thy ===== *)
theory Gw_Multidomain_Sound
  imports Gw_Multidomain
begin

text \<open>
  Tenants of the multi-tenant gateway stay apart, and each stays well-formed, in every state the operations reach.
\<close>

text \<open>\<open>md_step d g g'\<close>: an operation addressed to domain \<open>d\<close>.\<close>

inductive md_step :: "string \<Rightarrow> multi_gateway \<Rightarrow> multi_gateway \<Rightarrow> bool" where
  md_add: "md_step (norm d) g (snd (add_domain d seed sel g))"
| md_remove: "md_step (norm d) g (snd (remove_domain d g))"
| md_recipient: "split_address e = Some (l, d) \<Longrightarrow> md_step (norm d) g (snd (add_recipient e key g))"
| md_unrecipient: "split_address e = Some (l, d) \<Longrightarrow> md_step (norm d) g (snd (remove_recipient e g))"
| md_vanity: "md_step (norm d) g (snd (md_allocate_vanity d k lp g))"
| md_revoke: "md_step (norm d) g (snd (revoke_vanity d k g))"
| md_mint: "md_step (norm d) g (snd (mint_random_alias draws d tg co ttl ot now g))"
| md_burn: "md_step (norm d) g (snd (burn_random_alias d tok g))"
| md_block: "md_step (norm d) g (snd (md_block_sender d sender g))"
| md_unblock: "md_step (norm d) g (snd (unblock_sender d sender g))"
| md_suspend: "md_step (norm d) g (snd (suspend_user d user g))"
| md_unsuspend: "md_step (norm d) g (snd (unsuspend_user d user g))"
| md_quota: "md_step (norm d) g (snd (set_domain_quota d q g))"
| md_charge: "md_step (norm d) g (fst (snd (charge_relay dg d dir msg at g)))"
| md_route: "split_address rcpt = Some (l, d) \<Longrightarrow> md_step d g (snd (route digest keys sender rcpt now g))"

inductive md_reach :: "multi_gateway \<Rightarrow> bool" where
  md_new: "md_reach (with_default_quota q multi_new)"
| md_next: "md_reach g \<Longrightarrow> md_step d g g' \<Longrightarrow> md_reach g'"
| md_global: "md_reach g \<Longrightarrow> md_reach (block_sender_global s g)"
| md_unglobal: "md_reach g \<Longrightarrow> md_reach (snd (unblock_sender_global s g))"

definition tenant_ok :: "string \<Rightarrow> domain_tenant \<Rightarrow> bool" where
  "tenant_ok d t =
     (dt_domain t = d \<and> dk_domain (dt_dkim t) = d \<and> alloc_reach (dt_aliases t) \<and> aa_domain (dt_aliases t) = d \<and>
      ql_limits (dt_ledger t) d = Some (dt_quota t))"

definition tenants_ok :: "multi_gateway \<Rightarrow> bool" where
  "tenants_ok g = (\<forall>d t. mg_tenants g d = Some t \<longrightarrow> tenant_ok d t)"

text \<open>A change of one tenant through \<open>tenant_mut\<close>.\<close>

lemma tenant_mut_other: "d' \<noteq> norm d \<Longrightarrow> mg_tenants (snd (tenant_mut d f g)) d' = mg_tenants g d'"
  by (auto simp: tenant_mut_def split: option.split prod.split)

lemma tenant_mut_ok:
  assumes "tenants_ok g" and "\<And>t. tenant_ok (norm d) t \<Longrightarrow> tenant_ok (norm d) (snd (f t))"
  shows "tenants_ok (snd (tenant_mut d f g))"
  using assms by (auto simp: tenant_mut_def tenants_ok_def split: option.split prod.split) (metis snd_conv)

lemmas tenant_ops =
  add_recipient_def remove_recipient_def md_allocate_vanity_def revoke_vanity_def mint_random_alias_def
  burn_random_alias_def md_block_sender_def unblock_sender_def suspend_user_def unsuspend_user_def set_domain_quota_def

text \<open>The operations on one tenant keep it well-formed.\<close>

lemma allocator_domain:
  "aa_domain (snd (reserve_directory_address e al)) = aa_domain al" "aa_domain (snd (allocate_vanity k lp al)) = aa_domain al"
  "aa_domain (snd (release_vanity k al)) = aa_domain al"
  by (auto simp: reserve_directory_address_def reserve_localpart_def allocate_vanity_def release_vanity_def Let_def
      split: option.split sum.split prod.split)

lemma tenant_ok_aliases:
  "tenant_ok d t \<Longrightarrow> alloc_reach al \<Longrightarrow> aa_domain al = d \<Longrightarrow> tenant_ok d (t\<lparr>dt_aliases := al\<rparr>)"
  by (simp add: tenant_ok_def)

lemma tenant_ok_other_fields:
  "tenant_ok d t \<Longrightarrow> tenant_ok d (t\<lparr>dt_directory := x\<rparr>)" "tenant_ok d t \<Longrightarrow> tenant_ok d (t\<lparr>dt_random := m\<rparr>)"
  "tenant_ok d t \<Longrightarrow> tenant_ok d (t\<lparr>dt_blocked_senders := b\<rparr>)" "tenant_ok d t \<Longrightarrow> tenant_ok d (t\<lparr>dt_suspended_users := u\<rparr>)"
  by (simp_all add: tenant_ok_def)

lemma tenant_ok_charge:
  "tenant_ok d t \<Longrightarrow> tenant_ok d (t\<lparr>dt_ledger := fst (snd (charge_and_meter dg (dt_ledger t) a b dir msg at))\<rparr>)"
  using try_charge_limits [of "dt_ledger t" a "of_nat (length msg)"]
  by (auto simp: tenant_ok_def charge_and_meter_def split: prod.split sum.split)

lemma route_tenant_ok: "tenant_ok d t \<Longrightarrow> tenant_ok d (snd (route_tenant dg ks s l d now t))"
  by (auto simp: route_tenant_def Let_def tenant_ok_other_fields split: option.split prod.split sum.split)

lemma md_step_other: "md_step d g g' \<Longrightarrow> d' \<noteq> d \<Longrightarrow> mg_tenants g' d' = mg_tenants g d'"
proof (induction rule: md_step.induct)
  case (md_add d g seed sel)
  then show ?case by (auto simp: add_domain_def Let_def split: sum.split)
next
  case (md_remove d g)
  then show ?case by (simp add: remove_domain_def)
next
  case (md_charge d g dg dir msg at)
  then show ?case by (auto simp: charge_relay_def split: option.split prod.split)
next
  case (md_route rcpt l d g digest keys sender now)
  then show ?case by (auto simp: route_def split: option.split prod.split)
qed (auto simp: tenant_ops tenant_mut_other case_prod_beta split: option.split)

lemma md_step_global: "md_step d g g' \<Longrightarrow> mg_global_blocked g' = mg_global_blocked g"
proof (induction rule: md_step.induct)
  case (md_add d g seed sel)
  then show ?case by (auto simp: add_domain_def Let_def split: sum.split)
qed (auto simp: tenant_ops tenant_mut_def remove_domain_def charge_relay_def route_def case_prod_beta Let_def
    split: option.split prod.split)

lemma for_domain_ok: "for_domain d = Inr al \<Longrightarrow> alloc_reach al \<and> aa_domain al = norm d"
  by (auto simp: norm_def for_domain_def Let_def split: if_splits intro: alloc_start)

lemma norm_idem: "norm (norm s) = norm s"
  by (simp add: norm_def trim_lower_trim)

lemma md_step_ok: "md_step d g g' \<Longrightarrow> tenants_ok g \<Longrightarrow> tenants_ok g'"
proof (induction rule: md_step.induct)
  case (md_add d g seed sel)
  then show ?case
    using for_domain_ok [of "norm d"]
    by (auto simp: add_domain_def Let_def tenants_ok_def tenant_ok_def from_seed_def upsert_quota_def norm_idem split: sum.split)
next
  case (md_remove d g)
  then show ?case by (simp add: remove_domain_def tenants_ok_def)
next
  case (md_charge d g dg dir msg at)
  then show ?case
    using tenant_ok_charge by (auto simp: charge_relay_def tenants_ok_def split: option.split prod.split) (metis fst_conv snd_conv)
next
  case (md_route rcpt l d g digest keys sender now)
  then show ?case
    using route_tenant_ok by (auto simp: route_def tenants_ok_def split: option.split prod.split) (metis snd_conv)
next
  case (md_recipient e l d g key)
  then show ?case
    by (simp add: add_recipient_def)
      (rule tenant_mut_ok, auto simp: tenant_ok_def allocator_domain intro: alloc_directory)
next
  case (md_vanity d g k lp)
  then show ?case
    unfolding md_allocate_vanity_def case_prod_beta Let_def snd_conv
    by (intro tenant_mut_ok) (auto simp: Let_def case_prod_beta tenant_ok_def allocator_domain intro: alloc_take)
next
  case (md_revoke d g k)
  then show ?case
    unfolding revoke_vanity_def case_prod_beta
    by (intro tenant_mut_ok) (auto simp: Let_def case_prod_beta tenant_ok_def allocator_domain intro: alloc_release)
qed (auto simp: tenant_ops tenant_ok_other_fields case_prod_beta Let_def tenant_ok_def upsert_quota_def
    intro!: tenant_mut_ok split: option.split)

lemma md_reach_ok: "md_reach g \<Longrightarrow> tenants_ok g"
proof (induction rule: md_reach.induct)
  case (md_new q)
  show ?case by (simp add: tenants_ok_def with_default_quota_def multi_new_def)
next
  case (md_next g d g')
  then show ?case by (blast intro: md_step_ok)
qed (simp_all add: tenants_ok_def block_sender_global_def unblock_sender_global_def)

section \<open>A tenant at work\<close>

definition bob_tenant :: "bytes \<Rightarrow> domain_tenant" where
  "bob_tenant seed = \<lparr>dt_domain = ''b.io'', dt_dkim = from_seed ''b.io'' ''gw'' seed, dt_directory = directory_new,
     dt_aliases = \<lparr>aa_domain = ''b.io'', aa_vanity = Map.empty, aa_reverse = [], aa_reserved = {}\<rparr>,
     dt_random = alias_map_new, dt_blocked_senders = {}, dt_suspended_users = {}, dt_quota = quota_messages 0 0,
     dt_ledger = upsert_quota ''b.io'' (quota_messages 0 0) quota_ledger_new\<rparr>"

lemma bob_trims: "trim ''b.io'' = ''b.io''" "trim ''gw'' = ''gw''" "trim ''<bob@b.io>'' = ''<bob@b.io>''" "trim ''bob@b.io'' = ''bob@b.io''"
  by (rule trim_graphic; simp)+

lemma bob_lower: "to_ascii_lowercase ''b.io'' = ''b.io''" "to_ascii_lowercase ''bob'' = ''bob''"
  "to_ascii_lowercase ''bob@b.io'' = ''bob@b.io''" "to_ascii_lowercase ''<bob@b.io>'' = ''<bob@b.io>''"
  by code_simp+

lemma bob_strings:
  "norm ''b.io'' = ''b.io''" "dir_key ''<bob@b.io>'' = ''<bob@b.io>''" "dir_key ''bob@b.io'' = ''bob@b.io''"
  by (simp_all add: norm_def dir_key_def bob_trims bob_lower)

lemma bob_split: "rsplit_once (CHR ''@'') ''bob@b.io'' = Some (''bob'', ''b.io'')"
  by code_simp

lemma bob_address:
  "split_address ''<bob@b.io>'' = Some (''bob'', ''b.io'')" "split_address ''bob@b.io'' = Some (''bob'', ''b.io'')"
  by (simp_all add: split_address_def bob_trims bob_lower bob_split trim_start_char_def trim_end_char_def)

lemma bob_names: "is_valid_dns_domain ''b.io''" "is_valid_vanity_charset ''bob''" "\<not> is_key_derived_form ''bob''"
   "\<not> starts_with RESERVED_ALIAS_PREFIX ''bob''"
  by code_simp+

lemma bob_added: "add_domain ''b.io'' seed ''gw'' multi_new = (Inr seed, multi_new\<lparr>mg_tenants := [''b.io'' \<mapsto> bob_tenant seed]\<rparr>)"
  by (simp add: add_domain_def for_domain_def bob_strings bob_names bob_trims bob_tenant_def multi_new_def norm_def [symmetric] Let_def)

lemma bob_recipient:
  "add_recipient ''<bob@b.io>'' key (multi_new\<lparr>mg_tenants := [''b.io'' \<mapsto> bob_tenant seed]\<rparr>) =
     (Inr (), multi_new\<lparr>mg_tenants := [''b.io'' \<mapsto> bob_tenant seed\<lparr>dt_directory := [''<bob@b.io>'' \<mapsto> key]\<rparr>]\<rparr>)"
proof -
  have "fst (reserve_directory_address ''<bob@b.io>'' \<lparr>aa_domain = ''b.io'', aa_vanity = Map.empty, aa_reverse = [], aa_reserved = {}\<rparr>)
      = False" by code_simp
  then have "snd (reserve_directory_address ''<bob@b.io>'' (dt_aliases (bob_tenant seed))) = dt_aliases (bob_tenant seed)"
    by (auto simp: bob_tenant_def reserve_directory_address_def split: option.splits if_splits)
  then show ?thesis
    by (simp add: add_recipient_def tenant_mut_def bob_strings bob_address dir_insert_def bob_tenant_def directory_new_def)
qed

text \<open>C16: tenants are isolated: an operation addressed to one domain, whatever it is, leaves every other
  domain's tenant as it was, and mail to a recipient of another domain is routed exactly as before.\<close>

theorem tenants_isolated:
  assumes "md_step d g g'" and "split_address rcpt = Some (l, d')" and "d' \<noteq> d"
  shows "mg_tenants g' d' = mg_tenants g d' \<and> fst (route digest keys sender rcpt now g') = fst (route digest keys sender rcpt now g)"
  using md_step_other [OF assms(1,3)] md_step_global [OF assms(1)] assms(2)
  by (auto simp: route_def split: option.split prod.split)

theorem tenants_isolated_witness:
  "let g = snd (add_domain ''b.io'' [] ''gw'' multi_new); g' = snd (add_domain ''c.io'' [] ''gw'' g) in
     mg_tenants g' ''b.io'' = mg_tenants g ''b.io'' \<and>
     fst (route id (\<lambda>_. []) ''s@x.io'' ''<bob@b.io>'' 7 g') = fst (route id (\<lambda>_. []) ''s@x.io'' ''<bob@b.io>'' 7 g)"
proof -
  have "norm ''c.io'' = ''c.io''" by code_simp
  then show ?thesis
    unfolding Let_def
    using tenants_isolated [OF md_add [of "''c.io''"], of "''<bob@b.io>''" "''bob''" "''b.io''"] bob_address(1) by simp
qed

text \<open>C19: in every state the operations of the multi-tenant gateway can reach, a served domain's tenant carries that
  domain as its name, signs with a key for that domain, allocates aliases under that domain from tables that are
  inverse to each other, and is metered against the quota it shows.\<close>

theorem tenant_invariant:
  assumes "md_reach g" and "mg_tenants g d = Some t"
  shows "dt_domain t = d \<and> dk_domain (dt_dkim t) = d \<and> aa_domain (dt_aliases t) = d \<and> alloc_inv (dt_aliases t) \<and>
    ql_limits (dt_ledger t) d = Some (dt_quota t)"
  using md_reach_ok [OF assms(1)] assms(2) by (auto simp: tenants_ok_def tenant_ok_def intro: alloc_reach_inv)

theorem tenant_invariant_witness:
  "\<exists>g t. md_reach g \<and> mg_tenants g ''b.io'' = Some t \<and> dk_domain (dt_dkim t) = ''b.io'' \<and> alloc_inv (dt_aliases t)"
proof -
  let ?g0 = "with_default_quota (quota_messages 0 0) multi_new"
  have z: "?g0 = multi_new" by (simp add: with_default_quota_def multi_new_def)
  have g: "md_reach (snd (add_domain ''b.io'' [] ''gw'' ?g0))" by (rule md_next [OF md_new md_add])
  have t: "mg_tenants (snd (add_domain ''b.io'' [] ''gw'' ?g0)) ''b.io'' = Some (bob_tenant [])"
    unfolding z bob_added by simp
  show ?thesis using tenant_invariant [OF g t] g t by blast
qed

text \<open>A recipient written in angle brackets is accepted and lost: the address is split without its brackets, so
  the domain's tenant is found and the call succeeds, but the directory keeps the brackets in its key, mail to the
  recipient is refused as unmapped however it is written, and its local part stays open for any key to take.\<close>

theorem bracketed_recipient_lost:
  "let g = snd (add_domain ''b.io'' seed ''gw'' multi_new); (added, g') = add_recipient ''<bob@b.io>'' key g in
     added = Inr () \<and>
     fst (route digest keys sender ''<bob@b.io>'' now g') = Inl RtUnmapped \<and>
     fst (route digest keys sender ''bob@b.io'' now g') = Inl RtUnmapped \<and>
     fst (md_allocate_vanity ''b.io'' other ''bob'' g') = Inr ''bob@b.io''"
proof -
  have a: "resolve_alias digest (dt_aliases (bob_tenant seed)) ''bob@b.io'' ks = None" for ks
  proof -
    show ?thesis
      by (simp add: resolve_alias_def bob_trims bob_lower bob_split bob_tenant_def key_derived_localpart_def find_None_iff)
  qed
  have r: "route_tenant digest keys sender ''bob'' ''b.io'' now (bob_tenant seed\<lparr>dt_directory := [''<bob@b.io>'' \<mapsto> key]\<rparr>) =
      (Inl RtUnmapped, bob_tenant seed\<lparr>dt_directory := [''<bob@b.io>'' \<mapsto> key]\<rparr>)"
    using a [simplified bob_tenant_def]
    by (simp add: route_tenant_def bob_tenant_def bob_strings dir_resolve_def resolve_opaque_def alias_map_new_def)
  have v: "fst (allocate_vanity other ''bob'' (dt_aliases (bob_tenant seed))) = Inr ''bob@b.io''"
    by (simp add: allocate_vanity_def check_vanity_def bob_tenant_def bob_lower bob_names Let_def qualify_def)
  have m: "mg_global_blocked multi_new = {}" by (simp add: multi_new_def)
  show ?thesis
    unfolding bob_added snd_conv Let_def bob_recipient prod.case
    using v by (simp add: route_def bob_strings bob_address r m md_allocate_vanity_def tenant_mut_def flatten_err_def case_prod_beta Let_def)
qed

end
