(* ===== verification/Gw_Legacy.thy ===== *)
theory Gw_Legacy
  imports Gw_Net "HOL-Library.Sublist"
begin

text \<open>
  The line server behind POP3 and mail submission (\<open>gateway/src/legacy_net.rs\<close>): a session behind the trait
  \<open>LineProtocol\<close>, fed line by line from a buffered reader over a stream that may be upgraded to TLS. What one
  \<open>read\<close> of the buffered reader brings is a list element; the TLS handshake turns the rest of the plain stream
  into the decrypted one and is a parameter, as are the socket options and whether a write succeeds.
\<close>

section \<open>Streams\<close>

datatype fill = Fill bytes | FillIntr | FillFail string

datatype upgradable_stream = Plain "fill list" | Tls "fill list" | StreamTaken

definition LEGACY_MAX_LINE :: nat where
  "LEGACY_MAX_LINE = 64 * 1024 * 1024"

datatype legacy_tls = StartTls | Implicit

definition legacy_tls_parse :: "string \<Rightarrow> legacy_tls option" where
  "legacy_tls_parse v =
     (let s = to_ascii_lowercase (trim v) in
      if s \<in> {''starttls'', ''start-tls'', ''start_tls''} then Some StartTls
      else if s \<in> {''implicit'', ''implicit-tls'', ''tls'', ''993'', ''995'', ''465''} then Some Implicit
      else None)"

definition is_implicit :: "legacy_tls \<Rightarrow> bool" where
  "is_implicit m = (m = Implicit)"

text \<open>What a \<open>read\<close> of the stream sees.\<close>

fun stream_read :: "upgradable_stream \<Rightarrow> fill list" where
  "stream_read (Plain s) = s"
| "stream_read (Tls s) = s"
| "stream_read StreamTaken = [FillFail ''stream in transition'']"

fun stream_set :: "fill list \<Rightarrow> upgradable_stream \<Rightarrow> upgradable_stream" where
  "stream_set s (Plain _) = Plain s"
| "stream_set s (Tls _) = Tls s"
| "stream_set s StreamTaken = StreamTaken"

record line_env =
  le_options :: "net_error + unit"
  le_handshake :: "fill list \<Rightarrow> net_error + fill list"
  le_can_write :: "nat \<Rightarrow> bool"

fun upgrade :: "line_env \<Rightarrow> upgradable_stream \<Rightarrow> (net_error + unit) \<times> upgradable_stream" where
  "upgrade E (Plain s) =
     (case le_handshake E s of Inl e \<Rightarrow> (Inl e, StreamTaken) | Inr ss \<Rightarrow> (Inr (), Tls ss))"
| "upgrade E s = (Inl (OtherIo ''STARTTLS/STLS on an already-secured stream''), s)"

text \<open>The bounded line reader: \<open>buf\<close> is the reader's buffer, \<open>src\<close> what is still to be read.\<close>

fun position_lf :: "bytes \<Rightarrow> nat option" where
  "position_lf [] = None"
| "position_lf (b # bs) = (if b = 10 then Some 0 else map_option Suc (position_lf bs))"

lemma position_lf_less: "position_lf bs = Some n \<Longrightarrow> n < length bs"
  by (induction bs arbitrary: n) (auto split: if_splits)

function read_line_capped ::
    "nat \<Rightarrow> bytes \<Rightarrow> bytes \<Rightarrow> fill list \<Rightarrow> (net_error + nat) \<times> bytes \<times> bytes \<times> fill list" where
  "read_line_capped tot out buf src =
     (if buf = [] then
        (case src of
           [] \<Rightarrow> (Inr tot, out, [], [])
         | Fill bs # src' \<Rightarrow> if bs = [] then (Inr tot, out, [], src') else read_line_capped tot out bs src'
         | FillIntr # src' \<Rightarrow> read_line_capped tot out [] src'
         | FillFail e # src' \<Rightarrow> (Inl (OtherIo e), out, [], src'))
      else
        (case position_lf buf of
           Some pos \<Rightarrow> (Inr (tot + pos + 1), out @ take (pos + 1) buf, drop (pos + 1) buf, src)
         | None \<Rightarrow>
             if length (out @ buf) > LEGACY_MAX_LINE
             then (Inl (InvalidData ''protocol line too long''), out @ buf, [], src)
             else read_line_capped (tot + length buf) (out @ buf) [] src))"
  by pat_completeness auto
termination
  by (relation "measure (\<lambda>(t, out, buf, src). 2 * length src + (if buf = [] then 0 else 1))") auto

declare read_line_capped.simps [simp del]

section \<open>The session loop\<close>

text \<open>The trait \<open>LineProtocol\<close>, with the effects of the session on the outside in its state.\<close>

record 's line_protocol =
  lp_greeting :: "'s \<Rightarrow> string \<times> 's"
  lp_feed :: "bytes \<Rightarrow> 's \<Rightarrow> string \<times> 's"
  lp_is_starttls :: "'s \<Rightarrow> string \<Rightarrow> bool"
  lp_accepts_upgrade :: "'s \<Rightarrow> string \<Rightarrow> bool"
  lp_is_quit :: "'s \<Rightarrow> string \<Rightarrow> bool"

text \<open>What passes over the connection, in order: a line as it was read or a reply, and whether the connection
  was secured then.\<close>

datatype line_event = Got bool bytes | Sent bool string

record 's line_conn =
  lc_session :: 's
  lc_buf :: bytes
  lc_stream :: upgradable_stream
  lc_secured :: bool
  lc_log :: "line_event list"

definition line_write :: "line_env \<Rightarrow> string \<Rightarrow> 's line_conn \<Rightarrow> net_error + 's line_conn" where
  "line_write E s c =
     (if le_can_write E (length (lc_log c)) then Inr (c\<lparr>lc_log := lc_log c @ [Sent (lc_secured c) s]\<rparr>)
      else Inl (OtherIo ''write failed''))"

definition strip_eol :: "bytes \<Rightarrow> bytes" where
  "strip_eol line = rev (dropWhile (\<lambda>b. b = 13 \<or> b = 10) (rev line))"

datatype 's line_next = LineStop net_error "'s line_conn" | LineDone "'s line_conn" | LineGo "'s line_conn"

definition after_reply :: "line_env \<Rightarrow> bool \<Rightarrow> bool \<Rightarrow> 's line_conn \<Rightarrow> 's line_next" where
  "after_reply E accepted quit c =
     (let fin = (\<lambda>c. if quit then LineDone c else LineGo c) in
      if accepted then
        (if lc_buf c \<noteq> [] then
           LineStop (InvalidData ''pipelined data after STARTTLS/STLS - possible command injection'') c
         else case upgrade E (lc_stream c) of
           (Inl e, st) \<Rightarrow> LineStop e (c\<lparr>lc_stream := st\<rparr>)
         | (Inr _, st) \<Rightarrow> fin (c\<lparr>lc_stream := st, lc_secured := True\<rparr>))
      else fin c)"

definition line_turn :: "line_env \<Rightarrow> 's line_protocol \<Rightarrow> bytes \<Rightarrow> 's line_conn \<Rightarrow> 's line_next" where
  "line_turn E P line c =
     (let cmd = strip_eol line;
          cmd_text = from_utf8_lossy cmd;
          wants_upgrade = (\<not> lc_secured c \<and> lp_is_starttls P (lc_session c) cmd_text);
          quit = lp_is_quit P (lc_session c) cmd_text;
          (reply, s') = lp_feed P cmd (lc_session c);
          c1 = c\<lparr>lc_session := s', lc_log := lc_log c @ [Got (lc_secured c) line]\<rparr>
      in case (if reply = [] then Inr c1 else line_write E reply c1) of
           Inl e \<Rightarrow> LineStop e c1
         | Inr c2 \<Rightarrow> after_reply E (wants_upgrade \<and> lp_accepts_upgrade P s' reply) quit c2)"

lemma read_line_capped_less:
  assumes "read_line_capped tot out buf src = (Inr n, out', buf', src')"
  shows "length src' < length src \<or> src' = src \<and> (length buf' < length buf \<or> n = tot \<and> buf' = [] \<and> buf = [])"
  using assms
proof (induction tot out buf src rule: read_line_capped.induct)
  case (1 tot out buf src)
  note r = "1.prems" [unfolded read_line_capped.simps [of tot out buf src]]
  show ?case
  proof (cases "buf = []")
    case True
    show ?thesis
    proof (cases src)
      case (Cons x src0)
      then show ?thesis
        using r True "1.IH"(1) [OF True Cons] "1.IH"(2) [OF True Cons] by (cases x) (fastforce split: if_splits)+
    qed (use r True in simp)
  next
    case False
    then show ?thesis
    proof (cases "position_lf buf")
      case None
      then show ?thesis using r False "1.IH"(3) [OF False None] by (fastforce split: if_splits)
    qed (use r False in auto)
  qed
qed

lemma line_turn_progress:
  assumes "line_turn E P line c = LineGo c'"
  shows "lc_secured c' = lc_secured c \<and> lc_buf c' = lc_buf c \<and> lc_stream c' = lc_stream c \<or> \<not> lc_secured c \<and> lc_secured c'"
  using assms
  by (auto simp: line_turn_def after_reply_def line_write_def Let_def split: prod.splits sum.splits if_splits)

definition line_measures :: "('s line_conn \<Rightarrow> nat) list" where
  "line_measures =
     [\<lambda>c. if lc_secured c then 0 else 1, \<lambda>c. length (stream_read (lc_stream c)), \<lambda>c. length (lc_buf c)]"

lemma line_loop_progress:
  assumes r: "(Inr n, line, buf, src) = read_line_capped 0 [] (lc_buf c) (stream_read (lc_stream c))" and "0 < n"
    and t: "line_turn E P line (c\<lparr>lc_buf := buf, lc_stream := stream_set src (lc_stream c)\<rparr>) = LineGo c'"
  shows "(c', c) \<in> measures line_measures"
proof -
  have taken: "src = stream_read StreamTaken" if "lc_stream c = StreamTaken"
    using r that by (auto simp: read_line_capped.simps [of _ _ "[]"] read_line_capped.simps [of 0 "[]"]
        split: if_splits option.splits)
  show ?thesis
    using assms(2) taken read_line_capped_less [OF r [symmetric]] line_turn_progress [OF t]
    by (cases "lc_stream c") (auto simp: line_measures_def)
qed

function line_loop :: "line_env \<Rightarrow> 's line_protocol \<Rightarrow> 's line_conn \<Rightarrow> (net_error + unit) \<times> 's line_conn" where
  "line_loop E P c =
     (case read_line_capped 0 [] (lc_buf c) (stream_read (lc_stream c)) of
        (Inl e, line, buf, src) \<Rightarrow> (Inl e, c\<lparr>lc_buf := buf, lc_stream := stream_set src (lc_stream c)\<rparr>)
      | (Inr n, line, buf, src) \<Rightarrow>
          (let c' = c\<lparr>lc_buf := buf, lc_stream := stream_set src (lc_stream c)\<rparr> in
           if n = 0 then (Inr (), c')
           else case line_turn E P line c' of
             LineStop e c'' \<Rightarrow> (Inl e, c'')
           | LineDone c'' \<Rightarrow> (Inr (), c'')
           | LineGo c'' \<Rightarrow> line_loop E P c''))"
  by pat_completeness auto
termination
  by (relation "inv_image (measures line_measures) (\<lambda>(E, P, c). c)") (auto simp: line_loop_progress simp del: in_measures)

declare line_loop.simps [simp del]

definition serve_line_session ::
    "line_env \<Rightarrow> legacy_tls \<Rightarrow> 's line_protocol \<Rightarrow> 's \<Rightarrow> fill list \<Rightarrow> (net_error + unit) \<times> 's line_conn option" where
  "serve_line_session E mode P s src =
     (case le_options E of
        Inl e \<Rightarrow> (Inl e, None)
      | Inr _ \<Rightarrow>
          (case (case mode of
                   Implicit \<Rightarrow> map_sum id (\<lambda>ss. (Tls ss, True)) (le_handshake E src)
                 | StartTls \<Rightarrow> Inr (Plain src, False)) of
             Inl e \<Rightarrow> (Inl e, None)
           | Inr (transport, secured) \<Rightarrow>
               (let (g, s') = lp_greeting P s;
                    c = \<lparr>lc_session = s', lc_buf = [], lc_stream = transport, lc_secured = secured, lc_log = []\<rparr>
                in case line_write E g c of
                     Inl e \<Rightarrow> (Inl e, Some c)
                   | Inr c' \<Rightarrow> map_prod id Some (line_loop E P c'))))"

definition verb_of :: "string \<Rightarrow> string" where
  "verb_of line = to_ascii_uppercase (case split_whitespace line of [] \<Rightarrow> [] | w # _ \<Rightarrow> w)"

section \<open>The laws of a line protocol\<close>

text \<open>What the loop relies on: no upgrade is accepted by silence, and a command that ends the session does not
  upgrade it.\<close>

locale line_session =
  fixes P :: "'s line_protocol"
  assumes silence: "\<not> lp_accepts_upgrade P s []"
    and quit_stays: "lp_is_quit P s l \<Longrightarrow> \<not> lp_is_starttls P s l"
begin

lemma turn_cases:
  assumes "line_turn E P line c = LineGo c' \<or> line_turn E P line c = LineDone c'"
    and "\<not> lc_secured c" and "lc_secured c'"
  shows "lc_buf c = [] \<and> (\<exists>reply. reply \<noteq> [] \<and> lc_log c' = lc_log c @ [Got False line, Sent False reply])
    \<and> line_turn E P line c = LineGo c'"
proof -
  obtain reply s' where f: "lp_feed P (strip_eol line) (lc_session c) = (reply, s')" by (cases "lp_feed P (strip_eol line) (lc_session c)")
  show ?thesis
    using assms silence quit_stays f
    by (auto simp: line_turn_def after_reply_def line_write_def Let_def split: sum.splits if_splits prod.splits)
qed

end

section \<open>What is read in the clear stays in the clear\<close>

fun got :: "bool \<Rightarrow> line_event list \<Rightarrow> bytes" where
  "got b [] = []"
| "got b (Got b' l # es) = (if b = b' then l else []) @ got b es"
| "got b (Sent _ _ # es) = got b es"

lemma got_append [simp]: "got b (es @ es') = got b es @ got b es'"
  by (induction b es rule: got.induct) auto

fun fill_bytes :: "fill list \<Rightarrow> bytes" where
  "fill_bytes [] = []"
| "fill_bytes (Fill bs # fs) = bs @ fill_bytes fs"
| "fill_bytes (_ # fs) = fill_bytes fs"

lemma read_line_capped_bytes:
  "read_line_capped tot out buf src = (r, out', buf', src') \<Longrightarrow> out' @ buf' @ fill_bytes src' = out @ buf @ fill_bytes src"
proof (induction tot out buf src rule: read_line_capped.induct)
  case (1 tot out buf src)
  note r = "1.prems" [unfolded read_line_capped.simps [of tot out buf src]]
  show ?case
  proof (cases "buf = []")
    case True
    show ?thesis
    proof (cases src)
      case (Cons x src0)
      then show ?thesis
        using r True "1.IH"(1) [OF True Cons] "1.IH"(2) [OF True Cons] by (cases x) (fastforce split: if_splits)+
    qed (use r True in simp)
  next
    case False
    then show ?thesis
    proof (cases "position_lf buf")
      case None
      then show ?thesis using r False "1.IH"(3) [OF False None] by (fastforce split: if_splits)
    next
      case (Some n)
      then show ?thesis using r False append_take_drop_id [of "Suc n" buf] by (auto simp del: append_take_drop_id)
    qed
  qed
qed

text \<open>Every byte of the plain stream is accounted for before the handshake, every byte of the decrypted one after
  it; \<open>pend\<close> is the line that was read and is not logged yet.\<close>

definition lc_inv :: "line_env \<Rightarrow> fill list \<Rightarrow> bytes \<Rightarrow> 's line_conn \<Rightarrow> bool" where
  "lc_inv E clear pend c =
     (if lc_secured c then
        \<exists>rest ss src. lc_stream c = Tls src \<and> got False (lc_log c) @ fill_bytes rest = fill_bytes clear \<and>
          le_handshake E rest = Inr ss \<and> got True (lc_log c) @ pend @ lc_buf c @ fill_bytes src = fill_bytes ss
      else
        \<exists>src. lc_stream c = Plain src \<and> got True (lc_log c) = [] \<and>
          got False (lc_log c) @ pend @ lc_buf c @ fill_bytes src = fill_bytes clear)"

definition lc_safe :: "line_env \<Rightarrow> fill list \<Rightarrow> line_event list \<Rightarrow> bool" where
  "lc_safe E clear log =
     (got True log = [] \<and> prefix (got False log) (fill_bytes clear) \<or>
      (\<exists>rest ss. got False log @ fill_bytes rest = fill_bytes clear \<and> le_handshake E rest = Inr ss \<and>
         prefix (got True log) (fill_bytes ss)))"

lemma lc_inv_safe: "lc_inv E clear pend c \<Longrightarrow> lc_safe E clear (lc_log c)"
  by (auto simp: lc_inv_def lc_safe_def prefix_def split: if_splits) metis+

lemma lc_inv_read:
  assumes "lc_inv E clear [] c"
    and "read_line_capped 0 [] (lc_buf c) (stream_read (lc_stream c)) = (r, line, buf, src)"
  shows "lc_inv E clear line (c\<lparr>lc_buf := buf, lc_stream := stream_set src (lc_stream c)\<rparr>)"
  using assms read_line_capped_bytes [OF assms(2)] by (auto simp: lc_inv_def split: if_splits) metis

lemma lc_inv_turn:
  assumes "lc_inv E clear line c"
  shows "case line_turn E P line c of
     LineStop e c' \<Rightarrow> lc_safe E clear (lc_log c') | LineDone c' \<Rightarrow> lc_inv E clear [] c' | LineGo c' \<Rightarrow> lc_inv E clear [] c'"
proof -
  obtain reply s' where f: "lp_feed P (strip_eol line) (lc_session c) = (reply, s')" by (cases "lp_feed P (strip_eol line) (lc_session c)")
  let ?c1 = "c\<lparr>lc_session := s', lc_log := lc_log c @ [Got (lc_secured c) line]\<rparr>"
  have c1: "lc_inv E clear [] ?c1" using assms by (auto simp: lc_inv_def)
  have c2: "lc_inv E clear [] c2" if "(if reply = [] then Inr ?c1 else line_write E reply ?c1) = Inr c2" for c2
    using c1 that by (auto simp: line_write_def lc_inv_def split: if_splits) metis+
  have up: "lc_inv E clear [] (c2\<lparr>lc_stream := st, lc_secured := True\<rparr>)"
    if "lc_inv E clear [] c2" "\<not> lc_secured c2" "lc_buf c2 = []" "upgrade E (lc_stream c2) = (Inr u, st)" for c2 st u
    using that by (auto simp: lc_inv_def split: sum.splits) metis
  have sec: "lc_secured c2 = lc_secured c" if "(if reply = [] then Inr ?c1 else line_write E reply ?c1) = Inr c2" for c2
    using that by (auto simp: line_write_def split: if_splits)
  let ?w = "if reply = [] then Inr ?c1 else line_write E reply ?c1"
  show ?thesis
  proof (cases ?w)
    case (Inl e)
    then show ?thesis using lc_inv_safe [OF c1] f by (simp add: line_turn_def Let_def)
  next
    case (Inr cx)
    note i = c2 [OF Inr] and safe = lc_inv_safe [OF c2 [OF Inr]]
    have "case after_reply E (\<not> lc_secured c \<and> b) q cx of LineStop e c' \<Rightarrow> lc_safe E clear (lc_log c')
        | LineDone c' \<Rightarrow> lc_inv E clear [] c' | LineGo c' \<Rightarrow> lc_inv E clear [] c'" for b q
      using i safe up [OF i] sec [OF Inr] by (auto simp: after_reply_def Let_def split: prod.split sum.split)
    from this [of "lp_is_starttls P (lc_session c) (from_utf8_lossy (strip_eol line)) \<and> lp_accepts_upgrade P s' reply"]
    show ?thesis using f Inr by (simp add: line_turn_def Let_def)
  qed
qed

lemma line_loop_safe: "lc_inv E clear [] c \<Longrightarrow> lc_safe E clear (lc_log (snd (line_loop E P c)))"
proof (induction E P c rule: line_loop.induct)
  case (1 E P c)
  obtain r line buf src where r: "read_line_capped 0 [] (lc_buf c) (stream_read (lc_stream c)) = (r, line, buf, src)"
    by (metis prod_cases4)
  let ?c = "c\<lparr>lc_buf := buf, lc_stream := stream_set src (lc_stream c)\<rparr>"
  note i = lc_inv_read [OF "1.prems" r]
  show ?case
  proof (cases r)
    case (Inl e)
    then show ?thesis using r lc_inv_safe [OF i] by (subst line_loop.simps) simp
  next
    case (Inr n)
    have IH: "n \<noteq> 0 \<Longrightarrow> line_turn E P line ?c = LineGo c' \<Longrightarrow> lc_inv E clear [] c' \<Longrightarrow>
        lc_safe E clear (lc_log (snd (line_loop E P c')))" for c'
      using r Inr by (intro "1.IH") auto
    show ?thesis
      using Inr r lc_inv_safe [OF i] lc_inv_turn [OF i, of P] IH
      by (subst line_loop.simps) (auto simp: Let_def split: line_next.split intro: lc_inv_safe)
  qed
qed

text \<open>C7: no command can be injected ahead of the TLS handshake. Whatever the session, the peer and the segmentation
  of its stream are, on a connection that starts in the clear the lines the server takes before the upgrade are a
  prefix of the plain stream, and once it has upgraded they end exactly where the handshake began and every line taken
  afterwards comes from the decrypted stream.\<close>

theorem starttls_no_injection:
  assumes "serve_line_session E StartTls P s clear = (r, Some c)"
  shows "got True (lc_log c) = [] \<and> prefix (got False (lc_log c)) (fill_bytes clear) \<or>
    (\<exists>rest decrypted. got False (lc_log c) @ fill_bytes rest = fill_bytes clear \<and>
       le_handshake E rest = Inr decrypted \<and> prefix (got True (lc_log c)) (fill_bytes decrypted))"
proof -
  let ?c0 = "\<lparr>lc_session = snd (lp_greeting P s), lc_buf = [], lc_stream = Plain clear, lc_secured = False, lc_log = []\<rparr>"
  consider "c = ?c0" | c' where "line_write E (fst (lp_greeting P s)) ?c0 = Inr c'" "c = snd (line_loop E P c')"
    using assms by (auto simp: serve_line_session_def Let_def map_prod_def case_prod_beta split: sum.splits)
  then have "lc_safe E clear (lc_log c)"
  proof cases
    case 2
    then have "lc_inv E clear [] c'" by (auto simp: line_write_def lc_inv_def split: if_splits)
    with 2 show ?thesis by (simp add: line_loop_safe)
  qed (simp add: lc_safe_def)
  then show ?thesis by (simp add: lc_safe_def)
qed

text \<open>A client that starts TLS and then says hello.\<close>

definition hello_env :: line_env where
  "hello_env = \<lparr>le_options = Inr (), le_handshake = \<lambda>src. Inr (tl src), le_can_write = \<lambda>_. True\<rparr>"

definition hello_protocol :: "unit line_protocol" where
  "hello_protocol = \<lparr>lp_greeting = \<lambda>s. (''220 hi'', s), lp_feed = \<lambda>l s. (''220 go'', s),
     lp_is_starttls = \<lambda>s l. verb_of l = ''STARTTLS'', lp_accepts_upgrade = \<lambda>s r. starts_with ''220'' r,
     lp_is_quit = \<lambda>s l. verb_of l = ''QUIT''\<rparr>"

definition hello_input :: "fill list" where
  "hello_input = [Fill (as_bytes ''STARTTLS'' @ [13, 10]), Fill [22, 3, 1], Fill (as_bytes ''HI'' @ [10])]"

lemma read_line_capped_eval:
  "read_line_capped tot out [] [] = (Inr tot, out, [], [])"
  "bs \<noteq> [] \<Longrightarrow> read_line_capped tot out [] (Fill bs # src) = read_line_capped tot out bs src"
  "position_lf buf = Some pos \<Longrightarrow>
     read_line_capped tot out buf src = (Inr (tot + pos + 1), out @ take (pos + 1) buf, drop (pos + 1) buf, src)"
  by (subst read_line_capped.simps; auto)+

lemma line_loop_eval:
  "read_line_capped 0 [] (lc_buf c) (stream_read (lc_stream c)) = (Inr 0, line, buf, src) \<Longrightarrow>
     line_loop E P c = (Inr (), c\<lparr>lc_buf := buf, lc_stream := stream_set src (lc_stream c)\<rparr>)"
  "read_line_capped 0 [] (lc_buf c) (stream_read (lc_stream c)) = (Inr (Suc n), line, buf, src) \<Longrightarrow>
     line_turn E P line (c\<lparr>lc_buf := buf, lc_stream := stream_set src (lc_stream c)\<rparr>) = LineGo c' \<Longrightarrow>
     line_loop E P c = line_loop E P c'"
  "read_line_capped 0 [] (lc_buf c) (stream_read (lc_stream c)) = (Inr (Suc n), line, buf, src) \<Longrightarrow>
     line_turn E P line (c\<lparr>lc_buf := buf, lc_stream := stream_set src (lc_stream c)\<rparr>) = LineDone c' \<Longrightarrow>
     line_loop E P c = (Inr (), c')"
  by (subst line_loop.simps; simp)+

lemma hello_run: "serve_line_session hello_env StartTls hello_protocol () hello_input =
    (Inr (), Some \<lparr>lc_session = (), lc_buf = [], lc_stream = Tls [], lc_secured = True,
      lc_log = [Sent False ''220 hi'', Got False (as_bytes ''STARTTLS'' @ [13, 10]), Sent False ''220 go'',
        Got True (as_bytes ''HI'' @ [10]), Sent True ''220 go'']\<rparr>)"
proof -
  let ?l = "as_bytes ''STARTTLS'' @ [13, 10]" and ?h = "as_bytes ''HI'' @ [10]"
  have p: "position_lf ?l = Some 9" "position_lf ?h = Some 2" by code_simp+
  have e: "strip_eol ?l = as_bytes ''STARTTLS''" "strip_eol ?h = as_bytes ''HI''" by code_simp+
  have a: "list_all (\<lambda>b. b \<le> 0x7F) (as_bytes ''STARTTLS'')" "list_all (\<lambda>b. b \<le> 0x7F) (as_bytes ''HI'')" by code_simp+
  have t: "text_of (as_bytes ''STARTTLS'') = ''STARTTLS''" "text_of (as_bytes ''HI'') = ''HI''" by code_simp+
  have v: "verb_of (from_utf8_lossy (strip_eol ?l)) = ''STARTTLS''" "verb_of (from_utf8_lossy (strip_eol ?h)) = ''HI''"
    unfolding e from_utf8_lossy_ascii [OF a(1)] from_utf8_lossy_ascii [OF a(2)] t
    by (simp_all add: verb_of_def split_whitespace_word to_ascii_uppercase_def ascii_upper_def)
  have ne: "?l \<noteq> []" "?h \<noteq> []" by simp_all
  let ?c = "\<lambda>b st sec log. \<lparr>lc_session = (), lc_buf = b, lc_stream = st, lc_secured = sec, lc_log = log\<rparr>"
  have 1: "line_loop hello_env hello_protocol (?c [] (Plain hello_input) False [Sent False ''220 hi'']) =
      line_loop hello_env hello_protocol (?c [] (Tls [Fill ?h]) True [Sent False ''220 hi'', Got False ?l, Sent False ''220 go''])"
    by (rule line_loop_eval(2) [where line = ?l and n = 9 and buf = "[]" and src = "tl hello_input"])
      (simp_all add: hello_input_def read_line_capped_eval(2) [OF ne(1)] read_line_capped_eval(3) [OF p(1)] line_turn_def after_reply_def
        hello_env_def hello_protocol_def v line_write_def starts_with_def Let_def del: as_bytes_append)
  have 2: "line_loop hello_env hello_protocol (?c [] (Tls [Fill ?h]) True log) =
      line_loop hello_env hello_protocol (?c [] (Tls []) True (log @ [Got True ?h, Sent True ''220 go'']))" for log
    by (rule line_loop_eval(2) [where line = ?h and n = 2 and buf = "[]" and src = "[]"])
      (simp_all add: read_line_capped_eval(2) [OF ne(2)] read_line_capped_eval(3) [OF p(2)] line_turn_def after_reply_def
        hello_env_def hello_protocol_def v line_write_def starts_with_def Let_def del: as_bytes_append)
  have 3: "line_loop hello_env hello_protocol (?c [] (Tls []) True log) = (Inr (), ?c [] (Tls []) True log)" for log
    using line_loop_eval(1) [of "?c [] (Tls []) True log" "[]" "[]" "[]" hello_env hello_protocol]
    by (simp add: read_line_capped_eval(1))
  have g: "lp_greeting hello_protocol () = (''220 hi'', ())" "le_options hello_env = Inr ()" "le_can_write hello_env n" for n
    by (simp_all add: hello_protocol_def hello_env_def)
  show ?thesis
    by (simp add: serve_line_session_def g line_write_def 1 2 3 del: as_bytes_append)
qed

theorem starttls_no_injection_witness:
  "\<exists>c rest decrypted. serve_line_session hello_env StartTls hello_protocol () hello_input = (Inr (), Some c) \<and>
     got True (lc_log c) = as_bytes ''HI'' @ [10] \<and> le_handshake hello_env rest = Inr decrypted \<and>
     prefix (got True (lc_log c)) (fill_bytes decrypted)"
  using starttls_no_injection [OF hello_run] hello_run by auto

text \<open>A line whose command ends the session is the last one the session sees.\<close>

definition quit_line :: "'s line_protocol \<Rightarrow> bytes \<Rightarrow> 's \<Rightarrow> bool" where
  "quit_line P line s = lp_is_quit P s (from_utf8_lossy (strip_eol line))"

lemma line_turn_quit: "quit_line P line (lc_session c) \<Longrightarrow> line_turn E P line c \<noteq> LineGo c'"
  by (auto simp: quit_line_def line_turn_def after_reply_def line_write_def Let_def split: sum.splits prod.splits if_splits)

end
