(* ===== verification/Gw_Submission.thy ===== *)
theory Gw_Submission
  imports Gw_Legacy "HOL-Library.Char_ord" "HOL-Library.List_Lexorder"
begin

text \<open>
  The client-facing servers: mail submission (\<open>gateway/src/smtp_submission.rs\<close>), POP3
  (\<open>gateway/src/pop3_access.rs\<close>) and IMAP (\<open>gateway/src/imap_access.rs\<close>). The protocol sessions, the message
  drafts and the IMAP command reader are \<open>kotva_mail\<close>'s and arrive as parameters; the delivery sink, the file system and the
  clock act on a world state.
\<close>

section \<open>Submissions and where they go\<close>

datatype destination = Native | Legacy

record 'm routed_submission =
  ro_from :: string
  ro_rcpt_to :: string
  ro_destination :: destination
  ro_rfc5322 :: bytes
  ro_mote :: 'm

record submission =
  sub_mail_from :: string
  sub_rcpt_to :: "string list"
  sub_data :: bytes

record ('s, 'm, 'w) submission_lib =
  sl_new :: "bool \<Rightarrow> 's"
  sl_greeting :: "'s \<Rightarrow> string \<times> 's"
  sl_feed_line_bytes :: "bytes \<Rightarrow> 's \<Rightarrow> string \<times> 's"
  sl_take_submissions :: "'s \<Rightarrow> submission list \<times> 's"
  sl_build_mote_draft :: "bytes \<Rightarrow> u64 \<Rightarrow> 'm"
  sl_now_ms :: "'w \<Rightarrow> u64"
  sl_deliver :: "'m routed_submission \<Rightarrow> 'w \<Rightarrow> bool \<times> 'w"

definition rcpt_domain :: "string \<Rightarrow> string option" where
  "rcpt_domain addr =
     (case rsplit_once (CHR ''@'') (trim_end_char (CHR ''>'') (trim_start_char (CHR ''<'') (trim addr))) of
        None \<Rightarrow> None
      | Some (_, d) \<Rightarrow> if d = [] then None else Some (to_ascii_lowercase d))"

definition bind_native_domains :: "string list \<Rightarrow> string list" where
  "bind_native_domains ds = map (\<lambda>d. to_ascii_lowercase (trim d)) ds"

definition is_native :: "string list \<Rightarrow> string \<Rightarrow> bool" where
  "is_native native_domains rcpt =
     (case rcpt_domain rcpt of Some d \<Rightarrow> d \<in> set native_domains | None \<Rightarrow> False)"

text \<open>A refusal of the sink is logged and changes nothing else: the client has its 250 by then.\<close>

fun route_rcpts ::
    "('s, 'm, 'w) submission_lib \<Rightarrow> string list \<Rightarrow> submission \<Rightarrow> 'm \<Rightarrow> string list \<Rightarrow> 'w \<Rightarrow> 'w" where
  "route_rcpts L native sub mote [] w = w"
| "route_rcpts L native sub mote (rcpt # rcpts) w =
     (let destination = (if is_native native rcpt then Native else Legacy);
          routed = \<lparr>ro_from = sub_mail_from sub, ro_rcpt_to = rcpt, ro_destination = destination,
                    ro_rfc5322 = sub_data sub, ro_mote = mote\<rparr>;
          (accepted, w') = sl_deliver L routed w
      in route_rcpts L native sub mote rcpts w')"

definition route_one :: "('s, 'm, 'w) submission_lib \<Rightarrow> string list \<Rightarrow> u64 \<Rightarrow> submission \<Rightarrow> 'w \<Rightarrow> 'w" where
  "route_one L native now sub w = route_rcpts L native sub (sl_build_mote_draft L (sub_data sub) now) (sub_rcpt_to sub) w"

definition route_pending :: "('s, 'm, 'w) submission_lib \<Rightarrow> string list \<Rightarrow> 's \<times> 'w \<Rightarrow> 's \<times> 'w" where
  "route_pending L native sw =
     (let now = sl_now_ms L (snd sw); (subs, s') = sl_take_submissions L (fst sw)
      in (s', fold (route_one L native now) subs (snd sw)))"

definition smtp_line :: "('s, 'm, 'w) submission_lib \<Rightarrow> string list \<Rightarrow> ('s \<times> 'w) line_protocol" where
  "smtp_line L native =
     \<lparr>lp_greeting = \<lambda>(s, w). (let (g, s') = sl_greeting L s in (g, s', w)),
      lp_feed = \<lambda>line (s, w).
        (let (reply, s') = sl_feed_line_bytes L line s in (reply, route_pending L native (s', w))),
      lp_is_starttls = \<lambda>_ line. verb_of line = ''STARTTLS'',
      lp_accepts_upgrade = \<lambda>_ reply. starts_with ''220'' reply,
      lp_is_quit = \<lambda>_ line. verb_of line = ''QUIT''\<rparr>"

definition submission_connection ::
    "('s, 'm, 'w) submission_lib \<Rightarrow> string list \<Rightarrow> line_env \<Rightarrow> legacy_tls \<Rightarrow> fill list \<Rightarrow> 'w
      \<Rightarrow> (net_error + unit) \<times> ('s \<times> 'w) line_conn option" where
  "submission_connection L native E mode src w =
     serve_line_session E mode (smtp_line L native) (sl_new L (is_implicit mode), w) src"

section \<open>The spool\<close>

definition sanitize :: "string \<Rightarrow> string" where
  "sanitize v = filter (\<lambda>c. c \<noteq> CR \<and> c \<noteq> LF \<and> c \<noteq> CHR 0x00) v"

fun destination_tag :: "destination \<Rightarrow> string" where
  "destination_tag Native = ''native''"
| "destination_tag Legacy = ''legacy''"

definition spool_head :: "'m routed_submission \<Rightarrow> string" where
  "spool_head r =
     ''X-Envoir-Destination: '' @ destination_tag (ro_destination r) @ CRLF @
     ''X-Envoir-Mail-From: '' @ sanitize (ro_from r) @ CRLF @
     ''X-Envoir-Rcpt-To: '' @ sanitize (ro_rcpt_to r) @ CRLF"

record spool_sink =
  ss_dir :: string
  ss_seq :: u64

definition spool_new :: "(string \<Rightarrow> bool) \<Rightarrow> string \<Rightarrow> net_error + spool_sink" where
  "spool_new is_dir dir =
     (if \<not> is_dir dir then Inl (NotFound (''submission spool '' @ dir @ '' is not a directory''))
      else Inr \<lparr>ss_dir = dir, ss_seq = 0\<rparr>)"

text \<open>\<open>write\<close> is \<open>fs::write\<close> of a file in the spool directory.\<close>

definition spool_deliver ::
    "(string \<Rightarrow> string \<Rightarrow> bytes \<Rightarrow> 'w \<Rightarrow> (string + unit) \<times> 'w) \<Rightarrow> u64 \<Rightarrow> 'm routed_submission \<Rightarrow> spool_sink \<Rightarrow> 'w
      \<Rightarrow> bool \<times> spool_sink \<times> 'w" where
  "spool_deliver write now r k w =
     (let n = ss_seq k;
          name = dec (unat now) @ ''-'' @ dec (unat n) @ ''-'' @ destination_tag (ro_destination r) @ ''.eml'';
          (res, w') = write (ss_dir k) name (as_bytes (spool_head r) @ ro_rfc5322 r) w
      in (case res of Inr _ \<Rightarrow> True | Inl _ \<Rightarrow> False, k\<lparr>ss_seq := n + 1\<rparr>, w'))"

section \<open>POP3\<close>

record 's pop3_lib =
  pl_new :: "bool \<Rightarrow> 's"
  pl_greeting :: "'s \<Rightarrow> string \<times> 's"
  pl_feed_line :: "string \<Rightarrow> 's \<Rightarrow> string \<times> 's"

definition pop3_line :: "'s pop3_lib \<Rightarrow> 's line_protocol" where
  "pop3_line L =
     \<lparr>lp_greeting = pl_greeting L,
      lp_feed = \<lambda>line s. pl_feed_line L (from_utf8_lossy line) s,
      lp_is_starttls = \<lambda>_ line. verb_of line = ''STLS'',
      lp_accepts_upgrade = \<lambda>_ reply. starts_with ''+OK'' reply,
      lp_is_quit = \<lambda>_ line. verb_of line = ''QUIT''\<rparr>"

definition pop3_connection ::
    "'s pop3_lib \<Rightarrow> line_env \<Rightarrow> legacy_tls \<Rightarrow> fill list \<Rightarrow> (net_error + unit) \<times> 's line_conn option" where
  "pop3_connection L E mode src = serve_line_session E mode (pop3_line L) (pl_new L (is_implicit mode)) src"

section \<open>The accept loop\<close>

text \<open>The three servers accept in the same loop. An event is what one round meets: the shutdown flag, a connection
  (with whether it could be made blocking), nothing to accept, an error; \<open>Finished\<close> is a session thread dropping its
  guard in between.\<close>

datatype 'c accept_event = Shutdown | Accepted 'c bool | AcceptIdle | AcceptError | Finished

fun serve_until :: "'c accept_event list \<Rightarrow> conn_limiter \<Rightarrow> 'c list \<Rightarrow> 'c list \<times> conn_limiter" where
  "serve_until [] l started = (started, l)"
| "serve_until (Shutdown # es) l started = (started, l)"
| "serve_until (Accepted c blocking # es) l started =
     (if cl_active l \<ge> cl_max l then serve_until es l started
      else if \<not> blocking then serve_until es (conn_guard_drop (l\<lparr>cl_active := cl_active l + 1\<rparr>)) started
      else serve_until es (l\<lparr>cl_active := cl_active l + 1\<rparr>) (started @ [c]))"
| "serve_until (AcceptIdle # es) l started = serve_until es l started"
| "serve_until (AcceptError # es) l started = serve_until es l started"
| "serve_until (Finished # es) l started = serve_until es (conn_guard_drop l) started"

definition submission_serve_until :: "'c accept_event list \<Rightarrow> conn_limiter \<Rightarrow> 'c list \<times> conn_limiter" where
  "submission_serve_until es l = serve_until es l []"

definition pop3_serve_until :: "'c accept_event list \<Rightarrow> conn_limiter \<Rightarrow> 'c list \<times> conn_limiter" where
  "pop3_serve_until es l = serve_until es l []"

definition imap_serve_until :: "'c accept_event list \<Rightarrow> conn_limiter \<Rightarrow> 'c list \<times> conn_limiter" where
  "imap_serve_until es l = serve_until es l []"

section \<open>IMAP\<close>

datatype imap_tls = ImapStartTls | ImapImplicit

definition imap_tls_parse :: "string \<Rightarrow> imap_tls option" where
  "imap_tls_parse v =
     (let s = to_ascii_lowercase (trim v) in
      if s \<in> {''starttls'', ''start-tls'', ''start_tls''} then Some ImapStartTls
      else if s \<in> {''implicit'', ''implicit-tls'', ''tls'', ''993''} then Some ImapImplicit
      else None)"

text \<open>\<open>il_read_command\<close> is \<open>read_imap_command\<close>: the command or the end of the stream, what it wrote, and what is left.\<close>

record 's imap_lib =
  il_new :: "bool \<Rightarrow> 's"
  il_greeting :: "'s \<Rightarrow> bytes \<times> 's"
  il_process :: "bytes \<Rightarrow> 's \<Rightarrow> bytes \<times> 's"
  il_logged_out :: "'s \<Rightarrow> bool"
  il_read_command :: "bytes \<Rightarrow> fill list \<Rightarrow> (net_error + bytes option) \<times> string list \<times> bytes \<times> fill list"

definition is_starttls_command :: "bytes \<Rightarrow> bool" where
  "is_starttls_command cmd =
     (case split_whitespace (from_utf8_lossy cmd) of
        _ # word # _ \<Rightarrow> eq_ignore_ascii_case word ''STARTTLS''
      | _ \<Rightarrow> False)"

definition response_is_ok :: "bytes \<Rightarrow> bool" where
  "response_is_ok resp =
     list_ex (\<lambda>l. \<not> starts_with ''*'' l \<and> \<not> starts_with ''+'' l \<and> sublist '' OK'' l) (str_lines (from_utf8_lossy resp))"

definition imap_turn :: "line_env \<Rightarrow> 's imap_lib \<Rightarrow> bytes \<Rightarrow> 's line_conn \<Rightarrow> 's line_next" where
  "imap_turn E L cmd c =
     (let wants_starttls = (\<not> lc_secured c \<and> is_starttls_command cmd);
          (resp, s') = il_process L cmd (lc_session c);
          c1 = c\<lparr>lc_session := s', lc_log := lc_log c @ [Got (lc_secured c) cmd]\<rparr>
      in case line_write E (text_of resp) c1 of
           Inl e \<Rightarrow> LineStop e c1
         | Inr c2 \<Rightarrow> after_reply E (wants_starttls \<and> response_is_ok resp) (il_logged_out L s') c2)"

partial_function (option) imap_loop ::
    "line_env \<Rightarrow> 's imap_lib \<Rightarrow> 's line_conn \<Rightarrow> ((net_error + unit) \<times> 's line_conn) option" where
  [code]: "imap_loop E L c =
     (let (r, written, buf, src) = il_read_command L (lc_buf c) (stream_read (lc_stream c));
          c' = c\<lparr>lc_buf := buf, lc_stream := stream_set src (lc_stream c),
                 lc_log := lc_log c @ map (Sent (lc_secured c)) written\<rparr>
      in case r of
           Inl e \<Rightarrow> Some (Inl e, c')
         | Inr None \<Rightarrow> Some (Inr (), c')
         | Inr (Some cmd) \<Rightarrow>
             (case imap_turn E L cmd c' of
                LineStop e c'' \<Rightarrow> Some (Inl e, c'')
              | LineDone c'' \<Rightarrow> Some (Inr (), c'')
              | LineGo c'' \<Rightarrow> imap_loop E L c''))"

definition imap_connection ::
    "'s imap_lib \<Rightarrow> line_env \<Rightarrow> imap_tls \<Rightarrow> fill list \<Rightarrow> ((net_error + unit) \<times> 's line_conn option) option" where
  "imap_connection L E mode src =
     (case le_options E of
        Inl e \<Rightarrow> Some (Inl e, None)
      | Inr _ \<Rightarrow>
          (case (case mode of
                   ImapImplicit \<Rightarrow> map_sum id (\<lambda>ss. (Tls ss, True)) (le_handshake E src)
                 | ImapStartTls \<Rightarrow> Inr (Plain src, False)) of
             Inl e \<Rightarrow> Some (Inl e, None)
           | Inr (transport, secured) \<Rightarrow>
               (let (g, s') = il_greeting L (il_new L secured);
                    c = \<lparr>lc_session = s', lc_buf = [], lc_stream = transport, lc_secured = secured, lc_log = []\<rparr>
                in case line_write E (text_of g) c of
                     Inl e \<Rightarrow> Some (Inl e, Some c)
                   | Inr c' \<Rightarrow> map_option (map_prod id Some) (imap_loop E L c'))))"

text \<open>The mailbox seeded from a directory: the names of its entries, their contents and times are the file system's.\<close>

definition extension :: "string \<Rightarrow> string option" where
  "extension name =
     (if name = ''..'' then None
      else case rsplit_once (CHR ''.'') name of
        Some (stem, ext) \<Rightarrow> if stem = [] then None else Some ext
      | None \<Rightarrow> None)"

fun read_messages ::
    "(string \<Rightarrow> net_error + bytes) \<Rightarrow> (string \<Rightarrow> u64) \<Rightarrow> string list \<Rightarrow> net_error + (bytes \<times> u64) list" where
  "read_messages read mtime [] = Inr []"
| "read_messages read mtime (p # ps) =
     bindE (read p) (\<lambda>raw. map_sum id (\<lambda>ms. (raw, mtime p) # ms) (read_messages read mtime ps))"

definition load_maildir_messages ::
    "(net_error + string list) \<Rightarrow> (string \<Rightarrow> net_error + bytes) \<Rightarrow> (string \<Rightarrow> u64) \<Rightarrow> net_error + (bytes \<times> u64) list" where
  "load_maildir_messages read_dir read mtime =
     bindE read_dir (\<lambda>names.
       read_messages read mtime
         (sort (filter (\<lambda>p. case extension p of Some x \<Rightarrow> eq_ignore_ascii_case x ''eml'' | None \<Rightarrow> False) names)))"

fun seed_inbox :: "(bytes \<Rightarrow> u64 \<Rightarrow> 'st \<Rightarrow> bool \<times> 'st) \<Rightarrow> (bytes \<times> u64) list \<Rightarrow> 'st \<Rightarrow> nat \<times> 'st" where
  "seed_inbox deliver_raw [] store = (0, store)"
| "seed_inbox deliver_raw ((raw, ts) # ms) store =
     (let (ok, store1) = deliver_raw raw ts store; (n, store2) = seed_inbox deliver_raw ms store1
      in ((if ok then 1 else 0) + n, store2))"

definition seed_store_from_maildir ::
    "(net_error + string list) \<Rightarrow> (string \<Rightarrow> net_error + bytes) \<Rightarrow> (string \<Rightarrow> u64) \<Rightarrow> (bytes \<Rightarrow> u64 \<Rightarrow> 'st \<Rightarrow> bool \<times> 'st)
      \<Rightarrow> 'st \<Rightarrow> (net_error + nat) \<times> 'st" where
  "seed_store_from_maildir read_dir read mtime deliver_raw store =
     (case load_maildir_messages read_dir read mtime of
        Inl e \<Rightarrow> (Inl e, store)
      | Inr ms \<Rightarrow> (let (n, store') = seed_inbox deliver_raw ms store in (Inr n, store')))"

section \<open>Correctness\<close>

text \<open>Both line protocols keep the laws of the session loop.\<close>

interpretation smtp: line_session "smtp_line L native" for L native
  by unfold_locales (auto simp: smtp_line_def starts_with_def)

interpretation pop3: line_session "pop3_line L" for L
  by unfold_locales (auto simp: pop3_line_def starts_with_def)

lemmas tls_upgrades = smtp.turn_cases pop3.turn_cases

text \<open>Every recipient of a submission reaches the sink once, in order, whatever the sink answers.\<close>

lemma routed_all:
  assumes "\<And>r w. sl_deliver L r w = (accept r, w @ [r])"
  shows "route_rcpts L native sub mote rcpts w = w @ map (\<lambda>rcpt.
    \<lparr>ro_from = sub_mail_from sub, ro_rcpt_to = rcpt, ro_destination = if is_native native rcpt then Native else Legacy,
     ro_rfc5322 = sub_data sub, ro_mote = mote\<rparr>) rcpts"
  by (induction rcpts arbitrary: w) (simp_all add: assms)

text \<open>The envelope cannot add a line to the head of a spooled file.\<close>

lemma filter_sanitize: "filter (\<lambda>c. c = CR \<or> c = LF) (sanitize v) = []"
  by (auto simp: sanitize_def filter_empty_conv)

lemma spool_head_lines: "filter (\<lambda>c. c = CR \<or> c = LF) (spool_head r) = CRLF @ CRLF @ CRLF"
  by (cases "ro_destination r") (simp_all add: spool_head_def filter_sanitize)

text \<open>The accept loop never starts a session beyond the limit.\<close>

lemma serve_until_bounded:
  "cl_active l \<le> cl_max l \<Longrightarrow> cl_active (snd (serve_until es l st)) \<le> cl_max l"
  by (induction es l st rule: serve_until.induct) (auto simp: conn_guard_drop_def)

text \<open>C29: a message line that begins with the word QUIT, in any case, cuts the message off. The SMTP session takes the
  line as content: it says nothing, and the line completes no submission. The server looks at the line's first word all the same,
  ends the connection as if it had ended well, leaves the rest of the message unread, and has delivered nothing: the world is
  as it was before the line.\<close>

theorem quit_word_cuts_message:
  assumes "read_line_capped 0 [] (lc_buf c) (stream_read (lc_stream c)) = (Inr (Suc n), line, buf, src)"
    and "sl_feed_line_bytes L (strip_eol line) (fst (lc_session c)) = ([], s')"
    and "sl_take_submissions L s' = ([], s'')"
    and "verb_of (from_utf8_lossy (strip_eol line)) = ''QUIT''"
  shows "line_loop E (smtp_line L native) c =
    (Inr (), c\<lparr>lc_session := (s'', snd (lc_session c)), lc_buf := buf, lc_stream := stream_set src (lc_stream c),
               lc_log := lc_log c @ [Got (lc_secured c) line]\<rparr>)"
proof -
  let ?c = "c\<lparr>lc_buf := buf, lc_stream := stream_set src (lc_stream c)\<rparr>"
  obtain st w where s: "lc_session c = (st, w)" by (cases "lc_session c")
  have r: "route_pending L native (s', w) = (s'', w)" using assms(3) by (simp add: route_pending_def)
  let ?d = "?c\<lparr>lc_session := (s'', w), lc_log := lc_log c @ [Got (lc_secured c) line]\<rparr>"
  have "line_turn E (smtp_line L native) line ?c = LineDone ?d"
    using assms(2,4) s r by (simp add: line_turn_def after_reply_def smtp_line_def Let_def)
  from line_loop_eval(3) [OF assms(1) this] s show ?thesis by simp
qed

text \<open>A session that collects the lines of a message up to the dot, in the middle of a message, with two lines of it in the
  buffer; the sink keeps what it is given.\<close>

definition body_lib :: "(bytes list, unit, unit routed_submission list) submission_lib" where
  "body_lib = \<lparr>sl_new = \<lambda>_. [], sl_greeting = \<lambda>s. (''220'', s),
     sl_feed_line_bytes = \<lambda>l s. (if l = [46] then ''250 ok'' else [], s @ [l]),
     sl_take_submissions = \<lambda>s. (if s \<noteq> [] \<and> last s = [46]
       then ([\<lparr>sub_mail_from = ''a@b'', sub_rcpt_to = [''c@d''], sub_data = concat (butlast s)\<rparr>], []) else ([], s)),
     sl_build_mote_draft = \<lambda>_ _. (), sl_now_ms = \<lambda>_. 0, sl_deliver = \<lambda>r w. (True, w @ [r])\<rparr>"

definition body_conn :: "(bytes list \<times> unit routed_submission list) line_conn" where
  "body_conn = \<lparr>lc_session = ([], []), lc_buf = as_bytes ''Quit it'' @ [13, 10] @ [46, 13, 10], lc_stream = Tls [],
     lc_secured = True, lc_log = []\<rparr>"

theorem quit_word_cuts_message_witness:
  "fst (line_loop hello_env (smtp_line body_lib []) body_conn) = Inr () \<and>
   snd (lc_session (snd (line_loop hello_env (smtp_line body_lib []) body_conn))) = [] \<and>
   lc_buf (snd (line_loop hello_env (smtp_line body_lib []) body_conn)) = [46, 13, 10]"
proof -
  let ?l = "as_bytes ''Quit it'' @ [13, 10]"
  have p: "position_lf (lc_buf body_conn) = Some 8" "take 9 (lc_buf body_conn) = ?l" "drop 9 (lc_buf body_conn) = [46, 13, 10]"
    by code_simp+
  have r: "read_line_capped 0 [] (lc_buf body_conn) (stream_read (lc_stream body_conn)) = (Inr (Suc 8), ?l, [46, 13, 10], [])"
    unfolding read_line_capped_eval(3) [OF p(1)] using p(2,3) by (simp add: body_conn_def)
  have e: "strip_eol ?l = as_bytes ''Quit it''" "list_all (\<lambda>b. b \<le> 0x7F) (as_bytes ''Quit it'')"
     "text_of (as_bytes ''Quit it'') = ''Quit it''" by code_simp+
  have "split_whitespace (''Quit'' @ CHR '' '' # ''it'') = ''Quit'' # split_whitespace ''it''"
    by (rule split_whitespace_words) simp_all
  moreover have "to_ascii_uppercase ''Quit'' = ''QUIT''" by code_simp
  ultimately have v: "verb_of (from_utf8_lossy (strip_eol ?l)) = ''QUIT''"
    unfolding e(1) from_utf8_lossy_ascii [OF e(2)] e(3)
    by (simp add: verb_of_def)
  have f: "sl_feed_line_bytes body_lib (strip_eol ?l) (fst (lc_session body_conn)) = ([], [strip_eol ?l])"
    by (simp add: body_lib_def body_conn_def e(1)) (simp add: as_bytes_def)
  have t: "sl_take_submissions body_lib [strip_eol ?l] = ([], [strip_eol ?l])"
    by (simp add: body_lib_def e(1)) (simp add: as_bytes_def)
  show ?thesis unfolding quit_word_cuts_message [OF r f t v, of hello_env "[]"] by (simp add: body_conn_def)
qed

end
