(* ===== verification/Gw_Personal.thy ===== *)
theory Gw_Personal
  imports Gw_Directory Gw_Submission Gw_Admission
begin

text \<open>
  The personal run mode (\<open>gateway/src/personal.rs\<close>): its configuration from a file or from the environment, the
  credentials and the operator mode of the client-facing servers, and the assembly of the daemon from the other parts.
  Files, sockets, the environment and the order of a directory's iteration are parameters; the texts of the start-up
  errors are not modelled, only which error is raised.
\<close>

section \<open>Socket addresses\<close>

datatype socket_addr = SockV4 u32 u16 | SockV6 u128 u32 u16

text \<open>\<open>SocketAddr::from_str\<close>.\<close>

definition read_port :: "string \<Rightarrow> (u16 \<times> string) option" where
  "read_port s =
     Option.bind (read_given_char (CHR '':'') s) (\<lambda>s1.
       map_option (\<lambda>(n, s2). (of_nat n, s2)) (read_number 10 (length s1) True 65535 s1))"

definition read_socket_v4 :: "string \<Rightarrow> (socket_addr \<times> string) option" where
  "read_socket_v4 s =
     Option.bind (read_ipv4_addr s) (\<lambda>(ds, s1).
       map_option (\<lambda>(p, s2). (SockV4 (of_nat (foldl (\<lambda>n d. 256 * n + d) 0 ds)) p, s2)) (read_port s1))"

definition read_scope_id :: "string \<Rightarrow> u32 \<times> string" where
  "read_scope_id s =
     (case Option.bind (read_given_char (CHR ''%'') s) (\<lambda>s1. read_number 10 (length s1) True (2 ^ 32 - 1) s1) of
        Some (n, s2) \<Rightarrow> (of_nat n, s2)
      | None \<Rightarrow> (0, s))"

definition read_socket_v6 :: "string \<Rightarrow> (socket_addr \<times> string) option" where
  "read_socket_v6 s =
     Option.bind (read_given_char (CHR ''['') s) (\<lambda>s1.
     Option.bind (read_ipv6_addr s1) (\<lambda>(gs, s2).
       let (scope, s3) = read_scope_id s2 in
     Option.bind (read_given_char (CHR '']'') s3) (\<lambda>s4.
       map_option (\<lambda>(p, s5). (SockV6 (of_nat (foldl (\<lambda>n d. 65536 * n + d) 0 gs)) scope p, s5)) (read_port s4))))"

definition parse_socket_addr :: "string \<Rightarrow> socket_addr option" where
  "parse_socket_addr s =
     parse_with (case read_socket_v4 s of Some r \<Rightarrow> Some r | None \<Rightarrow> read_socket_v6 s)"

section \<open>Configuration\<close>

record personal_config =
  pc_domain :: string
  pc_listen :: string
  pc_selector :: string
  pc_dns_server :: socket_addr
  pc_directory :: "string option"
  pc_mesh_endpoint :: "string option"
  pc_tls_cert :: "string option"
  pc_tls_key :: "string option"
  pc_authz_mode :: authz_mode
  pc_dkim_enforce :: bool
  pc_spf_enforce :: bool
  pc_dmarc_enforce :: bool
  pc_quota_messages :: u64
  pc_quota_bytes :: u64
  pc_imap_enable :: bool
  pc_imap_listen :: string
  pc_imap_tls :: imap_tls
  pc_imap_credentials :: "string option"
  pc_imap_maildir :: "string option"
  pc_gateway_mode :: gateway_mode
  pc_pop3_enable :: bool
  pc_pop3_listen :: string
  pc_pop3_tls :: legacy_tls
  pc_submission_enable :: bool
  pc_submission_listen :: string
  pc_submission_tls :: legacy_tls
  pc_submission_spool :: "string option"
  pc_submission_native_domains :: "string option"

definition default_dns_server :: socket_addr where
  "default_dns_server = SockV4 0x01010101 53"

definition personal_default :: personal_config where
  "personal_default =
     \<lparr>pc_domain = ''localhost'', pc_listen = ''0.0.0.0:2525'', pc_selector = ''gw1'', pc_dns_server = default_dns_server,
      pc_directory = None, pc_mesh_endpoint = None, pc_tls_cert = None, pc_tls_key = None, pc_authz_mode = KeyRegistered,
      pc_dkim_enforce = False, pc_spf_enforce = False, pc_dmarc_enforce = False, pc_quota_messages = 0, pc_quota_bytes = 0,
      pc_imap_enable = False, pc_imap_listen = ''127.0.0.1:1143'', pc_imap_tls = ImapStartTls, pc_imap_credentials = None,
      pc_imap_maildir = None, pc_gateway_mode = GmPrivate, pc_pop3_enable = False, pc_pop3_listen = ''127.0.0.1:1110'',
      pc_pop3_tls = StartTls, pc_submission_enable = False, pc_submission_listen = ''127.0.0.1:1587'',
      pc_submission_tls = StartTls, pc_submission_spool = None, pc_submission_native_domains = None\<rparr>"

datatype config_error =
    CfgIo string string
  | CfgSyntax nat string
  | CfgBadValue nat string string string
  | CfgUnknownKey nat string
  | CfgPartialTls

definition is_ascii_whitespace :: "char \<Rightarrow> bool" where
  "is_ascii_whitespace c = (c \<in> {CHR '' '', CHR 0x09, LF, CHR 0x0C, CR})"

fun strip_from :: "bool \<Rightarrow> string \<Rightarrow> string" where
  "strip_from start [] = []"
| "strip_from start (c # cs) = (if c = CHR ''#'' \<and> start then [] else c # strip_from (is_ascii_whitespace c) cs)"

definition strip_comment :: "string \<Rightarrow> string" where
  "strip_comment line = strip_from True line"

definition unquote :: "string \<Rightarrow> string" where
  "unquote value =
     (let v = trim value in
      if length v \<ge> 2 \<and> starts_with [CHR 0x22] v \<and> ends_with [CHR 0x22] v then butlast (tl v) else v)"

definition non_empty :: "string \<Rightarrow> string option" where
  "non_empty v = (let t = trim v in if t = [] then None else Some t)"

definition parse_bool :: "string \<Rightarrow> bool option" where
  "parse_bool v =
     (let s = to_ascii_lowercase (trim v) in
      if s \<in> {''true'', ''1'', ''yes'', ''on''} then Some True
      else if s \<in> {''false'', ''0'', ''no'', ''off''} then Some False
      else None)"

definition parse_authz_mode :: "string \<Rightarrow> authz_mode option" where
  "parse_authz_mode v =
     (let s = map (\<lambda>c. if c = CHR ''_'' then CHR ''-'' else c) (to_ascii_lowercase (trim v)) in
      if s \<in> {''key-registered'', ''keyregistered'', ''registered''} then Some KeyRegistered
      else if s \<in> {''open-public'', ''openpublic'', ''open'', ''public''} then Some OpenPublic
      else None)"

definition parse_u64 :: "string \<Rightarrow> u64 option" where
  "parse_u64 v = map_option of_nat (parse_uint (2 ^ 64 - 1) v)"

definition set_bool ::
    "nat \<Rightarrow> string \<Rightarrow> string \<Rightarrow> (bool \<Rightarrow> personal_config) \<Rightarrow> config_error + personal_config" where
  "set_bool line key value f =
     map_sum id f (ok_or (CfgBadValue line key value ''expected true/false'') (parse_bool value))"

definition set_u64 ::
    "nat \<Rightarrow> string \<Rightarrow> string \<Rightarrow> (u64 \<Rightarrow> personal_config) \<Rightarrow> config_error + personal_config" where
  "set_u64 line key value f =
     map_sum id f (ok_or (CfgBadValue line key value ''expected a non-negative integer'') (parse_u64 value))"

definition TLS_VALUES :: string where
  "TLS_VALUES = ''expected '' @ [CHR 0x22] @ ''starttls'' @ [CHR 0x22] @ '' or '' @ [CHR 0x22] @ ''implicit'' @ [CHR 0x22]"

definition set_legacy_tls ::
    "nat \<Rightarrow> string \<Rightarrow> string \<Rightarrow> (legacy_tls \<Rightarrow> personal_config) \<Rightarrow> config_error + personal_config" where
  "set_legacy_tls line key value f =
     map_sum id f (ok_or (CfgBadValue line key value TLS_VALUES) (legacy_tls_parse value))"

definition config_set :: "nat \<Rightarrow> string \<Rightarrow> string \<Rightarrow> personal_config \<Rightarrow> config_error + personal_config" where
  "config_set line key value c =
     (if key = ''domain'' then Inr (c\<lparr>pc_domain := value\<rparr>)
      else if key = ''listen'' then Inr (c\<lparr>pc_listen := value\<rparr>)
      else if key = ''selector'' then Inr (c\<lparr>pc_selector := value\<rparr>)
      else if key = ''dns_server'' then
        map_sum id (\<lambda>a. c\<lparr>pc_dns_server := a\<rparr>)
          (ok_or (CfgBadValue line key value ''not an ip:port socket address'') (parse_socket_addr value))
      else if key = ''directory'' then Inr (c\<lparr>pc_directory := non_empty value\<rparr>)
      else if key = ''mesh_endpoint'' then Inr (c\<lparr>pc_mesh_endpoint := non_empty value\<rparr>)
      else if key = ''tls_cert'' then Inr (c\<lparr>pc_tls_cert := non_empty value\<rparr>)
      else if key = ''tls_key'' then Inr (c\<lparr>pc_tls_key := non_empty value\<rparr>)
      else if key = ''authz_mode'' then
        map_sum id (\<lambda>m. c\<lparr>pc_authz_mode := m\<rparr>)
          (ok_or (CfgBadValue line key value ''expected key-registered or open-public'') (parse_authz_mode value))
      else if key = ''dkim_enforce'' then set_bool line key value (\<lambda>b. c\<lparr>pc_dkim_enforce := b\<rparr>)
      else if key = ''spf_enforce'' then set_bool line key value (\<lambda>b. c\<lparr>pc_spf_enforce := b\<rparr>)
      else if key = ''dmarc_enforce'' then set_bool line key value (\<lambda>b. c\<lparr>pc_dmarc_enforce := b\<rparr>)
      else if key = ''quota_messages'' then set_u64 line key value (\<lambda>n. c\<lparr>pc_quota_messages := n\<rparr>)
      else if key = ''quota_bytes'' then set_u64 line key value (\<lambda>n. c\<lparr>pc_quota_bytes := n\<rparr>)
      else if key = ''imap_enable'' then set_bool line key value (\<lambda>b. c\<lparr>pc_imap_enable := b\<rparr>)
      else if key = ''imap_listen'' then Inr (c\<lparr>pc_imap_listen := value\<rparr>)
      else if key = ''imap_tls'' then
        map_sum id (\<lambda>m. c\<lparr>pc_imap_tls := m\<rparr>) (ok_or (CfgBadValue line key value TLS_VALUES) (imap_tls_parse value))
      else if key = ''imap_credentials'' then Inr (c\<lparr>pc_imap_credentials := non_empty value\<rparr>)
      else if key = ''imap_maildir'' then Inr (c\<lparr>pc_imap_maildir := non_empty value\<rparr>)
      else if key = ''gateway_mode'' then
        map_sum id (\<lambda>m. c\<lparr>pc_gateway_mode := m\<rparr>)
          (ok_or (CfgBadValue line key value ''expected private, registered-clients-only, or public'') (gateway_mode_parse value))
      else if key = ''pop3_enable'' then set_bool line key value (\<lambda>b. c\<lparr>pc_pop3_enable := b\<rparr>)
      else if key = ''pop3_listen'' then Inr (c\<lparr>pc_pop3_listen := value\<rparr>)
      else if key = ''pop3_tls'' then set_legacy_tls line key value (\<lambda>m. c\<lparr>pc_pop3_tls := m\<rparr>)
      else if key = ''submission_enable'' then set_bool line key value (\<lambda>b. c\<lparr>pc_submission_enable := b\<rparr>)
      else if key = ''submission_listen'' then Inr (c\<lparr>pc_submission_listen := value\<rparr>)
      else if key = ''submission_tls'' then set_legacy_tls line key value (\<lambda>m. c\<lparr>pc_submission_tls := m\<rparr>)
      else if key = ''submission_spool'' then Inr (c\<lparr>pc_submission_spool := non_empty value\<rparr>)
      else if key = ''submission_native_domains'' then Inr (c\<lparr>pc_submission_native_domains := non_empty value\<rparr>)
      else Inl (CfgUnknownKey line key))"

fun config_lines :: "nat \<Rightarrow> string list \<Rightarrow> personal_config \<Rightarrow> config_error + personal_config" where
  "config_lines line [] c = Inr c"
| "config_lines line (raw # raws) c =
     (let trimmed = trim (strip_comment raw) in
      if trimmed = [] then config_lines (line + 1) raws c
      else case split_once (CHR ''='') trimmed of
        None \<Rightarrow> Inl (CfgSyntax line (trim raw))
      | Some (key, value) \<Rightarrow>
          bindE (config_set line (to_ascii_lowercase (trim key)) (unquote (trim value)) c) (config_lines (line + 1) raws))"

definition config_parse :: "string \<Rightarrow> config_error + personal_config" where
  "config_parse text = config_lines 1 (str_lines text) personal_default"

definition config_load :: "(string \<Rightarrow> string + string) \<Rightarrow> string \<Rightarrow> config_error + personal_config" where
  "config_load read_to_string path = bindE (map_err (CfgIo path) (read_to_string path)) config_parse"

section \<open>The environment\<close>

text \<open>\<open>env\<close> is \<open>std::env::var\<close>.\<close>

definition env_flag :: "(string \<Rightarrow> string option) \<Rightarrow> string \<Rightarrow> bool" where
  "env_flag env name =
     (case env name of Some v \<Rightarrow> to_ascii_lowercase v \<in> {''1'', ''true'', ''yes''} | None \<Rightarrow> False)"

definition or_keep :: "'a option \<Rightarrow> 'a \<Rightarrow> 'a" where
  "or_keep x d = (case x of Some a \<Rightarrow> a | None \<Rightarrow> d)"

definition from_env :: "(string \<Rightarrow> string option) \<Rightarrow> personal_config" where
  "from_env env =
     (let d = personal_default in
      \<lparr>pc_domain = or_keep (env ''GATEWAY_DOMAIN'') (pc_domain d),
       pc_listen = or_keep (env ''GATEWAY_LISTEN'') (pc_listen d),
       pc_selector = or_keep (env ''GATEWAY_GW_SELECTOR'') (pc_selector d),
       pc_dns_server = (case env ''GATEWAY_DNS_SERVER'' of
           Some v \<Rightarrow> or_keep (parse_socket_addr v) default_dns_server | None \<Rightarrow> pc_dns_server d),
       pc_directory = Option.bind (env ''GATEWAY_DIRECTORY'') non_empty,
       pc_mesh_endpoint = Option.bind (env ''GATEWAY_MESH_ENDPOINT'') non_empty,
       pc_tls_cert = Option.bind (env ''GATEWAY_TLS_CERT'') non_empty,
       pc_tls_key = Option.bind (env ''GATEWAY_TLS_KEY'') non_empty,
       pc_authz_mode = or_keep (Option.bind (env ''GATEWAY_AUTHZ_MODE'') parse_authz_mode) (pc_authz_mode d),
       pc_dkim_enforce = env_flag env ''GATEWAY_DKIM_ENFORCE'',
       pc_spf_enforce = env_flag env ''GATEWAY_SPF_ENFORCE'',
       pc_dmarc_enforce = env_flag env ''GATEWAY_DMARC_ENFORCE'',
       pc_quota_messages = (case env ''GATEWAY_QUOTA_MESSAGES'' of
           Some v \<Rightarrow> or_keep (parse_u64 v) 0 | None \<Rightarrow> pc_quota_messages d),
       pc_quota_bytes = (case env ''GATEWAY_QUOTA_BYTES'' of
           Some v \<Rightarrow> or_keep (parse_u64 v) 0 | None \<Rightarrow> pc_quota_bytes d),
       pc_imap_enable = env_flag env ''GATEWAY_IMAP_ENABLE'',
       pc_imap_listen = or_keep (env ''GATEWAY_IMAP_LISTEN'') (pc_imap_listen d),
       pc_imap_tls = or_keep (Option.bind (env ''GATEWAY_IMAP_TLS'') imap_tls_parse) (pc_imap_tls d),
       pc_imap_credentials = Option.bind (env ''GATEWAY_IMAP_CREDENTIALS'') non_empty,
       pc_imap_maildir = Option.bind (env ''GATEWAY_IMAP_MAILDIR'') non_empty,
       pc_gateway_mode = or_keep (Option.bind (env ''GATEWAY_MODE'') gateway_mode_parse) (pc_gateway_mode d),
       pc_pop3_enable = env_flag env ''GATEWAY_POP3_ENABLE'',
       pc_pop3_listen = or_keep (env ''GATEWAY_POP3_LISTEN'') (pc_pop3_listen d),
       pc_pop3_tls = or_keep (Option.bind (env ''GATEWAY_POP3_TLS'') legacy_tls_parse) (pc_pop3_tls d),
       pc_submission_enable = env_flag env ''GATEWAY_SUBMISSION_ENABLE'',
       pc_submission_listen = or_keep (env ''GATEWAY_SUBMISSION_LISTEN'') (pc_submission_listen d),
       pc_submission_tls = or_keep (Option.bind (env ''GATEWAY_SUBMISSION_TLS'') legacy_tls_parse) (pc_submission_tls d),
       pc_submission_spool = Option.bind (env ''GATEWAY_SUBMISSION_SPOOL'') non_empty,
       pc_submission_native_domains = Option.bind (env ''GATEWAY_SUBMISSION_NATIVE_DOMAINS'') non_empty\<rparr>)"

section \<open>Quotas and the registry\<close>

definition config_quota :: "personal_config \<Rightarrow> quota option" where
  "config_quota c =
     (if pc_quota_messages c = 0 \<and> pc_quota_bytes c = 0 then None
      else Some \<lparr>qt_free_messages = pc_quota_messages c, qt_hard_cap_messages = pc_quota_messages c,
                 qt_free_bytes = pc_quota_bytes c, qt_hard_cap_bytes = pc_quota_bytes c\<rparr>)"

text \<open>\<open>entries\<close> lists the directory in the order it is iterated.\<close>

definition build_registry :: "personal_config \<Rightarrow> (string \<times> recipient_key) list \<Rightarrow> identity_registry" where
  "build_registry c entries =
     (case pc_authz_mode c of
        OpenPublic \<Rightarrow> registry_open_public
      | KeyRegistered \<Rightarrow>
          (let q = (case config_quota c of Some q \<Rightarrow> q | None \<Rightarrow> quota_messages 0 0) in
           fold (\<lambda>(email, key) reg. register_identity
             \<lparr>ri_public_key = rk_ik key, ri_account = email, ri_domain = pc_domain c, ri_quota = q\<rparr> reg)
             entries registry_key_registered))"

definition build_quota_ledger :: "personal_config \<Rightarrow> (string \<times> recipient_key) list \<Rightarrow> quota_ledger" where
  "build_quota_ledger c entries =
     (case config_quota c of
        None \<Rightarrow> quota_ledger_new
      | Some q \<Rightarrow> fold (\<lambda>(email, _) l. upsert_quota email q l) entries quota_ledger_new)"

section \<open>Credentials and the operator mode\<close>

record credential =
  cr_user :: string
  cr_password :: string
  cr_identity :: bytes

datatype access_error =
    TlsRequired
  | CredentialsIo string
  | CredentialsMissingPassword nat
  | CredentialsBadIdentity nat string
  | CredentialsUnknownUser nat string
  | CredentialsTooManyFields nat
  | PrivateServesOne "string list"
  | NotRegisteredClient string
  | AccessIo net_error
  | SpoolRequired
  | PartialTlsPair
  | BadDirectory directory_error
  | BadMesh mesh_config_error

definition resolve_identity :: "(string \<times> recipient_key) list \<Rightarrow> string \<Rightarrow> bytes option" where
  "resolve_identity entries user =
     map_option (\<lambda>e. rk_ik (snd e)) (find (\<lambda>e. eq_ignore_ascii_case (fst e) user) entries)"

definition credential_line :: "(string \<times> recipient_key) list \<Rightarrow> nat \<Rightarrow> string \<Rightarrow> access_error + credential" where
  "credential_line entries line trimmed =
     (case split_whitespace trimmed of
        user # password # more_fields \<Rightarrow>
          bindE (case more_fields of
                   b64 # _ \<Rightarrow> map_err (CredentialsBadIdentity line) (b64_decode b64)
                 | [] \<Rightarrow> ok_or (CredentialsUnknownUser line user) (resolve_identity entries user)) (\<lambda>pub.
            if length more_fields > 1 then Inl (CredentialsTooManyFields line)
            else Inr \<lparr>cr_user = user, cr_password = password, cr_identity = pub\<rparr>)
      | _ \<Rightarrow> Inl (CredentialsMissingPassword line))"

fun credential_lines ::
    "(string \<times> recipient_key) list \<Rightarrow> nat \<Rightarrow> string list \<Rightarrow> access_error + credential list" where
  "credential_lines entries line [] = Inr []"
| "credential_lines entries line (raw # raws) =
     (let trimmed = trim (strip_comment raw) in
      if trimmed = [] then credential_lines entries (line + 1) raws
      else bindE (credential_line entries line trimmed) (\<lambda>c.
           map_sum id (\<lambda>cs. c # cs) (credential_lines entries (line + 1) raws)))"

definition load_legacy_credentials ::
    "(string \<Rightarrow> string + string) \<Rightarrow> personal_config \<Rightarrow> (string \<times> recipient_key) list \<Rightarrow> access_error + credential list" where
  "load_legacy_credentials read_to_string c entries =
     (case pc_imap_credentials c of
        None \<Rightarrow> Inr []
      | Some path \<Rightarrow> bindE (map_err CredentialsIo (read_to_string path)) (\<lambda>text. credential_lines entries 1 (str_lines text)))"

definition distinct_accounts :: "string list \<Rightarrow> string list" where
  "distinct_accounts accounts =
     fold (\<lambda>a ds. let lc = to_ascii_lowercase a in if lc \<in> set ds then ds else ds @ [lc]) accounts []"

definition enforce_gateway_mode ::
    "personal_config \<Rightarrow> (string \<times> recipient_key) list \<Rightarrow> string list \<Rightarrow> access_error + nat" where
  "enforce_gateway_mode c entries accounts =
     (let ds = distinct_accounts accounts in
      case pc_gateway_mode c of
        GmPrivate \<Rightarrow> if length ds > 1 then Inl (PrivateServesOne ds) else Inr (length ds)
      | RegisteredClientsOnly \<Rightarrow>
          (case find (\<lambda>a. \<not> list_ex (\<lambda>e. eq_ignore_ascii_case (fst e) a) entries) ds of
             Some a \<Rightarrow> Inl (NotRegisteredClient a)
           | None \<Rightarrow> Inr (length ds))
      | GmPublic \<Rightarrow> Inr (length ds))"

section \<open>The servers\<close>

record access_host =
  ah_read_to_string :: "string \<Rightarrow> string + string"
  ah_maildir :: "string \<Rightarrow> net_error + (bytes \<times> u64) list"
  ah_bind :: "string \<Rightarrow> net_error + unit"
  ah_is_dir :: "string \<Rightarrow> bool"
  ah_server_config :: "string \<Rightarrow> string \<Rightarrow> net_error + unit"

record deployment =
  dp_listen :: string
  dp_auth :: "credential list"
  dp_seed :: "(bytes \<times> u64) list"
  dp_implicit :: bool
  dp_native :: "string list"
  dp_sink :: "spool_sink option"

text \<open>What the three servers share: TLS, the credentials and the operator mode; \<open>tls\<close> says whether there is one.\<close>

definition access_credentials ::
    "access_host \<Rightarrow> personal_config \<Rightarrow> (string \<times> recipient_key) list \<Rightarrow> bool \<Rightarrow> access_error + credential list" where
  "access_credentials h c entries tls =
     (if \<not> tls then Inl TlsRequired
      else bindE (load_legacy_credentials (ah_read_to_string h) c entries) (\<lambda>auth.
           bindE (enforce_gateway_mode c entries (map cr_user auth)) (\<lambda>served. Inr auth)))"

definition access_seed :: "access_host \<Rightarrow> personal_config \<Rightarrow> access_error + (bytes \<times> u64) list" where
  "access_seed h c = (case pc_imap_maildir c of Some d \<Rightarrow> map_err AccessIo (ah_maildir h d) | None \<Rightarrow> Inr [])"

definition build_imap ::
    "access_host \<Rightarrow> personal_config \<Rightarrow> (string \<times> recipient_key) list \<Rightarrow> bool \<Rightarrow> access_error + deployment option" where
  "build_imap h c entries tls =
     (if \<not> pc_imap_enable c then Inr None
      else bindE (access_credentials h c entries tls) (\<lambda>auth.
           bindE (access_seed h c) (\<lambda>seed.
           bindE (map_err AccessIo (ah_bind h (pc_imap_listen c))) (\<lambda>_.
             Inr (Some \<lparr>dp_listen = pc_imap_listen c, dp_auth = auth, dp_seed = seed,
                        dp_implicit = (pc_imap_tls c = ImapImplicit), dp_native = [], dp_sink = None\<rparr>)))))"

definition build_pop3 ::
    "access_host \<Rightarrow> personal_config \<Rightarrow> (string \<times> recipient_key) list \<Rightarrow> bool \<Rightarrow> access_error + deployment option" where
  "build_pop3 h c entries tls =
     (if \<not> pc_pop3_enable c then Inr None
      else bindE (access_credentials h c entries tls) (\<lambda>auth.
           bindE (access_seed h c) (\<lambda>seed.
           bindE (map_err AccessIo (ah_bind h (pc_pop3_listen c))) (\<lambda>_.
             Inr (Some \<lparr>dp_listen = pc_pop3_listen c, dp_auth = auth, dp_seed = seed,
                        dp_implicit = is_implicit (pc_pop3_tls c), dp_native = [], dp_sink = None\<rparr>)))))"

fun split_seps :: "string \<Rightarrow> string list" where
  "split_seps [] = [[]]"
| "split_seps (x # xs) =
     (if x \<in> {CHR '','', CHR '' '', CHR 0x09} then [] # split_seps xs
      else (case split_seps xs of [] \<Rightarrow> [[x]] | p # ps \<Rightarrow> (x # p) # ps))"

definition native_domains :: "personal_config \<Rightarrow> string list" where
  "native_domains c =
     (case pc_submission_native_domains c of
        Some l \<Rightarrow> filter (\<lambda>s. s \<noteq> []) (map trim (split_seps l))
      | None \<Rightarrow> [pc_domain c])"

definition build_submission ::
    "access_host \<Rightarrow> personal_config \<Rightarrow> (string \<times> recipient_key) list \<Rightarrow> bool \<Rightarrow> access_error + deployment option" where
  "build_submission h c entries tls =
     (if \<not> pc_submission_enable c then Inr None
      else bindE (access_credentials h c entries tls) (\<lambda>auth.
           bindE (case pc_submission_spool c of
                    Some spool \<Rightarrow> map_err AccessIo (spool_new (ah_is_dir h) spool)
                  | None \<Rightarrow> Inl SpoolRequired) (\<lambda>sink.
           bindE (map_err AccessIo (ah_bind h (pc_submission_listen c))) (\<lambda>_.
             Inr (Some \<lparr>dp_listen = pc_submission_listen c, dp_auth = auth, dp_seed = [],
                        dp_implicit = is_implicit (pc_submission_tls c), dp_native = bind_native_domains (native_domains c),
                        dp_sink = Some sink\<rparr>)))))"

definition load_directory :: "access_host \<Rightarrow> personal_config \<Rightarrow> access_error + directory" where
  "load_directory h c =
     (case pc_directory c of
        Some path \<Rightarrow> map_err BadDirectory (file_directory_load (ah_read_to_string h) path)
      | None \<Rightarrow> Inr directory_new)"

definition build_mesh :: "personal_config \<Rightarrow> access_error + http_mesh option" where
  "build_mesh c =
     (case pc_mesh_endpoint c of
        Some endpoint \<Rightarrow> map_sum BadMesh Some (mesh_new endpoint)
      | None \<Rightarrow> Inr None)"

definition build_tls :: "access_host \<Rightarrow> personal_config \<Rightarrow> access_error + bool" where
  "build_tls h c =
     (case (pc_tls_cert c, pc_tls_key c) of
        (Some cert, Some key) \<Rightarrow> map_sum AccessIo (\<lambda>_. True) (ah_server_config h cert key)
      | (None, None) \<Rightarrow> Inr False
      | _ \<Rightarrow> Inl PartialTlsPair)"

text \<open>The inbound gateway of the configured domain; the three resolvers are the DNS clients for the configured server.\<close>

definition build_inbound ::
    "personal_config \<Rightarrow> 'k \<Rightarrow> directory \<Rightarrow> ('e \<Rightarrow> attestation \<Rightarrow> 'w \<Rightarrow> delivery_outcome \<times> 'w) \<Rightarrow> 'w dkim_resolver
      \<Rightarrow> 'w spf_resolver \<Rightarrow> 'w txt_resolver \<Rightarrow> ('k, 'e, 'w) inbound_gateway" where
  "build_inbound c ik dir mesh dkim spf dmarc =
     with_dmarc dmarc (if pc_dmarc_enforce c then DmarcEnforce else DmarcAnnotate)
       (with_spf spf (if pc_spf_enforce c then SpfEnforce else SpfAnnotate)
         (with_dkim dkim (if pc_dkim_enforce c then DkimEnforce else DkimAnnotate)
           (for_own_domains ik [(pc_domain c, pc_selector c)] (\<lambda>rcpt w. (dir_resolve dir rcpt, w)) mesh
             (\<lambda>_ _ w. (AbuseAccept, w)))))"

text \<open>The start of the daemon, up to the point where the listeners run.\<close>

record personal_daemon =
  pd_directory :: directory
  pd_mesh :: "http_mesh option"
  pd_registry :: identity_registry
  pd_quota_ledger :: quota_ledger
  pd_tls :: bool
  pd_imap :: "deployment option"
  pd_pop3 :: "deployment option"
  pd_submission :: "deployment option"

definition personal_serve ::
    "access_host \<Rightarrow> (directory \<Rightarrow> (string \<times> recipient_key) list) \<Rightarrow> personal_config \<Rightarrow> access_error + personal_daemon" where
  "personal_serve h iter c =
     bindE (load_directory h c) (\<lambda>dir.
     bindE (build_mesh c) (\<lambda>mesh.
     bindE (build_tls h c) (\<lambda>tls.
     bindE (build_imap h c (iter dir) tls) (\<lambda>imap.
     bindE (build_pop3 h c (iter dir) tls) (\<lambda>pop3.
     bindE (build_submission h c (iter dir) tls) (\<lambda>sub.
     bindE (map_err AccessIo (ah_bind h (pc_listen c))) (\<lambda>_.
       Inr \<lparr>pd_directory = dir, pd_mesh = mesh, pd_registry = build_registry c (iter dir),
            pd_quota_ledger = build_quota_ledger c (iter dir), pd_tls = tls, pd_imap = imap, pd_pop3 = pop3,
            pd_submission = sub\<rparr>)))))))"

end
