(* ===== verification/Gw_Personal_Sound.thy ===== *)
theory Gw_Personal_Sound
  imports Gw_Personal
begin

text \<open>
  What the personal run mode guarantees: configuration files fail closed, the client-facing servers only come up over
  TLS and within the operator mode, and a fresh configuration bridges nobody; and where it does not do what its
  documentation says.
\<close>

section \<open>Configuration files\<close>

definition config_keys :: "string list" where
  "config_keys =
     [''domain'', ''listen'', ''selector'', ''dns_server'', ''directory'', ''mesh_endpoint'', ''tls_cert'', ''tls_key'',
      ''authz_mode'', ''dkim_enforce'', ''spf_enforce'', ''dmarc_enforce'', ''quota_messages'', ''quota_bytes'', ''imap_enable'',
      ''imap_listen'', ''imap_tls'', ''imap_credentials'', ''imap_maildir'', ''gateway_mode'', ''pop3_enable'', ''pop3_listen'',
      ''pop3_tls'', ''submission_enable'', ''submission_listen'', ''submission_tls'', ''submission_spool'',
      ''submission_native_domains'']"

lemma config_set_unknown: "key \<notin> set config_keys \<Longrightarrow> config_set line key value c = Inl (CfgUnknownKey line key)"
  by (simp add: config_keys_def config_set_def)

text \<open>A line sets something, says nothing, or is refused.\<close>

definition config_line_ok :: "string \<Rightarrow> bool" where
  "config_line_ok raw =
     (let trimmed = trim (strip_comment raw) in
      trimmed = [] \<or>
      (case split_once (CHR ''='') trimmed of Some (k, v) \<Rightarrow> to_ascii_lowercase (trim k) \<in> set config_keys | None \<Rightarrow> False))"

lemma config_lines_ok: "config_lines n raws c = Inr c' \<Longrightarrow> list_all config_line_ok raws"
proof (induction n raws c rule: config_lines.induct)
  case (2 line raw raws c)
  let ?t = "trim (strip_comment raw)"
  show ?case
  proof (cases "?t = []")
    case True
    then show ?thesis using 2 by (simp add: config_line_ok_def Let_def)
  next
    case False
    with "2.prems" obtain k v c1 where kv: "split_once (CHR ''='') ?t = Some (k, v)"
        "config_set line (to_ascii_lowercase (trim k)) (unquote (trim v)) c = Inr c1" "config_lines (line + 1) raws c1 = Inr c'"
      by (auto simp: Let_def bindE_def split: option.splits sum.splits)
    then have "to_ascii_lowercase (trim k) \<in> set config_keys" using config_set_unknown by fastforce
    with kv False "2.IH"(2) [OF refl False kv(1) refl kv(2,3)] show ?thesis by (simp add: config_line_ok_def Let_def)
  qed
qed simp

section \<open>The servers\<close>

lemma distinct_accounts_set: "set (distinct_accounts as) = to_ascii_lowercase ` set as"
proof -
  have "set (fold (\<lambda>a ds. let lc = to_ascii_lowercase a in if lc \<in> set ds then ds else ds @ [lc]) as ds) =
      to_ascii_lowercase ` set as \<union> set ds" for ds
    by (induction as arbitrary: ds) (auto simp: Let_def)
  from this [of "[]"] show ?thesis by (simp add: distinct_accounts_def)
qed

definition mode_respected :: "personal_config \<Rightarrow> (string \<times> recipient_key) list \<Rightarrow> credential list \<Rightarrow> bool" where
  "mode_respected c entries auth =
     ((pc_gateway_mode c = GmPrivate \<longrightarrow> (\<forall>a \<in> set auth. \<forall>b \<in> set auth. eq_ignore_ascii_case (cr_user a) (cr_user b))) \<and>
      (pc_gateway_mode c = RegisteredClientsOnly \<longrightarrow>
         (\<forall>a \<in> set auth. \<exists>e \<in> set entries. eq_ignore_ascii_case (fst e) (cr_user a))))"

lemma short_list_equal: "length xs \<le> Suc 0 \<Longrightarrow> a \<in> set xs \<Longrightarrow> b \<in> set xs \<Longrightarrow> a = b"
  by (cases xs) auto

lemma mode_respectedI:
  assumes "enforce_gateway_mode c entries (map cr_user auth) = Inr n"
  shows "mode_respected c entries auth"
proof -
  have s: "to_ascii_lowercase (cr_user a) \<in> set (distinct_accounts (map cr_user auth))" if "a \<in> set auth" for a
    using that by (auto simp: distinct_accounts_set)
  show ?thesis
  proof (cases "pc_gateway_mode c")
    case GmPrivate
    then have "length (distinct_accounts (map cr_user auth)) \<le> Suc 0"
      using assms by (auto simp: enforce_gateway_mode_def Let_def split: if_splits)
    then show ?thesis
      using GmPrivate s short_list_equal [of "distinct_accounts (map cr_user auth)"]
      by (simp add: mode_respected_def eq_ignore_ascii_case_def)
  next
    case RegisteredClientsOnly
    then have "find (\<lambda>a. \<not> list_ex (\<lambda>e. eq_ignore_ascii_case (fst e) a) entries) (distinct_accounts (map cr_user auth)) = None"
      using assms by (auto simp: enforce_gateway_mode_def Let_def split: option.splits)
    then have "\<exists>e \<in> set entries. eq_ignore_ascii_case (fst e) (to_ascii_lowercase (cr_user a))" if "a \<in> set auth" for a
      using s [OF that] by (auto simp: find_None_iff list_ex_iff)
    then show ?thesis
      using RegisteredClientsOnly by (simp add: mode_respected_def eq_ignore_ascii_case_def)
  qed (simp add: mode_respected_def)
qed

lemma access_credentials_ok:
  "access_credentials h c entries tls = Inr auth \<Longrightarrow> tls \<and> mode_respected c entries auth"
  by (auto simp: access_credentials_def bindE_def split: if_splits sum.splits intro: mode_respectedI)

lemmas build_defs = build_imap_def build_pop3_def build_submission_def

lemma deployment_ok:
  assumes "build_imap h c entries tls = Inr (Some dep) \<or> build_pop3 h c entries tls = Inr (Some dep) \<or>
    build_submission h c entries tls = Inr (Some dep)"
  shows "tls \<and> mode_respected c entries (dp_auth dep)"
  using assms by (auto simp: build_defs bindE_def split: if_splits sum.splits dest: access_credentials_ok)

lemma tls_pair: "build_tls h c = Inr True \<Longrightarrow> pc_tls_cert c \<noteq> None \<and> pc_tls_key c \<noteq> None"
  by (auto simp: build_tls_def split: option.splits)

section \<open>A running example\<close>

definition bob_host :: access_host where
  "bob_host = \<lparr>ah_read_to_string = \<lambda>_. Inr ''bob pw AQ=='', ah_maildir = \<lambda>_. Inr [], ah_bind = \<lambda>_. Inr (), ah_is_dir = \<lambda>_. True,
     ah_server_config = \<lambda>_ _. Inr ()\<rparr>"

definition bob_config :: personal_config where
  "bob_config = personal_default\<lparr>pc_tls_cert := Some ''c'', pc_tls_key := Some ''k'', pc_imap_enable := True,
     pc_imap_credentials := Some ''f''\<rparr>"

lemma bob_credentials: "load_legacy_credentials (ah_read_to_string bob_host) bob_config [] =
    Inr [\<lparr>cr_user = ''bob'', cr_password = ''pw'', cr_identity = [1]\<rparr>]"
proof -
  have l: "str_lines ''bob pw AQ=='' = [''bob pw AQ=='']" "strip_comment ''bob pw AQ=='' = ''bob pw AQ==''"
    "b64_decode ''AQ=='' = Inr [1]" by code_simp+
  have t: "trim ''bob pw AQ=='' = ''bob pw AQ==''" by (rule trim_inner) simp_all
  have w: "split_whitespace (''bob'' @ CHR '' '' # ''pw'' @ CHR '' '' # ''AQ=='') = [''bob'', ''pw'', ''AQ=='']"
    using split_whitespace_words [of "''bob''" "''pw'' @ CHR '' '' # ''AQ==''"] split_whitespace_words [of "''pw''" "''AQ==''"]
      split_whitespace_word [of "''AQ==''"] by simp
  show ?thesis
    using w by (simp add: load_legacy_credentials_def bob_host_def bob_config_def l t credential_line_def bindE_def map_err_def)
qed

lemma bob_access: "access_credentials bob_host bob_config [] True = Inr [\<lparr>cr_user = ''bob'', cr_password = ''pw'', cr_identity = [1]\<rparr>]"
proof -
  have "pc_gateway_mode bob_config = GmPrivate" by (simp add: bob_config_def personal_default_def)
  then show ?thesis
    by (simp add: access_credentials_def bob_credentials bindE_def enforce_gateway_mode_def distinct_accounts_def Let_def)
qed

lemma bob_serves: "\<exists>d dep. personal_serve bob_host (\<lambda>_. []) bob_config = Inr d \<and> pd_imap d = Some dep \<and>
    dp_auth dep = [\<lparr>cr_user = ''bob'', cr_password = ''pw'', cr_identity = [1]\<rparr>]"
proof -
  have h: "ah_bind bob_host = (\<lambda>_. Inr ())" "ah_server_config bob_host = (\<lambda>_ _. Inr ())" by (simp_all add: bob_host_def)
  have c: "pc_directory bob_config = None" "pc_mesh_endpoint bob_config = None" "pc_tls_cert bob_config = Some ''c''"
    "pc_tls_key bob_config = Some ''k''" "pc_imap_enable bob_config" "\<not> pc_pop3_enable bob_config" "\<not> pc_submission_enable bob_config"
    "pc_imap_maildir bob_config = None"
    by (simp_all add: bob_config_def personal_default_def)
  show ?thesis
    by (simp add: personal_serve_def load_directory_def build_mesh_def build_tls_def build_defs access_seed_def c h bob_access
        bindE_def map_err_def)
qed

text \<open>C17: no client-facing server comes up without TLS or outside the operator mode: if the daemon starts with an IMAP,
  POP3 or submission server, both the certificate and the key were configured and loaded, a private gateway serves the
  accounts of a single user, and a gateway for registered clients serves only users of its directory.\<close>

theorem legacy_access_guarded:
  assumes "personal_serve h iter c = Inr d" and "Some dep \<in> {pd_imap d, pd_pop3 d, pd_submission d}"
  shows "pd_tls d \<and> pc_tls_cert c \<noteq> None \<and> pc_tls_key c \<noteq> None \<and> mode_respected c (iter (pd_directory d)) (dp_auth dep)"
proof -
  have "build_tls h c = Inr (pd_tls d)"
    and "build_imap h c (iter (pd_directory d)) (pd_tls d) = Inr (pd_imap d)"
    and "build_pop3 h c (iter (pd_directory d)) (pd_tls d) = Inr (pd_pop3 d)"
    and "build_submission h c (iter (pd_directory d)) (pd_tls d) = Inr (pd_submission d)"
    using assms(1) by (auto simp: personal_serve_def bindE_def split: sum.splits)
  then show ?thesis
    using deployment_ok [of h c "iter (pd_directory d)" "pd_tls d" dep] tls_pair assms(2) by auto
qed

theorem legacy_access_guarded_witness:
  "\<exists>d dep. personal_serve bob_host (\<lambda>_. []) bob_config = Inr d \<and> pd_imap d = Some dep \<and> pd_tls d \<and>
     mode_respected bob_config [] (dp_auth dep)"
proof -
  obtain d dep where d: "personal_serve bob_host (\<lambda>_. []) bob_config = Inr d" "pd_imap d = Some dep" using bob_serves by blast
  show ?thesis using legacy_access_guarded [OF d(1), of dep] d by auto
qed

text \<open>A configuration file fails closed: a file that is accepted consists of comments, blank lines and settings of
  known keys only.\<close>

theorem config_fail_closed:
  assumes "config_parse text = Inr c" and "raw \<in> set (str_lines text)"
  shows "trim (strip_comment raw) = [] \<or>
    (\<exists>k v. split_once (CHR ''='') (trim (strip_comment raw)) = Some (k, v) \<and> to_ascii_lowercase (trim k) \<in> set config_keys)"
  using config_lines_ok [of 1 "str_lines text" personal_default c] assms
  by (auto simp: config_parse_def list_all_iff config_line_ok_def Let_def split: option.splits)

lemma domain_line: "config_parse ''domain=b.io'' = Inr (personal_default\<lparr>pc_domain := ''b.io''\<rparr>)"
proof -
  have l: "str_lines ''domain=b.io'' = [''domain=b.io'']" "strip_comment ''domain=b.io'' = ''domain=b.io''"
    "split_once (CHR ''='') ''domain=b.io'' = Some (''domain'', ''b.io'')" "to_ascii_lowercase ''domain'' = ''domain''" by code_simp+
  have t: "trim ''domain=b.io'' = ''domain=b.io''" "trim ''domain'' = ''domain''" "trim ''b.io'' = ''b.io''"
    by (rule trim_graphic; simp)+
  show ?thesis by (simp add: config_parse_def l t bindE_def unquote_def starts_with_def config_set_def)
qed

theorem config_fail_closed_witness:
  "trim (strip_comment ''domain=b.io'') = [] \<or>
    (\<exists>k v. split_once (CHR ''='') (trim (strip_comment ''domain=b.io'')) = Some (k, v) \<and> to_ascii_lowercase (trim k) \<in> set config_keys)"
proof -
  have "''domain=b.io'' \<in> set (str_lines ''domain=b.io'')" by code_simp
  from config_fail_closed [OF domain_line this] show ?thesis .
qed

text \<open>A fresh configuration bridges nobody: without a directory, whatever else is configured, every recipient is
  refused, as malformed or as unknown.\<close>

theorem fresh_config_bridges_nobody:
  assumes "pc_directory c = None"
  shows "\<exists>dir. load_directory h c = Inr dir \<and>
    (\<exists>r. rcpt_acceptable (build_inbound c ik dir mesh dkim spf dmarc) rcpt w = (Inl r, w) \<and> sr_code r \<in> {501, 550})"
proof -
  have "ig_directory (build_inbound c ik directory_new mesh dkim spf dmarc) = (\<lambda>rcpt w. (None, w))"
    by (simp add: build_inbound_def with_dmarc_def with_spf_def with_dkim_def for_own_domains_def inbound_new_def
        dir_resolve_def directory_new_def)
  then show ?thesis
    using assms by (auto simp: load_directory_def rcpt_acceptable_def reply_def split: option.split)
qed

theorem fresh_config_bridges_nobody_witness:
  "\<exists>dir. load_directory bob_host bob_config = Inr dir \<and>
    (\<exists>r. rcpt_acceptable (build_inbound bob_config () dir (\<lambda>_ _ w. (Acked, w)) (\<lambda>_ _ w. (None, w))
       (dns_spf_resolver (\<lambda>_ _ w. (Inr (servfail_packet, \<lparr>dm_id = 7, dm_rcode = 2, dm_answers = []\<rparr>), w))) (\<lambda>_ w. ([], w)))
      ''bob@b.io'' () = (Inl r, ()) \<and> sr_code r \<in> {501, 550})"
proof -
  have "pc_directory bob_config = None" by (simp add: bob_config_def personal_default_def)
  from fresh_config_bridges_nobody [OF this] show ?thesis .
qed

text \<open>Caps of 0, documented as unlimited, leave the quota ledger empty, which refuses every account that is charged to
  it.\<close>

lemma unlimited_quota_refuses:
  assumes "pc_quota_messages c = 0" and "pc_quota_bytes c = 0"
  shows "config_quota c = None \<and>
    fst (try_charge (build_quota_ledger c entries) account bytes) = Inl (QUnregistered account)"
  using assms by (simp add: config_quota_def build_quota_ledger_def quota_ledger_new_def try_charge_def)

text \<open>The environment does not fail closed where the file does: a message quota that is not a number is refused in a
  configuration file, but in the environment it counts as no quota at all.\<close>

theorem env_quota_fails_open:
  assumes "env ''GATEWAY_QUOTA_MESSAGES'' = Some v" and "env ''GATEWAY_QUOTA_BYTES'' = None" and "parse_u64 v = None"
  shows "config_quota (from_env env) = None \<and>
    config_set line ''quota_messages'' v c = Inl (CfgBadValue line ''quota_messages'' v ''expected a non-negative integer'')"
proof -
  have "pc_quota_messages (from_env env) = 0" "pc_quota_bytes (from_env env) = 0"
    unfolding from_env_def Let_def using assms by (simp_all add: or_keep_def personal_default_def)
  then show ?thesis
    using assms(3) by (simp add: config_quota_def config_set_def set_u64_def ok_or_def)
qed

theorem env_quota_fails_open_witness:
  "config_quota (from_env [''GATEWAY_QUOTA_MESSAGES'' \<mapsto> ''1O0'']) = None"
proof -
  have "parse_u64 ''1O0'' = None" by (simp add: parse_u64_def parse_uint_def starts_with_def is_ascii_digit_def)
  then show ?thesis using env_quota_fails_open [of "[''GATEWAY_QUOTA_MESSAGES'' \<mapsto> ''1O0'']" "''1O0''"] by simp
qed

end
