(* ===== verification/Gw_Admin.thy ===== *)
theory Gw_Admin
  imports Gw_Multidomain Gw_Submission
begin

text \<open>
  The admin interface of the multi-tenant gateway (\<open>gateway/src/admin.rs\<close>): bearer authentication, the dispatch of a
  request to the gateway's operations with their JSON answers, and the HTTP reader and writer around it. The texts of the
  gateway's errors (their \<open>Display\<close>, which quotes strings with \<open>Debug\<close>), the signature scheme, the clock and the random
  draws are parameters.
\<close>

section \<open>Authentication\<close>

record admin_auth =
  aa_token :: "string option"

definition auth_disabled :: admin_auth where
  "auth_disabled = \<lparr>aa_token = None\<rparr>"

definition auth_with_token :: "string \<Rightarrow> admin_auth" where
  "auth_with_token t = (if trim t = [] then \<lparr>aa_token = None\<rparr> else \<lparr>aa_token = Some t\<rparr>)"

definition auth_is_enabled :: "admin_auth \<Rightarrow> bool" where
  "auth_is_enabled a = (aa_token a \<noteq> None)"

definition ct_eq :: "bytes \<Rightarrow> bytes \<Rightarrow> bool" where
  "ct_eq a b =
     (if length a \<noteq> length b then False
      else foldl (\<lambda>diff (x, y). or diff (xor x y)) 0 (zip a b) = 0)"

definition auth_authorize :: "admin_auth \<Rightarrow> string option \<Rightarrow> bool" where
  "auth_authorize a presented =
     (case aa_token a of
        None \<Rightarrow> False
      | Some expected \<Rightarrow>
          (case presented of None \<Rightarrow> False | Some p \<Rightarrow> ct_eq (as_bytes expected) (as_bytes p)))"

section \<open>Requests and answers\<close>

record admin_request =
  ar_method :: string
  ar_path :: string
  ar_token :: "string option"
  ar_body :: bytes
  ar_now_ms :: u64

definition admin_request_new :: "string \<Rightarrow> string \<Rightarrow> string option \<Rightarrow> bytes \<Rightarrow> u64 \<Rightarrow> admin_request" where
  "admin_request_new method path token body now =
     \<lparr>ar_method = to_ascii_uppercase method, ar_path = path, ar_token = token, ar_body = body, ar_now_ms = now\<rparr>"

record admin_response =
  as_status :: u16
  as_body :: string

abbreviation QUOTE :: char where "QUOTE \<equiv> CHR 0x22"
abbreviation BACKSLASH :: char where "BACKSLASH \<equiv> CHR 0x5C"

definition hex_digit :: "nat \<Rightarrow> char" where
  "hex_digit n = (if n < 10 then char_of (48 + n) else char_of (87 + n))"

definition json_char :: "char \<Rightarrow> string" where
  "json_char c =
     (if c = QUOTE then [BACKSLASH, QUOTE]
      else if c = BACKSLASH then [BACKSLASH, BACKSLASH]
      else if c = LF then BACKSLASH # ''n''
      else if c = CR then BACKSLASH # ''r''
      else if c = CHR 0x09 then BACKSLASH # ''t''
      else if byte_of c < 0x20 then
        BACKSLASH # ''u00'' @ [hex_digit (byte_of c div 16), hex_digit (byte_of c mod 16)]
      else [c])"

definition json_str :: "string \<Rightarrow> string" where
  "json_str s = [QUOTE] @ concat (map json_char s) @ [QUOTE]"

definition json_key :: "string \<Rightarrow> string" where
  "json_key k = [QUOTE] @ k @ [QUOTE] @ '':''"

text \<open>An object that begins with \<open>"ok":true\<close> and goes on with the given members.\<close>

definition ok_object :: "(string \<times> string) list \<Rightarrow> string" where
  "ok_object ms = ''{'' @ json_key ''ok'' @ ''true'' @ concat (map (\<lambda>(k, v). '','' @ json_key k @ v) ms) @ ''}''"

definition resp_ok :: "string \<Rightarrow> admin_response" where
  "resp_ok b = \<lparr>as_status = 200, as_body = b\<rparr>"

definition resp_created :: "string \<Rightarrow> admin_response" where
  "resp_created b = \<lparr>as_status = 201, as_body = b\<rparr>"

definition resp_err :: "u16 \<Rightarrow> string \<Rightarrow> admin_response" where
  "resp_err status message =
     \<lparr>as_status = status, as_body = ''{'' @ json_key ''ok'' @ ''false,'' @ json_key ''error'' @ json_str message @ ''}''\<rparr>"

definition resp_reason :: "admin_response \<Rightarrow> string" where
  "resp_reason r =
     (if as_status r = 200 then ''OK''
      else if as_status r = 201 then ''Created''
      else if as_status r = 400 then ''Bad Request''
      else if as_status r = 401 then ''Unauthorized''
      else if as_status r = 404 then ''Not Found''
      else if as_status r = 405 then ''Method Not Allowed''
      else if as_status r = 409 then ''Conflict''
      else ''Internal Server Error'')"

fun md_err_status :: "multi_domain_error \<Rightarrow> u16" where
  "md_err_status (InvalidDomain _) = 400"
| "md_err_status (DomainExists _) = 409"
| "md_err_status (NoSuchDomain _) = 404"
| "md_err_status (MdAlias _) = 409"
| "md_err_status (BadKey _) = 400"

definition map_md_err :: "(multi_domain_error \<Rightarrow> string) \<Rightarrow> multi_domain_error \<Rightarrow> admin_response" where
  "map_md_err show_err e = resp_err (md_err_status e) (show_err e)"

section \<open>Forms\<close>

type_synonym form = "string \<rightharpoonup> string"

fun split_pairs :: "string \<Rightarrow> string list" where
  "split_pairs [] = [[]]"
| "split_pairs (x # xs) =
     (if x = CHR ''&'' \<or> x = LF then [] # split_pairs xs
      else (case split_pairs xs of [] \<Rightarrow> [[x]] | p # ps \<Rightarrow> (x # p) # ps))"

fun form_pair :: "string \<Rightarrow> form \<Rightarrow> form" where
  "form_pair raw m =
     (let pair = trim raw in
      if pair = [] then m
      else case split_once (CHR ''='') pair of
        Some (k, v) \<Rightarrow> m(trim k \<mapsto> trim v)
      | None \<Rightarrow> m)"

definition parse_form :: "bytes \<Rightarrow> form" where
  "parse_form body = fold form_pair (split_pairs (from_utf8_lossy body)) Map.empty"

definition form_field :: "form \<Rightarrow> string \<Rightarrow> string option" where
  "form_field f key = (case f key of Some v \<Rightarrow> if v = [] then None else Some v | None \<Rightarrow> None)"

definition form_u64 :: "form \<Rightarrow> string \<Rightarrow> string + u64 option" where
  "form_u64 f key =
     (case form_field f key of
        None \<Rightarrow> Inr None
      | Some v \<Rightarrow> (case parse_uint (2 ^ 64 - 1) v of
          Some n \<Rightarrow> Inr (Some (of_nat n))
        | None \<Rightarrow> Inl (key @ '' must be a non-negative integer'')))"

definition parse_quota :: "form \<Rightarrow> string + quota option" where
  "parse_quota f =
     (if form_field f ''quota_messages'' = None \<and> form_field f ''quota_bytes'' = None then Inr None
      else bindE (form_u64 f ''quota_messages'') (\<lambda>m.
           bindE (form_u64 f ''quota_bytes'') (\<lambda>b.
             let m = (case m of Some n \<Rightarrow> n | None \<Rightarrow> 0); b = (case b of Some n \<Rightarrow> n | None \<Rightarrow> 0)
             in Inr (Some \<lparr>qt_free_messages = m, qt_hard_cap_messages = m, qt_free_bytes = b, qt_hard_cap_bytes = b\<rparr>))))"

definition parse_target :: "string \<Rightarrow> string + alias_target" where
  "parse_target raw =
     (case strip_prefix ''native:'' raw of
        Some rest \<Rightarrow>
          (case rsplit_once (CHR ''@'') rest of
             None \<Rightarrow> Inl ''native target must be native:<local>@<domain>''
           | Some (local, domain) \<Rightarrow>
               if local = [] \<or> domain = [] then Inl ''native target local-part and domain must be non-empty''
               else Inr (alias_target.Native local domain))
      | None \<Rightarrow>
          (case strip_prefix ''identity:'' raw of
             Some b64 \<Rightarrow>
               bindE (map_err (\<lambda>e. ''bad identity base64: '' @ e) (b64_decode b64)) (\<lambda>key.
                 if key = [] then Inl ''identity target key is empty'' else Inr (Identity key))
           | None \<Rightarrow> Inl ''target must be native:<local>@<domain> or identity:<b64>''))"

definition decode_seed :: "string \<Rightarrow> string + bytes" where
  "decode_seed b64 =
     bindE (map_err (\<lambda>e. ''bad dkim_seed_b64: '' @ e) (b64_decode b64)) (\<lambda>bs.
       if length bs = 32 then Inr bs else Inl ''dkim_seed_b64 must decode to exactly 32 bytes'')"

definition is_true :: "string \<Rightarrow> bool" where
  "is_true v = (to_ascii_lowercase (trim v) \<in> {''true'', ''1'', ''yes'', ''on''})"

section \<open>Handlers\<close>

record admin_api =
  ap_auth :: admin_auth
  ap_crypto :: dkim_crypto
  ap_show_err :: "multi_domain_error \<Rightarrow> string"

definition js_nat :: "nat \<Rightarrow> string" where
  "js_nat n = dec n"

definition js_bool :: "bool \<Rightarrow> string" where
  "js_bool b = (if b then ''true'' else ''false'')"

definition js_join :: "string list \<Rightarrow> string" where
  "js_join items = ''['' @ concat (case items of [] \<Rightarrow> [] | i # is \<Rightarrow> i # map (\<lambda>x. '','' @ x) is) @ '']''"

definition md_domains :: "multi_gateway \<Rightarrow> string list" where
  "md_domains g = sorted_list_of_set (dom (mg_tenants g))"

definition list_domains :: "multi_gateway \<Rightarrow> admin_response" where
  "list_domains g = resp_ok (ok_object [(''domains'', js_join (map json_str (md_domains g)))])"

text \<open>The answer to an operation of the gateway, made from its result; the operation's own state change is kept.\<close>

definition answer ::
    "admin_api \<Rightarrow> ('a \<Rightarrow> admin_response) \<Rightarrow> (multi_domain_error + 'a) \<times> multi_gateway \<Rightarrow> admin_response \<times> multi_gateway" where
  "answer api f r = (case fst r of Inl e \<Rightarrow> map_md_err (ap_show_err api) e | Inr a \<Rightarrow> f a, snd r)"

text \<open>A tenant that is missing right after it was added is a panic, \<open>None\<close>.\<close>

definition admin_add_domain ::
    "admin_api \<Rightarrow> bytes \<Rightarrow> form \<Rightarrow> multi_gateway \<Rightarrow> admin_response option \<times> multi_gateway" where
  "admin_add_domain api random_seed f g =
     (case form_field f ''domain'' of
        None \<Rightarrow> (Some (resp_err 400 ''missing domain''), g)
      | Some domain \<Rightarrow>
          (let selector = (case form_field f ''selector'' of Some s \<Rightarrow> s | None \<Rightarrow> ''gw1'') in
           case (case form_field f ''dkim_seed_b64'' of
                   Some b64 \<Rightarrow> map_sum id Some (decode_seed b64) | None \<Rightarrow> Inr None) of
             Inl e \<Rightarrow> (Some (resp_err 400 e), g)
           | Inr seed \<Rightarrow>
               (case parse_quota f of
                  Inl e \<Rightarrow> (Some (resp_err 400 e), g)
                | Inr quota \<Rightarrow>
                    (case add_domain domain (case seed of Some s \<Rightarrow> s | None \<Rightarrow> random_seed) selector g of
                       (Inl e, g1) \<Rightarrow> (Some (map_md_err (ap_show_err api) e), g1)
                     | (Inr used_seed, g1) \<Rightarrow>
                         (let g2 = (case quota of Some q \<Rightarrow> snd (set_domain_quota domain q g1) | None \<Rightarrow> g1) in
                          case tenant_of g2 domain of
                            Some t \<Rightarrow>
                              (Some (resp_created (ok_object
                                 [(''domain'', json_str (dt_domain t)), (''selector'', json_str (dk_selector (dt_dkim t))),
                                  (''dkim_public'', json_str (public_p_tag (ap_crypto api) (dt_dkim t))),
                                  (''dkim_seed_b64'', json_str (b64_encode used_seed))])), g2)
                          | None \<Rightarrow> (None, g2))))))"

definition admin_get_domain :: "admin_api \<Rightarrow> string \<Rightarrow> multi_gateway \<Rightarrow> admin_response" where
  "admin_get_domain api d g =
     (case tenant_of g d of
        None \<Rightarrow> resp_err 404 ''domain not served''
      | Some t \<Rightarrow>
          (let q = dt_quota t; u = usage_of (dt_ledger t) (dt_domain t) in
           resp_ok (ok_object
             [(''domain'', json_str (dt_domain t)), (''selector'', json_str (dk_selector (dt_dkim t))),
              (''dkim_public'', json_str (public_p_tag (ap_crypto api) (dt_dkim t))),
              (''recipients'', js_nat (dir_len (dt_directory t))),
              (''quota_messages'', js_nat (unat (qt_hard_cap_messages q))), (''quota_bytes'', js_nat (unat (qt_hard_cap_bytes q))),
              (''used_messages'', js_nat (unat (us_messages u))), (''used_bytes'', js_nat (unat (us_bytes u)))])))"

definition admin_remove_domain :: "string \<Rightarrow> multi_gateway \<Rightarrow> admin_response \<times> multi_gateway" where
  "admin_remove_domain d g =
     (let (was, g') = remove_domain d g in
      (if was then resp_ok (ok_object [(''removed'', json_str d)]) else resp_err 404 ''domain not served'', g'))"

definition admin_add_recipient :: "admin_api \<Rightarrow> string \<Rightarrow> form \<Rightarrow> multi_gateway \<Rightarrow> admin_response \<times> multi_gateway" where
  "admin_add_recipient api d f g =
     (case (form_field f ''email'', form_field f ''ik_b64'', form_field f ''seal_b64'') of
        (Some email, Some ik, Some seal) \<Rightarrow>
          if \<not> (case rsplit_once (CHR ''@'') email of Some (_, dm) \<Rightarrow> eq_ignore_ascii_case dm d | None \<Rightarrow> False)
          then (resp_err 400 ''email domain does not match path domain'', g)
          else (case b64_decode ik of
             Inl e \<Rightarrow> (resp_err 400 (''bad ik_b64: '' @ e), g)
           | Inr ikb \<Rightarrow>
               (case b64_decode seal of
                  Inl e \<Rightarrow> (resp_err 400 (''bad seal_b64: '' @ e), g)
                | Inr sealb \<Rightarrow>
                    answer api (\<lambda>_. resp_created (ok_object [(''recipient'', json_str email)]))
                      (add_recipient email \<lparr>rk_ik = ikb, rk_seal_pub = sealb\<rparr> g)))
      | _ \<Rightarrow> (resp_err 400 ''missing email/ik_b64/seal_b64'', g))"

definition admin_remove_recipient :: "admin_api \<Rightarrow> string \<Rightarrow> form \<Rightarrow> multi_gateway \<Rightarrow> admin_response \<times> multi_gateway" where
  "admin_remove_recipient api d f g =
     (case form_field f ''email'' of
        None \<Rightarrow> (resp_err 400 ''missing email'', g)
      | Some email \<Rightarrow>
          answer api (\<lambda>was. if was then resp_ok (ok_object [(''removed'', json_str email)]) else resp_err 404 ''recipient not found'')
            (remove_recipient email g))"

definition admin_allocate_vanity :: "admin_api \<Rightarrow> string \<Rightarrow> form \<Rightarrow> multi_gateway \<Rightarrow> admin_response \<times> multi_gateway" where
  "admin_allocate_vanity api d f g =
     (case (form_field f ''key_b64'', form_field f ''local_part'') of
        (Some key_b64, Some local) \<Rightarrow>
          (case b64_decode key_b64 of
             Inl e \<Rightarrow> (resp_err 400 (''bad key_b64: '' @ e), g)
           | Inr key \<Rightarrow>
               answer api (\<lambda>addr. resp_created (ok_object [(''alias'', json_str addr)])) (md_allocate_vanity d key local g))
      | _ \<Rightarrow> (resp_err 400 ''missing key_b64/local_part'', g))"

definition admin_revoke_vanity :: "admin_api \<Rightarrow> string \<Rightarrow> form \<Rightarrow> multi_gateway \<Rightarrow> admin_response \<times> multi_gateway" where
  "admin_revoke_vanity api d f g =
     (case form_field f ''key_b64'' of
        None \<Rightarrow> (resp_err 400 ''missing key_b64'', g)
      | Some key_b64 \<Rightarrow>
          (case b64_decode key_b64 of
             Inl e \<Rightarrow> (resp_err 400 (''bad key_b64: '' @ e), g)
           | Inr key \<Rightarrow>
               answer api (\<lambda>r. case r of
                   Some addr \<Rightarrow> resp_ok (ok_object [(''revoked'', json_str addr)])
                 | None \<Rightarrow> resp_err 404 ''key holds no vanity on this domain'') (revoke_vanity d key g)))"

text \<open>\<open>None\<close> where the drawn tokens do not suffice.\<close>

definition admin_mint_random ::
    "admin_api \<Rightarrow> bytes list \<Rightarrow> string \<Rightarrow> form \<Rightarrow> u64 \<Rightarrow> multi_gateway \<Rightarrow> admin_response option \<times> multi_gateway" where
  "admin_mint_random api draws d f now g =
     (case form_field f ''target'' of
        None \<Rightarrow> (Some (resp_err 400 ''missing target''), g)
      | Some target_raw \<Rightarrow>
          (case parse_target target_raw of
             Inl e \<Rightarrow> (Some (resp_err 400 e), g)
           | Inr target \<Rightarrow>
               (case form_u64 f ''ttl_ms'' of
                  Inl e \<Rightarrow> (Some (resp_err 400 e), g)
                | Inr ttl \<Rightarrow>
                    (let one_time = (case form_field f ''one_time'' of Some v \<Rightarrow> is_true v | None \<Rightarrow> False);
                         (r, g') = mint_random_alias draws d target (form_field f ''correspondent'') ttl one_time now g
                     in (case r of
                           Inl e \<Rightarrow> Some (map_md_err (ap_show_err api) e)
                         | Inr addr \<Rightarrow> map_option (\<lambda>a. resp_created (ok_object [(''alias'', json_str a)])) addr, g')))))"

definition admin_burn_random :: "admin_api \<Rightarrow> string \<Rightarrow> string \<Rightarrow> multi_gateway \<Rightarrow> admin_response \<times> multi_gateway" where
  "admin_burn_random api d token g =
     answer api (\<lambda>was. if was then resp_ok (ok_object [(''burned'', json_str token)]) else resp_err 404 ''alias token not found'')
       (burn_random_alias d token g)"

definition global_scope :: "form \<Rightarrow> bool" where
  "global_scope f = (case form_field f ''scope'' of Some s \<Rightarrow> eq_ignore_ascii_case s ''global'' | None \<Rightarrow> False)"

definition admin_block :: "admin_api \<Rightarrow> string \<Rightarrow> form \<Rightarrow> multi_gateway \<Rightarrow> admin_response \<times> multi_gateway" where
  "admin_block api d f g =
     (case form_field f ''sender'' of
        None \<Rightarrow> (resp_err 400 ''missing sender'', g)
      | Some sender \<Rightarrow>
          if global_scope f
          then (resp_ok (ok_object [(''blocked'', json_str sender), (''scope'', json_str ''global'')]), block_sender_global sender g)
          else answer api (\<lambda>_. resp_ok (ok_object [(''blocked'', json_str sender)])) (md_block_sender d sender g))"

definition admin_unblock :: "admin_api \<Rightarrow> string \<Rightarrow> form \<Rightarrow> multi_gateway \<Rightarrow> admin_response \<times> multi_gateway" where
  "admin_unblock api d f g =
     (case form_field f ''sender'' of
        None \<Rightarrow> (resp_err 400 ''missing sender'', g)
      | Some sender \<Rightarrow>
          if global_scope f
          then (let (was, g') = unblock_sender_global sender g in (resp_ok (ok_object [(''unblocked'', js_bool was)]), g'))
          else answer api (\<lambda>was. resp_ok (ok_object [(''unblocked'', js_bool was)])) (unblock_sender d sender g))"

definition admin_suspend :: "admin_api \<Rightarrow> string \<Rightarrow> form \<Rightarrow> multi_gateway \<Rightarrow> admin_response \<times> multi_gateway" where
  "admin_suspend api d f g =
     (case form_field f ''user'' of
        None \<Rightarrow> (resp_err 400 ''missing user'', g)
      | Some user \<Rightarrow> answer api (\<lambda>_. resp_ok (ok_object [(''suspended'', json_str user)])) (suspend_user d user g))"

definition admin_unsuspend :: "admin_api \<Rightarrow> string \<Rightarrow> form \<Rightarrow> multi_gateway \<Rightarrow> admin_response \<times> multi_gateway" where
  "admin_unsuspend api d f g =
     (case form_field f ''user'' of
        None \<Rightarrow> (resp_err 400 ''missing user'', g)
      | Some user \<Rightarrow> answer api (\<lambda>was. resp_ok (ok_object [(''reinstated'', js_bool was)])) (unsuspend_user d user g))"

definition admin_set_quota :: "admin_api \<Rightarrow> string \<Rightarrow> form \<Rightarrow> multi_gateway \<Rightarrow> admin_response \<times> multi_gateway" where
  "admin_set_quota api d f g =
     (case parse_quota f of
        Inl e \<Rightarrow> (resp_err 400 e, g)
      | Inr quota \<Rightarrow>
          (let q = (case quota of Some q \<Rightarrow> q | None \<Rightarrow> quota_messages 0 0) in
           answer api (\<lambda>_. resp_ok (ok_object
             [(''domain'', json_str d), (''quota_messages'', js_nat (unat (qt_hard_cap_messages q))),
              (''quota_bytes'', js_nat (unat (qt_hard_cap_bytes q)))])) (set_domain_quota d q g)))"

definition um_snapshot :: "usage_meter \<Rightarrow> (string \<times> domain_usage) list" where
  "um_snapshot m = map (\<lambda>d. (d, get_or domain_usage_default m d)) (sorted_list_of_set (dom m))"

definition admin_usage :: "usage_meter \<Rightarrow> admin_response" where
  "admin_usage m =
     resp_ok (ok_object [(''usage'', js_join (map (\<lambda>(d, u).
       ''{'' @ json_key ''domain'' @ json_str d @ '','' @ json_key ''inbound'' @ js_nat (unat (du_inbound u)) @ '','' @
       json_key ''outbound'' @ js_nat (unat (du_outbound u)) @ '','' @ json_key ''messages'' @ js_nat (unat (du_messages u)) @ ''}'')
       (um_snapshot m)))])"

section \<open>Dispatch\<close>

definition is_known_path :: "string list \<Rightarrow> bool" where
  "is_known_path rest =
     (case rest of
        [a] \<Rightarrow> a \<in> {''health'', ''domains'', ''usage''}
      | [a, _] \<Rightarrow> a = ''domains''
      | [a, _, c] \<Rightarrow> a = ''domains'' \<and> c \<in> {''recipients'', ''blocklist'', ''suspend'', ''quota''}
      | [a, _, c, e] \<Rightarrow> a = ''domains'' \<and> c = ''aliases'' \<and> e \<in> {''vanity'', ''random''}
      | [a, _, c, e, _] \<Rightarrow> a = ''domains'' \<and> c = ''aliases'' \<and> e = ''random''
      | _ \<Rightarrow> False)"

definition not_handled :: "string list \<Rightarrow> admin_response" where
  "not_handled rest = (if is_known_path rest then resp_err 405 ''method not allowed'' else resp_err 404 ''unknown path'')"

text \<open>The operations of one domain, by what follows its name in the path.\<close>

definition handle_domain ::
    "admin_api \<Rightarrow> bytes list \<Rightarrow> string \<Rightarrow> string \<Rightarrow> string list \<Rightarrow> form \<Rightarrow> u64 \<Rightarrow> multi_gateway
      \<Rightarrow> admin_response option \<times> multi_gateway" where
  "handle_domain api draws m d op f now g =
     (let plain = map_prod Some id in
      if op = [] \<and> m = ''GET'' then (Some (admin_get_domain api d g), g)
      else if op = [] \<and> m = ''DELETE'' then plain (admin_remove_domain d g)
      else if op = [''recipients''] \<and> m = ''POST'' then plain (admin_add_recipient api d f g)
      else if op = [''recipients''] \<and> m = ''DELETE'' then plain (admin_remove_recipient api d f g)
      else if op = [''aliases'', ''vanity''] \<and> m = ''POST'' then plain (admin_allocate_vanity api d f g)
      else if op = [''aliases'', ''vanity''] \<and> m = ''DELETE'' then plain (admin_revoke_vanity api d f g)
      else if op = [''aliases'', ''random''] \<and> m = ''POST'' then admin_mint_random api draws d f now g
      else if length op = 3 \<and> take 2 op = [''aliases'', ''random''] \<and> m = ''DELETE'' then plain (admin_burn_random api d (op ! 2) g)
      else if op = [''blocklist''] \<and> m = ''POST'' then plain (admin_block api d f g)
      else if op = [''blocklist''] \<and> m = ''DELETE'' then plain (admin_unblock api d f g)
      else if op = [''suspend''] \<and> m = ''POST'' then plain (admin_suspend api d f g)
      else if op = [''suspend''] \<and> m = ''DELETE'' then plain (admin_unsuspend api d f g)
      else if op = [''quota''] \<and> m = ''PUT'' then plain (admin_set_quota api d f g)
      else (Some (not_handled (''domains'' # d # op)), g))"

definition admin_handle ::
    "admin_api \<Rightarrow> bytes \<Rightarrow> bytes list \<Rightarrow> admin_request \<Rightarrow> usage_meter \<Rightarrow> multi_gateway \<Rightarrow> admin_response option \<times> multi_gateway" where
  "admin_handle api random_seed draws req meter g =
     (if \<not> auth_authorize (ap_auth api) (ar_token req) then (Some (resp_err 401 ''unauthorized''), g)
      else
        (let segments = filter (\<lambda>s. s \<noteq> []) (split_on (CHR ''/'') (ar_path req));
             f = parse_form (ar_body req); m = ar_method req in
         case segments of
           v # rest \<Rightarrow>
             if v \<noteq> ''v1'' then (Some (resp_err 404 ''unknown path''), g)
             else if rest = [''health''] \<and> m = ''GET'' then (Some (resp_ok (ok_object [(''status'', json_str ''live'')])), g)
             else if rest = [''domains''] \<and> m = ''GET'' then (Some (list_domains g), g)
             else if rest = [''domains''] \<and> m = ''POST'' then admin_add_domain api random_seed f g
             else if rest = [''usage''] \<and> m = ''GET'' then (Some (admin_usage meter), g)
             else (case rest of
                 w # d # op \<Rightarrow>
                   if w = ''domains'' then handle_domain api draws m d op f (ar_now_ms req) g else (Some (not_handled rest), g)
               | _ \<Rightarrow> (Some (not_handled rest), g))
         | [] \<Rightarrow> (Some (resp_err 404 ''unknown path''), g)))"

section \<open>HTTP\<close>

datatype http_parse_error = HpIo net_error | HpMalformed string

definition MAX_HEAD_BYTES :: nat where
  "MAX_HEAD_BYTES = 64 * 1024"

definition MAX_BODY_BYTES :: nat where
  "MAX_BODY_BYTES = 256 * 1024"

text \<open>A line with what is left of the buffer and the stream; the empty line is the end of the stream.\<close>

function admin_read_line ::
    "nat \<Rightarrow> bytes \<Rightarrow> bytes \<Rightarrow> fill list \<Rightarrow> (http_parse_error + bytes) \<times> bytes \<times> fill list" where
  "admin_read_line cap acc buf src =
     (if buf = [] then
        (case src of
           [] \<Rightarrow> (Inr acc, [], [])
         | Fill bs # src' \<Rightarrow> if bs = [] then (Inr acc, [], src') else admin_read_line cap acc bs src'
         | FillIntr # src' \<Rightarrow> admin_read_line cap acc [] src'
         | FillFail e # src' \<Rightarrow> (Inl (HpIo (OtherIo e)), [], src'))
      else
        (case position_lf buf of
           Some pos \<Rightarrow> (Inr (acc @ take (pos + 1) buf), drop (pos + 1) buf, src)
         | None \<Rightarrow>
             if length (acc @ buf) > cap then (Inl (HpMalformed ''request line/header too long''), [], src)
             else admin_read_line cap (acc @ buf) [] src))"
  by pat_completeness auto
termination
  by (relation "measure (\<lambda>(m, acc, buf, src). 2 * length src + (if buf = [] then 0 else 1))") auto

declare admin_read_line.simps [simp del]

text \<open>\<open>read_exact\<close> of the body.\<close>

fun read_body :: "nat \<Rightarrow> bytes \<Rightarrow> bytes \<Rightarrow> fill list \<Rightarrow> net_error + bytes" where
  "read_body n acc buf [] =
     (if length acc + length buf \<ge> n then Inr (take n (acc @ buf)) else Inl (UnexpectedEof ''failed to fill whole buffer''))"
| "read_body n acc buf (x # src) =
     (if length acc + length buf \<ge> n then Inr (take n (acc @ buf))
      else case x of
        Fill bs \<Rightarrow> if bs = [] then Inl (UnexpectedEof ''failed to fill whole buffer'') else read_body n (acc @ buf) bs src
      | FillIntr \<Rightarrow> read_body n (acc @ buf) [] src
      | FillFail e \<Rightarrow> Inl (OtherIo e))"

record admin_head =
  ah_token :: "string option"
  ah_content_length :: nat

definition trim_eol :: "string \<Rightarrow> string" where
  "trim_eol s = rev (dropWhile (\<lambda>c. c = CR \<or> c = LF) (rev s))"

definition admin_header :: "string \<Rightarrow> admin_head \<Rightarrow> http_parse_error + admin_head" where
  "admin_header trimmed h =
     (case split_once (CHR '':'') trimmed of
        None \<Rightarrow> Inr h
      | Some (name, value) \<Rightarrow>
          (let n = to_ascii_lowercase (trim name); v = trim value in
           if n = ''authorization'' then
             Inr (h\<lparr>ah_token := map_option trim
               (case strip_prefix ''Bearer '' v of Some t \<Rightarrow> Some t | None \<Rightarrow> strip_prefix ''bearer '' v)\<rparr>)
           else if n = ''content-length'' then
             (case parse_uint (2 ^ 64 - 1) v of
                None \<Rightarrow> Inl (HpMalformed ''bad Content-Length'')
              | Some k \<Rightarrow>
                  if k > MAX_BODY_BYTES then Inl (HpMalformed ''request body too large'')
                  else Inr (h\<lparr>ah_content_length := k\<rparr>))
           else Inr h))"

lemma admin_read_line_less:
  assumes "admin_read_line m acc buf src = (Inr l, buf', src')"
  shows "length src' < length src \<or> src' = src \<and> (length buf' < length buf \<or> l = acc \<and> buf' = [] \<and> buf = [])"
  using assms
proof (induction m acc buf src rule: admin_read_line.induct)
  case (1 m acc buf src)
  note r = "1.prems" [unfolded admin_read_line.simps [of m acc buf src]]
  show ?case
  proof (cases "buf = []")
    case True
    show ?thesis
    proof (cases src)
      case (Cons x src0)
      then show ?thesis
        using r True "1.IH"(1) [OF True Cons] "1.IH"(2) [OF True Cons] by (cases x) (fastforce split: if_splits)+
    qed (use r True in simp)
  next
    case False
    then show ?thesis
    proof (cases "position_lf buf")
      case None
      then show ?thesis using r False "1.IH"(3) [OF False None] by (fastforce split: if_splits)
    qed (use r False in auto)
  qed
qed

function admin_headers ::
    "nat \<Rightarrow> bytes \<Rightarrow> fill list \<Rightarrow> admin_head \<Rightarrow> (http_parse_error + admin_head) \<times> bytes \<times> fill list" where
  "admin_headers budget buf src h =
     (case admin_read_line budget [] buf src of
        (Inl e, buf', src') \<Rightarrow> (Inl e, buf', src')
      | (Inr l, buf', src') \<Rightarrow>
          if l = [] then (Inl (HpMalformed ''headers truncated (no blank line)''), buf', src')
          else
            (let trimmed = trim_eol (from_utf8_lossy l) in
             if trimmed = [] then (Inr h, buf', src')
             else case admin_header trimmed h of
               Inl e \<Rightarrow> (Inl e, buf', src')
             | Inr h' \<Rightarrow> admin_headers (budget - length l) buf' src' h'))"
  by pat_completeness auto
termination
  by (relation "measures [\<lambda>(b, buf, src, h). length src, \<lambda>(b, buf, src, h). length buf]")
    (auto dest!: admin_read_line_less [OF sym])

declare admin_headers.simps [simp del]

definition read_request :: "u64 \<Rightarrow> fill list \<Rightarrow> http_parse_error + admin_request option" where
  "read_request now src =
     (case admin_read_line MAX_HEAD_BYTES [] [] src of
        (Inl e, _) \<Rightarrow> Inl e
      | (Inr l, buf, src1) \<Rightarrow>
          if l = [] then Inr None
          else case split_whitespace (from_utf8_lossy l) of
            [] \<Rightarrow> Inl (HpMalformed ''empty request line'')
          | [_] \<Rightarrow> Inl (HpMalformed ''missing request target'')
          | method # target # _ \<Rightarrow>
              (case admin_headers (MAX_HEAD_BYTES - length l) buf src1 \<lparr>ah_token = None, ah_content_length = 0\<rparr> of
                 (Inl e, _) \<Rightarrow> Inl e
               | (Inr h, buf2, src2) \<Rightarrow>
                   map_sum HpIo (\<lambda>body. Some \<lparr>ar_method = to_ascii_uppercase method, ar_path = hd (split_on (CHR ''?'') target),
                     ar_token = ah_token h, ar_body = body, ar_now_ms = now\<rparr>)
                     (read_body (ah_content_length h) [] buf2 src2)))"

definition response_head :: "admin_response \<Rightarrow> string" where
  "response_head r =
     ''HTTP/1.1 '' @ dec (unat (as_status r)) @ '' '' @ resp_reason r @ CRLF @ ''Content-Type: application/json'' @ CRLF @
     ''Content-Length: '' @ dec (length (as_body r)) @ CRLF @ ''Connection: close'' @ CRLF @ CRLF"

text \<open>A connection after its TLS handshake: what is answered, if anything, and the gateway after it. A write that fails
  afterwards changes neither.\<close>

definition admin_connection ::
    "admin_api \<Rightarrow> bytes \<Rightarrow> bytes list \<Rightarrow> u64 \<Rightarrow> fill list \<Rightarrow> usage_meter \<Rightarrow> multi_gateway
      \<Rightarrow> (net_error + string option) \<times> multi_gateway" where
  "admin_connection api random_seed draws now src meter g =
     (case read_request now src of
        Inr None \<Rightarrow> (Inr None, g)
      | Inl (HpIo e) \<Rightarrow> (Inl e, g)
      | Inl (HpMalformed msg) \<Rightarrow> (let r = resp_err 400 msg in (Inr (Some (response_head r @ as_body r)), g))
      | Inr (Some req) \<Rightarrow>
          (let (r, g') = admin_handle api random_seed draws req meter g
           in (Inr (map_option (\<lambda>r. response_head r @ as_body r) r), g')))"

definition admin_serve_until :: "'c accept_event list \<Rightarrow> conn_limiter \<Rightarrow> 'c list \<times> conn_limiter" where
  "admin_serve_until es l = serve_until es l []"

end
