(* ===== verification/Gw_Admin_Sound.thy ===== *)
theory Gw_Admin_Sound
  imports Gw_Admin Gw_Multidomain_Sound
begin

text \<open>
  The admin interface fails closed, keeps the gateway in the states its operations reach, and quotes its answers safely;
  and two places where it does not keep to its own rules.
\<close>

section \<open>Authentication\<close>

lemma or_zero_iff: "or (a :: u8) b = 0 \<longleftrightarrow> a = 0 \<and> b = 0"
  by (auto simp: bit_eq_iff bit_or_iff)

lemma xor_zero_iff: "xor (a :: u8) b = 0 \<longleftrightarrow> a = b"
  by (auto simp: bit_eq_iff bit_xor_iff)

lemma ct_diff: "length a = length b \<Longrightarrow> foldl (\<lambda>diff (x, y). or diff (xor x y)) d (zip a b) = 0 \<longleftrightarrow> d = (0 :: u8) \<and> a = b"
  by (induction a b arbitrary: d rule: list_induct2) (auto simp: or_zero_iff xor_zero_iff)

lemma ct_eq_iff: "ct_eq a b \<longleftrightarrow> a = b"
  using ct_diff [of a b 0] by (auto simp: ct_eq_def)

lemma authorize_iff: "auth_authorize a presented \<longleftrightarrow> (\<exists>t. aa_token a = Some t \<and> presented = Some t)"
  by (auto simp: auth_authorize_def ct_eq_iff split: option.split)

section \<open>States\<close>

lemma md_reach_ops:
  assumes "md_reach g"
  shows "md_reach (snd (add_domain d seed sel g))" "md_reach (snd (remove_domain d g))" "md_reach (snd (add_recipient e k g))"
    "md_reach (snd (remove_recipient e g))" "md_reach (snd (md_allocate_vanity d b lp g))" "md_reach (snd (revoke_vanity d b g))"
    "md_reach (snd (mint_random_alias draws d tg co ttl ot now g))" "md_reach (snd (burn_random_alias d tok g))"
    "md_reach (snd (md_block_sender d s g))" "md_reach (snd (unblock_sender d s g))" "md_reach (snd (suspend_user d s g))"
    "md_reach (snd (unsuspend_user d s g))" "md_reach (snd (set_domain_quota d q g))" "md_reach (block_sender_global s g)"
    "md_reach (snd (unblock_sender_global s g))"
proof -
  show "md_reach (snd (add_recipient e k g))"
  proof (cases "split_address e")
    case None
    then show ?thesis using assms by (simp add: add_recipient_def)
  next
    case (Some p)
    then show ?thesis using assms by (cases p) (blast intro: md_next md_recipient)
  qed
  show "md_reach (snd (remove_recipient e g))"
  proof (cases "split_address e")
    case None
    then show ?thesis using assms by (simp add: remove_recipient_def)
  next
    case (Some p)
    then show ?thesis using assms by (cases p) (blast intro: md_next md_unrecipient)
  qed
qed (use assms in \<open>blast intro: md_next md_add md_remove md_vanity md_revoke md_mint md_burn md_block md_unblock md_suspend
    md_unsuspend md_quota md_global md_unglobal\<close>)+

lemmas admin_ops = admin_remove_domain_def admin_add_recipient_def admin_remove_recipient_def admin_allocate_vanity_def
  admin_revoke_vanity_def admin_burn_random_def admin_block_def admin_unblock_def admin_suspend_def admin_unsuspend_def
  admin_set_quota_def

lemma answer_state [simp]: "snd (answer api f r) = snd r"
  by (simp add: answer_def)

lemma admin_op_reach:
  assumes "md_reach g"
  shows "md_reach (snd (admin_remove_domain d g))" "md_reach (snd (admin_add_recipient api d f g))"
    "md_reach (snd (admin_remove_recipient api d f g))" "md_reach (snd (admin_allocate_vanity api d f g))"
    "md_reach (snd (admin_revoke_vanity api d f g))" "md_reach (snd (admin_burn_random api d tok g))"
    "md_reach (snd (admin_block api d f g))" "md_reach (snd (admin_unblock api d f g))" "md_reach (snd (admin_suspend api d f g))"
    "md_reach (snd (admin_unsuspend api d f g))" "md_reach (snd (admin_set_quota api d f g))"
  using assms by (auto simp: admin_ops Let_def case_prod_beta md_reach_ops split: option.split sum.split)

lemma admin_mint_reach: "md_reach g \<Longrightarrow> md_reach (snd (admin_mint_random api draws d f now g))"
  by (auto simp: admin_mint_random_def Let_def case_prod_beta md_reach_ops split: option.split sum.split)

lemma admin_add_domain_reach: "md_reach g \<Longrightarrow> md_reach (snd (admin_add_domain api seed f g))"
  using md_reach_ops(1) [of g] md_reach_ops(13)
  by (auto simp: admin_add_domain_def Let_def split: option.split sum.split prod.split) (metis snd_conv)+

lemma handle_domain_reach: "md_reach g \<Longrightarrow> md_reach (snd (handle_domain api draws m d op f now g))"
  by (simp add: handle_domain_def Let_def admin_op_reach admin_mint_reach)

text \<open>C31: the admin interface fails closed and stays within the gateway's operations. A request gets an answer other than
  401, or changes anything, only if an admin token is configured and the request carries exactly that token; and whatever
  it asks for, a gateway in a reachable state is left in a reachable state, in which every tenant is well-formed.\<close>

theorem admin_fails_closed:
  assumes "md_reach g" and "admin_handle api seed draws req meter g = (r, g')"
  shows "md_reach g' \<and> tenants_ok g' \<and>
    (g' \<noteq> g \<or> r \<noteq> Some (resp_err 401 ''unauthorized'') \<longrightarrow>
       (\<exists>tok. aa_token (ap_auth api) = Some tok \<and> ar_token req = Some tok))"
proof -
  have "md_reach g'"
    using assms admin_add_domain_reach [OF assms(1)] handle_domain_reach [OF assms(1)]
    by (auto simp: admin_handle_def Let_def split: if_splits list.splits) (metis snd_conv)+
  moreover have "auth_authorize (ap_auth api) (ar_token req)" if "g' \<noteq> g \<or> r \<noteq> Some (resp_err 401 ''unauthorized'')"
    using assms(2) that by (auto simp: admin_handle_def split: if_splits)
  ultimately show ?thesis by (auto simp: md_reach_ok authorize_iff)
qed


text \<open>A gateway that serves one domain, and its admin.\<close>

definition root_api :: admin_api where
  "root_api = \<lparr>ap_auth = auth_with_token ''s3'', ap_crypto = toy_crypto, ap_show_err = \<lambda>_. ''error''\<rparr>"

definition root_request :: "string \<Rightarrow> string \<Rightarrow> string \<Rightarrow> admin_request" where
  "root_request method path body = admin_request_new method path (Some ''s3'') (as_bytes body) 7"

theorem admin_fails_closed_witness:
  "\<exists>g r g'. md_reach g \<and> admin_handle root_api [] [] \<lparr>ar_method = ''GET'', ar_path = ''/v1/domains'', ar_token = None, ar_body = [], ar_now_ms = 0\<rparr>
     Map.empty g = (r, g') \<and> tenants_ok g' \<and> g' = g \<and> r = Some (resp_err 401 ''unauthorized'')"
proof -
  let ?g = "with_default_quota (quota_messages 0 0) multi_new"
  let ?q = "\<lparr>ar_method = ''GET'', ar_path = ''/v1/domains'', ar_token = None, ar_body = [], ar_now_ms = 0\<rparr>"
  obtain r g' where h: "admin_handle root_api [] [] ?q Map.empty ?g = (r, g')" by fastforce
  show ?thesis using admin_fails_closed [OF md_new h] h md_new by auto
qed

section \<open>Answers\<close>

text \<open>A reader of JSON strings, from after the opening quote: the value and what follows the closing quote.\<close>

fun hex_value :: "char \<Rightarrow> nat" where
  "hex_value c = (if byte_of c < 58 then byte_of c - 48 else byte_of c - 87)"

fun json_read :: "string \<Rightarrow> (string \<times> string) option" where
  "json_read [] = None"
| "json_read (c # cs) =
     (if c = QUOTE then Some ([], cs)
      else if byte_of c < 0x20 then None
      else if c \<noteq> BACKSLASH then map_option (\<lambda>(v, r). (c # v, r)) (json_read cs)
      else (case cs of
          [] \<Rightarrow> None
        | e # cs1 \<Rightarrow>
            if e = QUOTE \<or> e = BACKSLASH then map_option (\<lambda>(v, r). (e # v, r)) (json_read cs1)
            else if e = CHR ''n'' then map_option (\<lambda>(v, r). (LF # v, r)) (json_read cs1)
            else if e = CHR ''r'' then map_option (\<lambda>(v, r). (CR # v, r)) (json_read cs1)
            else if e = CHR ''t'' then map_option (\<lambda>(v, r). (CHR 0x09 # v, r)) (json_read cs1)
            else if e = CHR ''u'' then
              (case cs1 of
                 a # b # h # l # cs2 \<Rightarrow>
                   if a = CHR ''0'' \<and> b = CHR ''0''
                   then map_option (\<lambda>(v, r). (char_of (16 * hex_value h + hex_value l) # v, r)) (json_read cs2) else None
               | _ \<Rightarrow> None)
            else None))"

lemma hex_value_digit: "n < 16 \<Longrightarrow> hex_value (hex_digit n) = n"
  by (auto simp: hex_digit_def)

lemma json_read_char: "json_read (json_char c @ r) = map_option (\<lambda>(v, r'). (c # v, r')) (json_read r)"
proof -
  have u: "CHR ''u'' \<noteq> QUOTE" "CHR ''u'' \<noteq> BACKSLASH" by simp_all
  have "byte_of c div 16 < 16" "byte_of c mod 16 < 16"
    using nat_of_char_less_256 [of c] by (auto simp: less_mult_imp_div_less)
  then have h: "char_of (16 * hex_value (hex_digit (byte_of c div 16)) + hex_value (hex_digit (byte_of c mod 16))) = c"
    by (simp del: hex_value.simps add: hex_value_digit)
  show ?thesis using h by (simp add: json_char_def del: hex_value.simps)
qed

text \<open>The answers quote what they carry: reading the JSON string written for any text, whatever bytes it contains and
  whatever follows, gives back exactly that text and leaves exactly what follows, so no value can end its string early.\<close>

theorem json_str_roundtrip: "json_read (tl (json_str s) @ rest) = Some (s, rest)"
  by (induction s) (simp_all add: json_str_def json_read_char)

section \<open>Where the rules are not kept\<close>

text \<open>Removing a recipient ignores the domain of the path: a request addressed to one domain removes a recipient of
  another, although adding one across domains is refused.\<close>

theorem recipient_delete_crosses_domains:
  assumes "form_field f ''email'' = Some email" and "split_address email = Some (l, e)" and "mg_tenants g (norm e) = Some t"
    and "dt_directory t (dir_key email) = Some key" and "norm e \<noteq> norm d"
  shows "as_status (fst (admin_remove_recipient api d f g)) = 200 \<and>
    (\<exists>t'. mg_tenants (snd (admin_remove_recipient api d f g)) (norm e) = Some t' \<and> dt_directory t' (dir_key email) = None)"
  using assms
  by (simp add: admin_remove_recipient_def answer_def remove_recipient_def tenant_mut_def dir_remove_def resp_ok_def Let_def)

lemma bob_removable:
  "mg_tenants (snd (add_recipient ''<bob@b.io>'' key (multi_new\<lparr>mg_tenants := [''b.io'' \<mapsto> bob_tenant []]\<rparr>))) ''b.io'' =
     Some (bob_tenant []\<lparr>dt_directory := [''<bob@b.io>'' \<mapsto> key]\<rparr>)"
  by (simp add: bob_recipient)

theorem recipient_delete_crosses_domains_witness:
  "as_status (fst (admin_remove_recipient root_api ''a.io'' [''email'' \<mapsto> ''<bob@b.io>'']
     (snd (add_recipient ''<bob@b.io>'' \<lparr>rk_ik = [1], rk_seal_pub = [2]\<rparr> (multi_new\<lparr>mg_tenants := [''b.io'' \<mapsto> bob_tenant []]\<rparr>))))) = 200"
proof -
  have n: "norm ''a.io'' = ''a.io''" by code_simp
  show ?thesis
    using recipient_delete_crosses_domains [of "[''email'' \<mapsto> ''<bob@b.io>'']" "''<bob@b.io>''" "''bob''" "''b.io''", OF _ bob_address(1),
        of _ _ "\<lparr>rk_ik = [1], rk_seal_pub = [2]\<rparr>" "''a.io''" root_api] bob_removable n
    by (simp add: form_field_def bob_strings)
qed

lemma trim_idem: "trim (trim s) = trim s"
proof -
  let ?d = "dropWhile is_ws (utf8_chars s)"
  have "dropWhile is_ws (take n (dropWhile is_ws gs)) = take n (dropWhile is_ws gs)" for n gs
    by (induction gs) (auto simp: take_Cons split: nat.split)
  then have "dropWhile is_ws (rev (dropWhile is_ws (rev ?d))) = rev (dropWhile is_ws (rev ?d))"
    using rev_dropWhile_rev [of is_ws ?d] by metis
  then have "utf8_chars (trim (trim s)) = utf8_chars (trim s)"
    unfolding trim_chars [of "trim s"] unfolding trim_chars by simp
  then show ?thesis by (metis concat_utf8_chars)
qed

lemma admin_header_trimmed:
  "admin_header l h = Inr h' \<Longrightarrow> (\<And>t. ah_token h = Some t \<Longrightarrow> trim t = t) \<Longrightarrow> ah_token h' = Some t \<Longrightarrow> trim t = t"
  by (auto simp: admin_header_def Let_def trim_idem split: option.splits prod.splits if_splits)

lemma admin_headers_trimmed:
  "admin_headers b buf src h = (Inr h', r) \<Longrightarrow> (\<And>t. ah_token h = Some t \<Longrightarrow> trim t = t) \<Longrightarrow> ah_token h' = Some t \<Longrightarrow> trim t = t"
proof (induction b buf src h rule: admin_headers.induct)
  case (1 b buf src h)
  obtain x buf1 src1 where r: "admin_read_line b [] buf src = (x, buf1, src1)" by (metis prod_cases3)
  from "1.prems"(1) r obtain l where l: "x = Inr l" "l \<noteq> []"
    by (subst (asm) admin_headers.simps) (auto split: sum.splits if_splits)
  show ?case
  proof (cases "trim_eol (from_utf8_lossy l) = []")
    case True
    then show ?thesis using "1.prems" r l by (subst (asm) admin_headers.simps) (auto simp: Let_def)
  next
    case False
    with "1.prems"(1) r l obtain h1 where h1: "admin_header (trim_eol (from_utf8_lossy l)) h = Inr h1"
        "admin_headers (b - length l) buf1 src1 h1 = (Inr h', r)"
      by (subst (asm) admin_headers.simps) (auto simp: Let_def split: sum.splits)
    have t1: "trim t = t" if "ah_token h1 = Some t" for t
      using admin_header_trimmed [OF h1(1) "1.prems"(2) that] .
    show ?thesis
      using "1.IH" [OF r [symmetric] l(1) refl l(2) refl False h1(1) h1(2) t1 "1.prems"(3)] .
  qed
qed

text \<open>An admin token with white space at either end locks everybody out: it is stored as given and counts as enabled,
  but the token of every request read from a connection is trimmed, so no request is ever authorized.\<close>

lemma padded_token_locks_out:
  assumes "trim tok \<noteq> tok" and "trim tok \<noteq> []" and "read_request now src = Inr (Some req)"
  shows "auth_is_enabled (auth_with_token tok) \<and> \<not> auth_authorize (auth_with_token tok) (ar_token req)"
proof -
  have "trim t = t" if "ar_token req = Some t" for t
  proof -
    from assms(3) obtain b buf src1 h r where h: "admin_headers b buf src1 \<lparr>ah_token = None, ah_content_length = 0\<rparr> = (Inr h, r)"
        "ar_token req = ah_token h"
      by (auto simp: read_request_def map_sum_def split: prod.splits sum.splits if_splits list.splits)
    show ?thesis using admin_headers_trimmed [OF h(1)] h(2) that by auto
  qed
  then show ?thesis
    using assms(1,2) by (auto simp: auth_is_enabled_def auth_with_token_def authorize_iff)
qed

end
