(* ===== verification/Spec2Isabelle.thy ===== *)
theory Spec2Isabelle
  imports
    Billing_Pricing Billing_Sim Coordinators Media_Sfu
    Reach_Ingress
    Gw_Admission Gw_Alias Gw_Guard
    Gw_Spf_Sound Gw_Dns_Wire Gw_Mail_Loop Gw_Outbound_Sound
    Gw_Multidomain_Sound Gw_Personal_Sound Gw_Admin_Sound
begin

text \<open>
  Verification of the Rust crates of the Vulos relay (\<open>src/crates\<close>): coordinators that sell
  reachability to self-hosted boxes, the books they keep, and the gateway between native
  identities and legacy mail.

  \<^bold>\<open>The program.\<close> The crates fall into five groups.
  \<^item> \<open>broker-billing\<close>, \<open>broker-billing-patala\<close>: usage is metered per payer and resource kind,
    priced by a tariff schedule into a bill, debited from a prepaid ledger and documented by signed
    usage receipts; monthly charges run over a settlement rail.
  \<^item> \<open>broker-economics\<close>, \<open>broker-conformance\<close> and the coordinator crates (\<open>relay\<close>, \<open>media-relay\<close>,
    \<open>indexer\<close>, \<open>labeler\<close>, \<open>oracle\<close>, \<open>arbiter\<close>, \<open>matcher\<close>, \<open>compute\<close>): the signed descriptor a
    coordinator publishes, the harness that judges it, and what each kind publishes.
  \<^item> \<open>reachability-adapter\<close>: boxes hold tunnels to the adapter after a signed challenge; clients
    are routed to a box by the server name of their TLS ClientHello, which is only peeked at.
  \<^item> \<open>gateway\<close>: mail comes in over the MX connection handler into an SMTP session, passes the SPF, DKIM
    and DMARC gates and the cold-sender gate, is sealed, attested and delivered to the mesh; mail goes
    out guarded per account, rendered, DKIM-signed and sent over the SMTP client under the destination's
    MTA-STS policy. Around that: admission of senders and quotas, address schemes, provenance records,
    the multi-tenant gateway with its admin interface, and the personal run mode with its submission, POP3 and
    IMAP servers.
  \<^item> \<open>media-relay\<close>'s orchestration of an external media server.

  \<^bold>\<open>Theories, in dependency order.\<close>
  \<^item> Shared: \<open>Prelude\<close> (machine integers with Rust's wrapping, checked and saturating operations,
    results as sums, partial maps), \<open>Rust_Strings\<close> (\<open>str\<close> on UTF-8 byte strings), \<open>Rust_Net\<close> (IP addresses
    and their parsers), \<open>Byte_Io\<close> (big-endian numbers, UTF-8 validity, exact reads), \<open>Wire\<close> (the
    interface of the CBOR and identity libraries of \<open>kotva_core\<close> with their documented laws, and the
    locale \<open>wire_codec\<close>), \<open>Cbor_Instance\<close> (concrete libraries that meet the laws, for the witnesses) and
    \<open>Single_Use\<close> (the locale of tokens that are redeemed at most once).
  \<^item> Billing: \<open>Billing_Meter\<close>, \<open>Billing_Tariff\<close>, \<open>Billing_Pricing\<close>, \<open>Billing_Receipt\<close>, \<open>Billing_Prepaid\<close>,
    \<open>Billing_Settlement\<close> (\<open>settlement.rs\<close>, \<open>subscription.rs\<close>, \<open>stake.rs\<close> and the patala crate) and
    \<open>Billing_Sim\<close>, one per source file. The locales \<open>usage_meter\<close>, \<open>credit_book\<close> and \<open>settlement_rail\<close>
    state the traits; the in-memory implementations and the patala rail interpret them.
  \<^item> Coordinators: \<open>Economics\<close> (\<open>kinds.rs\<close>, \<open>visibility.rs\<close>), \<open>Descriptor\<close>, \<open>Conformance\<close>, \<open>Coordinators\<close>
    (every kind, an interpretation each of the locale \<open>posture\<close>), \<open>Media_Sfu\<close> (the locale \<open>media_sfu\<close>
    of the trait, interpreted by the mock and the process adapter).
  \<^item> Reachability: \<open>Reach_Sni\<close>, \<open>Reach_Tunnel\<close>, \<open>Reach_Auth\<close>, \<open>Reach_Ingress\<close>. The two list scans of the
    ClientHello parser interpret the locale \<open>tagged_scan\<close>; the nonce registry interprets \<open>single_use\<close>, as
    the admission challenges of the gateway do.
  \<^item> Gateway, addresses and access: \<open>Gw_Forwarded\<close> (\<open>forwarded_addr.rs\<close>), \<open>Gw_Admission\<close> and \<open>Gw_Alias\<close>
    (\<open>authz.rs\<close>, \<open>alias_map.rs\<close>), \<open>Gw_Guard\<close> (\<open>outbound_guard.rs\<close>), \<open>Gw_Gate\<close> (the cold-sender gate of
    \<open>inbound.rs\<close>).
  \<^item> Gateway, mail authentication: \<open>Gw_Spf\<close> and \<open>Gw_Spf_Sound\<close> (\<open>spf.rs\<close>; the locale \<open>metered_resolver\<close>
    counts queries), \<open>Gw_B64\<close>, \<open>Gw_Dkim\<close> and \<open>Gw_Dkim_Sound\<close>, \<open>Gw_Dmarc\<close>, \<open>Gw_Dns\<close> and \<open>Gw_Dns_Wire\<close>
    (\<open>dns.rs\<close>, \<open>mx.rs\<close>, \<open>idn.rs\<close>).
  \<^item> Gateway, inbound: \<open>Gw_Attest\<close>, \<open>Gw_Provenance\<close>, \<open>Gw_Inbound\<close> and \<open>Gw_Inbound_Sound\<close>, \<open>Gw_Net\<close>
    (\<open>net.rs\<close>), \<open>Gw_Mx\<close> (\<open>inbound_tcp.rs\<close>), \<open>Gw_Directory\<close>.
  \<^item> Gateway, outbound: \<open>Gw_Dial\<close>, \<open>Gw_Smtp_Client\<close> and \<open>Gw_Smtp_Client_Sound\<close> (\<open>outbound_tcp.rs\<close>),
    \<open>Gw_Mta_Sts\<close>, \<open>Gw_Outbound\<close> and \<open>Gw_Outbound_Sound\<close>, \<open>Gw_Mail_Loop\<close> (both ends of a connection).
  \<^item> Gateway, operation: \<open>Gw_Legacy\<close> (\<open>legacy_net.rs\<close>, the locale \<open>line_session\<close>), \<open>Gw_Submission\<close>
    (\<open>smtp_submission.rs\<close>, \<open>pop3_access.rs\<close>, \<open>imap_access.rs\<close>), \<open>Gw_Multidomain\<close> and
    \<open>Gw_Multidomain_Sound\<close>, \<open>Gw_Personal\<close> and \<open>Gw_Personal_Sound\<close>, \<open>Gw_Admin\<close> and \<open>Gw_Admin_Sound\<close>
    (\<open>admin.rs\<close>).

  \<^bold>\<open>Reading the model.\<close> A struct is a record whose fields carry a prefix, an enum a datatype, a
  \<open>u64\<close> a \<open>64 word\<close> with plain \<open>+\<close> wrapping as in a release build, an \<open>i64\<close> the same word read by
  \<open>sint\<close>, a \<open>String\<close> its UTF-8 bytes as a \<open>string\<close>, a \<open>Vec<u8>\<close> a list of 8-bit words, and a
  hash map a partial map. \<open>Result\<close> is a sum with the error on the left; a panicking \<open>expect\<close> is
  \<open>None\<close>. A method on \<open>&mut self\<close> returns the new state. Clocks, randomness, digests, signatures,
  CBOR, IDNA, the public suffix list, the sessions of \<open>kotva_mail\<close> and the network are arguments; what
  reaches the outside threads a state of the world. Where a function awaits or releases a lock, what
  others do in between is an argument, the function is split into steps, or the theory says which
  intermediate states it leaves out.

  \<^bold>\<open>What is shown.\<close>
  \<^item> Money: balances are conserved over every reachable state of the prepaid ledger, top-ups are idempotent, debits
    fail closed, and after any event stream the ledger, the receipts and the meter agree; the check and the
    credit of the patala rail are separate steps, and concurrent calls credit a receipt more than once.
  \<^item> Wire formats: descriptors, schedules, provenance records and forwarded addresses round-trip; the
    ClientHello parser and the DNS response parser accept exactly their wire formats, the former whatever the
    TCP segmentation; every published coordinator conforms.
  \<^item> Access: a tunnel or a sender is accepted only with a signature over a live challenge, a
    challenge is used once, a live name cannot be taken over, and a client's bytes reach only a box
    that proved its key; the submission guard, the admin interface and the personal servers fail closed;
    tenants do not touch each other.
  \<^item> Mail: an SPF verdict is the one the records as supported define, a DKIM pass binds the message to the published
    key, an enforced DMARC reject is honoured, 250 is answered only for an acknowledged message, a message crosses from client to
    handler intact, required TLS sends nothing but EHLO and STARTTLS in the clear, a reported delivery is a
    reply read after the content was sent (or a 2xx to DATA), STARTTLS lets no injected command through.
  \<^item> Limits: connection counters never exceed their bound in any interleaving; the windows of the outbound guard hold over every
    run in which the clock does not go back.

  \<^bold>\<open>Bounds.\<close> Loops are structural or have a termination measure; none needs fuel. The only loop that may not
  end, the IMAP session over a command reader of another crate, is a \<open>partial_function (option)\<close>. Loops over a
  socket take the list of results its reads return. Counters are words, and a property that needs a counter not to wrap says so.

  \<^bold>\<open>Not modelled.\<close> The CBOR and identity libraries, the chain client, yamux, libp2p, TLS and sockets are
  outside the sources. Log lines, thread spawning, the building of the relay's swarm, the serde rendering of
  configurations, the \<open>lib.rs\<close> and \<open>main.rs\<close> wiring of the gateway, the separate \<open>admin\<close> crate (an HTTP
  front end) and the Go tunnel are left out.
\<close>

end
